(* ===== verification/Prelude.thy ===== *)
theory Prelude
  imports Main "HOL-Library.Word" "HOL-Library.Signed_Division"
begin

unbundle bit_operations_syntax

text \<open>
  What every component of the development shares: the names of Go's integer and slice types,
  the big- and little-endian byte orders of \<^verbatim>\<open>encoding/binary\<close>, element-wise exclusive or of
  byte blocks, and the bit-level lemmas the codecs and ciphers rest on.  Go's \<^verbatim>\<open>int64\<close>,
  \<^verbatim>\<open>uint64\<close> and \<^verbatim>\<open>uint32\<close> are words of their width (signed comparison is \<open><s\<close>), a
  \<^verbatim>\<open>[]byte\<close> is a list of \<open>8 word\<close>, and a \<^verbatim>\<open>float32\<close> that the code only moves is its bit
  pattern (\<^verbatim>\<open>math.Float32bits\<close> and \<^verbatim>\<open>Float32frombits\<close> are then the identity).
\<close>

section \<open>Go's machine types\<close>

type_synonym byte = "8 word"
type_synonym bytes = "byte list"
type_synonym uint16 = "16 word"
type_synonym uint32 = "32 word"
type_synonym uint64 = "64 word"
type_synonym int64 = "64 word"
type_synonym int16 = "16 word"
type_synonym float32 = "32 word"

named_theorems byte_bits "the bits of the masks the codecs use"
named_theorems block_simps "lengths and exclusive-or laws of byte blocks"

section \<open>Bits of words\<close>

declare bit_numeral_word_iff [simp del]

lemma byte_mask_values:
  "(0x7F :: 'a::len word) = mask 7" "(0x3F :: 'a word) = mask 6" "(0x1F :: 'a word) = mask 5"
  "(0xF :: 'a word) = mask 4" "(7 :: 'a word) = mask 3" "(3 :: 'a word) = mask 2"
  "(0xFF :: 'a word) = mask 8"
  "(0x80 :: 'a word) = push_bit 7 (mask 1)" "(0xC0 :: 'a word) = push_bit 6 (mask 2)"
  "(0xE0 :: 'a word) = push_bit 5 (mask 3)" "(0xF0 :: 'a word) = push_bit 4 (mask 4)"
  "(0xF8 :: 'a word) = push_bit 3 (mask 5)" "(0xFC :: 'a word) = push_bit 2 (mask 6)"
  by (simp_all add: mask_eq_exp_minus_1 push_bit_eq_mult)

lemma bits_of_masks [byte_bits]:
  "bit (0x7F :: 'a::len word) n \<longleftrightarrow> n < 7 \<and> n < LENGTH('a)"
  "bit (0x3F :: 'a::len word) n \<longleftrightarrow> n < 6 \<and> n < LENGTH('a)"
  "bit (0x1F :: 'a::len word) n \<longleftrightarrow> n < 5 \<and> n < LENGTH('a)"
  "bit (0xF :: 'a::len word) n \<longleftrightarrow> n < 4 \<and> n < LENGTH('a)"
  "bit (7 :: 'a::len word) n \<longleftrightarrow> n < 3 \<and> n < LENGTH('a)"
  "bit (3 :: 'a::len word) n \<longleftrightarrow> n < 2 \<and> n < LENGTH('a)"
  "bit (0xFF :: 'a::len word) n \<longleftrightarrow> n < 8 \<and> n < LENGTH('a)"
  "bit (0x80 :: 'a::len word) n \<longleftrightarrow> n = 7 \<and> n < LENGTH('a)"
  "bit (0xC0 :: 'a::len word) n \<longleftrightarrow> 6 \<le> n \<and> n < 8 \<and> n < LENGTH('a)"
  "bit (0xE0 :: 'a::len word) n \<longleftrightarrow> 5 \<le> n \<and> n < 8 \<and> n < LENGTH('a)"
  "bit (0xF0 :: 'a::len word) n \<longleftrightarrow> 4 \<le> n \<and> n < 8 \<and> n < LENGTH('a)"
  "bit (0xF8 :: 'a::len word) n \<longleftrightarrow> 3 \<le> n \<and> n < 8 \<and> n < LENGTH('a)"
  "bit (0xFC :: 'a::len word) n \<longleftrightarrow> 2 \<le> n \<and> n < 8 \<and> n < LENGTH('a)"
  unfolding byte_mask_values
  by (auto simp only: bit_mask_iff bit_push_bit_iff possible_bit_word)

text \<open>A word below \<open>2 ^ k\<close> has no bit at or above \<open>k\<close>.\<close>

lemma bit_below:
  assumes "unat (v :: 'a::len word) < 2 ^ k" and "bit v n"
  shows "n < k"
proof (rule ccontr)
  assume "\<not> n < k"
  then have "2 ^ k \<le> (2::nat) ^ n" by (simp add: not_less)
  with assms(1) have "unat v < 2 ^ n" by linarith
  then have "\<not> bit (unat v) n" by (simp add: bit_iff_odd)
  then show False using assms(2) by (simp add: bit_unsigned_iff bit_imp_le_length)
qed

lemma take_bit_below: "unat (v :: 'a::len word) < 2 ^ k \<Longrightarrow> take_bit k v = v"
  by (rule bit_word_eqI) (auto simp: bit_simps dest: bit_below)

lemma word_test_bit: "bit (w :: 'a::len word) n \<Longrightarrow> w \<noteq> 0"
  by auto

lemma byte_high_bit: "(b :: byte) < 0x80 \<longleftrightarrow> \<not> bit b 7"
proof
  assume "b < 0x80"
  then have "unat b < 2 ^ 7" by (simp add: word_less_nat_alt)
  then show "\<not> bit b 7" using bit_below [of b 7 7] by auto
next
  assume high: "\<not> bit b 7"
  have "take_bit 7 b = b"
  proof (rule bit_word_eqI)
    fix n assume "n < LENGTH(8)"
    then show "bit (take_bit 7 b) n = bit b n"
      using high by (cases "n = 7") (auto simp: bit_simps)
  qed
  then have "unat b = take_bit 7 (unat b)"
    by (metis unsigned_take_bit_eq)
  then have "unat b < 2 ^ 7" by (metis take_bit_nat_less_exp)
  then show "b < 0x80" by (simp add: word_less_nat_alt)
qed

lemma ucast_up_down [simp]: "ucast (ucast (x :: uint32) :: uint64) = x"
  by (rule bit_word_eqI) (auto simp: bit_simps)

lemma word_of_int_sint: "word_of_int (sint (w :: 'a::len word)) = w"
  by (simp only: of_int_sint scast_id)

lemma shift_index: "(k::nat) + (n - k) = max k n"
  by simp

lemma unat_nonneg_signed:
  assumes "\<not> (v :: 'a::len word) <s 0"
  shows "sint v = int (unat v)"
proof -
  have "\<not> bit v (LENGTH('a) - Suc 0)"
    using assms by (simp add: word_sless_alt bit_last_iff)
  then have "bit v n \<Longrightarrow> n < LENGTH('a) - Suc 0" for n
    by (metis Suc_pred bit_imp_le_length len_gt_0 less_antisym)
  then have "take_bit (LENGTH('a) - Suc 0) (uint v) = uint v"
    by (intro bit_eqI) (auto simp: bit_simps)
  with \<open>\<not> bit v (LENGTH('a) - Suc 0)\<close> show ?thesis
    by (simp add: sint_uint signed_take_bit_eq_if_positive bit_uint_iff)
qed

section \<open>Byte orders of encoding/binary\<close>

definition PutUint32BE :: "uint32 \<Rightarrow> bytes" where
  "PutUint32BE v = [ucast (drop_bit 24 v), ucast (drop_bit 16 v), ucast (drop_bit 8 v), ucast v]"

definition PutUint64BE :: "uint64 \<Rightarrow> bytes" where
  "PutUint64BE v = PutUint32BE (ucast (drop_bit 32 v)) @ PutUint32BE (ucast v)"

definition Uint32BE :: "bytes \<Rightarrow> uint32" where
  "Uint32BE b = push_bit 24 (ucast (b ! 0)) OR push_bit 16 (ucast (b ! 1))
     OR push_bit 8 (ucast (b ! 2)) OR ucast (b ! 3)"

definition Uint64BE :: "bytes \<Rightarrow> uint64" where
  "Uint64BE b = push_bit 32 (ucast (Uint32BE b)) OR ucast (Uint32BE (drop 4 b))"

definition PutUint32LE :: "uint32 \<Rightarrow> bytes" where
  "PutUint32LE v = rev (PutUint32BE v)"

definition Uint32LE :: "bytes \<Rightarrow> uint32" where
  "Uint32LE b = ucast (b ! 0) OR push_bit 8 (ucast (b ! 1))
     OR push_bit 16 (ucast (b ! 2)) OR push_bit 24 (ucast (b ! 3))"

lemma length_PutUint [block_simps, simp]:
  "length (PutUint32BE v) = 4" "length (PutUint64BE w) = 8" "length (PutUint32LE v) = 4"
  by (simp_all add: PutUint32BE_def PutUint64BE_def PutUint32LE_def)

lemma Uint32BE_Put [simp]: "Uint32BE (PutUint32BE v @ rest) = v"
  unfolding Uint32BE_def PutUint32BE_def
  by (intro bit_word_eqI) (auto simp: bit_simps shift_index max_def)

lemma Uint32LE_Put [simp]: "Uint32LE (PutUint32LE v @ rest) = v"
  unfolding Uint32LE_def PutUint32LE_def PutUint32BE_def
  by (intro bit_word_eqI) (auto simp: bit_simps shift_index max_def)

lemma Uint64BE_Put [simp]: "Uint64BE (PutUint64BE v @ rest) = v"
proof -
  have "Uint32BE (PutUint64BE v @ rest) = ucast (drop_bit 32 v)"
    by (simp add: PutUint64BE_def)
  moreover have "Uint32BE (drop 4 (PutUint64BE v @ rest)) = ucast v"
    by (simp add: PutUint64BE_def)
  ultimately show ?thesis
    unfolding Uint64BE_def by (intro bit_word_eqI) (auto simp: bit_simps)
qed

section \<open>Element-wise exclusive or\<close>

definition xorb :: "bytes \<Rightarrow> bytes \<Rightarrow> bytes" where
  "xorb xs ys = map2 (\<lambda>x y. x XOR y) xs ys"

lemma length_xorb [block_simps, simp]: "length (xorb xs ys) = min (length xs) (length ys)"
  by (simp add: xorb_def)

lemma nth_xorb: "i < length xs \<Longrightarrow> i < length ys \<Longrightarrow> xorb xs ys ! i = xs ! i XOR ys ! i"
  by (simp add: xorb_def)

lemma xorb_commute: "xorb xs ys = xorb ys xs"
proof -
  have "min (length xs) (length ys) = min (length ys) (length xs)" by simp
  then show ?thesis
    by (intro nth_equalityI) (simp_all add: nth_xorb xor.commute)
qed

lemma xorb_assoc: "xorb (xorb xs ys) zs = xorb xs (xorb ys zs)"
  by (intro nth_equalityI) (simp_all add: nth_xorb xor.assoc)

text \<open>Masking with the same bytes twice is the identity: the core of every cipher below.\<close>

lemma xorb_cancel [block_simps]: "length xs \<le> length ys \<Longrightarrow> xorb (xorb xs ys) ys = xs"
  by (intro nth_equalityI) (simp_all add: nth_xorb xor.assoc)

lemma xorb_cancel_left: "length ys \<le> length xs \<Longrightarrow> xorb xs (xorb xs ys) = ys"
  by (intro nth_equalityI) (simp_all add: nth_xorb xor.assoc [symmetric])

lemma take_xorb: "take n (xorb xs ys) = xorb (take n xs) (take n ys)"
  by (simp add: xorb_def take_map take_zip)

lemma xorb_take_right: "length xs \<le> n \<Longrightarrow> xorb xs (take n ys) = xorb xs ys"
  by (intro nth_equalityI) (auto simp: nth_xorb)

lemma xorb_Nil [simp]: "xorb [] ys = []" "xorb xs [] = []"
  by (simp_all add: xorb_def)

lemma xorb_Cons [simp]: "xorb (x # xs) (y # ys) = (x XOR y) # xorb xs ys"
  by (simp add: xorb_def)

text \<open>A 16-byte block.  Go's \<^verbatim>\<open>make([]byte, 16)\<close> and \<^verbatim>\<open>var b [16]byte\<close> are the zero block;
  \<open>pad16\<close> is \<^verbatim>\<open>copy(b[:], xs)\<close> into it.\<close>

definition zero16 :: bytes where
  "zero16 = replicate 16 0"

definition pad16 :: "bytes \<Rightarrow> bytes" where
  "pad16 xs = take 16 xs @ replicate (16 - length xs) 0"

lemma length_zero16 [block_simps, simp]: "length zero16 = 16"
  by (simp add: zero16_def)

lemma length_pad16 [block_simps, simp]: "length (pad16 xs) = 16"
  by (simp add: pad16_def)

lemma pad16_id: "length xs = 16 \<Longrightarrow> pad16 xs = xs"
  by (simp add: pad16_def)

section \<open>Go's division\<close>

text \<open>\<^verbatim>\<open>/\<close> and \<^verbatim>\<open>%\<close> truncate towards zero; on \<^verbatim>\<open>int64\<close> they act on the signed values.\<close>

definition goQuot :: "int \<Rightarrow> int \<Rightarrow> int" where
  "goQuot a b = a sdiv b"

definition goRem :: "int \<Rightarrow> int \<Rightarrow> int" where
  "goRem a b = a smod b"

definition quot64 :: "int64 \<Rightarrow> int64 \<Rightarrow> int64" where
  "quot64 a b = word_of_int (goQuot (sint a) (sint b))"

definition rem64 :: "int64 \<Rightarrow> int64 \<Rightarrow> int64" where
  "rem64 a b = word_of_int (goRem (sint a) (sint b))"

lemma goQuot_nonneg: "0 \<le> a \<Longrightarrow> 0 < b \<Longrightarrow> goQuot a b = a div b"
  by (cases "a = 0") (simp_all add: goQuot_def signed_divide_int_def sgn_if)

lemma goRem_nonneg: "0 \<le> a \<Longrightarrow> 0 < b \<Longrightarrow> goRem a b = a mod b"
  by (cases "a = 0") (simp_all add: goRem_def signed_modulo_int_def signed_divide_int_def sgn_if minus_div_mult_eq_mod)

section \<open>Options\<close>

text \<open>The result of a run that is known by evaluation to succeed.\<close>

lemma case_SomeD: "(case x of None \<Rightarrow> False | Some c \<Rightarrow> P c) \<Longrightarrow> \<exists>c. x = Some c \<and> P c"
  by (cases x) auto

end
