(* ===== verification/Codec.thy ===== *)
theory Codec
  imports Prelude
begin

text \<open>
  The contract of a self-delimiting integer codec: the shape both varint packages of the
  program have and the packet parsers rely on.  A parser reads a field with \<open>dec\<close>, gets the
  value and the number of bytes it took, drops them and goes on; a count of 0 is an error.
\<close>

locale byte_codec =
  fixes enc :: "'a \<Rightarrow> bytes"
    and dec :: "bytes \<Rightarrow> 'a \<times> nat"
  assumes dec_enc: "dec (enc v @ rest) = (v, length (enc v))"
    and enc_nonempty: "enc v \<noteq> []"
begin

lemma dec_enc_exact: "dec (enc v) = (v, length (enc v))"
  using dec_enc [of v "[]"] by simp

lemma count_positive: "0 < snd (dec (enc v @ rest))"
  by (simp add: dec_enc enc_nonempty)

lemma prefix_free:
  assumes "enc v @ r = enc w @ s"
  shows "v = w \<and> r = s"
proof -
  have "(v, length (enc v)) = (w, length (enc w))"
    using dec_enc [of v r] dec_enc [of w s] assms by simp
  with assms show ?thesis by simp
qed

lemma enc_inject: "enc v = enc w \<longleftrightarrow> v = w"
  using prefix_free [of v "[]" w "[]"] by auto

text \<open>What a parser does: read one field and go on with the rest.\<close>

lemma read_field:
  assumes "dec (enc v @ rest) = (x, n)"
  shows "x = v" and "0 < n" and "n = length (enc v)" and "drop n (enc v @ rest) = rest"
  using assms enc_nonempty [of v] by (auto simp: dec_enc)

end

end
