(* ===== verification/Varint.thy ===== *)
theory Varint
  imports Codec
begin

text \<open>
  The Mumble variable-length integers of \<^verbatim>\<open>gumble/gumble/varint\<close> (\<^verbatim>\<open>read.go\<close>, \<^verbatim>\<open>write.go\<close>).
  A Go function that writes into a slice returns the bytes it writes; \<^verbatim>\<open>Decode\<close> keeps the
  source's pair of value and byte count, with count 0 for an error.
\<close>

section \<open>Encoding (write.go)\<close>

definition MaxVarintLen :: nat where
  "MaxVarintLen = 10"

definition MinInt64 :: int64 where
  "MinInt64 = push_bit 63 1"

lemma negate_negative:
  assumes "v <s 0" and "v \<noteq> MinInt64"
  shows "\<not> - v <s (0 :: int64)"
proof -
  have "sint v < 0" using assms(1) by (simp add: word_sless_alt)
  moreover have "sint v \<noteq> - (2 ^ 63)"
  proof
    assume "sint v = - (2 ^ 63)"
    then have "v = word_of_int (- (2 ^ 63))" by (metis word_of_int_sint)
    then show False using assms(2) by (simp add: MinInt64_def)
  qed
  moreover have "- (2 ^ 63) \<le> sint v" and "sint v < 2 ^ 63"
    using sint_ge [of v] sint_lt [of v] by simp_all
  ultimately have "sint (- v) = - sint v"
    by (simp add: signed_take_bit_int_eq_self sint_word_ariths)
  with \<open>sint v < 0\<close> show ?thesis by (simp add: word_sless_alt)
qed

function encode :: "int64 \<Rightarrow> bytes" where
  "encode value =
    (if value \<le>s -1 \<and> -4 \<le>s value then [0xFC OR ucast (NOT value AND 0xFF)]
     else if value <s 0 then
       (if value = MinInt64 then 0xF8 # 0xF4 # PutUint64BE value
        else 0xF8 # encode (- value))
     else if value \<le>s 0x7F then [ucast value]
     else if value \<le>s 0x3FFF then
       [ucast (drop_bit 8 value) AND 0x3F OR 0x80, ucast value]
     else if value \<le>s 0x1FFFFF then
       [ucast (drop_bit 16 value) AND 0x1F OR 0xC0, ucast (drop_bit 8 value), ucast value]
     else if value \<le>s 0xFFFFFFF then
       [ucast (drop_bit 24 value) AND 0x0F OR 0xE0,
        ucast (drop_bit 16 value), ucast (drop_bit 8 value), ucast value]
     else if value \<le>s 0x7FFFFFFF then 0xF0 # PutUint32BE (ucast value)
     else 0xF4 # PutUint64BE value)"
  by pat_completeness auto

termination
  by (relation "measure (\<lambda>v. if v <s (0 :: int64) then 1 else 0)")
     (auto dest: negate_negative)

definition Encode :: "bytes \<Rightarrow> int64 \<Rightarrow> bytes \<times> nat" where
  "Encode b value =
    (let encoded = encode value; n = length encoded in
     if n = 0 \<or> length b < n then (b, 0) else (encoded @ drop n b, n))"

section \<open>Decoding (read.go)\<close>

fun Decode :: "bytes \<Rightarrow> int64 \<times> nat" where
  "Decode [] = (0, 0)"
| "Decode (b0 # b) =
    (if b0 AND 0x80 = 0 then (ucast b0, 1)
     else if b0 AND 0xC0 = 0x80 \<and> 2 \<le> length (b0 # b) then
       (push_bit 8 (ucast (b0 AND 0x3F)) OR ucast (b ! 0), 2)
     else if b0 AND 0xE0 = 0xC0 \<and> 3 \<le> length (b0 # b) then
       (push_bit 16 (ucast (b0 AND 0x1F)) OR push_bit 8 (ucast (b ! 0)) OR ucast (b ! 1), 3)
     else if b0 AND 0xF0 = 0xE0 \<and> 4 \<le> length (b0 # b) then
       (push_bit 24 (ucast (b0 AND 0xF)) OR push_bit 16 (ucast (b ! 0))
          OR push_bit 8 (ucast (b ! 1)) OR ucast (b ! 2), 4)
     else if b0 AND 0xFC = 0xF0 \<and> 5 \<le> length (b0 # b) then (ucast (Uint32BE b), 5)
     else if b0 AND 0xFC = 0xF4 \<and> 9 \<le> length (b0 # b) then (Uint64BE b, 9)
     else if b0 AND 0xFC = 0xF8 then
       (let (v, n) = Decode b in if n > 0 then (- v, n + 1) else (0, 0))
     else if b0 AND 0xFC = 0xFC then (NOT (ucast (b0 AND 0x03)), 1)
     else (0, 0))"

declare encode.simps [simp del] Decode.simps [simp del]

section \<open>Round trip\<close>

lemma encode_nonempty: "encode v \<noteq> []"
  by (subst encode.simps) (simp add: PutUint64BE_def PutUint32BE_def)

lemma sle_bound:
  assumes "\<not> (v :: int64) <s 0" and "v \<le>s w" and "sint w < 2 ^ k"
  shows "unat v < 2 ^ k"
proof -
  have "sint v < 2 ^ k" using assms(2,3) by (simp add: word_sle_eq)
  then have "int (unat v) < 2 ^ k" by (simp only: unat_nonneg_signed [OF assms(1)])
  then show ?thesis by (metis of_nat_less_iff of_nat_numeral of_nat_power)
qed

lemma Decode_7bit:
  assumes "unat (v :: int64) < 2 ^ 7"
  shows "Decode (ucast v # rest) = (v, 1)"
proof -
  have "(ucast (take_bit 7 v) :: byte) AND 0x80 = 0"
    by (rule bit_word_eqI) (auto simp: bit_simps byte_bits)
  moreover have "ucast (ucast (take_bit 7 v) :: byte) = take_bit 7 v"
    by (rule bit_word_eqI) (auto simp: bit_simps)
  ultimately show ?thesis by (simp add: Decode.simps take_bit_below [OF assms])
qed

lemma Decode_14bit:
  assumes "unat (v :: int64) < 2 ^ 14"
  shows "Decode ((ucast (drop_bit 8 v) AND 0x3F OR 0x80) # ucast v # rest) = (v, 2)"
    (is "Decode (?b # _) = _")
proof -
  have "bit (?b AND 0x80) 7" by (simp add: bit_simps byte_bits)
  then have "?b AND 0x80 \<noteq> 0" by (rule word_test_bit)
  moreover have "?b AND 0xC0 = 0x80"
    by (rule bit_word_eqI) (auto simp: bit_simps byte_bits)
  moreover have "push_bit 8 (ucast (?b AND 0x3F)) OR ucast (ucast v :: byte) = take_bit 14 v"
    by (intro bit_word_eqI) (auto simp: bit_simps byte_bits shift_index max_def)
  ultimately show ?thesis by (simp add: Decode.simps take_bit_below [OF assms])
qed

lemma Decode_21bit:
  assumes "unat (v :: int64) < 2 ^ 21"
  shows "Decode ((ucast (drop_bit 16 v) AND 0x1F OR 0xC0) # ucast (drop_bit 8 v) # ucast v # rest) = (v, 3)"
    (is "Decode (?b # _) = _")
proof -
  have "bit (?b AND 0x80) 7" by (simp add: bit_simps byte_bits)
  then have "?b AND 0x80 \<noteq> 0" by (rule word_test_bit)
  moreover have "bit (?b AND 0xC0) 6 \<noteq> bit (0x80 :: byte) 6" by (simp add: bit_simps byte_bits)
  then have "?b AND 0xC0 \<noteq> 0x80" by auto
  moreover have "?b AND 0xE0 = 0xC0"
    by (rule bit_word_eqI) (auto simp: bit_simps byte_bits)
  moreover have "push_bit 16 (ucast (?b AND 0x1F)) OR push_bit 8 (ucast (ucast (drop_bit 8 v) :: byte))
      OR ucast (ucast v :: byte) = take_bit 21 v"
    by (intro bit_word_eqI) (auto simp: bit_simps byte_bits shift_index max_def)
  ultimately show ?thesis by (simp add: Decode.simps take_bit_below [OF assms])
qed

lemma Decode_28bit:
  assumes "unat (v :: int64) < 2 ^ 28"
  shows "Decode ((ucast (drop_bit 24 v) AND 0x0F OR 0xE0) # ucast (drop_bit 16 v)
            # ucast (drop_bit 8 v) # ucast v # rest) = (v, 4)"
    (is "Decode (?b # _) = _")
proof -
  have "bit (?b AND 0x80) 7" by (simp add: bit_simps byte_bits)
  then have "?b AND 0x80 \<noteq> 0" by (rule word_test_bit)
  moreover have "bit (?b AND 0xC0) 6 \<noteq> bit (0x80 :: byte) 6" by (simp add: bit_simps byte_bits)
  then have "?b AND 0xC0 \<noteq> 0x80" by auto
  moreover have "bit (?b AND 0xE0) 5 \<noteq> bit (0xC0 :: byte) 5" by (simp add: bit_simps byte_bits)
  then have "?b AND 0xE0 \<noteq> 0xC0" by auto
  moreover have "?b AND 0xF0 = 0xE0"
    by (rule bit_word_eqI) (auto simp: bit_simps byte_bits)
  moreover have "push_bit 24 (ucast (?b AND 0xF)) OR push_bit 16 (ucast (ucast (drop_bit 16 v) :: byte))
      OR push_bit 8 (ucast (ucast (drop_bit 8 v) :: byte)) OR ucast (ucast v :: byte) = take_bit 28 v"
    by (intro bit_word_eqI) (auto simp: bit_simps byte_bits shift_index max_def)
  ultimately show ?thesis by (simp add: Decode.simps take_bit_below [OF assms])
qed

lemma Decode_prefixed:
  "Decode (0xF0 # PutUint32BE w @ rest) = (ucast w, 5)"
  "Decode (0xF4 # PutUint64BE v @ rest) = (v, 9)"
  "Decode (0xF8 # b) = (let (v, n) = Decode b in if n > 0 then (- v, n + 1) else (0, 0))"
  by (simp_all add: Decode.simps)

lemma Decode_small_negative:
  assumes "(value :: int64) \<le>s -1" and "-4 \<le>s value"
  shows "Decode ((0xFC OR ucast (NOT value AND 0xFF)) # rest) = (value, 1)"
proof -
  have "sint value \<in> {-4, -3, -2, -1}" using assms by (auto simp: word_sle_eq)
  then have "value \<in> {-4, -3, -2, -1}"
    by (metis (no_types, opaque_lifting) insert_iff empty_iff word_of_int_sint of_int_neg_numeral of_int_minus of_int_1 of_int_numeral)
  then show ?thesis by (auto simp: Decode.simps)
qed

lemma Decode_encode: "Decode (encode v @ rest) = (v, length (encode v))"
proof (induction v rule: encode.induct)
  case (1 v)
  consider (tiny) "v \<le>s -1 \<and> -4 \<le>s v"
    | (min) "\<not> (v \<le>s -1 \<and> -4 \<le>s v)" "v <s 0" "v = MinInt64"
    | (neg) "\<not> (v \<le>s -1 \<and> -4 \<le>s v)" "v <s 0" "v \<noteq> MinInt64"
    | (pos) "\<not> v <s 0" "\<not> (v \<le>s -1 \<and> -4 \<le>s v)"
    by blast
  then show ?case
  proof cases
    case tiny
    then show ?thesis by (simp add: encode.simps Decode_small_negative)
  next
    case min
    then show ?thesis
      by (simp add: encode.simps Decode_prefixed) (simp add: MinInt64_def)
  next
    case neg
    then have "encode v = 0xF8 # encode (- v)" by (auto simp: encode.simps [of v])
    with neg 1 show ?thesis by (auto simp: Decode_prefixed encode_nonempty)
  next
    case pos
    have "unat v < 2 ^ 32" if "v \<le>s 0x7FFFFFFF"
      using sle_bound [OF pos(1) that, of 32] by simp
    moreover have "ucast (ucast v :: uint32) = take_bit 32 v"
      by (rule bit_word_eqI) (auto simp: bit_simps)
    ultimately have "ucast (ucast v :: uint32) = v" if "v \<le>s 0x7FFFFFFF"
      using that take_bit_below [of v 32] by simp
    with pos show ?thesis
      using sle_bound [OF pos(1), where w = "0x7F" and k = 7] sle_bound [OF pos(1), where w = "0x3FFF" and k = 14]
        sle_bound [OF pos(1), where w = "0x1FFFFF" and k = 21] sle_bound [OF pos(1), where w = "0xFFFFFFF" and k = 28]
      by (auto simp: encode.simps Decode_7bit Decode_14bit Decode_21bit Decode_28bit Decode_prefixed)
  qed
qed


interpretation varint: byte_codec encode Decode
  by unfold_locales (rule Decode_encode, rule encode_nonempty)

section \<open>Bounds\<close>

lemma length_encode: "length (encode v) \<le> (if v <s 0 then 10 else 9)"
proof (induction v rule: encode.induct)
  case (1 v)
  show ?case
  proof (cases "\<not> (v \<le>s -1 \<and> -4 \<le>s v) \<and> v <s 0 \<and> v \<noteq> MinInt64")
    case True
    then have "encode v = 0xF8 # encode (- v)" by (auto simp: encode.simps [of v])
    with True 1 negate_negative show ?thesis by auto
  next
    case False
    then show ?thesis by (auto simp: encode.simps [of v])
  qed
qed

lemma Decode_bounds: "snd (Decode b) \<le> length b \<and> (snd (Decode b) = 0 \<longrightarrow> fst (Decode b) = 0)"
  by (induction b rule: Decode.induct)
     (auto simp: Decode.simps split: prod.splits)

text \<open>C25. Decoding what \<^verbatim>\<open>Encode\<close> wrote gives the value back and the number of bytes it wrote, for
  every int64 (the most negative one included) and whatever follows in the buffer.\<close>

theorem varint_roundtrip:
  assumes "MaxVarintLen \<le> length b"
  shows "\<exists>b' n. Encode b v = (b', n) \<and> length b' = length b \<and> 0 < n
    \<and> Decode (take n b') = (v, n) \<and> Decode b' = (v, n) \<and> drop n b' = drop n b"
proof -
  let ?n = "length (encode v)"
  have "?n \<le> 10" using length_encode [of v] by (simp split: if_splits)
  then have "Encode b v = (encode v @ drop ?n b, ?n)"
    using assms by (simp add: Encode_def Let_def MaxVarintLen_def encode_nonempty)
  moreover have "length (encode v @ drop ?n b) = length b"
    using \<open>?n \<le> 10\<close> assms by (simp add: MaxVarintLen_def)
  ultimately show ?thesis
    by (simp add: varint.dec_enc varint.dec_enc_exact encode_nonempty)
qed

theorem varint_roundtrip_witness:
  "\<exists>b' n. Encode (replicate 10 0) MinInt64 = (b', n) \<and> length b' = 10 \<and> 0 < n
    \<and> Decode (take n b') = (MinInt64, n) \<and> Decode b' = (MinInt64, n)
    \<and> drop n b' = drop n (replicate 10 0)"
  using varint_roundtrip [of "replicate 10 0" MinInt64] by (simp add: MaxVarintLen_def)

text \<open>\<^verbatim>\<open>Encode\<close> never writes past a caller's buffer: it writes the whole number or, when the
  buffer is too short, nothing, and it never needs more than \<^verbatim>\<open>MaxVarintLen\<close> bytes.\<close>

theorem Encode_bounds:
  "case Encode b v of (b', n) \<Rightarrow> length b' = length b \<and> n \<le> length b \<and> n \<le> MaxVarintLen
     \<and> (n = 0 \<longleftrightarrow> length b < length (encode v)) \<and> (n = 0 \<longrightarrow> b' = b)"
  using length_encode [of v] encode_nonempty [of v]
  by (auto simp: Encode_def Let_def MaxVarintLen_def split: if_splits)

text \<open>\<^verbatim>\<open>Decode\<close> never reads past the buffer, and every error is reported as value 0, count 0.\<close>

theorem Decode_in_bounds:
  "case Decode b of (v, n) \<Rightarrow> n \<le> length b \<and> (n = 0 \<longrightarrow> v = 0)"
  using Decode_bounds [of b] by (simp add: case_prod_beta)

theorem Encode_bounds_witness:
  "case Encode [0, 0] 0x1234 of (b', n) \<Rightarrow> length b' = 2 \<and> n \<le> 2 \<and> n \<le> MaxVarintLen
     \<and> (n = 0 \<longleftrightarrow> 2 < length (encode 0x1234)) \<and> (n = 0 \<longrightarrow> b' = [0, 0])"
  using Encode_bounds [of "[0, 0]" "0x1234"] by (simp add: numeral_2_eq_2)

end
