(* ===== verification/UdpAudio.thy ===== *)
theory UdpAudio
  imports Codec "HOL-Library.Sublist"
begin

text \<open>
  The payload of a Mumble 1.5 native UDP audio packet: the protobuf varints and the hand-written
  \<^verbatim>\<open>MumbleUDP.Audio\<close> encoder and decoder of \<^verbatim>\<open>gumble/gumble/udp15.go\<close>.  The decoder's loop over
  \<^verbatim>\<open>data[pos:]\<close> is a recursion over that suffix; its named results are the record
  \<open>audio_fields\<close>.
\<close>

section \<open>Protobuf varints\<close>

function pbEncodeVarint :: "uint64 \<Rightarrow> bytes" where
  "pbEncodeVarint v =
    (if 0x80 \<le> v then (ucast v OR 0x80) # pbEncodeVarint (drop_bit 7 v) else [ucast v])"
  by pat_completeness auto

termination
proof (relation "measure unat")
  fix v :: uint64
  assume "0x80 \<le> v"
  then have "128 \<le> unat v" by (simp add: word_le_nat_alt)
  then show "(drop_bit 7 v, v) \<in> measure unat"
    by (simp only: in_measure unat_drop_bit_eq) (simp add: drop_bit_eq_div)
qed simp

fun pbDecodeFrom :: "nat \<Rightarrow> uint64 \<Rightarrow> bytes \<Rightarrow> uint64 \<times> nat" where
  "pbDecodeFrom i v [] = (0, 0)"
| "pbDecodeFrom i v (b # buf) =
    (if i = 10 \<or> (i = 9 \<and> 1 < b) then (0, 0)
     else
       let v' = v OR push_bit (7 * i) (ucast (b AND 0x7F)) in
       if b < 0x80 then (v', i + 1) else pbDecodeFrom (i + 1) v' buf)"

definition pbDecodeVarint :: "bytes \<Rightarrow> uint64 \<times> nat" where
  "pbDecodeVarint buf = pbDecodeFrom 0 0 buf"

declare pbEncodeVarint.simps [simp del]

lemma pbEncode_nonempty: "pbEncodeVarint v \<noteq> []"
  by (subst pbEncodeVarint.simps) simp

lemma unat_drop7: "unat (drop_bit 7 (v :: uint64)) = unat v div 128"
  by (simp only: unat_drop_bit_eq) (simp add: drop_bit_eq_div)

text \<open>One step of the decoder: the byte just read carries seven bits of the value.\<close>

lemma pb_accumulate:
  "(acc OR push_bit k (ucast ((ucast v OR 0x80 :: byte) AND 0x7F))) OR push_bit (k + 7) (drop_bit 7 v)
   = acc OR push_bit k (v :: uint64)"
proof -
  have "ucast ((ucast v OR 0x80 :: byte) AND 0x7F) = take_bit 7 v"
    by (rule bit_word_eqI) (auto simp: bit_simps byte_bits)
  moreover have "push_bit k (take_bit 7 v) OR push_bit (k + 7) (drop_bit 7 v) = push_bit k v"
  proof -
    have "take_bit 7 v OR push_bit 7 (drop_bit 7 v) = v"
      by (rule bit_word_eqI) (auto simp: bit_simps shift_index max_def)
    then show ?thesis
      by (metis push_bit_or push_bit_push_bit)
  qed
  ultimately show ?thesis
    by (simp only: or.assoc)
qed

lemma pb_last: 
  assumes "unat (v :: uint64) < 128"
  shows "ucast ((ucast v :: byte) AND 0x7F) = v" and "(ucast v :: byte) < 0x80"
proof -
  have "ucast ((ucast (take_bit 7 v) :: byte) AND 0x7F) = take_bit 7 v"
    by (rule bit_word_eqI) (auto simp: bit_simps byte_bits)
  moreover have "\<not> bit (ucast (take_bit 7 v) :: byte) 7" by (simp add: bit_simps)
  moreover have "take_bit 7 v = v" using take_bit_below [of v 7] assms by simp
  ultimately show "ucast ((ucast v :: byte) AND 0x7F) = v" and "(ucast v :: byte) < 0x80"
    by (simp_all add: byte_high_bit)
qed

lemma pbDecodeFrom_encode:
  assumes "i \<le> 9" and "unat v < 2 ^ (64 - 7 * i)"
  shows "pbDecodeFrom i acc (pbEncodeVarint v @ rest)
    = (acc OR push_bit (7 * i) v, i + length (pbEncodeVarint v))"
  using assms
proof (induction v arbitrary: i acc rule: pbEncodeVarint.induct)
  case (1 v)
  have nine: "unat v < 2" if "i = 9" using that "1.prems" by simp
  show ?case
  proof (cases "0x80 \<le> v")
    case True
    then have "128 \<le> unat v" by (simp add: word_le_nat_alt)
    with nine "1.prems" have i: "Suc i \<le> 9" by (cases "i = 9") auto
    let ?b = "ucast v OR 0x80 :: byte"
    have "\<not> ?b < 0x80" by (simp add: byte_high_bit bit_simps byte_bits)
    have "(2::nat) ^ (64 - 7 * i) = 2 ^ (64 - 7 * Suc i) * 128"
    proof -
      have "64 - 7 * i = (64 - 7 * Suc i) + 7" using i by simp
      then show ?thesis by (simp only: power_add) simp
    qed
    then have "unat (drop_bit 7 v) < 2 ^ (64 - 7 * Suc i)"
      using "1.prems"(2) by (simp add: unat_drop7 less_mult_imp_div_less)
    from "1.IH" [OF True i this] show ?thesis
      using True i \<open>\<not> ?b < 0x80\<close> pb_accumulate [of acc "7 * i" v]
      by (subst (1 2) pbEncodeVarint.simps) (simp add: Let_def add.commute)
  next
    case False
    then have small: "unat v < 128" by (simp add: word_le_nat_alt word_less_nat_alt)
    have "\<not> (i = 9 \<and> 1 < (ucast v :: byte))"
    proof
      assume *: "i = 9 \<and> 1 < (ucast v :: byte)"
      with nine have "unat v = 0 \<or> unat v = 1" by auto
      then have "v = 0 \<or> v = 1" by (metis unat_eq_0 unsigned_1 word_unat_eq_iff)
      with * show False by auto
    qed
    with False small "1.prems" show ?thesis
      by (subst (1 2) pbEncodeVarint.simps) (auto simp: Let_def pb_last)
  qed
qed

lemma pbDecode_encode: "pbDecodeVarint (pbEncodeVarint v @ rest) = (v, length (pbEncodeVarint v))"
  using pbDecodeFrom_encode [of 0 v 0 rest] unsigned_less [of v]
  by (simp add: pbDecodeVarint_def)

interpretation pb: byte_codec pbEncodeVarint pbDecodeVarint
  by unfold_locales (rule pbDecode_encode, rule pbEncode_nonempty)

lemma pbDecodeFrom_bounds:
  "snd (pbDecodeFrom i v b) = 0 \<or> (i < snd (pbDecodeFrom i v b) \<and> snd (pbDecodeFrom i v b) \<le> i + length b)"
  by (induction i v b rule: pbDecodeFrom.induct) (auto simp: Let_def)

lemma pbDecode_bounds: "snd (pbDecodeVarint b) \<le> length b"
  using pbDecodeFrom_bounds [of 0 0 b] by (auto simp: pbDecodeVarint_def)

section \<open>Encoding an audio message\<close>

text \<open>The tag of a field is its number shifted left by three or'ed with its wire type.\<close>

definition pbTag :: "nat \<Rightarrow> nat \<Rightarrow> uint64" where
  "pbTag field wire = push_bit 3 (of_nat field) OR of_nat wire"

definition encodeUDPAudio ::
  "uint32 \<Rightarrow> uint64 \<Rightarrow> bytes \<Rightarrow> bool \<Rightarrow> float32 option \<Rightarrow> float32 option \<Rightarrow> float32 option \<Rightarrow> bytes" where
  "encodeUDPAudio target frameNumber opusData terminator X Y Z =
     pbEncodeVarint (pbTag 1 0) @ pbEncodeVarint (ucast target)
     @ pbEncodeVarint (pbTag 4 0) @ pbEncodeVarint frameNumber
     @ (if length opusData > 0 then
          pbEncodeVarint (pbTag 5 2) @ pbEncodeVarint (of_nat (length opusData)) @ opusData
        else [])
     @ (case (X, Y, Z) of
          (Some x, Some y, Some z) \<Rightarrow>
            pbEncodeVarint (pbTag 6 2) @ pbEncodeVarint 12
            @ PutUint32LE x @ PutUint32LE y @ PutUint32LE z
        | _ \<Rightarrow> [])
     @ (if terminator then pbEncodeVarint (pbTag 16 0) @ pbEncodeVarint 1 else [])"

section \<open>Decoding an audio message\<close>

record audio_fields =
  af_session :: uint32
  af_frameNumber :: uint64
  af_opusData :: bytes
  af_terminator :: bool
  af_context :: uint32
  af_position :: "(float32 \<times> float32 \<times> float32) option"
  af_volumeAdjustment :: float32

text \<open>The variables of the decoder: its named results and the two locals for the position.\<close>

record audio_decoder = audio_fields +
  ad_positionValues :: "float32 list"
  ad_positionCount :: nat

definition decoder_init :: audio_decoder where
  "decoder_init = \<lparr>af_session = 0, af_frameNumber = 0, af_opusData = [], af_terminator = False,
     af_context = 0, af_position = None, af_volumeAdjustment = 0,
     ad_positionValues = [0, 0, 0], ad_positionCount = 0\<rparr>"

text \<open>The three cases of the inner switch on the field number.\<close>

definition varintField :: "nat \<Rightarrow> uint64 \<Rightarrow> audio_decoder \<Rightarrow> audio_decoder" where
  "varintField fieldNum val s =
     (if fieldNum = 2 then s\<lparr>af_context := ucast val\<rparr>
      else if fieldNum = 3 then s\<lparr>af_session := ucast val\<rparr>
      else if fieldNum = 4 then s\<lparr>af_frameNumber := val\<rparr>
      else if fieldNum = 16 then s\<lparr>af_terminator := (val \<noteq> 0)\<rparr>
      else s)"

definition bytesField :: "nat \<Rightarrow> bytes \<Rightarrow> audio_decoder \<Rightarrow> audio_decoder" where
  "bytesField fieldNum payload s =
     (if fieldNum = 5 then s\<lparr>af_opusData := payload\<rparr>
      else if fieldNum = 6 \<and> length payload = 12 then
        s\<lparr>ad_positionValues := [Uint32LE payload, Uint32LE (drop 4 payload), Uint32LE (drop 8 payload)],
          ad_positionCount := 3\<rparr>
      else s)"

definition fixed32Field :: "nat \<Rightarrow> float32 \<Rightarrow> audio_decoder \<Rightarrow> audio_decoder" where
  "fixed32Field fieldNum v s =
     (if fieldNum = 6 \<and> ad_positionCount s < 3 then
        s\<lparr>ad_positionValues := (ad_positionValues s)[ad_positionCount s := v],
          ad_positionCount := ad_positionCount s + 1\<rparr>
      else if fieldNum = 7 then s\<lparr>af_volumeAdjustment := v\<rparr>
      else s)"

text \<open>
  The loop.  The flag says how it was left: \<open>True\<close> when it ran out of input or broke on a bad
  key, so that the position is filled in afterwards, \<open>False\<close> for an early return.
\<close>

function decodeLoop :: "bytes \<Rightarrow> audio_decoder \<Rightarrow> bool \<times> audio_decoder" where
  "decodeLoop data s =
    (if data = [] then (True, s)
     else
       let (key, n) = pbDecodeVarint data in
       if n = 0 then (True, s)
       else
         let rest = drop n data; fieldNum = unat (drop_bit 3 key); wireType = key AND 7 in
         if wireType = 0 then
           (let (val, m) = pbDecodeVarint rest in
            if m = 0 then (False, s) else decodeLoop (drop m rest) (varintField fieldNum val s))
         else if wireType = 2 then
           (let (len, m) = pbDecodeVarint rest; body = drop m rest in
            if m = 0 then (False, s)
            else if unat len > length body then (False, s)
            else decodeLoop (drop (unat len) body) (bytesField fieldNum (take (unat len) body) s))
         else if wireType = 1 then
           (if length rest < 8 then (False, s) else decodeLoop (drop 8 rest) s)
         else if wireType = 5 then
           (if length rest < 4 then (False, s)
            else decodeLoop (drop 4 rest) (fixed32Field fieldNum (Uint32LE rest) s))
         else (False, s))"
  by pat_completeness auto

termination
  by (relation "measure (length \<circ> fst)") auto

declare decodeLoop.simps [simp del]

definition decodeUDPAudio :: "bytes \<Rightarrow> audio_fields" where
  "decodeUDPAudio data =
    (let (finished, s) = decodeLoop data decoder_init in
     audio_fields.truncate
       (if finished \<and> ad_positionCount s = 3
        then s\<lparr>af_position := Some (ad_positionValues s ! 0, ad_positionValues s ! 1, ad_positionValues s ! 2)\<rparr>
        else s))"

section \<open>Round trip\<close>

lemma pbTag_parts:
  assumes "field < 2 ^ 32" and "wire < 8"
  shows "pbTag field wire AND 7 = of_nat wire" and "unat (drop_bit 3 (pbTag field wire)) = field"
proof -
  have bits: "bit wire n \<Longrightarrow> n < 3" for n :: nat
  proof (rule ccontr)
    assume "bit wire n" and "\<not> n < 3"
    then have "(2::nat) ^ 3 \<le> 2 ^ n" by (intro power_increasing) auto
    with assms(2) have "wire < 2 ^ n" by simp
    with \<open>bit wire n\<close> show False by (simp add: bit_iff_odd)
  qed
  show "pbTag field wire AND 7 = of_nat wire"
    unfolding pbTag_def using bits by (intro bit_word_eqI) (auto simp: bit_simps byte_bits)
  have "drop_bit 3 (pbTag field wire) = (of_nat field :: uint64)"
  proof (rule bit_word_eqI)
    fix n assume "n < LENGTH(64)"
    have "bit field n \<Longrightarrow> n < 32" 
    proof (rule ccontr)
      assume "bit field n" and "\<not> n < 32"
      then have "(2::nat) ^ 32 \<le> 2 ^ n" by (intro power_increasing) auto
      with assms(1) have "field < 2 ^ n" by simp
      with \<open>bit field n\<close> show False by (simp add: bit_iff_odd)
    qed
    then show "bit (drop_bit 3 (pbTag field wire)) n = bit (of_nat field :: uint64) n"
      using bits [of "3 + n"] by (auto simp: pbTag_def bit_simps)
  qed
  then show "unat (drop_bit 3 (pbTag field wire)) = field"
    using assms(1) by (simp add: unat_of_nat)
qed

lemma decodeLoop_varint:
  assumes "field < 2 ^ 32"
  shows "decodeLoop (pbEncodeVarint (pbTag field 0) @ pbEncodeVarint v @ rest) s
    = decodeLoop rest (varintField field v s)"
  using pbTag_parts [OF assms, of 0]
  by (subst decodeLoop.simps) (simp add: pb.dec_enc pb.enc_nonempty Let_def)

lemma decodeLoop_bytes:
  assumes "field < 2 ^ 32" and "length payload < 2 ^ 64"
  shows "decodeLoop (pbEncodeVarint (pbTag field 2) @ pbEncodeVarint (of_nat (length payload)) @ payload @ rest) s
    = decodeLoop rest (bytesField field payload s)"
  using pbTag_parts [OF assms(1), of 2] assms(2)
  by (subst decodeLoop.simps) (simp add: pb.dec_enc pb.enc_nonempty Let_def unat_of_nat)

lemma decodeLoop_Nil: "decodeLoop [] s = (True, s)"
  by (subst decodeLoop.simps) simp

lemmas decode_steps = decodeLoop_varint decodeLoop_bytes decodeLoop_Nil

text \<open>The three field groups of an encoded message, read back in turn.\<close>

lemma decode_opus:
  assumes "length opus < 2 ^ 64" and "af_opusData s = []"
  shows "decodeLoop ((if length opus > 0 then
      pbEncodeVarint (pbTag 5 2) @ pbEncodeVarint (of_nat (length opus)) @ opus else []) @ rest) s
    = decodeLoop rest (s\<lparr>af_opusData := opus\<rparr>)"
  using assms by (cases s) (simp add: decode_steps bytesField_def)

lemma position_payload:
  "[Uint32LE (PutUint32LE x @ PutUint32LE y @ PutUint32LE z),
    Uint32LE (drop 4 (PutUint32LE x @ PutUint32LE y @ PutUint32LE z)),
    Uint32LE (drop 8 (PutUint32LE x @ PutUint32LE y @ PutUint32LE z))] = [x, y, z]"
  using Uint32LE_Put [of z "[]"] by simp

lemma decode_position:
  "decodeLoop (pbEncodeVarint (pbTag 6 2) @ pbEncodeVarint 12
      @ PutUint32LE x @ PutUint32LE y @ PutUint32LE z @ rest) s
    = decodeLoop rest (s\<lparr>ad_positionValues := [x, y, z], ad_positionCount := 3\<rparr>)"
  using decodeLoop_bytes [of 6 "PutUint32LE x @ PutUint32LE y @ PutUint32LE z" rest s]
    position_payload [of x y z]
  by (simp add: bytesField_def)

lemma decode_terminator:
  assumes "\<not> af_terminator s"
  shows "decodeLoop (if t then pbEncodeVarint (pbTag 16 0) @ pbEncodeVarint 1 else []) s
    = (True, s\<lparr>af_terminator := t\<rparr>)"
  using assms decodeLoop_varint [of 16 1 "[]" s] by (simp add: varintField_def decodeLoop_Nil)



text \<open>What every field update keeps holds of the decoder's result; a bytes field is a part of
  the packet.\<close>

lemma sublist_drop_trans: "sublist data packet \<Longrightarrow> sublist (drop n data) packet"
  by (meson sublist_drop sublist_order.order_trans)

lemma sublist_take_trans: "sublist data packet \<Longrightarrow> sublist (take n data) packet"
  by (meson sublist_take sublist_order.order_trans)

lemma decodeLoop_invariant:
  assumes varint: "\<And>f v s. Q s \<Longrightarrow> Q (varintField f v s)"
    and fixed: "\<And>f v s. Q s \<Longrightarrow> Q (fixed32Field f v s)"
    and body: "\<And>f p s. Q s \<Longrightarrow> sublist p packet \<Longrightarrow> Q (bytesField f p s)"
    and "sublist data packet" and "Q s"
  shows "Q (snd (decodeLoop data s))"
  using assms(4,5)
proof (induction data s rule: decodeLoop.induct)
  case (1 data s)
  obtain key n where key: "pbDecodeVarint data = (key, n)" by fastforce
  obtain val m where val: "pbDecodeVarint (drop n data) = (val, m)" by fastforce
  note IH = "1.IH" [OF _ key [symmetric], simplified]
  show ?case
  proof (cases "data = [] \<or> n = 0")
    case True
    then show ?thesis using "1.prems" key by (subst decodeLoop.simps) auto
  next
    case False
    with "1.prems" IH show ?thesis
      by (subst decodeLoop.simps)
         (auto simp: key val Let_def sublist_drop_trans sublist_take_trans varint fixed body)
  qed
qed

text \<open>Whatever bytes arrive, the decoder terminates and the Opus payload it returns is a
  contiguous part of the packet: no length field makes it read past the end.\<close>

theorem decode_within_packet: "sublist (af_opusData (decodeUDPAudio data)) data"
proof -
  let ?Q = "\<lambda>s :: audio_decoder. sublist (af_opusData s) data"
  have "?Q (snd (decodeLoop data decoder_init))"
    by (rule decodeLoop_invariant [where packet = data])
       (auto simp: varintField_def fixed32Field_def bytesField_def decoder_init_def)
  then show ?thesis
    by (auto simp: decodeUDPAudio_def Let_def audio_fields.truncate_def split: prod.splits)
qed

end
