(* ===== verification/Aes.thy ===== *)
theory Aes
  imports Prelude
begin

text \<open>
  What the program uses of Go's \<^verbatim>\<open>crypto/aes\<close> and \<^verbatim>\<open>crypto/cipher\<close>: the AES block cipher of
  FIPS 197 for 128-, 192- and 256-bit keys behind the interface \<^verbatim>\<open>cipher.Block\<close>.  A state is the
  16 bytes of a block in input order (column by column).
\<close>

section \<open>The block interface\<close>

text \<open>\<^verbatim>\<open>cipher.Block\<close>: both methods work on one 16-byte block.\<close>

record block_cipher =
  Encrypt :: "bytes \<Rightarrow> bytes"
  Decrypt :: "bytes \<Rightarrow> bytes"

text \<open>The contract the modes of operation rely on.\<close>

locale cipher_block =
  fixes blk :: block_cipher
  assumes Decrypt_Encrypt: "length x = 16 \<Longrightarrow> Decrypt blk (Encrypt blk x) = x"
    and length_Encrypt: "length x = 16 \<Longrightarrow> length (Encrypt blk x) = 16"
    and length_Decrypt: "length x = 16 \<Longrightarrow> length (Decrypt blk x) = 16"
begin

lemma Encrypt_inject:
  assumes "length x = 16" and "length y = 16"
  shows "Encrypt blk x = Encrypt blk y \<longleftrightarrow> x = y"
  using assms by (metis Decrypt_Encrypt)

end

section \<open>The round functions\<close>

definition sbox :: bytes where
  "sbox = [
   0x63, 0x7C, 0x77, 0x7B, 0xF2, 0x6B, 0x6F, 0xC5, 0x30, 0x01, 0x67, 0x2B, 0xFE, 0xD7, 0xAB, 0x76,
   0xCA, 0x82, 0xC9, 0x7D, 0xFA, 0x59, 0x47, 0xF0, 0xAD, 0xD4, 0xA2, 0xAF, 0x9C, 0xA4, 0x72, 0xC0,
   0xB7, 0xFD, 0x93, 0x26, 0x36, 0x3F, 0xF7, 0xCC, 0x34, 0xA5, 0xE5, 0xF1, 0x71, 0xD8, 0x31, 0x15,
   0x04, 0xC7, 0x23, 0xC3, 0x18, 0x96, 0x05, 0x9A, 0x07, 0x12, 0x80, 0xE2, 0xEB, 0x27, 0xB2, 0x75,
   0x09, 0x83, 0x2C, 0x1A, 0x1B, 0x6E, 0x5A, 0xA0, 0x52, 0x3B, 0xD6, 0xB3, 0x29, 0xE3, 0x2F, 0x84,
   0x53, 0xD1, 0x00, 0xED, 0x20, 0xFC, 0xB1, 0x5B, 0x6A, 0xCB, 0xBE, 0x39, 0x4A, 0x4C, 0x58, 0xCF,
   0xD0, 0xEF, 0xAA, 0xFB, 0x43, 0x4D, 0x33, 0x85, 0x45, 0xF9, 0x02, 0x7F, 0x50, 0x3C, 0x9F, 0xA8,
   0x51, 0xA3, 0x40, 0x8F, 0x92, 0x9D, 0x38, 0xF5, 0xBC, 0xB6, 0xDA, 0x21, 0x10, 0xFF, 0xF3, 0xD2,
   0xCD, 0x0C, 0x13, 0xEC, 0x5F, 0x97, 0x44, 0x17, 0xC4, 0xA7, 0x7E, 0x3D, 0x64, 0x5D, 0x19, 0x73,
   0x60, 0x81, 0x4F, 0xDC, 0x22, 0x2A, 0x90, 0x88, 0x46, 0xEE, 0xB8, 0x14, 0xDE, 0x5E, 0x0B, 0xDB,
   0xE0, 0x32, 0x3A, 0x0A, 0x49, 0x06, 0x24, 0x5C, 0xC2, 0xD3, 0xAC, 0x62, 0x91, 0x95, 0xE4, 0x79,
   0xE7, 0xC8, 0x37, 0x6D, 0x8D, 0xD5, 0x4E, 0xA9, 0x6C, 0x56, 0xF4, 0xEA, 0x65, 0x7A, 0xAE, 0x08,
   0xBA, 0x78, 0x25, 0x2E, 0x1C, 0xA6, 0xB4, 0xC6, 0xE8, 0xDD, 0x74, 0x1F, 0x4B, 0xBD, 0x8B, 0x8A,
   0x70, 0x3E, 0xB5, 0x66, 0x48, 0x03, 0xF6, 0x0E, 0x61, 0x35, 0x57, 0xB9, 0x86, 0xC1, 0x1D, 0x9E,
   0xE1, 0xF8, 0x98, 0x11, 0x69, 0xD9, 0x8E, 0x94, 0x9B, 0x1E, 0x87, 0xE9, 0xCE, 0x55, 0x28, 0xDF,
   0x8C, 0xA1, 0x89, 0x0D, 0xBF, 0xE6, 0x42, 0x68, 0x41, 0x99, 0x2D, 0x0F, 0xB0, 0x54, 0xBB, 0x16]"

definition inv_sbox :: bytes where
  "inv_sbox = [
   0x52, 0x09, 0x6A, 0xD5, 0x30, 0x36, 0xA5, 0x38, 0xBF, 0x40, 0xA3, 0x9E, 0x81, 0xF3, 0xD7, 0xFB,
   0x7C, 0xE3, 0x39, 0x82, 0x9B, 0x2F, 0xFF, 0x87, 0x34, 0x8E, 0x43, 0x44, 0xC4, 0xDE, 0xE9, 0xCB,
   0x54, 0x7B, 0x94, 0x32, 0xA6, 0xC2, 0x23, 0x3D, 0xEE, 0x4C, 0x95, 0x0B, 0x42, 0xFA, 0xC3, 0x4E,
   0x08, 0x2E, 0xA1, 0x66, 0x28, 0xD9, 0x24, 0xB2, 0x76, 0x5B, 0xA2, 0x49, 0x6D, 0x8B, 0xD1, 0x25,
   0x72, 0xF8, 0xF6, 0x64, 0x86, 0x68, 0x98, 0x16, 0xD4, 0xA4, 0x5C, 0xCC, 0x5D, 0x65, 0xB6, 0x92,
   0x6C, 0x70, 0x48, 0x50, 0xFD, 0xED, 0xB9, 0xDA, 0x5E, 0x15, 0x46, 0x57, 0xA7, 0x8D, 0x9D, 0x84,
   0x90, 0xD8, 0xAB, 0x00, 0x8C, 0xBC, 0xD3, 0x0A, 0xF7, 0xE4, 0x58, 0x05, 0xB8, 0xB3, 0x45, 0x06,
   0xD0, 0x2C, 0x1E, 0x8F, 0xCA, 0x3F, 0x0F, 0x02, 0xC1, 0xAF, 0xBD, 0x03, 0x01, 0x13, 0x8A, 0x6B,
   0x3A, 0x91, 0x11, 0x41, 0x4F, 0x67, 0xDC, 0xEA, 0x97, 0xF2, 0xCF, 0xCE, 0xF0, 0xB4, 0xE6, 0x73,
   0x96, 0xAC, 0x74, 0x22, 0xE7, 0xAD, 0x35, 0x85, 0xE2, 0xF9, 0x37, 0xE8, 0x1C, 0x75, 0xDF, 0x6E,
   0x47, 0xF1, 0x1A, 0x71, 0x1D, 0x29, 0xC5, 0x89, 0x6F, 0xB7, 0x62, 0x0E, 0xAA, 0x18, 0xBE, 0x1B,
   0xFC, 0x56, 0x3E, 0x4B, 0xC6, 0xD2, 0x79, 0x20, 0x9A, 0xDB, 0xC0, 0xFE, 0x78, 0xCD, 0x5A, 0xF4,
   0x1F, 0xDD, 0xA8, 0x33, 0x88, 0x07, 0xC7, 0x31, 0xB1, 0x12, 0x10, 0x59, 0x27, 0x80, 0xEC, 0x5F,
   0x60, 0x51, 0x7F, 0xA9, 0x19, 0xB5, 0x4A, 0x0D, 0x2D, 0xE5, 0x7A, 0x9F, 0x93, 0xC9, 0x9C, 0xEF,
   0xA0, 0xE0, 0x3B, 0x4D, 0xAE, 0x2A, 0xF5, 0xB0, 0xC8, 0xEB, 0xBB, 0x3C, 0x83, 0x53, 0x99, 0x61,
   0x17, 0x2B, 0x04, 0x7E, 0xBA, 0x77, 0xD6, 0x26, 0xE1, 0x69, 0x14, 0x63, 0x55, 0x21, 0x0C, 0x7D]"

definition SubBytes :: "bytes \<Rightarrow> bytes" where
  "SubBytes s = map (\<lambda>b. sbox ! unat b) s"

definition InvSubBytes :: "bytes \<Rightarrow> bytes" where
  "InvSubBytes s = map (\<lambda>b. inv_sbox ! unat b) s"

definition ShiftRows :: "bytes \<Rightarrow> bytes" where
  "ShiftRows s = map ((!) s) [0, 5, 10, 15, 4, 9, 14, 3, 8, 13, 2, 7, 12, 1, 6, 11]"

definition InvShiftRows :: "bytes \<Rightarrow> bytes" where
  "InvShiftRows s = map ((!) s) [0, 13, 10, 7, 4, 1, 14, 11, 8, 5, 2, 15, 12, 9, 6, 3]"

definition xtime :: "byte \<Rightarrow> byte" where
  "xtime b = push_bit 1 b XOR (if bit b 7 then 0x1B else 0)"

fun MixColumns :: "bytes \<Rightarrow> bytes" where
  "MixColumns (a # b # c # d # rest) =
     (xtime a XOR (xtime b XOR b) XOR c XOR d)
     # (a XOR xtime b XOR (xtime c XOR c) XOR d)
     # (a XOR b XOR xtime c XOR (xtime d XOR d))
     # ((xtime a XOR a) XOR b XOR c XOR xtime d)
     # MixColumns rest"
| "MixColumns rest = rest"

definition mul9 :: "byte \<Rightarrow> byte" where
  "mul9 b = xtime (xtime (xtime b)) XOR b"

definition mul11 :: "byte \<Rightarrow> byte" where
  "mul11 b = xtime (xtime (xtime b)) XOR xtime b XOR b"

definition mul13 :: "byte \<Rightarrow> byte" where
  "mul13 b = xtime (xtime (xtime b)) XOR xtime (xtime b) XOR b"

definition mul14 :: "byte \<Rightarrow> byte" where
  "mul14 b = xtime (xtime (xtime b)) XOR xtime (xtime b) XOR xtime b"

fun InvMixColumns :: "bytes \<Rightarrow> bytes" where
  "InvMixColumns (a # b # c # d # rest) =
     (mul14 a XOR mul11 b XOR mul13 c XOR mul9 d)
     # (mul9 a XOR mul14 b XOR mul11 c XOR mul13 d)
     # (mul13 a XOR mul9 b XOR mul14 c XOR mul11 d)
     # (mul11 a XOR mul13 b XOR mul9 c XOR mul14 d)
     # InvMixColumns rest"
| "InvMixColumns rest = rest"

section \<open>The key schedule\<close>

definition rcon :: bytes where
  "rcon = [0x01, 0x02, 0x04, 0x08, 0x10, 0x20, 0x40, 0x80, 0x1B, 0x36]"

text \<open>\<open>nextWord nk ws\<close> is the word after the schedule \<open>ws\<close> of a key of \<open>nk\<close> words;
  \<open>expandKey\<close> appends \<open>n\<close> of them.\<close>

definition nextWord :: "nat \<Rightarrow> bytes list \<Rightarrow> bytes" where
  "nextWord nk ws =
    (let i = length ws; prev = ws ! (i - 1) in
     xorb (ws ! (i - nk))
       (if i mod nk = 0 then xorb (SubBytes (rotate1 prev)) [rcon ! (i div nk - 1), 0, 0, 0]
        else if 6 < nk \<and> i mod nk = 4 then SubBytes prev
        else prev))"

fun expandKey :: "nat \<Rightarrow> nat \<Rightarrow> bytes list \<Rightarrow> bytes list" where
  "expandKey nk 0 ws = ws"
| "expandKey nk (Suc n) ws = expandKey nk n (ws @ [nextWord nk ws])"

fun chunks4 :: "'a list \<Rightarrow> 'a list list" where
  "chunks4 (a # b # c # d # rest) = [a, b, c, d] # chunks4 rest"
| "chunks4 rest = []"

definition keySchedule :: "bytes \<Rightarrow> bytes list" where
  "keySchedule key =
    (let nk = length key div 4; rounds = nk + 6 in
     map concat (chunks4 (expandKey nk (4 * (rounds + 1) - nk) (chunks4 key))))"

section \<open>The cipher\<close>

fun encRounds :: "bytes list \<Rightarrow> bytes \<Rightarrow> bytes" where
  "encRounds [] s = s"
| "encRounds [k] s = xorb (ShiftRows (SubBytes s)) k"
| "encRounds (k # ks) s = encRounds ks (xorb (MixColumns (ShiftRows (SubBytes s))) k)"

fun decRounds :: "bytes list \<Rightarrow> bytes \<Rightarrow> bytes" where
  "decRounds [] s = s"
| "decRounds [k] s = InvSubBytes (InvShiftRows (xorb s k))"
| "decRounds (k # ks) s = InvSubBytes (InvShiftRows (InvMixColumns (xorb (decRounds ks s) k)))"

definition aesEncrypt :: "bytes list \<Rightarrow> bytes \<Rightarrow> bytes" where
  "aesEncrypt rks x = encRounds (tl rks) (xorb x (hd rks))"

definition aesDecrypt :: "bytes list \<Rightarrow> bytes \<Rightarrow> bytes" where
  "aesDecrypt rks x = xorb (decRounds (tl rks) x) (hd rks)"

text \<open>\<^verbatim>\<open>aes.NewCipher\<close>: \<open>None\<close> is its \<^verbatim>\<open>KeySizeError\<close>.\<close>

definition NewCipher :: "bytes \<Rightarrow> block_cipher option" where
  "NewCipher key =
    (if length key \<in> {16, 24, 32} then
       Some \<lparr>Encrypt = aesEncrypt (keySchedule key), Decrypt = aesDecrypt (keySchedule key)\<rparr>
     else None)"

section \<open>Decryption inverts encryption\<close>

lemma inv_sbox_sbox_all: "map (\<lambda>b. inv_sbox ! unat b) sbox = map word_of_nat [0..<256]"
  by code_simp

lemma length_sbox: "length sbox = 256"
  by (simp add: sbox_def)

lemma inv_sbox_sbox: "inv_sbox ! unat (sbox ! unat b) = b"
proof -
  have b: "unat b < 256" using unsigned_less [of b] by simp
  have "map (\<lambda>b. inv_sbox ! unat b) sbox ! unat b = map word_of_nat [0..<256] ! unat b"
    by (simp only: inv_sbox_sbox_all)
  with b show ?thesis by (simp add: length_sbox)
qed

lemma InvSubBytes_SubBytes: "InvSubBytes (SubBytes s) = s"
  by (simp add: InvSubBytes_def SubBytes_def inv_sbox_sbox comp_def)

lemma InvShiftRows_ShiftRows:
  assumes "length s = 16"
  shows "InvShiftRows (ShiftRows s) = s"
proof -
  have "[0, 1, 2, 3, 4, 5, 6, 7, 8, 9, 10, 11, 12, 13, 14, 15] = [0..<16::nat]" by code_simp
  then have "map ((!) s) [0, 1, 2, 3, 4, 5, 6, 7, 8, 9, 10, 11, 12, 13, 14, 15] = s"
    using assms map_nth [of s] by (simp only:)
  then show ?thesis by (simp add: InvShiftRows_def ShiftRows_def)
qed

lemma xtime_xor: "xtime (a XOR b) = xtime a XOR xtime b"
  by (rule bit_word_eqI) (auto simp: xtime_def bit_simps)

lemma xor_left_self: "a XOR (a XOR b) = (b :: byte)"
  by (simp add: xor.assoc [symmetric])

lemmas xor_ac = xor.assoc xor.commute xor.left_commute xor_left_self

lemma InvMixColumns_MixColumns: "InvMixColumns (MixColumns s) = s"
  by (induction s rule: MixColumns.induct)
     (simp_all add: mul9_def mul11_def mul13_def mul14_def xtime_xor xor_ac)

lemma length_rounds [block_simps, simp]:
  "length (SubBytes s) = length s" "length (InvSubBytes s) = length s"
  "length (ShiftRows s) = 16" "length (InvShiftRows s) = 16"
  "length (MixColumns s) = length s" "length (InvMixColumns s) = length s"
proof -
  show "length (MixColumns s) = length s" by (induction s rule: MixColumns.induct) simp_all
  show "length (InvMixColumns s) = length s" by (induction s rule: InvMixColumns.induct) simp_all
qed (simp_all add: SubBytes_def InvSubBytes_def ShiftRows_def InvShiftRows_def)

lemma length_encRounds:
  "\<forall>k \<in> set ks. length k = 16 \<Longrightarrow> length s = 16 \<Longrightarrow> length (encRounds ks s) = 16"
  by (induction ks s rule: encRounds.induct) simp_all

lemma length_decRounds:
  "\<forall>k \<in> set ks. length k = 16 \<Longrightarrow> length s = 16 \<Longrightarrow> length (decRounds ks s) = 16"
  by (induction ks s rule: decRounds.induct) simp_all

lemma decRounds_encRounds:
  "\<forall>k \<in> set ks. length k = 16 \<Longrightarrow> length s = 16 \<Longrightarrow> decRounds ks (encRounds ks s) = s"
  by (induction ks s rule: encRounds.induct)
     (simp_all add: xorb_cancel InvShiftRows_ShiftRows InvSubBytes_SubBytes InvMixColumns_MixColumns)

lemma aesDecrypt_aesEncrypt:
  assumes "\<forall>k \<in> set rks. length k = 16" and "rks \<noteq> []" and "length x = 16"
  shows "aesDecrypt rks (aesEncrypt rks x) = x"
    and "length (aesEncrypt rks x) = 16" and "length (aesDecrypt rks x) = 16"
proof -
  have "\<forall>k \<in> set (tl rks). length k = 16" and "length (hd rks) = 16"
    using assms(1,2) by (cases rks; auto)+
  then show "aesDecrypt rks (aesEncrypt rks x) = x"
    and "length (aesEncrypt rks x) = 16" and "length (aesDecrypt rks x) = 16"
    using assms(3)
    by (simp_all add: aesDecrypt_def aesEncrypt_def decRounds_encRounds xorb_cancel
        length_encRounds length_decRounds)
qed

section \<open>The key schedule has only 16-byte round keys\<close>

lemma length_nextWord:
  assumes "\<forall>w \<in> set ws. length w = 4" and "0 < nk" and "nk \<le> length ws"
  shows "length (nextWord nk ws) = 4"
proof -
  have "length (ws ! (length ws - 1)) = 4" and "length (ws ! (length ws - nk)) = 4"
    using assms by simp_all
  then show ?thesis by (simp add: nextWord_def Let_def)
qed

lemma expandKey_words:
  assumes "\<forall>w \<in> set ws. length w = 4" and "0 < nk" and "nk \<le> length ws"
  shows "(\<forall>w \<in> set (expandKey nk n ws). length w = 4) \<and> length (expandKey nk n ws) = n + length ws"
  using assms
proof (induction n arbitrary: ws)
  case 0
  then show ?case by simp
next
  case (Suc n)
  have "\<forall>w \<in> set (ws @ [nextWord nk ws]). length w = 4" and "nk \<le> length (ws @ [nextWord nk ws])"
    using Suc.prems length_nextWord [of ws nk] by auto
  from Suc.IH [OF this(1) \<open>0 < nk\<close> this(2)] show ?case by simp
qed

lemma chunks4_words: "\<forall>w \<in> set (chunks4 xs). length w = 4 \<and> set w \<subseteq> set xs"
  by (induction xs rule: chunks4.induct) (simp_all, blast)

lemma length_chunks4: "length (chunks4 xs) = length xs div 4"
  by (induction xs rule: chunks4.induct) simp_all

lemma length_concat_words: "\<forall>w \<in> set ws. length w = 4 \<Longrightarrow> length (concat ws) = 4 * length ws"
  by (induction ws) simp_all

lemma keySchedule_keys:
  assumes "length key \<in> {16, 24, 32}"
  shows "(\<forall>k \<in> set (keySchedule key). length k = 16) \<and> keySchedule key \<noteq> []"
proof -
  define nk where "nk = length key div 4"
  define ws where "ws = expandKey nk (4 * (nk + 6 + 1) - nk) (chunks4 key)"
  have "0 < nk" and nk: "length (chunks4 key) = nk"
    using assms by (auto simp: nk_def length_chunks4)
  then have words: "\<forall>w \<in> set ws. length w = 4" and "length ws = 4 * (nk + 7)"
    using expandKey_words [of "chunks4 key" nk "4 * (nk + 6 + 1) - nk"] chunks4_words [of key]
    by (simp_all add: ws_def)
  have "length k = 16" if "k \<in> set (map concat (chunks4 ws))" for k
  proof -
    from that obtain g where "k = concat g" and "g \<in> set (chunks4 ws)" by auto
    with chunks4_words [of ws] have "length g = 4" and "set g \<subseteq> set ws" by auto
    with words \<open>k = concat g\<close> show ?thesis using length_concat_words [of g] by auto
  qed
  moreover have "chunks4 ws \<noteq> []"
    using \<open>length ws = 4 * (nk + 7)\<close> length_chunks4 [of ws] by auto
  moreover have "keySchedule key = map concat (chunks4 ws)"
    by (simp only: keySchedule_def Let_def ws_def nk_def)
  ultimately show ?thesis by simp
qed

text \<open>The cipher the program builds meets the block contract, for every accepted key.\<close>

definition aesBlock :: "bytes \<Rightarrow> block_cipher" where
  "aesBlock key = the (NewCipher key)"

lemma NewCipher_cipher_block:
  assumes "NewCipher key = Some blk"
  shows "cipher_block blk"
proof -
  have "length key \<in> {16, 24, 32}" and blk: "blk = \<lparr>Encrypt = aesEncrypt (keySchedule key), Decrypt = aesDecrypt (keySchedule key)\<rparr>"
    using assms by (auto simp: NewCipher_def split: if_splits)
  then show ?thesis
    using keySchedule_keys [of key]
    by unfold_locales (simp_all add: blk aesDecrypt_aesEncrypt)
qed

interpretation aes: cipher_block "aesBlock (pad16 key)" for key
  by (rule NewCipher_cipher_block [where key = "pad16 key"]) (simp add: aesBlock_def NewCipher_def)

lemma NewCipher_16: "length key = 16 \<Longrightarrow> NewCipher key = Some (aesBlock key)"
  by (simp add: NewCipher_def aesBlock_def)

lemma FIPS197_vector:
  "aesEncrypt (keySchedule (map word_of_nat [0..<16]))
     (map (\<lambda>n. word_of_nat (17 * n)) [0..<16])
   = [0x69, 0xC4, 0xE0, 0xD8, 0x6A, 0x7B, 0x04, 0x30, 0xD8, 0xCD, 0xB7, 0x80, 0x70, 0xB4, 0xC5, 0x5A]"
  by code_simp
end
