(* ===== verification/Gf128.thy ===== *)
theory Gf128
  imports Aes
begin

text \<open>
  Doubling in GF(2^128) and the 16-byte exclusive or, the arithmetic of both OCB modes:
  \<^verbatim>\<open>doubleBlock\<close> of \<^verbatim>\<open>gumble/gumble/crypt.go\<close> and the in-place helpers of
  \<^verbatim>\<open>gumble/gumble/udp15.go\<close>.  An in-place helper maps the slice's bytes before to the bytes after.
\<close>

section \<open>The routines of the code\<close>

text \<open>\<^verbatim>\<open>doubleBlock\<close> builds a new array.\<close>

definition doubleBlock :: "bytes \<Rightarrow> bytes" where
  "doubleBlock b =
    (let carry = drop_bit 7 (b ! 0) AND 1 in
     map (\<lambda>i. push_bit 1 (b ! i) OR drop_bit 7 (b ! (i + 1))) [0..<15]
     @ [push_bit 1 (b ! 15) XOR (carry * 0x87)])"

text \<open>\<^verbatim>\<open>shift2inplace\<close> writes byte \<open>i\<close> while byte \<open>i + 1\<close> still holds its old value.\<close>

definition shift2inplace :: "bytes \<Rightarrow> bytes" where
  "shift2inplace block =
    (let carry = drop_bit 7 (block ! 0) AND 1;
         block = fold (\<lambda>i blk. blk[i := push_bit 1 (blk ! i) OR drop_bit 7 (blk ! (i + 1))]) [0..<15] block
     in block[15 := push_bit 1 (block ! 15) XOR (carry * 0x87)])"

definition xor16 :: "bytes \<Rightarrow> bytes \<Rightarrow> bytes" where
  "xor16 a b = map (\<lambda>i. a ! i XOR b ! i) [0..<16]"

definition shift3inplace :: "bytes \<Rightarrow> bytes" where
  "shift3inplace block = xor16 (shift2inplace block) block"

text \<open>\<^verbatim>\<open>xorBytes(dst, a, b)\<close> writes \<^verbatim>\<open>len(dst)\<close> bytes.\<close>

definition xorBytes :: "nat \<Rightarrow> bytes \<Rightarrow> bytes \<Rightarrow> bytes" where
  "xorBytes n a b = map (\<lambda>i. a ! i XOR b ! i) [0..<n]"

section \<open>Their effect\<close>

lemma length_doubleBlock [block_simps, simp]: "length (doubleBlock b) = 16"
  by (simp add: doubleBlock_def Let_def)

lemma xor16_xorb: "length a = 16 \<Longrightarrow> length b = 16 \<Longrightarrow> xor16 a b = xorb a b"
  by (intro nth_equalityI) (simp_all add: xor16_def nth_xorb)

lemma xorBytes_xorb: "length a = n \<Longrightarrow> length b = n \<Longrightarrow> xorBytes n a b = xorb a b"
  by (intro nth_equalityI) (simp_all add: xorBytes_def nth_xorb)

lemma shift_loop:
  assumes "n < length block"
  shows "fold (\<lambda>i blk. blk[i := push_bit 1 (blk ! i) OR drop_bit 7 (blk ! (i + 1))]) [0..<n] block
    = map (\<lambda>i. push_bit 1 (block ! i) OR drop_bit 7 (block ! (i + 1))) [0..<n] @ drop n (block :: bytes)"
  using assms
proof (induction n)
  case 0
  then show ?case by simp
next
  case (Suc n)
  have "drop n block = block ! n # drop (Suc n) block"
    using Suc.prems by (simp add: Cons_nth_drop_Suc)
  moreover have "drop (Suc n) block ! 0 = block ! Suc n"
    using Suc.prems by simp
  ultimately show ?case
    using Suc by (simp add: nth_append list_update_append)
qed

text \<open>The in-place doubling of the UDP cipher computes what the allocating one of the legacy
  cipher does, on every 16-byte block.\<close>

lemma shift2inplace_doubleBlock:
  assumes "length block = 16"
  shows "shift2inplace block = doubleBlock block"
proof -
  have "drop 15 block = [block ! 15]"
    using Cons_nth_drop_Suc [of 15 block] assms by simp
  moreover have "15 < length block" using assms by simp
  ultimately show ?thesis
    unfolding shift2inplace_def doubleBlock_def Let_def shift_loop [OF \<open>15 < length block\<close>]
    by (simp add: nth_append list_update_append)
qed

lemma length_shift [block_simps]:
  "length block = 16 \<Longrightarrow> length (shift2inplace block) = 16"
  "length block = 16 \<Longrightarrow> length (shift3inplace block) = 16"
  by (simp_all add: shift2inplace_doubleBlock shift3inplace_def xor16_def)

section \<open>The field element of a block\<close>

text \<open>A block read as a polynomial over GF(2) with byte 0 holding the highest coefficients, and
  doubling as multiplication by \<open>x\<close> modulo \<open>x^128 + x^7 + x^2 + x + 1\<close>.\<close>

definition blockElem :: "bytes \<Rightarrow> 128 word" where
  "blockElem b = foldl (\<lambda>w x. push_bit 8 w OR ucast x) 0 b"

definition gfDouble :: "128 word \<Rightarrow> 128 word" where
  "gfDouble w = push_bit 1 w XOR (if bit w 127 then 0x87 else 0)"

lemma bit_blockElem:
  "bit (blockElem b) n \<longleftrightarrow> n < 128 \<and> n div 8 < length b \<and> bit (b ! (length b - 1 - n div 8)) (n mod 8)"
proof (induction b arbitrary: n rule: rev_induct)
  case Nil
  then show ?case by (simp add: blockElem_def)
next
  case (snoc x xs)
  have split: "bit (blockElem (xs @ [x])) n \<longleftrightarrow> n < 128 \<and> ((8 \<le> n \<and> bit (blockElem xs) (n - 8)) \<or> (n < 8 \<and> bit x n))"
    by (auto simp: blockElem_def bit_simps dest: bit_imp_le_length)
  show ?case
  proof (cases "n < 8")
    case True
    then show ?thesis by (simp add: split nth_append)
  next
    case False
    then have "n div 8 = Suc ((n - 8) div 8)" and "n mod 8 = (n - 8) mod 8"
      by (simp_all add: le_div_geq le_mod_geq)
    with False show ?thesis by (auto simp: split snoc.IH nth_append Suc_diff_Suc less_imp_diff_less)
  qed
qed

lemma bit_times_two: "bit (a * 2 :: 'a::len word) n \<longleftrightarrow> n < LENGTH('a) \<and> n \<noteq> 0 \<and> bit a (n - 1)"
  by (auto simp: mult.commute [of a] bit_double_iff dest: bit_imp_le_length)

lemma bit_0x87:
  "bit (0x87 :: 128 word) n \<longleftrightarrow> n < 3 \<or> n = 7" "bit (0x87 :: byte) n \<longleftrightarrow> n < 3 \<or> n = 7"
proof -
  have "(0x87 :: 128 word) = mask 3 OR push_bit 7 (mask 1)" "(0x87 :: byte) = mask 3 OR push_bit 7 (mask 1)"
    by (simp_all add: mask_eq_exp_minus_1 push_bit_eq_mult)
  then show "bit (0x87 :: 128 word) n \<longleftrightarrow> n < 3 \<or> n = 7" "bit (0x87 :: byte) n \<longleftrightarrow> n < 3 \<or> n = 7"
    by (simp_all only: bit_or_iff bit_mask_iff bit_push_bit_iff) auto
qed

lemma doubleBlock_carry: "(drop_bit 7 (x :: byte) AND 1) * c = (if bit x 7 then c else 0)"
proof -
  have "drop_bit 7 x AND 1 = of_bool (bit x 7)"
    by (rule bit_word_eqI) (auto simp: bit_simps)
  then show ?thesis by simp
qed

lemma bit_doubleBlock:
  assumes "i < 16" and "m < 8"
  shows "bit (doubleBlock b ! i) m \<longleftrightarrow>
    (if i < 15 then (if m = 0 then bit (b ! (i + 1)) 7 else bit (b ! i) (m - 1))
     else (m \<noteq> 0 \<and> bit (b ! 15) (m - 1)) \<noteq> (bit (b ! 0) 7 \<and> (m < 3 \<or> m = 7)))"
proof (cases "i < 15")
  case True
  have "bit (b ! (i + 1)) (7 + m) \<longleftrightarrow> m = 0 \<and> bit (b ! (i + 1)) 7"
    using bit_imp_le_length [of "b ! (i + 1)" "7 + m"] by auto
  with True assms show ?thesis
    by (auto simp: doubleBlock_def Let_def nth_append bit_simps bit_times_two)
next
  case False
  with assms have "i = 15" by simp
  with assms show ?thesis
    by (auto simp: doubleBlock_def Let_def nth_append doubleBlock_carry bit_simps bit_0x87 bit_times_two)
qed

text \<open>\<^verbatim>\<open>doubleBlock\<close> is multiplication by \<open>x\<close> in GF(2^128) on the field elements of blocks.\<close>

theorem doubleBlock_refines:
  assumes "length b = 16"
  shows "blockElem (doubleBlock b) = gfDouble (blockElem b)"
proof (rule bit_word_eqI)
  fix n assume "n < LENGTH(128)"
  then have n: "n < 128" by simp
  have top: "bit (blockElem b) 127 = bit (b ! 0) 7"
    using assms by (simp add: bit_blockElem)
  have low: "n div 8 < 16" "15 - n div 8 < 16" "n mod 8 < 8" using n by auto
  have dbl: "bit (gfDouble (blockElem b)) n \<longleftrightarrow>
      (n \<noteq> 0 \<and> bit (blockElem b) (n - 1)) \<noteq> (bit (b ! 0) 7 \<and> (n < 3 \<or> n = 7))"
    using n by (auto simp: gfDouble_def bit_simps bit_0x87 bit_times_two top)
  show "bit (blockElem (doubleBlock b)) n = bit (gfDouble (blockElem b)) n"
  proof (cases "n < 8")
    case True
    then show ?thesis
      using assms by (auto simp: dbl bit_blockElem bit_doubleBlock)
  next
    case False
    then have i: "15 - n div 8 < 15" using n by auto
    show ?thesis
    proof (cases "n mod 8 = 0")
      case True
      then obtain q where q: "n = 8 * Suc q" using False by (metis mod_0_imp_dvd dvdE less_numeral_extra(3) mult_0_right not0_implies_Suc zero_less_numeral)
      then have "(n - 1) div 8 = q" "(n - 1) mod 8 = 7" "n div 8 = Suc q" "15 - Suc q + 1 = 15 - q"
        "q < 15" "n - 1 < 128"
        using n by simp_all
      then show ?thesis
        using assms n i True False by (simp add: dbl bit_blockElem bit_doubleBlock)
    next
      case nz: False
      obtain q r where q: "n = 8 * q + Suc r" "Suc r < 8"
        using nz by (metis mod_less_divisor mult_div_mod_eq not0_implies_Suc zero_less_numeral)
      then have "(n - 1) div 8 = q" "(n - 1) mod 8 = r" "n div 8 = q" "n mod 8 = Suc r" "n - 1 < 128"
        using n by simp_all
      then show ?thesis
        using assms n i nz False by (simp add: dbl bit_blockElem bit_doubleBlock)
    qed
  qed
qed

theorem doubleBlock_refines_witness:
  "blockElem (doubleBlock (0x80 # replicate 15 0)) = gfDouble (blockElem (0x80 # replicate 15 0))"
  using doubleBlock_refines [of "0x80 # replicate 15 0"] by simp

end
