(* ===== verification/Ocb15.thy ===== *)
theory Ocb15
  imports Gf128
begin

text \<open>
  The OCB2 variant that protects Mumble 1.5 UDP packets: \<^verbatim>\<open>ocb15Encrypt\<close> and \<^verbatim>\<open>ocb15Decrypt\<close> of
  \<^verbatim>\<open>gumble/gumble/udp15.go\<close>.  The loop over the full blocks is a recursion on the bytes not yet
  processed (\<^verbatim>\<open>plaintext[pos:]\<close>); it returns what it appended to the output and the values of
  \<^verbatim>\<open>delta\<close> and \<^verbatim>\<open>checksum\<close> and the remaining bytes at its exit.
\<close>

section \<open>Encryption\<close>

text \<open>\<^verbatim>\<open>buf[0] ^= 1\<close>.\<close>

definition flip0 :: "bytes \<Rightarrow> bytes" where
  "flip0 xs = xs[0 := xs ! 0 XOR 1]"

text \<open>The mitigation of the XEX* attack applies to the last full block, when its first 15 bytes
  are zero.\<close>

definition flipBit :: "bytes \<Rightarrow> bool" where
  "flipBit rest = (length rest \<le> 32 \<and> list_all (\<lambda>b. b = 0) (take 15 rest))"

function encBlocks :: "block_cipher \<Rightarrow> bytes \<Rightarrow> bytes \<Rightarrow> bytes \<Rightarrow> bytes \<times> bytes \<times> bytes \<times> bytes" where
  "encBlocks block delta checksum rest =
    (if 16 < length rest then
       let delta = shift2inplace delta;
           flip = flipBit rest;
           checksum = xor16 checksum (take 16 rest);
           checksum = (if flip then flip0 checksum else checksum);
           tmp = xorBytes 16 (take 16 rest) delta;
           tmp = (if flip then flip0 tmp else tmp);
           tmp = Encrypt block tmp;
           tmp = xorBytes 16 tmp delta;
           (out, delta', checksum', rest') = encBlocks block delta checksum (drop 16 rest)
       in (tmp @ out, delta', checksum', rest')
     else ([], delta, checksum, rest))"
  by pat_completeness auto

termination
  by (relation "measure (\<lambda>(block, delta, checksum, rest). length rest)") auto

definition ocb15EncryptBlk :: "block_cipher \<Rightarrow> bytes \<Rightarrow> bytes \<Rightarrow> bytes \<times> bytes" where
  "ocb15EncryptBlk block nonce plaintext =
    (let delta = Encrypt block nonce;
         (ciphertext, delta, checksum, rest) = encBlocks block delta zero16 plaintext;
         remaining = length rest;
         delta = shift2inplace delta;
         tmp = zero16[15 := of_nat (remaining * 8)];
         pad = Encrypt block (xor16 tmp delta);
         cpart = xorBytes remaining rest (take remaining pad);
         csTemp = xor16 (pad16 cpart) pad;
         checksum = xor16 checksum csTemp;
         delta = xor16 (shift3inplace delta) checksum
     in (ciphertext @ cpart, Encrypt block delta))"

text \<open>The error of \<^verbatim>\<open>aes.NewCipher\<close> is dropped by the code; every key it is called with has the 16
  bytes of a \<^verbatim>\<open>[16]byte\<close>.\<close>

definition ocb15Encrypt :: "bytes \<Rightarrow> bytes \<Rightarrow> bytes \<Rightarrow> bytes \<times> bytes" where
  "ocb15Encrypt key nonce plaintext = ocb15EncryptBlk (aesBlock key) nonce plaintext"

section \<open>Decryption\<close>

function decBlocks :: "block_cipher \<Rightarrow> bytes \<Rightarrow> bytes \<Rightarrow> bytes \<Rightarrow> bytes \<times> bytes \<times> bytes \<times> bytes" where
  "decBlocks block delta checksum rest =
    (if 16 < length rest then
       let delta = shift2inplace delta;
           tmp = xorBytes 16 (take 16 rest) delta;
           tmp = Decrypt block tmp;
           tmp = xorBytes 16 tmp delta;
           checksum = xor16 checksum tmp;
           (out, delta', checksum', rest') = decBlocks block delta checksum (drop 16 rest)
       in (tmp @ out, delta', checksum', rest')
     else ([], delta, checksum, rest))"
  by pat_completeness auto

termination
  by (relation "measure (\<lambda>(block, delta, checksum, rest). length rest)") auto

text \<open>\<open>None\<close> is the error \<^verbatim>\<open>OCB XEX* forgery detected\<close>.\<close>

definition ocb15DecryptBlk :: "block_cipher \<Rightarrow> bytes \<Rightarrow> bytes \<Rightarrow> (bytes \<times> bytes) option" where
  "ocb15DecryptBlk block nonce ciphertext =
    (let delta = Encrypt block nonce;
         (plaintext, delta, checksum, rest) = decBlocks block delta zero16 ciphertext;
         remaining = length rest;
         delta = shift2inplace delta;
         tmp = zero16[15 := of_nat (remaining * 8)];
         pad = Encrypt block (xor16 tmp delta);
         ppart = xorBytes remaining rest (take remaining pad);
         csTemp = xor16 (pad16 rest) pad;
         checksum = xor16 checksum csTemp
     in if take 15 csTemp = take 15 delta then None
        else Some (plaintext @ ppart, Encrypt block (xor16 (shift3inplace delta) checksum)))"

definition ocb15Decrypt :: "bytes \<Rightarrow> bytes \<Rightarrow> bytes \<Rightarrow> (bytes \<times> bytes) option" where
  "ocb15Decrypt key nonce ciphertext = ocb15DecryptBlk (aesBlock key) nonce ciphertext"

declare encBlocks.simps [simp del] decBlocks.simps [simp del]

section \<open>What is transmitted\<close>

text \<open>The plaintext the receiver gets: the sender's, except that the mitigation has changed the
  first byte of an all-zero last full block.\<close>

function mitigated :: "bytes \<Rightarrow> bytes" where
  "mitigated rest =
    (if 16 < length rest then
       (if flipBit rest then flip0 (take 16 rest) else take 16 rest) @ mitigated (drop 16 rest)
     else rest)"
  by pat_completeness auto

termination
  by (relation "measure length") auto

declare mitigated.simps [simp del]

lemma flip0_xorb: "0 < length b \<Longrightarrow> length a = length b \<Longrightarrow> flip0 (xorb a b) = xorb a (flip0 b)"
  by (cases a; cases b) (simp_all add: flip0_def xor.assoc)

lemma flip0_xorb_left: "0 < length a \<Longrightarrow> length a = length b \<Longrightarrow> flip0 (xorb a b) = xorb (flip0 a) b"
  by (metis flip0_xorb xorb_commute)

lemma length_flip0 [block_simps, simp]: "length (flip0 xs) = length xs"
  by (simp add: flip0_def)

lemma length_mitigated: "length (mitigated p) = length p"
  by (induction p rule: mitigated.induct) (subst mitigated.simps, auto)

text \<open>The one case the receiver refuses an honest packet: the last block, masked as it is for the
  checksum, agrees with the last offset in its first 15 bytes (the pattern the attack needs).\<close>

definition forgeryPattern :: "block_cipher \<Rightarrow> bytes \<Rightarrow> bytes \<Rightarrow> bool" where
  "forgeryPattern block nonce plaintext =
    (let (ciphertext, delta, checksum, rest) = encBlocks block (Encrypt block nonce) zero16 plaintext;
         delta = shift2inplace delta;
         pad = Encrypt block (xor16 (zero16[15 := of_nat (length rest * 8)]) delta);
         csTemp = xor16 (pad16 (xorBytes (length rest) rest (take (length rest) pad))) pad
     in take 15 csTemp = take 15 delta)"

section \<open>Round trip, for every block cipher\<close>

context cipher_block
begin

lemma block_mask:
  assumes "length x = 16" and "length d = 16"
  shows "xorBytes 16 (Decrypt blk (xorBytes 16 (xorBytes 16 (Encrypt blk (xorb x d)) d) d)) d = x"
  using assms by (simp add: xorBytes_xorb length_Encrypt length_Decrypt xorb_cancel Decrypt_Encrypt)

lemma encBlocks_decBlocks:
  assumes "length delta = 16" and "length checksum = 16"
    and "encBlocks blk delta checksum p = (out, d, c, r)"
  shows "length d = 16 \<and> length c = 16 \<and> length r \<le> 16 \<and> length out + length r = length p
    \<and> (\<exists>pre. mitigated p = pre @ r
        \<and> (\<forall>tail. length tail = length r \<longrightarrow> decBlocks blk delta checksum (out @ tail) = (pre, d, c, tail)))"
  using assms
proof (induction "length p" arbitrary: p delta checksum out rule: less_induct)
  case less
  show ?case
  proof (cases "16 < length p")
    case False
    then have "out = []" "d = delta" "c = checksum" "r = p"
      using less.prems(3) by (simp_all add: encBlocks.simps)
    then show ?thesis
      using False less.prems by (auto simp: mitigated.simps decBlocks.simps)
  next
    case True
    let ?d = "shift2inplace delta" and ?p = "take 16 p" and ?q = "drop 16 p"
    define x where "x = (if flipBit p then flip0 ?p else ?p)"
    have len: "length ?d = 16" "length ?p = 16" "length x = 16"
      using True less.prems by (simp_all add: x_def length_shift)
    have in_block: "(if flipBit p then flip0 (xorBytes 16 ?p ?d) else xorBytes 16 ?p ?d) = xorb x ?d"
      using len by (simp add: x_def xorBytes_xorb flip0_xorb_left)
    have sum: "(if flipBit p then flip0 (xor16 checksum ?p) else xor16 checksum ?p) = xor16 checksum x"
      using len less.prems by (simp add: x_def xor16_xorb flip0_xorb)
    let ?tmp = "xorBytes 16 (Encrypt blk (xorb x ?d)) ?d"
    obtain out' where restq: "encBlocks blk ?d (xor16 checksum x) ?q = (out', d, c, r)" and out: "out = ?tmp @ out'"
      using less.prems(3) True unfolding encBlocks.simps [of blk delta checksum p] Let_def in_block sum
      by (auto split: prod.splits)
    have "length ?q < length p" and "length (xor16 checksum x) = 16"
      using True by (simp_all add: xor16_def)
    from less.hyps [OF this(1) len(1) this(2) restq]
    obtain pre where IH: "length d = 16" "length c = 16" "length r \<le> 16" "length out' + length r = length ?q"
      "mitigated ?q = pre @ r"
      "\<And>tail. length tail = length r \<Longrightarrow> decBlocks blk ?d (xor16 checksum x) (out' @ tail) = (pre, d, c, tail)"
      by blast
    have tmp: "length ?tmp = 16" by (simp add: xorBytes_def)
    have "mitigated p = (x @ pre) @ r"
      using True IH(5) by (simp add: mitigated.simps [of p] x_def)
    moreover have "decBlocks blk delta checksum (out @ tail) = (x @ pre, d, c, tail)"
      if "length tail = length r" for tail
    proof -
      have "16 < length (out @ tail)" using that out tmp IH(4) True by simp
      then show ?thesis
        using block_mask [OF len(3) len(1)] IH(6) [OF that] tmp
        by (subst decBlocks.simps) (simp add: out Let_def)
    qed
    ultimately show ?thesis using IH True tmp out by auto
  qed
qed

theorem ocb15_roundtrip:
  assumes "length nonce = 16"
  shows "case ocb15EncryptBlk blk nonce p of (c, tag) \<Rightarrow>
    length c = length p \<and> length tag = 16 \<and>
    ocb15DecryptBlk blk nonce c = (if forgeryPattern blk nonce p then None else Some (mitigated p, tag))"
proof -
  have delta: "length (Encrypt blk nonce) = 16" using assms by (rule length_Encrypt)
  obtain out d cs r where enc: "encBlocks blk (Encrypt blk nonce) zero16 p = (out, d, cs, r)"
    by (metis prod_cases4)
  from encBlocks_decBlocks [OF delta length_zero16 enc] obtain pre where
    len: "length d = 16" "length cs = 16" "length r \<le> 16" "length out + length r = length p"
    and pre: "mitigated p = pre @ r"
    and dec: "\<And>tail. length tail = length r \<Longrightarrow> decBlocks blk (Encrypt blk nonce) zero16 (out @ tail) = (pre, d, cs, tail)"
    by blast
  let ?d = "shift2inplace d"
  define pad where "pad = Encrypt blk (xor16 (zero16[15 := of_nat (length r * 8)]) ?d)"
  define cp where "cp = xorBytes (length r) r (take (length r) pad)"
  have pad: "length pad = 16" unfolding pad_def by (rule length_Encrypt) (simp add: xor16_def)
  have cp: "cp = xorb r (take (length r) pad)" "length cp = length r"
    using pad len by (simp_all add: cp_def xorBytes_xorb)
  have unmask: "xorBytes (length r) cp (take (length r) pad) = r"
    using cp pad len by (simp add: xorBytes_xorb xorb_cancel)
  have forg: "forgeryPattern blk nonce p \<longleftrightarrow> take 15 (xor16 (pad16 cp) pad) = take 15 ?d"
    by (simp add: forgeryPattern_def enc Let_def cp_def pad_def)
  define tag where "tag = Encrypt blk (xor16 (shift3inplace ?d) (xor16 cs (xor16 (pad16 cp) pad)))"
  have "ocb15EncryptBlk blk nonce p = (out @ cp, tag)"
    by (simp add: ocb15EncryptBlk_def enc Let_def cp_def pad_def tag_def)
  moreover have "length tag = 16"
    unfolding tag_def by (rule length_Encrypt) (simp add: xor16_def)
  moreover have "ocb15DecryptBlk blk nonce (out @ cp)
    = (if forgeryPattern blk nonce p then None else Some (mitigated p, tag))"
    unfolding ocb15DecryptBlk_def Let_def dec [OF cp(2)] prod.case cp(2) forg
    by (simp only: pad_def [symmetric] unmask pre tag_def)
  ultimately show ?thesis using len cp by simp
qed

end

section \<open>Round trip with AES-128\<close>

text \<open>C17. Decrypting a UDP payload with the key and nonce it was encrypted with gives back the
  plaintext (with the first byte of an all-zero last full block marked by the XEX* mitigation) and
  the sender's tag, for every plaintext length; the only payload refused is one that shows the
  forgery pattern.\<close>

theorem udp_cipher_roundtrip:
  assumes "length key = 16" and "length nonce = 16"
  shows "case ocb15Encrypt key nonce p of (c, tag) \<Rightarrow>
    length c = length p \<and> length tag = 16 \<and>
    ocb15Decrypt key nonce c
      = (if forgeryPattern (aesBlock key) nonce p then None else Some (mitigated p, tag))"
  using aes.ocb15_roundtrip [where key = key and nonce = nonce and p = p, OF assms(2)]
  by (simp only: pad16_id [OF assms(1)] ocb15Encrypt_def ocb15Decrypt_def)

theorem udp_cipher_roundtrip_witness:
  "case ocb15Encrypt zero16 zero16 [1, 2, 3] of (c, tag) \<Rightarrow>
    length c = length [1, 2, 3 :: byte] \<and> length tag = 16 \<and>
    ocb15Decrypt zero16 zero16 c
      = (if forgeryPattern (aesBlock zero16) zero16 [1, 2, 3] then None else Some (mitigated [1, 2, 3], tag))"
  by (rule udp_cipher_roundtrip) simp_all

text \<open>The mitigation touches no payload of at most one block and none whose last full block
  starts with a nonzero byte among its first 15.\<close>

lemma mitigated_short: "length p \<le> 16 \<Longrightarrow> mitigated p = p"
  by (simp add: mitigated.simps)

end
