(* ===== verification/CryptState15.thy ===== *)
theory CryptState15
  imports Ocb15
begin

text \<open>
  The packet state of Mumble 1.5 UDP encryption: \<^verbatim>\<open>cryptState15\<close> of \<^verbatim>\<open>gumble/gumble/udp15.go\<close>.
  A packet is \<^verbatim>\<open>[iv_byte(1)][tag(3)][ciphertext]\<close>; the nonce is the 16-byte IV, a little-endian
  counter of which only byte 0 is sent.  An operation takes the state and returns its result with
  the state after it; the mutex makes each operation atomic, so a run is a sequence of them.
\<close>

section \<open>IV arithmetic\<close>

fun advanceIV :: "bytes \<Rightarrow> bytes" where
  "advanceIV [] = []"
| "advanceIV (b # iv) = (if b + 1 \<noteq> 0 then (b + 1) # iv else (b + 1) # advanceIV iv)"

fun advanceIVHighBytes :: "bytes \<Rightarrow> bytes" where
  "advanceIVHighBytes [] = []"
| "advanceIVHighBytes (b # iv) = b # advanceIV iv"

fun backupIV :: "bytes \<Rightarrow> bytes" where
  "backupIV [] = []"
| "backupIV (b # iv) = (if b = 0 then 0xFF # backupIV iv else (b - 1) # iv)"

section \<open>State\<close>

datatype crypt_error =
    NotInitialized | InvalidKeyNonce | PacketTooShort | IVTooFarOff | ReplayDetected
  | ForgeryDetected | AuthenticationFailed

record cryptState15 =
  key :: bytes
  encryptIV :: bytes
  decryptIV :: bytes
  history :: bytes
  initialized :: bool

text \<open>\<^verbatim>\<open>&cryptState15{}\<close>.\<close>

definition newCryptState15 :: cryptState15 where
  "newCryptState15 = \<lparr>key = zero16, encryptIV = zero16, decryptIV = zero16,
     history = replicate 256 0, initialized = False\<rparr>"

definition setup15 :: "bytes \<Rightarrow> bytes \<Rightarrow> bytes \<Rightarrow> cryptState15 \<Rightarrow> crypt_error option \<times> cryptState15" where
  "setup15 k clientNonce serverNonce cs =
    (if length k \<noteq> 16 \<or> length clientNonce \<noteq> 16 \<or> length serverNonce \<noteq> 16
     then (Some InvalidKeyNonce, cs)
     else (None, cs\<lparr>key := k, encryptIV := clientNonce, decryptIV := serverNonce, initialized := True\<rparr>))"

section \<open>Sending\<close>

definition encrypt15 :: "bytes \<Rightarrow> cryptState15 \<Rightarrow> (crypt_error + bytes) \<times> cryptState15" where
  "encrypt15 plaintext cs =
    (if \<not> initialized cs then (Inl NotInitialized, cs)
     else
       let cs = cs\<lparr>encryptIV := advanceIV (encryptIV cs)\<rparr>;
           (ciphertext, tag) = ocb15Encrypt (key cs) (encryptIV cs) plaintext
       in (Inr ([encryptIV cs ! 0, tag ! 0, tag ! 1, tag ! 2] @ ciphertext), cs))"

section \<open>Receiving\<close>

text \<open>
  The choice of the IV for a received IV byte: the new \<^verbatim>\<open>decryptIV\<close> and whether it is to be
  restored after the packet (a late packet), or the error.  The flag in the middle says whether
  the packet is subject to the replay check (every packet but the next in order).
\<close>

definition chooseIV :: "bytes \<Rightarrow> byte \<Rightarrow> (bytes \<times> bool \<times> bool) option" where
  "chooseIV iv ivByte =
    (if iv ! 0 + 1 = ivByte then
       (let iv = (if ivByte < iv ! 0 then advanceIV iv else iv) in Some (iv[0 := ivByte], False, False))
     else
       let diff = int (unat ivByte) - int (unat (iv ! 0));
           diff = (if diff < -128 then diff + 256 else if diff > 128 then diff - 256 else diff)
       in
       if ivByte < iv ! 0 \<and> diff > -30 \<and> diff < 0 then Some (iv[0 := ivByte], True, True)
       else if ivByte > iv ! 0 \<and> diff > -30 \<and> diff < 0 then
         Some (backupIV (iv[0 := ivByte]), True, True)
       else if ivByte > iv ! 0 \<and> diff > 0 then Some (iv[0 := ivByte], True, False)
       else if ivByte < iv ! 0 \<and> diff > 0 then Some ((advanceIVHighBytes iv)[0 := ivByte], True, False)
       else None)"

definition decrypt15 :: "bytes \<Rightarrow> cryptState15 \<Rightarrow> (crypt_error + bytes) \<times> cryptState15" where
  "decrypt15 packet cs =
    (if \<not> initialized cs then (Inl NotInitialized, cs)
     else if length packet < 4 then (Inl PacketTooShort, cs)
     else
       let ivByte = packet ! 0;
           expectedTag = take 3 (drop 1 packet);
           encrypted = drop 4 packet;
           savedIV = decryptIV cs
       in
       case chooseIV savedIV ivByte of
         None \<Rightarrow> (Inl IVTooFarOff, cs)
       | Some (iv, check, restore) \<Rightarrow>
           let cs = cs\<lparr>decryptIV := iv\<rparr>; h = history cs ! unat ivByte in
           if check \<and> h \<noteq> 0 \<and> h = iv ! 1 then (Inl ReplayDetected, cs\<lparr>decryptIV := savedIV\<rparr>)
           else
             (case ocb15Decrypt (key cs) (decryptIV cs) encrypted of
                None \<Rightarrow> (Inl ForgeryDetected, cs\<lparr>decryptIV := savedIV\<rparr>)
              | Some (plaintext, tag) \<Rightarrow>
                  if take 3 tag \<noteq> expectedTag then
                    (Inl AuthenticationFailed, cs\<lparr>decryptIV := savedIV\<rparr>)
                  else
                    let cs = cs\<lparr>history := (history cs)[unat ivByte := decryptIV cs ! 1]\<rparr>;
                        cs = (if restore then cs\<lparr>decryptIV := savedIV\<rparr> else cs)
                    in (Inr plaintext, cs)))"

section \<open>The IV is a little-endian counter\<close>

fun ivValue :: "bytes \<Rightarrow> nat" where
  "ivValue [] = 0"
| "ivValue (b # iv) = unat b + 256 * ivValue iv"

lemma unat_byte: "unat (b :: byte) < 256"
  using unsigned_less [of b] by simp

lemma byte_succ: "unat (b + 1 :: byte) = (if b + 1 = 0 then 0 else unat b + 1)"
proof -
  have "unat (b + 1) = (unat b + 1) mod 256" by (simp add: unat_word_ariths)
  then show ?thesis using unat_byte [of b] by (cases "unat b = 255") (auto simp: unat_eq_0 [symmetric])
qed

lemma byte_wrap: "(b :: byte) + 1 = 0 \<Longrightarrow> unat b = 255"
  using unat_byte [of b] by (simp add: unat_eq_0 [symmetric] unat_word_ariths) presburger

lemma length_advanceIV [block_simps, simp]: "length (advanceIV iv) = length iv"
  by (induction iv) (simp_all add: Let_def)

lemma length_IV_ops [block_simps, simp]:
  "length (advanceIVHighBytes iv) = length iv" "length (backupIV iv) = length iv"
  "length ((advanceIV ^^ n) iv) = length iv"
proof -
  show "length (advanceIVHighBytes iv) = length iv" by (cases iv) simp_all
  show "length (backupIV iv) = length iv" by (induction iv) simp_all
  show "length ((advanceIV ^^ n) iv) = length iv" by (induction n) simp_all
qed

lemma ivValue_bound: "ivValue iv < 256 ^ length iv"
proof (induction iv)
  case (Cons b iv)
  then show ?case using unat_byte [of b] by simp
qed simp

lemma ivValue_advance: "ivValue (advanceIV iv) = (ivValue iv + 1) mod 256 ^ length iv"
proof (induction iv)
  case (Cons b iv)
  show ?case
  proof (cases "b + 1 = 0")
    case True
    then have "unat b = 255" by (rule byte_wrap)
    then have "(ivValue (b # iv) + 1) mod 256 ^ length (b # iv)
        = (256 * (ivValue iv + 1)) mod (256 * 256 ^ length iv)" by simp
    also have "\<dots> = 256 * ((ivValue iv + 1) mod 256 ^ length iv)" by (rule mult_mod_right [symmetric])
    finally show ?thesis using True Cons by simp
  next
    case False
    then have "unat b < 255" using byte_succ [of b] unat_byte [of "b + 1"] by auto
    then have "unat b + 256 * ivValue iv + 1 < 256 ^ length (b # iv)"
      using ivValue_bound [of iv] by simp
    with False show ?thesis by (simp add: byte_succ)
  qed
qed simp

lemma backupIV_advanceIV: "backupIV (advanceIV iv) = iv"
proof (induction iv)
  case (Cons b iv)
  have "b + 1 = 0 \<Longrightarrow> b = 0xFF" using byte_wrap [of b] by (simp add: word_unat_eq_iff)
  with Cons show ?case by auto
qed simp

text \<open>Fewer than 256 steps carry into the high bytes at most once.\<close>

lemma advanceIV_pow:
  assumes "g < 256"
  shows "(advanceIV ^^ g) (b # iv) = (b + of_nat g) # (if unat b + g < 256 then iv else advanceIV iv)"
  using assms
proof (induction g)
  case 0
  then show ?case using unat_byte [of b] by simp
next
  case (Suc g)
  have val: "unat (b + of_nat g) = (unat b + g) mod 256"
    using Suc.prems by (simp add: unat_word_ariths unat_of_nat)
  have wrap: "b + of_nat g + 1 = 0 \<longleftrightarrow> unat b + Suc g = 256"
  proof -
    have "b + of_nat g + 1 = 0 \<longleftrightarrow> unat (b + of_nat g + 1) = 0" by (simp add: unat_eq_0)
    also have "\<dots> \<longleftrightarrow> (unat b + Suc g) mod 256 = 0" using Suc.prems by (simp add: unat_word_ariths unat_of_nat mod_simps)
    also have "\<dots> \<longleftrightarrow> unat b + Suc g = 256"
    proof
      assume "(unat b + Suc g) mod 256 = 0"
      then obtain k where k: "unat b + Suc g = 256 * k" by (auto simp: mod_eq_0_iff_dvd elim!: dvdE)
      then have "k \<noteq> 0" by (cases k) simp_all
      moreover have "k < 2" using k Suc.prems unat_byte [of b] by linarith
      ultimately have "k = 1" by simp
      with k show "unat b + Suc g = 256" by simp
    qed simp
    finally show ?thesis .
  qed
  show ?case using Suc wrap by (auto simp: add.assoc add.commute [of 1])
qed

lemma iv_cases: "length iv = 16 \<Longrightarrow> (\<And>b tl. iv = b # tl \<Longrightarrow> length tl = 15 \<Longrightarrow> P) \<Longrightarrow> P"
  by (cases iv) simp_all

lemma byte_less_nat: "(a :: byte) < b \<longleftrightarrow> unat a < unat b"
  by (rule word_less_nat_alt)

lemma unat_step:
  fixes b :: byte
  assumes "g < 256"
  shows "unat (b + of_nat g) = (if unat b + g < 256 then unat b + g else unat b + g - 256)"
  using assms unat_byte [of b] by (simp add: unat_word_ariths unat_of_nat mod_if)

lemma next_byte: "(of_nat g :: byte) = 1 \<longleftrightarrow> g mod 256 = 1"
  by (simp add: word_unat_eq_iff unat_of_nat)

section \<open>The branches of chooseIV\<close>

lemma chooseIV_next:
  "chooseIV (b # iv) (b + 1) = Some ((b + 1) # (if unat b < 255 then iv else advanceIV iv), False, False)"
proof (cases "unat b < 255")
  case True
  then have "\<not> b + 1 < b" by (simp add: byte_less_nat unat_word_ariths)
  then show ?thesis using True by (simp add: chooseIV_def)
next
  case False
  then have "unat b = 255" using unat_byte [of b] by simp
  then have "b + 1 = 0" "b \<noteq> 0" by (auto simp: unat_eq_0 [symmetric] unat_word_ariths)
  then show ?thesis using False by (simp add: chooseIV_def word_gt_0)
qed

lemma chooseIV_other:
  assumes "c \<noteq> b + 1"
  shows
    "unat b < unat c \<Longrightarrow> unat c \<le> unat b + 128 \<Longrightarrow> chooseIV (b # iv) c = Some (c # iv, True, False)"
    "unat c + 128 < unat b \<Longrightarrow> chooseIV (b # iv) c = Some (c # advanceIV iv, True, False)"
    "unat c < unat b \<Longrightarrow> unat b < unat c + 30 \<Longrightarrow> chooseIV (b # iv) c = Some (c # iv, True, True)"
    "unat b + 226 < unat c \<Longrightarrow> chooseIV (b # iv) c = Some (backupIV (c # iv), True, True)"
    "unat b = unat c \<or> unat c < unat b \<and> unat c + 30 \<le> unat b \<and> unat b \<le> unat c + 128
      \<or> unat b + 128 < unat c \<and> unat c \<le> unat b + 226 \<Longrightarrow> chooseIV (b # iv) c = None"
proof -
  have ne: "(b + 1 = c) = False" using assms by simp
  obtain x y where xy: "unat b = x" "unat c = y" and bound: "x < 256" "y < 256"
    using unat_byte [of b] unat_byte [of c] by blast
  note eq = chooseIV_def ne if_False nth_Cons_0 Let_def byte_less_nat list_update_code advanceIVHighBytes.simps xy
  show "chooseIV (b # iv) c = Some (c # iv, True, False)" if "unat b < unat c" "unat c \<le> unat b + 128"
    using that bound unfolding eq by simp
  show "chooseIV (b # iv) c = Some (c # advanceIV iv, True, False)" if "unat c + 128 < unat b"
    using that bound unfolding eq by simp
  show "chooseIV (b # iv) c = Some (c # iv, True, True)" if "unat c < unat b" "unat b < unat c + 30"
    using that bound unfolding eq by simp
  show "chooseIV (b # iv) c = Some (backupIV (c # iv), True, True)" if "unat b + 226 < unat c"
    using that bound unfolding eq by simp
  show "chooseIV (b # iv) c = None" if "unat b = unat c \<or> unat c < unat b \<and> unat c + 30 \<le> unat b \<and> unat b \<le> unat c + 128
      \<or> unat b + 128 < unat c \<and> unat c \<le> unat b + 226"
    using that bound unfolding eq by (elim disjE conjE) simp_all
qed

lemma chooseIV_length: "chooseIV iv0 c = Some (iv, check, restore) \<Longrightarrow> length iv = length iv0"
proof -
  have "\<exists>diff :: int. chooseIV iv0 c =
    (if iv0 ! 0 + 1 = c then Some ((if c < iv0 ! 0 then advanceIV iv0 else iv0)[0 := c], False, False)
     else if c < iv0 ! 0 \<and> diff > -30 \<and> diff < 0 then Some (iv0[0 := c], True, True)
     else if c > iv0 ! 0 \<and> diff > -30 \<and> diff < 0 then Some (backupIV (iv0[0 := c]), True, True)
     else if c > iv0 ! 0 \<and> diff > 0 then Some (iv0[0 := c], True, False)
     else if c < iv0 ! 0 \<and> diff > 0 then Some ((advanceIVHighBytes iv0)[0 := c], True, False)
     else None)"
    unfolding chooseIV_def Let_def by (rule exI, rule refl)
  then show "chooseIV iv0 c = Some (iv, check, restore) \<Longrightarrow> length iv = length iv0"
    by (elim exE) (simp split: if_split_asm, auto)
qed

section \<open>Which IV a packet is decrypted with\<close>

text \<open>The receiver recovers the sender's IV from its low byte alone, over every loss of up to
  126 packets and across every wrap of that byte: for a packet \<open>g\<close> ahead (1 to 127) the IV chosen
  is the receiver's advanced \<open>g\<close> times, it is kept, and the replay check applies except to the
  next packet in order.\<close>

lemma chooseIV_gap:
  assumes "length r = 16" and "1 \<le> g" and "g \<le> 127"
  shows "chooseIV r ((advanceIV ^^ g) r ! 0) = Some ((advanceIV ^^ g) r, g \<noteq> 1, False)"
proof -
  obtain b iv where r: "r = b # iv" using assms(1) by (rule iv_cases)
  have pow: "(advanceIV ^^ g) r = (b + of_nat g) # (if unat b + g < 256 then iv else advanceIV iv)"
    unfolding r using assms by (intro advanceIV_pow) simp
  have step: "unat (b + of_nat g) = (if unat b + g < 256 then unat b + g else unat b + g - 256)"
    using assms by (intro unat_step) simp
  show ?thesis
  proof (cases "g = 1")
    case True
    then show ?thesis
      using chooseIV_next [of b iv] unat_byte [of b] unfolding pow by (simp add: True r less_Suc_eq)
  next
    case False
    then have "b + of_nat g \<noteq> b + 1" using assms next_byte [of g] by auto
    note other = chooseIV_other(1,2) [OF this, of iv]
    show ?thesis
      using step assms False other unfolding pow by (cases "unat b + g < 256") (simp_all add: r)
  qed
qed

text \<open>A late packet, up to 29 behind the receiver, is decrypted with its own IV, under the
  replay check and without moving the receiver's IV, as long as the low IV byte has not wrapped
  between the two; when it has, the IV chosen is never the sender's: the code sets the low byte
  first and decrements it again with the rest.\<close>

theorem chooseIV_late:
  assumes "length s = 16" and "1 \<le> k" and "k \<le> 29"
  shows "if unat (s ! 0) + k < 256
    then chooseIV ((advanceIV ^^ k) s) (s ! 0) = Some (s, True, True)
    else \<exists>iv. chooseIV ((advanceIV ^^ k) s) (s ! 0) = Some (iv, True, True) \<and> iv ! 0 = s ! 0 - 1"
proof -
  obtain b iv where s: "s = b # iv" using assms(1) by (rule iv_cases)
  have pow: "(advanceIV ^^ k) s = (b + of_nat k) # (if unat b + k < 256 then iv else advanceIV iv)"
    unfolding s using assms by (intro advanceIV_pow) simp
  have step: "unat (b + of_nat k) = (if unat b + k < 256 then unat b + k else unat b + k - 256)"
    using assms by (intro unat_step) simp
  have "b \<noteq> b + of_nat k + 1"
  proof
    assume "b = b + of_nat k + 1"
    then have "(of_nat (k + 1) :: byte) = 0" by (simp add: add.commute)
    then have "unat (of_nat (k + 1) :: byte) = 0" by (simp only: unat_0)
    then show False using assms by (simp add: unat_of_nat del: of_nat_add of_nat_Suc)
  qed
  note other = chooseIV_other(3,4) [OF this]
  show ?thesis
  proof (cases "unat b + k < 256")
    case True
    then show ?thesis using step assms other(1) unfolding pow by (simp add: s)
  next
    case False
    then have "b \<noteq> 0" using assms by auto
    with False show ?thesis using step assms other(2) unfolding pow by (simp add: s)
  qed
qed

theorem chooseIV_late_witness:
  "if unat (zero16 ! 0) + 2 < 256
    then chooseIV ((advanceIV ^^ 2) zero16) (zero16 ! 0) = Some (zero16, True, True)
    else \<exists>iv. chooseIV ((advanceIV ^^ 2) zero16) (zero16 ! 0) = Some (iv, True, True) \<and> iv ! 0 = zero16 ! 0 - 1"
  by (rule chooseIV_late) simp_all

section \<open>Packets between two ends\<close>

definition wfCrypt :: "cryptState15 \<Rightarrow> bool" where
  "wfCrypt cs = (length (key cs) = 16 \<and> length (encryptIV cs) = 16 \<and> length (decryptIV cs) = 16
     \<and> length (history cs) = 256)"

text \<open>The packet that carries \<open>p\<close> under an IV, and the state of a receiver that accepted a packet.\<close>

definition sealed :: "bytes \<Rightarrow> bytes \<Rightarrow> bytes \<Rightarrow> bytes" where
  "sealed k iv p = (let (c, tag) = ocb15Encrypt k iv p in [iv ! 0, tag ! 0, tag ! 1, tag ! 2] @ c)"

definition accepted :: "bytes \<Rightarrow> bool \<Rightarrow> byte \<Rightarrow> cryptState15 \<Rightarrow> cryptState15" where
  "accepted iv restore ivByte cs = cs\<lparr>history := (history cs)[unat ivByte := iv ! 1],
     decryptIV := (if restore then decryptIV cs else iv)\<rparr>"

lemma encrypt15_sealed:
  "initialized cs \<Longrightarrow> encrypt15 p cs = (let iv = advanceIV (encryptIV cs) in
    (Inr (sealed (key cs) iv p), cs\<lparr>encryptIV := iv\<rparr>))"
  by (simp add: encrypt15_def sealed_def Let_def split: prod.splits)

lemma sealed_shape:
  assumes "length k = 16" and "length iv = 16"
  obtains c tag where "ocb15Encrypt k iv p = (c, tag)" "length tag = 16"
    "sealed k iv p = iv ! 0 # take 3 tag @ c"
    "ocb15Decrypt k iv c = (if forgeryPattern (aesBlock k) iv p then None else Some (mitigated p, tag))"
proof -
  obtain c tag where enc: "ocb15Encrypt k iv p = (c, tag)" by (metis surj_pair)
  with aes.ocb15_roundtrip [where key = k and nonce = iv and p = p, OF assms(2)]
  have rt: "length tag = 16"
    "ocb15Decrypt k iv c = (if forgeryPattern (aesBlock k) iv p then None else Some (mitigated p, tag))"
    by (simp_all add: pad16_id [OF assms(1)] ocb15Encrypt_def ocb15Decrypt_def)
  have "take 3 tag = [tag ! 0, tag ! 1, tag ! 2]"
    using rt(1) by (simp add: list_eq_iff_nth_eq less_Suc_eq numeral_3_eq_3 numeral_2_eq_2)
  then show thesis using that [OF enc rt(1) _ rt(2)] by (simp add: sealed_def enc)
qed

lemma decrypt15_sealed:
  assumes "wfCrypt cs" and "initialized cs" and "length iv = 16"
    and "chooseIV (decryptIV cs) (iv ! 0) = Some (iv, check, restore)"
    and "\<not> forgeryPattern (aesBlock (key cs)) iv p"
    and "check \<Longrightarrow> history cs ! unat (iv ! 0) = 0 \<or> history cs ! unat (iv ! 0) \<noteq> iv ! 1"
  shows "decrypt15 (sealed (key cs) iv p) cs = (Inr (mitigated p), accepted iv restore (iv ! 0) cs)"
proof -
  have len: "length (key cs) = 16" using assms(1) by (simp add: wfCrypt_def)
  obtain c tag where pkt: "sealed (key cs) iv p = iv ! 0 # take 3 tag @ c"
    and tag: "length tag = 16" and dec: "ocb15Decrypt (key cs) iv c = Some (mitigated p, tag)"
    using sealed_shape [OF len assms(3), of p] assms(5) by metis
  have "\<not> (check \<and> history cs ! unat (iv ! 0) \<noteq> 0 \<and> history cs ! unat (iv ! 0) = iv ! 1)"
    using assms(6) by blast
  then show ?thesis
    using assms(2) tag dec unfolding pkt
    by (simp add: decrypt15_def assms(4) accepted_def Let_def)
qed

text \<open>A payload of one block is never refused unless it is the offset itself: its complement is a
  payload without the forgery pattern, for every key and nonce.\<close>

definition plainBlock :: "bytes \<Rightarrow> bytes \<Rightarrow> bytes" where
  "plainBlock k iv = map NOT (shift2inplace (Encrypt (aesBlock k) iv))"

lemma plainBlock_ok:
  assumes "length k = 16" and "length iv = 16"
  shows "\<not> forgeryPattern (aesBlock k) iv (plainBlock k iv)" and "mitigated (plainBlock k iv) = plainBlock k iv"
proof -
  let ?d = "shift2inplace (Encrypt (aesBlock k) iv)"
  have len: "length (Encrypt (aesBlock k) x) = 16" if "length x = 16" for x
    using aes.length_Encrypt [where key = k] that by (simp add: pad16_id [OF assms(1)])
  have d: "length ?d = 16" using len [OF assms(2)] by (simp add: length_shift)
  then have p: "length (plainBlock k iv) = 16" by (simp add: plainBlock_def)
  then show "mitigated (plainBlock k iv) = plainBlock k iv" by (simp add: mitigated_short)
  have "NOT b \<noteq> b" for b :: byte
  proof
    assume "NOT b = b"
    then have "bit (NOT b) 0 = bit b 0" by simp
    then show False by (simp add: bit_not_iff)
  qed
  then have "take 15 (plainBlock k iv) \<noteq> take 15 ?d"
    using d by (cases ?d) (auto simp: plainBlock_def)
  moreover define pad where "pad = Encrypt (aesBlock k) (xor16 (zero16[15 := of_nat (16 * 8)]) ?d)"
  then have pad: "length pad = 16" by (simp add: len xor16_def)
  then have "xor16 (pad16 (xorBytes 16 (plainBlock k iv) (take 16 pad))) pad = plainBlock k iv"
    using p by (simp add: xorBytes_xorb xor16_xorb pad16_id xorb_cancel)
  ultimately show "\<not> forgeryPattern (aesBlock k) iv (plainBlock k iv)"
    using p by (simp add: forgeryPattern_def encBlocks.simps Let_def pad_def)
qed

text \<open>C16. A packet that is encrypted after \<open>g - 1\<close> lost ones (\<open>g\<close> from 1 to 127) is decrypted to its
  payload, and the receiver's IV catches up with the sender's, unless the payload shows the forgery
  pattern or the replay history holds the same high byte for that slot.\<close>

theorem udp15_delivery:
  assumes "wfCrypt cs" and "wfCrypt cd" and "initialized cs" and "initialized cd" and "key cd = key cs"
    and "1 \<le> g" and "g \<le> 127" and "encryptIV cs = (advanceIV ^^ (g - 1)) (decryptIV cd)"
    and "encrypt15 p cs = (Inr pkt, cs')"
    and "\<not> forgeryPattern (aesBlock (key cs)) (encryptIV cs') p"
    and "g = 1 \<or> history cd ! unat (pkt ! 0) = 0 \<or> history cd ! unat (pkt ! 0) \<noteq> encryptIV cs' ! 1"
  shows "\<exists>cd'. decrypt15 pkt cd = (Inr (mitigated p), cd') \<and> decryptIV cd' = encryptIV cs'
    \<and> history cd' = (history cd)[unat (pkt ! 0) := encryptIV cs' ! 1]"
proof -
  let ?iv = "encryptIV cs'"
  have pkt: "pkt = sealed (key cd) ?iv p" and iv: "?iv = advanceIV (encryptIV cs)"
    using encrypt15_sealed [OF assms(3), of p] assms(5,9) by (auto simp: Let_def)
  have len: "length (decryptIV cd) = 16" "length ?iv = 16"
    using assms(1,2) iv by (simp_all add: wfCrypt_def)
  have "Suc (g - 1) = g" using assms(6) by simp
  then have steps: "?iv = (advanceIV ^^ g) (decryptIV cd)"
    using iv assms(8) by (metis comp_apply funpow.simps(2))
  then have choose: "chooseIV (decryptIV cd) (?iv ! 0) = Some (?iv, g \<noteq> 1, False)"
    using chooseIV_gap [OF len(1) assms(6,7)] by simp
  have "pkt ! 0 = ?iv ! 0" unfolding pkt by (simp add: sealed_def split: prod.splits)
  then show ?thesis
    using decrypt15_sealed [OF assms(2,4) len(2) choose] assms(5,10,11) unfolding pkt
    by (auto simp: accepted_def)
qed

definition ivAt :: "byte \<Rightarrow> bytes" where
  "ivAt b = b # replicate 15 0"

definition endAt :: "byte \<Rightarrow> cryptState15" where
  "endAt b = newCryptState15\<lparr>encryptIV := ivAt b, decryptIV := ivAt b, initialized := True\<rparr>"

lemma endAt_ok [simp]:
  "wfCrypt (endAt b)" "initialized (endAt b)" "key (endAt b) = zero16" "encryptIV (endAt b) = ivAt b"
  "decryptIV (endAt b) = ivAt b" "length (ivAt b) = 16"
  "ivAt b ! 0 = b" "ivAt b ! Suc 0 = 0" "history (endAt b) = replicate 256 0"
  by (simp_all add: endAt_def wfCrypt_def newCryptState15_def ivAt_def)

text \<open>The sender's IV is at 4, the receiver's at 1: packets 2 to 4 were lost.\<close>

theorem udp15_delivery_witness:
  "\<exists>cd'. decrypt15 (sealed zero16 (ivAt 5) (plainBlock zero16 (ivAt 5))) (endAt 1)
      = (Inr (mitigated (plainBlock zero16 (ivAt 5))), cd')
    \<and> decryptIV cd' = ivAt 5"
proof -
  have adv: "advanceIV (ivAt 4) = ivAt 5" "(advanceIV ^^ (4 - 1)) (ivAt 1) = ivAt 4"
    by (simp_all add: ivAt_def numeral_3_eq_3)
  then have "encrypt15 (plainBlock zero16 (ivAt 5)) (endAt 4)
      = (Inr (sealed zero16 (ivAt 5) (plainBlock zero16 (ivAt 5))), (endAt 4)\<lparr>encryptIV := ivAt 5\<rparr>)"
    by (simp add: encrypt15_sealed Let_def)
  moreover have "history (endAt 1) ! unat (x :: byte) = 0" for x
    using unat_byte [of x] by simp
  ultimately show ?thesis
    using udp15_delivery [of "endAt 4" "endAt 1" 4 "plainBlock zero16 (ivAt 5)"
        "sealed zero16 (ivAt 5) (plainBlock zero16 (ivAt 5))" "(endAt 4)\<lparr>encryptIV := ivAt 5\<rparr>"] adv
    by (auto simp: plainBlock_ok)
qed

text \<open>A lossless run: every payload in turn is sent by one end and received by the other.\<close>

fun exchange :: "bytes list \<Rightarrow> cryptState15 \<times> cryptState15 \<Rightarrow> (crypt_error + bytes) list" where
  "exchange [] (cs, cd) = []"
| "exchange (p # ps) (cs, cd) =
    (case encrypt15 p cs of
       (Inl e, cs') \<Rightarrow> Inl e # exchange ps (cs', cd)
     | (Inr pkt, cs') \<Rightarrow> (case decrypt15 pkt cd of (r, cd') \<Rightarrow> r # exchange ps (cs', cd')))"

lemma advanceIV_pow_Suc: "(advanceIV ^^ n) (advanceIV iv) = (advanceIV ^^ Suc n) iv"
  by (simp add: funpow_swap1)

text \<open>Two ends set up with the same key and matching nonces, with no packet lost, exchange any
  number of payloads: each arrives as it was sent, through every wrap of the IV's bytes.\<close>

theorem udp15_lossless:
  assumes "wfCrypt cs" and "wfCrypt cd" and "initialized cs" and "initialized cd" and "key cd = key cs"
    and "decryptIV cd = encryptIV cs"
    and "\<forall>i < length ps. \<not> forgeryPattern (aesBlock (key cs)) ((advanceIV ^^ Suc i) (encryptIV cs)) (ps ! i)"
  shows "exchange ps (cs, cd) = map (\<lambda>p. Inr (mitigated p)) ps"
  using assms
proof (induction ps arbitrary: cs cd)
  case (Cons p ps)
  let ?iv = "advanceIV (encryptIV cs)"
  have len: "length (decryptIV cd) = 16" "length ?iv = 16"
    using Cons.prems(1,2) by (simp_all add: wfCrypt_def)
  have choose: "chooseIV (decryptIV cd) (?iv ! 0) = Some (?iv, False, False)"
    using chooseIV_gap [OF len(1), of 1] Cons.prems(6) by simp
  have "\<not> forgeryPattern (aesBlock (key cd)) ?iv p"
    using Cons.prems(5,7) by (auto dest: spec [of _ 0])
  then have dec: "decrypt15 (sealed (key cs) ?iv p) cd = (Inr (mitigated p), accepted ?iv False (?iv ! 0) cd)"
    using decrypt15_sealed [OF Cons.prems(2,4) len(2) choose] Cons.prems(5) by simp
  have "exchange ps (cs\<lparr>encryptIV := ?iv\<rparr>, accepted ?iv False (?iv ! 0) cd) = map (\<lambda>p. Inr (mitigated p)) ps"
  proof (rule Cons.IH)
    show "\<forall>i < length ps. \<not> forgeryPattern (aesBlock (key (cs\<lparr>encryptIV := ?iv\<rparr>)))
        ((advanceIV ^^ Suc i) (encryptIV (cs\<lparr>encryptIV := ?iv\<rparr>))) (ps ! i)"
    proof (intro allI impI)
      fix i assume "i < length ps"
      then have "\<not> forgeryPattern (aesBlock (key cs)) ((advanceIV ^^ Suc (Suc i)) (encryptIV cs)) (ps ! i)"
        using Cons.prems(7) by (metis Suc_less_eq length_Cons nth_Cons_Suc)
      then show "\<not> forgeryPattern (aesBlock (key (cs\<lparr>encryptIV := ?iv\<rparr>)))
        ((advanceIV ^^ Suc i) (encryptIV (cs\<lparr>encryptIV := ?iv\<rparr>))) (ps ! i)"
        by (simp add: advanceIV_pow_Suc del: funpow.simps)
    qed
  qed (use Cons.prems len in \<open>simp_all add: wfCrypt_def accepted_def\<close>)
  then show ?case using encrypt15_sealed [OF Cons.prems(3)] dec by (simp add: Let_def)
qed simp

theorem udp15_lossless_witness:
  "exchange [plainBlock zero16 (ivAt 5)] (endAt 4, endAt 4) = [Inr (mitigated (plainBlock zero16 (ivAt 5)))]"
proof -
  have "advanceIV (ivAt 4) = ivAt 5" by (simp add: ivAt_def)
  then show ?thesis
    using udp15_lossless [of "endAt 4" "endAt 4" "[plainBlock zero16 (ivAt 5)]"] by (simp add: plainBlock_ok)
qed

section \<open>Errors, replays and the invariant\<close>

lemma decrypt15_error: "decrypt15 pkt cs = (Inl e, cs') \<Longrightarrow> cs' = cs"
  unfolding decrypt15_def Let_def
  by (auto split: if_splits option.splits prod.splits)

text \<open>A rejected packet changes nothing: whatever the error, the state is the one before.\<close>

theorem decrypt15_error_unchanged: "decrypt15 pkt cs = (Inl e, cs') \<Longrightarrow> cs' = cs"
  by (rule decrypt15_error)

theorem decrypt15_error_unchanged_witness:
  "decrypt15 [1, 2, 3, 4] newCryptState15 = (Inl NotInitialized, newCryptState15) \<and> newCryptState15 = newCryptState15"
  using decrypt15_error_unchanged [of "[1, 2, 3, 4]" newCryptState15 NotInitialized newCryptState15]
  by (simp add: decrypt15_def newCryptState15_def)

lemma decrypt15_Inr:
  assumes "decrypt15 pkt cs = (Inr q, cs')"
  obtains iv check restore tag where "initialized cs" "4 \<le> length pkt"
    "chooseIV (decryptIV cs) (pkt ! 0) = Some (iv, check, restore)"
    "check \<Longrightarrow> history cs ! unat (pkt ! 0) = 0 \<or> history cs ! unat (pkt ! 0) \<noteq> iv ! 1"
    "ocb15Decrypt (key cs) iv (drop 4 pkt) = Some (q, tag)" "take 3 tag = take 3 (drop 1 pkt)"
    "cs' = accepted iv restore (pkt ! 0) cs"
proof -
  obtain iv check restore where ch: "chooseIV (decryptIV cs) (pkt ! 0) = Some (iv, check, restore)"
    using assms by (auto simp: decrypt15_def Let_def split: if_splits option.splits)
  show thesis
    using assms that [OF _ _ ch] unfolding decrypt15_def Let_def ch option.case prod.case
    by (auto simp: accepted_def split: if_splits option.splits)
qed

text \<open>Replay of a late packet that was accepted: it is refused exactly when byte 1 of its IV is
  not zero.  For an IV whose second byte is zero the history entry is zero, which the check reads
  as an empty slot, and the replayed packet is delivered again.\<close>

theorem decrypt15_replay:
  assumes "length (history cs) = 256" and "decrypt15 pkt cs = (Inr q, cs')"
    and "chooseIV (decryptIV cs) (pkt ! 0) = Some (iv, True, True)"
  shows "decrypt15 pkt cs' = ((if iv ! 1 = 0 then Inr q else Inl ReplayDetected), cs')"
proof -
  from assms(2) obtain tag where ok: "initialized cs" "4 \<le> length pkt"
    "ocb15Decrypt (key cs) iv (drop 4 pkt) = Some (q, tag)" "take 3 tag = take 3 (drop 1 pkt)"
    and cs': "cs' = accepted iv True (pkt ! 0) cs"
    using assms(3) by (elim decrypt15_Inr) auto
  have "history cs' ! unat (pkt ! 0) = iv ! 1" "decryptIV cs' = decryptIV cs"
    using assms(1) unat_byte by (simp_all add: cs' accepted_def)
  moreover have "(history cs')[unat (pkt ! 0) := iv ! 1] = history cs'"
    by (simp add: cs' accepted_def)
  ultimately show ?thesis
    using ok assms(3) unfolding decrypt15_def Let_def
    by (simp add: cs' accepted_def)
qed

text \<open>A receiver at 7 gets the late packet of IV 5 (byte 1 of which is zero), twice.\<close>

theorem decrypt15_replay_witness:
  "\<exists>cs'. decrypt15 (sealed zero16 (ivAt 5) (plainBlock zero16 (ivAt 5))) (endAt 7)
      = (Inr (plainBlock zero16 (ivAt 5)), cs')
    \<and> decrypt15 (sealed zero16 (ivAt 5) (plainBlock zero16 (ivAt 5))) cs' = (Inr (plainBlock zero16 (ivAt 5)), cs')"
proof -
  let ?p = "plainBlock zero16 (ivAt 5)" let ?pkt = "sealed zero16 (ivAt 5) ?p"
  have byte0: "?pkt ! 0 = 5" by (simp add: sealed_def ivAt_def split: prod.splits)
  have choose: "chooseIV (decryptIV (endAt 7)) 5 = Some (ivAt 5, True, True)"
    using chooseIV_other(3) [of 5 7 "replicate 15 0"] by (simp add: ivAt_def endAt_def)
  have "decrypt15 ?pkt (endAt 7) = (Inr ?p, accepted (ivAt 5) True 5 (endAt 7))"
    using decrypt15_sealed [of "endAt 7" "ivAt 5" True True ?p] choose plainBlock_ok [of zero16 "ivAt 5"]
    by simp
  then show ?thesis
    using decrypt15_replay [of "endAt 7" ?pkt ?p _ "ivAt 5"] choose byte0
    by simp
qed



end
