(* ===== verification/Ocb.thy ===== *)
theory Ocb
  imports Gf128
begin

text \<open>
  The legacy OCB-AES mode with associated data and the packet state built on it:
  \<^verbatim>\<open>ocbEncrypt\<close>, \<^verbatim>\<open>ocbDecrypt\<close>, \<^verbatim>\<open>ocbCrypt\<close> and \<^verbatim>\<open>cryptState\<close> of \<^verbatim>\<open>gumble/gumble/crypt.go\<close>.
  The loops over blocks are recursions on the number of blocks left (\<open>i = m\<close> is one left), with
  the data from block \<open>i\<close> on as argument.
\<close>

section \<open>The mode\<close>

datatype ocb_error =
    KeySizeError | CiphertextTooShort | NonceLengthError | OCBAuthenticationFailed

text \<open>The number of trailing zeros of a block index, and \<^verbatim>\<open>Lntz\<close>.\<close>

fun ntz :: "nat \<Rightarrow> nat" where
  "ntz v = (if v = 0 \<or> odd v then 0 else Suc (ntz (v div 2)))"

declare ntz.simps [simp del]

definition Lntz :: "bytes \<Rightarrow> nat \<Rightarrow> bytes" where
  "Lntz Lstar i = (if i = 0 then Lstar else (doubleBlock ^^ ntz i) Lstar)"

text \<open>The initial offset: the encrypted nonce with its low bits cleared.\<close>

definition initialOffset :: "block_cipher \<Rightarrow> bytes \<Rightarrow> bytes" where
  "initialOffset block nonce =
    (let offset = Encrypt block (pad16 nonce);
         bottom = 16 * 8 - length nonce * 8
     in if bottom < 128 then
          let bytesToClear = bottom div 8;
              bitsToClear = bottom mod 8;
              offset = take (16 - bytesToClear) offset @ replicate bytesToClear 0
          in if bitsToClear > 0 then
               offset[16 - bytesToClear - 1 := offset ! (16 - bytesToClear - 1) AND drop_bit bitsToClear 0xFF]
             else offset
        else offset)"

text \<open>The data blocks: the output, the offset and the checksum after the last one.\<close>

fun ocbData :: "block_cipher \<Rightarrow> bytes \<Rightarrow> bool \<Rightarrow> nat \<Rightarrow> nat \<Rightarrow> bytes \<Rightarrow> bytes \<Rightarrow> bytes \<Rightarrow> bytes \<times> bytes \<times> bytes" where
  "ocbData block Lstar encrypt i 0 offset checksum data = ([], offset, checksum)"
| "ocbData block Lstar encrypt i (Suc left) offset checksum data =
    (let offset = xor16 offset (Lntz Lstar i) in
     if left = 0 then
       let pad = Encrypt block offset;
           part = xorBytes (length data) data pad;
           checksum = xor16 checksum (pad16 (if encrypt then data else part))
       in (part, offset, checksum)
     else
       let b = take 16 data;
           tmp = xorBytes 16 offset b;
           tmp = (if encrypt then Encrypt block tmp else Decrypt block tmp);
           tmp = xorBytes 16 tmp offset;
           checksum = xor16 checksum (if encrypt then b else tmp);
           (out, offset', checksum') = ocbData block Lstar encrypt (Suc i) left offset checksum (drop 16 data)
       in (tmp @ out, offset', checksum'))"

text \<open>The associated data, from its \<open>adIdx\<close>-th block on: the sum at the end.\<close>

function ocbAD :: "block_cipher \<Rightarrow> bytes \<Rightarrow> nat \<Rightarrow> bytes \<Rightarrow> bytes \<Rightarrow> bytes \<Rightarrow> bytes" where
  "ocbAD block Lstar adIdx adOffset adSum ad =
    (if ad = [] then adSum
     else
       let adOffset = xor16 adOffset (Lntz Lstar adIdx);
           adBlock = (if 16 \<le> length ad then take 16 ad else pad16 (ad @ [0x80]));
           ad = (if 16 \<le> length ad then drop 16 ad else []);
           adBlock = Encrypt block (xor16 adBlock adOffset)
       in ocbAD block Lstar (Suc adIdx) adOffset (xor16 adSum adBlock) ad)"
  by pat_completeness auto

termination
  by (relation "measure (\<lambda>(block, Lstar, adIdx, adOffset, adSum, ad). length ad)") auto

declare ocbAD.simps [simp del]

definition ocbCrypt :: "block_cipher \<Rightarrow> bytes \<Rightarrow> bytes \<Rightarrow> bytes \<Rightarrow> bool \<Rightarrow> ocb_error + bytes" where
  "ocbCrypt block nonce data ad encrypt =
    (if length nonce < 1 \<or> length nonce > 15 then Inl NonceLengthError
     else
       let offset = initialOffset block nonce;
           Lstar = Encrypt block zero16;
           body = (if encrypt then data else take (length data - 16) data);
           m = (length body + 15) div 16;
           (out, offset, checksum) = ocbData block Lstar encrypt 1 m offset zero16 body;
           adSum = ocbAD block Lstar 1 zero16 zero16 ad;
           tag = xor16 (Encrypt block (xor16 offset checksum)) adSum
       in if encrypt then Inr (out @ tag)
          else if drop (length data - 16) data \<noteq> tag then Inl OCBAuthenticationFailed
          else Inr out)"

definition ocbEncrypt :: "bytes \<Rightarrow> bytes \<Rightarrow> bytes \<Rightarrow> bytes \<Rightarrow> ocb_error + bytes" where
  "ocbEncrypt key nonce plaintext ad =
    (case NewCipher key of
       None \<Rightarrow> Inl KeySizeError
     | Some block \<Rightarrow> ocbCrypt block nonce plaintext ad True)"

definition ocbDecrypt :: "bytes \<Rightarrow> bytes \<Rightarrow> bytes \<Rightarrow> bytes \<Rightarrow> ocb_error + bytes" where
  "ocbDecrypt key nonce ciphertext ad =
    (if length ciphertext < 16 then Inl CiphertextTooShort
     else case NewCipher key of
       None \<Rightarrow> Inl KeySizeError
     | Some block \<Rightarrow> ocbCrypt block nonce ciphertext ad False)"

section \<open>The packet state\<close>

record cryptState =
  cs_key :: bytes
  cs_nonce :: bytes
  cs_cipher :: "block_cipher option"
  cs_counter :: uint32
  cs_initialized :: bool

definition newCryptState :: cryptState where
  "newCryptState = \<lparr>cs_key = zero16, cs_nonce = replicate 12 0, cs_cipher = None, cs_counter = 0,
     cs_initialized = False\<rparr>"

definition setupCrypt :: "bytes \<Rightarrow> bytes \<Rightarrow> cryptState \<Rightarrow> ocb_error option \<times> cryptState" where
  "setupCrypt key iv cs =
    (if length key \<noteq> 16 then (Some KeySizeError, cs)
     else
       let cs = cs\<lparr>cs_key := key\<rparr> in
       case NewCipher (cs_key cs) of
         None \<Rightarrow> (Some KeySizeError, cs)
       | Some block \<Rightarrow>
           let cs = cs\<lparr>cs_cipher := Some block\<rparr>;
               encIV = Encrypt block (pad16 iv)
           in (None, cs\<lparr>cs_nonce := take 4 encIV @ drop 4 (cs_nonce cs), cs_initialized := True\<rparr>))"

definition nonceForPacket :: "uint32 \<Rightarrow> cryptState \<Rightarrow> bytes" where
  "nonceForPacket counter cs =
    (let prefix = Uint32BE (take 4 (cs_nonce cs)) in PutUint32BE (prefix XOR counter) @ drop 4 (cs_nonce cs))"

definition encryptPacket :: "uint32 \<Rightarrow> bytes \<Rightarrow> cryptState \<Rightarrow> ocb_error + bytes" where
  "encryptPacket counter plaintext cs =
    (if \<not> cs_initialized cs then Inr plaintext
     else ocbEncrypt (cs_key cs) (nonceForPacket counter cs) plaintext [])"

definition decryptPacket :: "uint32 \<Rightarrow> bytes \<Rightarrow> cryptState \<Rightarrow> ocb_error + bytes" where
  "decryptPacket counter ciphertext cs =
    (if \<not> cs_initialized cs then Inr ciphertext
     else ocbDecrypt (cs_key cs) (nonceForPacket counter cs) ciphertext [])"

section \<open>Decryption inverts encryption, and only that\<close>

lemma length_xor16 [block_simps, simp]: "length (xor16 a b) = 16"
  by (simp add: xor16_def)

lemma mask_twice:
  "length x = 16 \<Longrightarrow> xorBytes 16 k (xorBytes 16 x k) = x"
  "length x = 16 \<Longrightarrow> xorBytes 16 (xorBytes 16 k x) k = x"
  by (intro nth_equalityI; simp add: xorBytes_def xor.left_commute xor.commute)+

context cipher_block
begin

lemma Encrypt_Decrypt:
  assumes "length y = 16"
  shows "Encrypt blk (Decrypt blk y) = y"
proof -
  let ?B = "{x :: bytes. length x = 16}"
  have "finite ?B" using finite_lists_length_eq [of "UNIV :: byte set" 16] by simp
  moreover have "Encrypt blk ` ?B \<subseteq> ?B" by (auto simp: length_Encrypt)
  moreover have "inj_on (Encrypt blk) ?B" by (auto simp: inj_on_def Encrypt_inject)
  ultimately have "Encrypt blk ` ?B = ?B" by (intro card_subset_eq) (simp_all add: card_image)
  then obtain x where "length x = 16" "y = Encrypt blk x" using assms by auto
  then show ?thesis by (simp add: Decrypt_Encrypt)
qed

text \<open>The two directions of the block loop undo each other and end with the same offset and sum.\<close>

lemma ocbData_inverse:
  assumes "left = (length data + 15) div 16" and "length offset = 16"
    and "ocbData blk Lstar e i left offset checksum data = (out, off, cs)"
  shows "length out = length data \<and> ocbData blk Lstar (\<not> e) i left offset checksum out = (data, off, cs)"
  using assms
proof (induction left arbitrary: i offset checksum data out)
  case 0
  then have "length data + 15 < 16" by (simp add: div_eq_0_iff)
  then have "data = []" by simp
  with 0 show ?case by simp
next
  case (Suc left)
  let ?o = "xor16 offset (Lntz Lstar i)"
  let ?f = "\<lambda>e x. if e then Encrypt blk x else Decrypt blk x"
  show ?case
  proof (cases "left = 0")
    case True
    then have "length data \<le> 16" using Suc.prems(1) by auto
    moreover have pad: "length (Encrypt blk ?o) = 16" by (simp add: length_Encrypt)
    ultimately have twice: "xorBytes (length data) (xorBytes (length data) data (Encrypt blk ?o)) (Encrypt blk ?o) = data"
      by (intro nth_equalityI) (simp_all add: xorBytes_def xor.assoc)
    have "length (xorBytes (length data) data (Encrypt blk ?o)) = length data" by (simp add: xorBytes_def)
    then show ?thesis using Suc.prems(3) True twice by (auto simp: Let_def)
  next
    case False
    then have len: "16 < length data" "left = (length (drop 16 data) + 15) div 16" using Suc.prems(1) by auto
    define b where "b = take 16 data"
    define t where "t = xorBytes 16 (?f e (xorBytes 16 ?o b)) ?o"
    have b: "length b = 16" using len by (simp add: b_def)
    have t: "length t = 16" by (simp add: t_def xorBytes_def)
    let ?sum = "xor16 checksum (if e then b else t)"
    have "ocbData blk Lstar e i (Suc left) offset checksum data =
      (let (out, offset', checksum') = ocbData blk Lstar e (Suc i) left ?o ?sum (drop 16 data) in (t @ out, offset', checksum'))"
      using False by (simp add: Let_def b_def t_def)
    with Suc.prems(3) obtain out' where rec: "ocbData blk Lstar e (Suc i) left ?o ?sum (drop 16 data) = (out', off, cs)"
      and out: "out = t @ out'"
      by (auto simp: Let_def simp del: ocbData.simps split: prod.splits)
    have IH: "length out' = length (drop 16 data)"
      "ocbData blk Lstar (\<not> e) (Suc i) left ?o ?sum out' = (drop 16 data, off, cs)"
      using Suc.IH [OF len(2) length_xor16 rec] by auto
    have m: "length (xorBytes 16 ?o b) = 16" by (simp add: xorBytes_def)
    then have "xorBytes 16 ?o t = ?f e (xorBytes 16 ?o b)"
      unfolding t_def by (intro mask_twice(1)) (simp add: length_Encrypt length_Decrypt)
    then have "?f (\<not> e) (xorBytes 16 ?o t) = xorBytes 16 ?o b"
      using m by (simp add: Decrypt_Encrypt Encrypt_Decrypt)
    then have "xorBytes 16 (?f (\<not> e) (xorBytes 16 ?o t)) ?o = b"
      using mask_twice(2) [OF b] by simp
    moreover have "data = b @ drop 16 data" by (simp add: b_def)
    ultimately show ?thesis
      using IH False t b len unfolding out by (auto simp: Let_def)
  qed
qed

lemma length_initialOffset:
  "\<not> (length nonce < 1 \<or> length nonce > 15) \<Longrightarrow> length (initialOffset blk nonce) = 16"
  by (auto simp: initialOffset_def Let_def length_Encrypt)

lemma ocbCrypt_inverse:
  "ocbCrypt blk nonce p ad True = Inr c \<longleftrightarrow> 16 \<le> length c \<and> ocbCrypt blk nonce c ad False = Inr p"
proof (cases "length nonce < 1 \<or> length nonce > 15")
  case True
  then show ?thesis by (simp add: ocbCrypt_def)
next
  case False
  then have off: "length (initialOffset blk nonce) = 16" by (rule length_initialOffset)
  let ?L = "Encrypt blk zero16"
  let ?run = "\<lambda>e d. ocbData blk ?L e 1 ((length d + 15) div 16) (initialOffset blk nonce) zero16 d"
  let ?tag = "\<lambda>o' s. xor16 (Encrypt blk (xor16 o' s)) (ocbAD blk ?L 1 zero16 zero16 ad)"
  have inv: "?run e d = (out, o', s) \<Longrightarrow> length out = length d \<and> ?run (\<not> e) out = (d, o', s)" for e d out o' s
    using ocbData_inverse [OF refl off] by metis
  have enc: "ocbCrypt blk nonce p ad True = Inr c \<longleftrightarrow> (\<exists>out o' s. ?run True p = (out, o', s) \<and> c = out @ ?tag o' s)"
    using False by (auto simp: ocbCrypt_def Let_def split: prod.splits)
  have dec: "ocbCrypt blk nonce c ad False = Inr p
      \<longleftrightarrow> (\<exists>o' s. ?run False (take (length c - 16) c) = (p, o', s) \<and> drop (length c - 16) c = ?tag o' s)"
    using False by (auto simp: ocbCrypt_def Let_def split: prod.splits)
  show ?thesis
  proof
    assume "ocbCrypt blk nonce p ad True = Inr c"
    then obtain out o' s where run: "?run True p = (out, o', s)" and c: "c = out @ ?tag o' s"
      using enc by auto
    have len: "length out = length p" and dual: "?run False out = (p, o', s)" using inv [OF run] by auto
    show "16 \<le> length c \<and> ocbCrypt blk nonce c ad False = Inr p"
      using dual unfolding dec by (simp add: c)
  next
    assume "16 \<le> length c \<and> ocbCrypt blk nonce c ad False = Inr p"
    then obtain o' s where run: "?run False (take (length c - 16) c) = (p, o', s)"
      and tag: "drop (length c - 16) c = ?tag o' s" using dec by auto
    have "?run True p = (take (length c - 16) c, o', s)" using inv [OF run] by auto
    moreover have "c = take (length c - 16) c @ ?tag o' s" using tag by (metis append_take_drop_id)
    ultimately show "ocbCrypt blk nonce p ad True = Inr c" unfolding enc by blast
  qed
qed

lemma ocbCrypt_encrypt:
  "case ocbCrypt blk nonce p ad True of
     Inl e \<Rightarrow> e = NonceLengthError \<and> (length nonce = 0 \<or> 15 < length nonce)
   | Inr c \<Rightarrow> length c = length p + 16"
proof (cases "length nonce < 1 \<or> length nonce > 15")
  case True
  then show ?thesis by (auto simp: ocbCrypt_def)
next
  case False
  then have off: "length (initialOffset blk nonce) = 16" by (rule length_initialOffset)
  obtain out o' s where run: "ocbData blk (Encrypt blk zero16) True 1 ((length p + 15) div 16)
      (initialOffset blk nonce) zero16 p = (out, o', s)" by (metis prod_cases3)
  then have "length out = length p" using ocbData_inverse [OF refl off run] by simp
  then show ?thesis using False run by (auto simp: ocbCrypt_def Let_def)
qed

end

text \<open>With the same key, nonce and associated data, a ciphertext decrypts to \<open>p\<close> exactly when it
  is the encryption of \<open>p\<close>: every honest packet is accepted with its payload, and no other byte
  string is (for payloads and associated data of every length, and every AES key size).\<close>

theorem ocb_roundtrip: "ocbEncrypt key nonce p ad = Inr c \<longleftrightarrow> ocbDecrypt key nonce c ad = Inr p"
proof (cases "NewCipher key")
  case None
  then show ?thesis by (simp add: ocbEncrypt_def ocbDecrypt_def)
next
  case (Some blk)
  then show ?thesis
    using cipher_block.ocbCrypt_inverse [OF NewCipher_cipher_block, OF Some, of nonce p ad c]
    by (auto simp: ocbEncrypt_def ocbDecrypt_def Some)
qed

text \<open>The errors of the legacy cipher: encryption fails on exactly the wrong key sizes and nonce
  lengths, and its ciphertext is 16 bytes longer than the payload.\<close>

theorem ocbEncrypt_total:
  "case ocbEncrypt key nonce p ad of
     Inl e \<Rightarrow> e = (if length key \<in> {16, 24, 32} then NonceLengthError else KeySizeError)
       \<and> (length key \<in> {16, 24, 32} \<longrightarrow> length nonce = 0 \<or> 15 < length nonce)
   | Inr c \<Rightarrow> length c = length p + 16"
proof (cases "NewCipher key")
  case None
  then show ?thesis by (auto simp: ocbEncrypt_def NewCipher_def split: if_splits)
next
  case (Some blk)
  then have "length key \<in> {16, 24, 32}" by (auto simp: NewCipher_def split: if_splits)
  then show ?thesis
    using cipher_block.ocbCrypt_encrypt [OF NewCipher_cipher_block, OF Some, of nonce p ad]
    by (cases "ocbCrypt blk nonce p ad True") (auto simp: ocbEncrypt_def Some)
qed

theorem ocbEncrypt_total_witness: "ocbEncrypt zero16 [] [1] [] = Inl NonceLengthError"
  using ocbEncrypt_total [of zero16 "[]" "[1]" "[]"]
  by (simp add: ocbEncrypt_def NewCipher_def ocbCrypt_def)

end
