(* ===== verification/Listeners.thy ===== *)
theory Listeners
  imports Prelude
begin

text \<open>
  The listener lists: \<^verbatim>\<open>Listeners\<close> (\<^verbatim>\<open>gumble/gumble/listeners.go\<close>) and the list under
  \<^verbatim>\<open>AudioListeners\<close> (\<^verbatim>\<open>gumble/gumble/audiolisteners.go\<close>), which has the same shape.  The items are
  the cells of a heap; \<open>next\<close>, \<open>prev\<close>, \<open>head\<close> and \<open>tail\<close> are the code's pointers.  The payload of
  an item is a type parameter (the listener, and for audio its streams).
\<close>

section \<open>The linked list\<close>

type_synonym item_ref = nat

record 'a eventItem =
  ei_prev :: "item_ref option"
  ei_next :: "item_ref option"
  ei_data :: 'a
  ei_detached :: bool

record 'a listeners =
  l_head :: "item_ref option"
  l_tail :: "item_ref option"
  l_items :: "item_ref \<Rightarrow> 'a eventItem"
  l_fresh :: item_ref

definition noListeners :: "'a \<Rightarrow> 'a listeners" where
  "noListeners d = \<lparr>l_head = None, l_tail = None,
     l_items = (\<lambda>_. \<lparr>ei_prev = None, ei_next = None, ei_data = d, ei_detached = False\<rparr>), l_fresh = 0\<rparr>"

definition setItem :: "item_ref \<Rightarrow> ('a eventItem \<Rightarrow> 'a eventItem) \<Rightarrow> 'a listeners \<Rightarrow> 'a listeners" where
  "setItem r f e = e\<lparr>l_items := (l_items e)(r := f (l_items e r))\<rparr>"

definition Attach :: "'a \<Rightarrow> 'a listeners \<Rightarrow> item_ref \<times> 'a listeners" where
  "Attach listener e =
    (let item = l_fresh e;
         e = e\<lparr>l_fresh := Suc item, l_items := (l_items e)(item :=
               \<lparr>ei_prev = l_tail e, ei_next = None, ei_data = listener, ei_detached = False\<rparr>)\<rparr>;
         e = (if l_head e = None then e\<lparr>l_head := Some item\<rparr> else e);
         e = (case l_tail e of None \<Rightarrow> e | Some t \<Rightarrow> setItem t (\<lambda>i. i\<lparr>ei_next := Some item\<rparr>) e)
     in (item, e\<lparr>l_tail := Some item\<rparr>))"

text \<open>The body of \<^verbatim>\<open>Detach\<close> after the \<^verbatim>\<open>detached\<close> test and mark.\<close>

definition unlink :: "item_ref \<Rightarrow> 'a listeners \<Rightarrow> 'a listeners" where
  "unlink r e =
    (let prev = ei_prev (l_items e r); next = ei_next (l_items e r);
         e = (case prev of None \<Rightarrow> e\<lparr>l_head := next\<rparr> | Some p \<Rightarrow> setItem p (\<lambda>i. i\<lparr>ei_next := next\<rparr>) e);
         e = (case next of None \<Rightarrow> e\<lparr>l_tail := prev\<rparr> | Some n \<Rightarrow> setItem n (\<lambda>i. i\<lparr>ei_prev := prev\<rparr>) e)
     in setItem r (\<lambda>i. i\<lparr>ei_prev := None, ei_next := None\<rparr>) e)"

definition Detach :: "item_ref \<Rightarrow> 'a listeners \<Rightarrow> 'a listeners" where
  "Detach r e =
    (if ei_detached (l_items e r) then e
     else unlink r (setItem r (\<lambda>i. i\<lparr>ei_detached := True\<rparr>) e))"

text \<open>The walk from \<^verbatim>\<open>head\<close> along \<^verbatim>\<open>next\<close>; the fuel bounds it by the number of items.\<close>

fun walk :: "nat \<Rightarrow> item_ref option \<Rightarrow> 'a listeners \<Rightarrow> item_ref list option" where
  "walk fuel None e = Some []"
| "walk 0 (Some r) e = None"
| "walk (Suc fuel) (Some r) e = map_option (\<lambda>rs. r # rs) (walk fuel (ei_next (l_items e r)) e)"

definition itemsOf :: "'a listeners \<Rightarrow> item_ref list option" where
  "itemsOf e = walk (l_fresh e) (l_head e) e"

text \<open>\<^verbatim>\<open>dispatch\<close>: the listeners called, in order, from a snapshot of the list.\<close>

definition dispatch :: "'a listeners \<Rightarrow> 'a list option" where
  "dispatch e = map_option (map (\<lambda>r. ei_data (l_items e r))) (itemsOf e)"

section \<open>The list a heap represents\<close>

definition link :: "item_ref list \<Rightarrow> nat \<Rightarrow> item_ref option" where
  "link xs i = (if i < length xs then Some (xs ! i) else None)"

definition chained :: "'a listeners \<Rightarrow> item_ref list \<Rightarrow> bool" where
  "chained e xs \<longleftrightarrow> (\<forall>i < length xs. ei_next (l_items e (xs ! i)) = link xs (Suc i)
     \<and> ei_prev (l_items e (xs ! i)) = (if i = 0 then None else link xs (i - 1)))"

definition rep :: "'a listeners \<Rightarrow> item_ref list \<Rightarrow> bool" where
  "rep e xs \<longleftrightarrow> distinct xs
    \<and> (\<forall>r < l_fresh e. ei_detached (l_items e r) \<longleftrightarrow> r \<notin> set xs) \<and> (\<forall>r \<in> set xs. r < l_fresh e)
    \<and> l_head e = link xs 0 \<and> l_tail e = (if xs = [] then None else link xs (length xs - 1))
    \<and> chained e xs"

lemma rep_noListeners: "rep (noListeners d) []"
  by (simp add: rep_def chained_def noListeners_def link_def)

lemma walk_rep:
  assumes "rep e xs" and "i \<le> length xs" and "length xs - i \<le> fuel"
  shows "walk fuel (link xs i) e = Some (drop i xs)"
  using assms
proof (induction fuel arbitrary: i)
  case 0
  then show ?case by (simp add: link_def)
next
  case (Suc fuel)
  show ?case
  proof (cases "i < length xs")
    case True
    then have "walk fuel (ei_next (l_items e (xs ! i))) e = Some (drop (Suc i) xs)"
      using Suc.IH [of "Suc i"] Suc.prems by (simp add: rep_def chained_def)
    then show ?thesis using True by (simp add: link_def Cons_nth_drop_Suc)
  next
    case False
    then show ?thesis by (simp add: link_def)
  qed
qed

lemma rep_length: "rep e xs \<Longrightarrow> length xs \<le> l_fresh e"
proof -
  assume "rep e xs"
  then have "distinct xs" and "set xs \<subseteq> {..<l_fresh e}" by (auto simp: rep_def)
  then show ?thesis by (metis card_lessThan card_mono distinct_card finite_lessThan)
qed

lemma itemsOf_rep: "rep e xs \<Longrightarrow> itemsOf e = Some xs"
  using walk_rep [of e xs 0 "l_fresh e"] rep_length [of e xs]
  by (simp add: itemsOf_def rep_def)

lemma rep_unique: "rep e xs \<Longrightarrow> rep e ys \<Longrightarrow> xs = ys"
  by (metis itemsOf_rep option.inject)

lemma Attach_rep:
  assumes rep: "rep e xs"
  shows "case Attach d e of (r, e') \<Rightarrow> r = l_fresh e \<and> l_fresh e' = Suc (l_fresh e) \<and> rep e' (xs @ [r])
    \<and> (\<forall>x. ei_data (l_items e' x) = (if x = r then d else ei_data (l_items e x)))"
proof -
  let ?r = "l_fresh e"
  have new: "?r \<notin> set xs" using rep by (auto simp: rep_def)
  show ?thesis
  proof (cases "xs = []")
    case True
    then show ?thesis
      using rep by (auto simp: Attach_def rep_def chained_def link_def Let_def less_Suc_eq)
  next
    case False
    let ?t = "xs ! (length xs - 1)"
    have mem: "?t \<in> set xs" using False by simp
    have t: "l_tail e = Some ?t" "l_head e \<noteq> None" "?t \<noteq> ?r" "?t < l_fresh e" "?t \<in> set xs"
    proof -
      show "?t \<noteq> ?r" using mem new by metis
      show "?t < l_fresh e" using rep mem unfolding rep_def by blast
    qed (use rep False mem in \<open>simp_all add: rep_def link_def\<close>)
    have uniq: "i < length xs \<Longrightarrow> xs ! i = ?t \<longleftrightarrow> i = length xs - 1" for i
      using rep False by (auto simp: rep_def nth_eq_iff_index_eq)
    have ne: "i < length xs \<Longrightarrow> xs ! i \<noteq> ?r" for i using new nth_mem by fastforce
    let ?e = "e\<lparr>l_fresh := Suc ?r, l_tail := Some ?r, l_items := (l_items e)(
        ?r := \<lparr>ei_prev = Some ?t, ei_next = None, ei_data = d, ei_detached = False\<rparr>,
        ?t := (l_items e ?t)\<lparr>ei_next := Some ?r\<rparr>)\<rparr>"
    have att: "Attach d e = (?r, ?e)" using t by (simp add: Attach_def Let_def setItem_def)
    have "rep ?e (xs @ [?r])"
      unfolding rep_def
    proof (intro conjI)
      show "\<forall>r < l_fresh ?e. ei_detached (l_items ?e r) \<longleftrightarrow> r \<notin> set (xs @ [?r])"
        using rep t by (auto simp: rep_def less_Suc_eq)
      show "chained ?e (xs @ [?r])"
        unfolding chained_def
      proof (intro allI impI)
        fix i assume "i < length (xs @ [?r])"
        then consider "i = length xs" | "i < length xs" "i = length xs - 1" | "i < length xs" "i \<noteq> length xs - 1"
          by fastforce
        then show "ei_next (l_items ?e ((xs @ [?r]) ! i)) = link (xs @ [?r]) (Suc i)
          \<and> ei_prev (l_items ?e ((xs @ [?r]) ! i)) = (if i = 0 then None else link (xs @ [?r]) (i - 1))"
        proof cases
          case 1
          then show ?thesis using t False by (simp add: link_def nth_append)
        next
          case 2
          then have "ei_prev (l_items e ?t) = (if i = 0 then None else link xs (i - 1))"
            using rep 2 by (auto simp: rep_def chained_def)
          then show ?thesis using t False 2 by (auto simp: link_def nth_append)
        next
          case 3
          then have "ei_next (l_items e (xs ! i)) = link xs (Suc i)"
            "ei_prev (l_items e (xs ! i)) = (if i = 0 then None else link xs (i - 1))"
            using rep 3(1) unfolding rep_def chained_def by blast+
          moreover have "xs ! i \<noteq> ?t" "xs ! i \<noteq> ?r" using uniq [OF 3(1)] ne [OF 3(1)] 3(2) by auto
          ultimately show ?thesis using 3 by (auto simp: link_def nth_append)
        qed
      qed
    qed (use rep new False t in \<open>auto simp: rep_def link_def nth_append less_Suc_eq\<close>)
    then show ?thesis using t unfolding att by simp
  qed
qed

lemma unlink_next: "ei_next (l_items (unlink r e) x) = (if x = r then None
    else if ei_prev (l_items e r) = Some x then ei_next (l_items e r) else ei_next (l_items e x))"
  by (simp add: unlink_def setItem_def Let_def split: option.split)

lemma unlink_prev: "ei_prev (l_items (unlink r e) x) = (if x = r then None
    else if ei_next (l_items e r) = Some x then ei_prev (l_items e r) else ei_prev (l_items e x))"
  by (simp add: unlink_def setItem_def Let_def split: option.split)

text \<open>Removing the item at position \<open>k\<close>.\<close>

lemma unlink_rep:
  fixes e :: "'a listeners"
  assumes "distinct xs" and k: "k < length xs" and r: "r = xs ! k"
    and head: "l_head e = link xs 0" and tail: "l_tail e = link xs (length xs - 1)"
    and links: "chained e xs"
    and ys: "ys = take k xs @ drop (Suc k) xs"
  shows "l_head (unlink r e) = link ys 0" and "l_tail (unlink r e) = (if ys = [] then None else link ys (length ys - 1))"
    and "chained (unlink r e) ys"
    and "\<forall>x. ei_data (l_items (unlink r e) x) = ei_data (l_items e x)
        \<and> ei_detached (l_items (unlink r e) x) = ei_detached (l_items e x)" and "l_fresh (unlink r e) = l_fresh e"
proof -
  have len: "length ys = length xs - 1" using k by (simp add: ys)
  have nth: "i < length ys \<Longrightarrow> ys ! i = xs ! (if i < k then i else Suc i)" for i
    using k by (simp add: ys nth_append min_def)
  have eq: "i < length xs \<Longrightarrow> j < length xs \<Longrightarrow> xs ! i = xs ! j \<longleftrightarrow> i = j" for i j
    using assms(1) by (simp add: nth_eq_iff_index_eq)
  have lnk: "link ys i = (if i < k then (if Suc i < length xs then Some (xs ! i) else None) else link xs (Suc i))" for i
    using nth [of i] len by (auto simp: link_def)
  have next_r: "ei_next (l_items e r) = link xs (Suc k)" and prev_r: "ei_prev (l_items e r) = (if k = 0 then None else link xs (k - 1))"
    using links k r by (auto simp: chained_def)
  show "l_head (unlink r e) = link ys 0"
    using k head unfolding unlink_def next_r prev_r lnk
    by (auto simp: link_def setItem_def Let_def)
  show "l_tail (unlink r e) = (if ys = [] then None else link ys (length ys - 1))"
  proof (cases "length xs = 1")
    case True
    then have "ys = []" "k = 0" using len k by auto
    then show ?thesis using True unfolding unlink_def next_r prev_r by (simp add: link_def setItem_def Let_def)
  next
    case False
    then obtain n where n: "length xs = Suc (Suc n)" using k by (metis One_nat_def less_nat_zero_code old.nat.exhaust)
    then have ys': "(if ys = [] then None else link ys (length ys - 1)) = link ys n" using len by auto
    show ?thesis
      using k tail n unfolding ys' unfolding unlink_def next_r prev_r lnk
      by (cases "k = Suc n") (auto simp: link_def setItem_def Let_def)
  qed
  show "\<forall>x. ei_data (l_items (unlink r e) x) = ei_data (l_items e x)
        \<and> ei_detached (l_items (unlink r e) x) = ei_detached (l_items e x)" and "l_fresh (unlink r e) = l_fresh e"
    by (auto simp: unlink_def setItem_def Let_def split: option.splits)
  show "chained (unlink r e) ys"
    unfolding chained_def
  proof (intro allI impI)
    fix i assume i: "i < length ys"
    define j where "j = (if i < k then i else Suc i)"
    have j: "j < length xs" "j \<noteq> k" "ys ! i = xs ! j" using i k len nth [OF i] by (auto simp: j_def)
    have lj: "ei_next (l_items e (xs ! j)) = link xs (Suc j)" "ei_prev (l_items e (xs ! j)) = (if j = 0 then None else link xs (j - 1))"
      using links j by (auto simp: chained_def)
    show "ei_next (l_items (unlink r e) (ys ! i)) = link ys (Suc i)
        \<and> ei_prev (l_items (unlink r e) (ys ! i)) = (if i = 0 then None else link ys (i - 1))"
    proof
      have ne: "xs ! j \<noteq> r" using eq j k r by simp
      have p: "ei_prev (l_items e r) = Some (xs ! j) \<longleftrightarrow> Suc j = k"
        using eq [of "k - 1" j] j k unfolding prev_r by (auto simp: link_def)
      have n: "ei_next (l_items e r) = Some (xs ! j) \<longleftrightarrow> j = Suc k"
        using eq [of "Suc k" j] j k unfolding next_r by (auto simp: link_def)
      show "ei_next (l_items (unlink r e) (ys ! i)) = link ys (Suc i)"
        using ne p i j k len lj(1) unfolding j(3) unlink_next lnk next_r
        by (auto simp: j_def link_def split: if_splits)
      show "ei_prev (l_items (unlink r e) (ys ! i)) = (if i = 0 then None else link ys (i - 1))"
        using ne n i j k len lj(2) unfolding j(3) unlink_prev lnk prev_r
        by (auto simp: j_def link_def split: if_splits)
    qed
  qed
qed

lemma remove1_nth: "distinct xs \<Longrightarrow> k < length xs \<Longrightarrow> remove1 (xs ! k) xs = take k xs @ drop (Suc k) xs"
proof (induction xs arbitrary: k)
  case (Cons x xs)
  then show ?case by (cases k) auto
qed simp

lemma Detach_rep:
  assumes rep: "rep e xs" and "r < l_fresh e"
  shows "rep (Detach r e) (remove1 r xs) \<and> l_fresh (Detach r e) = l_fresh e
    \<and> (\<forall>x. ei_data (l_items (Detach r e) x) = ei_data (l_items e x))"
proof (cases "r \<in> set xs")
  case False
  then show ?thesis using assms by (auto simp: Detach_def rep_def remove1_idem)
next
  case True
  then obtain k where k: "k < length xs" "r = xs ! k" by (auto simp: in_set_conv_nth)
  let ?e = "setItem r (\<lambda>i. i\<lparr>ei_detached := True\<rparr>) e"
  have fields: "ei_next (l_items ?e x) = ei_next (l_items e x)" "ei_prev (l_items ?e x) = ei_prev (l_items e x)"
    "l_head ?e = l_head e" "l_tail ?e = l_tail e" for x
    by (simp_all add: setItem_def)
  have "xs \<noteq> []" using k(1) by auto
  then have base: "l_head e = link xs 0" "l_tail e = link xs (length xs - 1)"
    "chained e xs"
    using rep unfolding rep_def by simp_all
  have "distinct xs" using rep by (simp add: rep_def)
  moreover have "l_head ?e = link xs 0" "l_tail ?e = link xs (length xs - 1)"
    "chained ?e xs"
    using base unfolding chained_def fields by blast+
  ultimately have unlinked: "l_head (unlink r ?e) = link (remove1 r xs) 0"
    "l_tail (unlink r ?e) = (if remove1 r xs = [] then None else link (remove1 r xs) (length (remove1 r xs) - 1))"
    "chained (unlink r ?e) (remove1 r xs)"
    "\<forall>x. ei_data (l_items (unlink r ?e) x) = ei_data (l_items ?e x)
        \<and> ei_detached (l_items (unlink r ?e) x) = ei_detached (l_items ?e x)" "l_fresh (unlink r ?e) = l_fresh ?e"
    using unlink_rep [of xs k r ?e "remove1 r xs"] k remove1_nth [of xs k] by blast+
  have "\<not> ei_detached (l_items e r)" using rep True assms(2) by (auto simp: rep_def)
  then have "Detach r e = unlink r ?e" by (simp add: Detach_def)
  moreover have "rep (unlink r ?e) (remove1 r xs)"
    unfolding rep_def
  proof (intro conjI)
    show "\<forall>x < l_fresh (unlink r ?e). ei_detached (l_items (unlink r ?e) x) \<longleftrightarrow> x \<notin> set (remove1 r xs)"
      using unlinked(4,5) rep \<open>distinct xs\<close> by (auto simp: rep_def setItem_def)
    show "\<forall>x \<in> set (remove1 r xs). x < l_fresh (unlink r ?e)"
      using unlinked(5) rep \<open>distinct xs\<close> by (auto simp: rep_def setItem_def)
  qed (use unlinked(1,2,3) \<open>distinct xs\<close> in \<open>simp_all add: distinct_remove1\<close>)
  ultimately show ?thesis using unlinked(4,5) by (simp add: setItem_def)
qed

section \<open>The contract of a listener list\<close>

locale listener_list =
  fixes attach :: "'d \<Rightarrow> 's \<Rightarrow> 'r \<times> 's"
    and detach :: "'r \<Rightarrow> 's \<Rightarrow> 's"
    and issued :: "'s \<Rightarrow> 'r set"
    and snapshot :: "'s \<Rightarrow> ('r \<times> 'd) list option"
    and ok :: "'s \<Rightarrow> bool"
  assumes snapshot_ok: "ok s \<Longrightarrow> \<exists>xs. snapshot s = Some xs \<and> distinct (map fst xs) \<and> fst ` set xs \<subseteq> issued s"
    and attach_ok: "ok s \<Longrightarrow> snapshot s = Some xs \<Longrightarrow> attach d s = (r, s') \<Longrightarrow>
      ok s' \<and> r \<notin> issued s \<and> issued s' = insert r (issued s) \<and> snapshot s' = Some (xs @ [(r, d)])"
    and detach_ok: "ok s \<Longrightarrow> snapshot s = Some xs \<Longrightarrow> r \<in> issued s \<Longrightarrow>
      ok (detach r s) \<and> issued (detach r s) = issued s \<and> snapshot (detach r s) = Some (filter (\<lambda>x. fst x \<noteq> r) xs)"
begin

text \<open>Detaching twice is detaching once, and what was attached last is called last.\<close>

lemma detach_twice:
  assumes "ok s" and "r \<in> issued s"
  shows "snapshot (detach r (detach r s)) = snapshot (detach r s)"
proof -
  obtain xs where xs: "snapshot s = Some xs" using snapshot_ok [OF assms(1)] by blast
  have one: "ok (detach r s)" "r \<in> issued (detach r s)" "snapshot (detach r s) = Some (filter (\<lambda>x. fst x \<noteq> r) xs)"
    using detach_ok [OF assms(1) xs assms(2)] assms(2) by auto
  show ?thesis using detach_ok [OF one(1,3,2)] one(3) by simp
qed

lemma attach_detach:
  assumes "ok s" and "attach d s = (r, s')"
  shows "snapshot (detach r s') = snapshot s"
proof -
  obtain xs where xs: "snapshot s = Some xs" "fst ` set xs \<subseteq> issued s" using snapshot_ok [OF assms(1)] by blast
  have s': "ok s'" "r \<notin> issued s" "r \<in> issued s'" "snapshot s' = Some (xs @ [(r, d)])"
    using attach_ok [OF assms(1) xs(1) assms(2)] by auto
  have "filter (\<lambda>x. fst x \<noteq> r) xs = xs" using xs(2) s'(2) by (auto simp: filter_id_conv)
  then show ?thesis using detach_ok [OF s'(1,4,3)] xs(1) by simp
qed

end

definition members :: "'a listeners \<Rightarrow> (item_ref \<times> 'a) list option" where
  "members e = map_option (map (\<lambda>r. (r, ei_data (l_items e r)))) (itemsOf e)"

lemma members_rep: "rep e xs \<Longrightarrow> members e = Some (map (\<lambda>r. (r, ei_data (l_items e r))) xs)"
  by (simp add: members_def itemsOf_rep)

lemma dispatch_members: "dispatch e = map_option (map snd) (members e)"
  by (simp add: dispatch_def members_def option.map_comp comp_def)

lemma remove1_filter: "distinct xs \<Longrightarrow> remove1 r xs = filter (\<lambda>x. x \<noteq> r) xs"
  by (simp add: distinct_remove1_removeAll removeAll_filter_not_eq) (metis (mono_tags))

interpretation events: listener_list Attach Detach "\<lambda>e. {..<l_fresh e}" members "\<lambda>e. \<exists>xs. rep e xs"
proof
  fix e :: "'a listeners" assume "\<exists>xs. rep e xs"
  then obtain xs where "rep e xs" ..
  then show "\<exists>ys. members e = Some ys \<and> distinct (map fst ys) \<and> fst ` set ys \<subseteq> {..<l_fresh e}"
    using members_rep [of e xs] by (auto simp: rep_def comp_def)
next
  fix e e' :: "'a listeners" and ys d r
  assume *: "\<exists>xs. rep e xs" "members e = Some ys" "Attach d e = (r, e')"
  then obtain xs where xs: "rep e xs" by blast
  have "l_fresh e \<notin> set xs" using xs by (auto simp: rep_def)
  then show "(\<exists>xs. rep e' xs) \<and> r \<notin> {..<l_fresh e} \<and> {..<l_fresh e'} = insert r {..<l_fresh e} \<and> members e' = Some (ys @ [(r, d)])"
    using Attach_rep [OF xs, of d] * members_rep [OF xs]
    by (auto simp: members_rep intro: exI [of _ "xs @ [l_fresh e]"])
next
  fix e :: "'a listeners" and ys r
  assume *: "\<exists>xs. rep e xs" "members e = Some ys" "r \<in> {..<l_fresh e}"
  then obtain xs where xs: "rep e xs" by blast
  have det: "rep (Detach r e) (remove1 r xs)" "l_fresh (Detach r e) = l_fresh e"
    "\<And>x. ei_data (l_items (Detach r e) x) = ei_data (l_items e x)"
    using Detach_rep [OF xs] *(3) by auto
  have "distinct xs" using xs by (simp add: rep_def)
  then show "(\<exists>xs. rep (Detach r e) xs) \<and> {..<l_fresh (Detach r e)} = {..<l_fresh e}
      \<and> members (Detach r e) = Some (filter (\<lambda>x. fst x \<noteq> r) ys)"
    using det * members_rep [OF xs] members_rep [OF det(1)]
    by (auto simp: remove1_filter filter_map comp_def)
qed

section \<open>Any history of attaching and detaching\<close>

datatype 'a list_op = OpAttach 'a | OpDetach item_ref

text \<open>An item is detached through the \<^verbatim>\<open>Detacher\<close> its attaching returned, so only issued ones are.\<close>

fun runOp :: "'a list_op \<Rightarrow> 'a listeners \<Rightarrow> 'a listeners" where
  "runOp (OpAttach d) e = snd (Attach d e)"
| "runOp (OpDetach r) e = (if r < l_fresh e then Detach r e else e)"

fun specOp :: "'a list_op \<Rightarrow> nat \<times> (item_ref \<times> 'a) list \<Rightarrow> nat \<times> (item_ref \<times> 'a) list" where
  "specOp (OpAttach d) (n, xs) = (Suc n, xs @ [(n, d)])"
| "specOp (OpDetach r) (n, xs) = (n, filter (\<lambda>x. fst x \<noteq> r) xs)"

lemma runOps_spec:
  "(\<exists>xs. rep (fold runOp ops (noListeners d0)) xs)
    \<and> (case fold specOp ops (0, []) of (n, xs) \<Rightarrow> l_fresh (fold runOp ops (noListeners d0)) = n
        \<and> members (fold runOp ops (noListeners d0)) = Some xs)"
proof (induction ops rule: rev_induct)
  case Nil
  show ?case using rep_noListeners [of d0] members_rep [OF rep_noListeners, of d0]
    by (auto simp: noListeners_def)
next
  case (snoc op ops)
  let ?e = "fold runOp ops (noListeners d0)"
  obtain n xs where spec: "fold specOp ops (0, []) = (n, xs)" by fastforce
  with snoc have IH: "\<exists>xs. rep ?e xs" "l_fresh ?e = n" "members ?e = Some xs" by auto
  have sub: "fst ` set xs \<subseteq> {..<n}" using events.snapshot_ok [OF IH(1)] IH by auto
  show ?case
  proof (cases op)
    case (OpAttach d)
    obtain r e' where att: "Attach d ?e = (r, e')" by fastforce
    have "r = n" "l_fresh e' = Suc n" using IH(1,2) Attach_rep [of ?e _ d] att by auto
    then show ?thesis using events.attach_ok [OF IH(1,3) att] spec att by (simp add: OpAttach)
  next
    case (OpDetach r)
    show ?thesis
    proof (cases "r < n")
      case True
      then have "l_fresh (Detach r ?e) = n" using IH Detach_rep [of ?e _ r] by auto
      then show ?thesis using events.detach_ok [OF IH(1,3), of r] True IH(2) spec by (simp add: OpDetach)
    next
      case False
      then have "filter (\<lambda>x. fst x \<noteq> r) xs = xs" using sub by (auto simp: filter_id_conv)
      then show ?thesis using False IH spec by (simp add: OpDetach)
    qed
  qed
qed

text \<open>C21. After any history of attaching and detaching (also repeated), an event is delivered to
  exactly the listeners attached and not detached since, in the order they were attached, and the
  walk along the \<^verbatim>\<open>next\<close> pointers ends.\<close>

theorem dispatch_order:
  "dispatch (fold runOp ops (noListeners d0)) = Some (map snd (snd (fold specOp ops (0, []))))"
  using runOps_spec [of ops d0] by (auto simp: dispatch_members split: prod.splits)

end
