(* ===== verification/AudioStreams.thy ===== *)
theory AudioStreams
  imports Listeners "HOL-Library.AList"
begin

text \<open>
  Delivery of decoded audio: \<^verbatim>\<open>AudioListeners\<close> (\<^verbatim>\<open>gumble/gumble/audiolisteners.go\<close>), the
  channels of their streams, \<^verbatim>\<open>dispatchAudio\<close> and the closing of a removed user's streams
  (\<^verbatim>\<open>gumble/gumble/handlers.go\<close>).  The listener lock makes each section between its \<^verbatim>\<open>Lock\<close> and
  \<^verbatim>\<open>Unlock\<close> atomic; \<open>astep\<close> lets those sections of different goroutines interleave freely.
  A Go map is an association list in an arbitrary order.  \<open>None\<close> is a panic: a send on a closed
  channel, or the closing of a closed one.
\<close>

section \<open>State\<close>

type_synonym user_ref = nat
type_synonym stream_ref = nat

record audioPacket =
  ap_Sender :: user_ref
  ap_Target :: "uint32 option"
  ap_Sequence :: int64
  ap_AudioBuffer :: "int16 list"
  ap_Terminator :: bool
  ap_Position :: "(float32 \<times> float32 \<times> float32) option"
  ap_VolumeAdjustment :: float32

text \<open>A buffered Go channel, with the packets sent and not yet received.\<close>

record stream =
  st_buffer :: "audioPacket list"
  st_cap :: nat
  st_closed :: bool

record audioItem =
  ai_listener :: nat
  ai_streams :: "(user_ref \<times> stream_ref) list"

record audioState =
  as_listeners :: "audioItem listeners"
  as_stream :: "stream_ref \<Rightarrow> stream"
  as_fresh :: stream_ref

definition noAudio :: audioState where
  "noAudio = \<lparr>as_listeners = noListeners \<lparr>ai_listener = 0, ai_streams = []\<rparr>,
     as_stream = (\<lambda>_. \<lparr>st_buffer = [], st_cap = 0, st_closed = False\<rparr>), as_fresh = 0\<rparr>"

abbreviation itemAt :: "audioState \<Rightarrow> item_ref \<Rightarrow> audioItem eventItem" where
  "itemAt s r \<equiv> l_items (as_listeners s) r"

abbreviation streamsAt :: "audioState \<Rightarrow> item_ref \<Rightarrow> (user_ref \<times> stream_ref) list" where
  "streamsAt s r \<equiv> ai_streams (ei_data (itemAt s r))"

definition setStreams :: "item_ref \<Rightarrow> (user_ref \<times> stream_ref) list \<Rightarrow> audioState \<Rightarrow> audioState" where
  "setStreams r m s = s\<lparr>as_listeners := setItem r (\<lambda>i. i\<lparr>ei_data := (ei_data i)\<lparr>ai_streams := m\<rparr>\<rparr>) (as_listeners s)\<rparr>"

section \<open>Operations on channels\<close>

definition closeStream :: "stream_ref \<Rightarrow> audioState \<Rightarrow> audioState option" where
  "closeStream ch s =
    (if st_closed (as_stream s ch) then None
     else Some (s\<lparr>as_stream := (as_stream s)(ch := (as_stream s ch)\<lparr>st_closed := True\<rparr>)\<rparr>))"

text \<open>\<^verbatim>\<open>select { case ch <- packet: default: }\<close>.\<close>

definition trySend :: "stream_ref \<Rightarrow> audioPacket \<Rightarrow> audioState \<Rightarrow> audioState option" where
  "trySend ch packet s =
    (let st = as_stream s ch in
     if st_closed st then None
     else if length (st_buffer st) < st_cap st then
       Some (s\<lparr>as_stream := (as_stream s)(ch := st\<lparr>st_buffer := st_buffer st @ [packet]\<rparr>)\<rparr>)
     else Some s)"

text \<open>The consumer of a stream takes the next packet.\<close>

definition receive :: "stream_ref \<Rightarrow> audioState \<Rightarrow> audioState" where
  "receive ch s = s\<lparr>as_stream := (as_stream s)(ch := (as_stream s ch)\<lparr>st_buffer := tl (st_buffer (as_stream s ch))\<rparr>)\<rparr>"

fun foldM :: "('a \<Rightarrow> 's \<Rightarrow> 's option) \<Rightarrow> 'a list \<Rightarrow> 's \<Rightarrow> 's option" where
  "foldM f [] s = Some s"
| "foldM f (x # xs) s = (case f x s of None \<Rightarrow> None | Some s' \<Rightarrow> foldM f xs s')"

text \<open>\<^verbatim>\<open>close(stream); delete(streams, user)\<close>.\<close>

definition dropStream :: "item_ref \<Rightarrow> user_ref \<Rightarrow> stream_ref \<Rightarrow> audioState \<Rightarrow> audioState option" where
  "dropStream r user ch s =
    map_option (\<lambda>s. setStreams r (AList.delete user (streamsAt s r)) s) (closeStream ch s)"

section \<open>Attaching and detaching\<close>

definition audioAttach :: "nat \<Rightarrow> audioState \<Rightarrow> item_ref \<times> audioState" where
  "audioAttach listener s =
    (case Attach \<lparr>ai_listener = listener, ai_streams = []\<rparr> (as_listeners s) of
       (r, e) \<Rightarrow> (r, s\<lparr>as_listeners := e\<rparr>))"

definition audioDetach :: "item_ref \<Rightarrow> audioState \<Rightarrow> audioState option" where
  "audioDetach r s =
    (if ei_detached (itemAt s r) then Some s
     else
       let s = s\<lparr>as_listeners := setItem r (\<lambda>i. i\<lparr>ei_detached := True\<rparr>) (as_listeners s)\<rparr> in
       case foldM (\<lambda>(user, ch). dropStream r user ch) (streamsAt s r) s of
         None \<Rightarrow> None
       | Some s \<Rightarrow> Some (s\<lparr>as_listeners := unlink r (as_listeners s)\<rparr>))"

text \<open>The part of \<^verbatim>\<open>handleUserRemove\<close> under the listener lock.\<close>

definition closeUserStreams :: "user_ref \<Rightarrow> audioState \<Rightarrow> audioState option" where
  "closeUserStreams user s =
    (case itemsOf (as_listeners s) of
       None \<Rightarrow> None
     | Some items \<Rightarrow> foldM (\<lambda>r s. case map_of (streamsAt s r) user of
           None \<Rightarrow> Some s
         | Some ch \<Rightarrow> dropStream r user ch s) items s)"

section \<open>dispatchAudio\<close>

record delivery =
  dl_item :: item_ref
  dl_ch :: stream_ref
  dl_new :: bool

text \<open>One turn of the first loop; \<open>buffers\<close> is \<^verbatim>\<open>c.Config.Buffers\<close>.\<close>

definition openStream :: "int \<Rightarrow> user_ref \<Rightarrow> item_ref \<Rightarrow> audioState \<Rightarrow> delivery \<times> audioState" where
  "openStream buffers user r s =
    (case map_of (streamsAt s r) user of
       Some ch \<Rightarrow> (\<lparr>dl_item = r, dl_ch = ch, dl_new = False\<rparr>, s)
     | None \<Rightarrow>
         let bufferSize = (if buffers < 1 then 1 else buffers);
             ch = as_fresh s;
             s = s\<lparr>as_fresh := Suc ch, as_stream := (as_stream s)(ch :=
                   \<lparr>st_buffer = [], st_cap = nat bufferSize, st_closed = False\<rparr>)\<rparr>
         in (\<lparr>dl_item = r, dl_ch = ch, dl_new = True\<rparr>,
             setStreams r (AList.update user ch (streamsAt s r)) s))"

fun openStreams :: "int \<Rightarrow> user_ref \<Rightarrow> item_ref list \<Rightarrow> audioState \<Rightarrow> delivery list \<times> audioState" where
  "openStreams buffers user [] s = ([], s)"
| "openStreams buffers user (r # rs) s =
    (case openStream buffers user r s of
       (d, s) \<Rightarrow> (case openStreams buffers user rs s of (ds, s) \<Rightarrow> (d # ds, s)))"

definition collectDeliveries :: "int \<Rightarrow> user_ref \<Rightarrow> audioState \<Rightarrow> (delivery list \<times> audioState) option" where
  "collectDeliveries buffers user s =
    map_option (\<lambda>items. openStreams buffers user items s) (itemsOf (as_listeners s))"

text \<open>One turn of the second loop, after the \<^verbatim>\<open>OnAudioStream\<close> call of a new stream.\<close>

definition deliver :: "user_ref \<Rightarrow> audioPacket \<Rightarrow> delivery \<Rightarrow> audioState \<Rightarrow> audioState option" where
  "deliver user packet d s =
    (let active = (\<not> ei_detached (itemAt s (dl_item d))
                   \<and> map_of (streamsAt s (dl_item d)) user = Some (dl_ch d))
     in if active then trySend (dl_ch d) packet s else Some s)"

text \<open>The whole function, when no other goroutine runs between its locked sections.\<close>

definition dispatchAudio :: "int \<Rightarrow> user_ref \<Rightarrow> audioPacket \<Rightarrow> audioState \<Rightarrow> audioState option" where
  "dispatchAudio buffers user packet s =
    (case collectDeliveries buffers user s of
       None \<Rightarrow> None
     | Some (ds, s) \<Rightarrow> foldM (deliver user packet) ds s)"

section \<open>Shape of the list\<close>

definition shape :: "'a listeners \<Rightarrow> item_ref option \<times> item_ref option \<times> nat
    \<times> (item_ref \<Rightarrow> item_ref option) \<times> (item_ref \<Rightarrow> item_ref option) \<times> (item_ref \<Rightarrow> bool)" where
  "shape e = (l_head e, l_tail e, l_fresh e, \<lambda>r. ei_prev (l_items e r), \<lambda>r. ei_next (l_items e r),
     \<lambda>r. ei_detached (l_items e r))"

lemma rep_shape: "shape e = shape e' \<Longrightarrow> rep e xs \<longleftrightarrow> rep e' xs"
  by (simp add: shape_def rep_def chained_def fun_eq_iff)

lemma shape_setItem_data: "shape (setItem r (\<lambda>i. i\<lparr>ei_data := f i\<rparr>) e) = shape e"
  by (auto simp: shape_def setItem_def fun_eq_iff)

lemma shape_unlink: "shape e = shape e' \<Longrightarrow> shape (unlink r e) = shape (unlink r e')"
  by (auto simp: shape_def unlink_def setItem_def Let_def fun_eq_iff split: option.split)

lemma itemsOf_shape: "shape e = shape e' \<Longrightarrow> itemsOf e = itemsOf e'"
proof -
  assume *: "shape e = shape e'"
  have "walk n x e = walk n x e'" for n x
    using * by (induction n x e rule: walk.induct) (auto simp: shape_def fun_eq_iff)
  then show ?thesis using * by (simp add: itemsOf_def shape_def)
qed

section \<open>Streams in a map are open\<close>

definition streamsOk :: "audioState \<Rightarrow> bool" where
  "streamsOk s \<longleftrightarrow> (\<forall>r. distinct (map fst (streamsAt s r)))
    \<and> (\<forall>r u ch. (u, ch) \<in> set (streamsAt s r) \<longrightarrow> ch < as_fresh s \<and> \<not> st_closed (as_stream s ch))
    \<and> (\<forall>r u r' u' ch. (u, ch) \<in> set (streamsAt s r) \<and> (u', ch) \<in> set (streamsAt s r') \<longrightarrow> r = r' \<and> u = u')"

definition audioOk :: "audioState \<Rightarrow> bool" where
  "audioOk s \<longleftrightarrow> streamsOk s \<and> (\<exists>xs. rep (as_listeners s) xs)
    \<and> (\<forall>r. streamsAt s r \<noteq> [] \<longrightarrow> r < l_fresh (as_listeners s) \<and> \<not> ei_detached (itemAt s r))"

lemma streamsAt_setStreams [simp]:
  "streamsAt (setStreams r m s) r' = (if r' = r then m else streamsAt s r')"
  by (simp add: setStreams_def setItem_def)

lemma setStreams_fields [simp]:
  "as_stream (setStreams r m s) = as_stream s" "as_fresh (setStreams r m s) = as_fresh s"
  "shape (as_listeners (setStreams r m s)) = shape (as_listeners s)"
  by (simp_all add: setStreams_def shape_setItem_data)

lemma shape_l_fresh: "shape e = shape e' \<Longrightarrow> l_fresh e = l_fresh e'"
  "shape e = shape e' \<Longrightarrow> ei_detached (l_items e r) = ei_detached (l_items e' r)"
  by (simp_all add: shape_def fun_eq_iff)

lemma set_delete: "set (AList.delete k xs) = {x \<in> set xs. fst x \<noteq> k}"
  by (auto simp: AList.delete_eq)

text \<open>What every sequence of closings keeps: the shape and the freshness, and maps only shrink.\<close>

definition shrunk :: "audioState \<Rightarrow> audioState \<Rightarrow> bool" where
  "shrunk s s' \<longleftrightarrow> shape (as_listeners s') = shape (as_listeners s) \<and> as_fresh s' = as_fresh s
    \<and> (\<forall>r. set (streamsAt s' r) \<subseteq> set (streamsAt s r))"

lemma shrunk_trans: "shrunk s s' \<Longrightarrow> shrunk s' s'' \<Longrightarrow> shrunk s s''"
  unfolding shrunk_def by (metis subset_trans)

lemma shrunk_ok: "audioOk s \<Longrightarrow> shrunk s s' \<Longrightarrow> streamsOk s' \<Longrightarrow> audioOk s'"
  unfolding audioOk_def shrunk_def
  by (metis rep_shape shape_l_fresh subset_empty set_empty)

lemma dropStream_ok:
  assumes "streamsOk s" and "(u, ch) \<in> set (streamsAt s r)"
  obtains s' where "dropStream r u ch s = Some s'" "streamsOk s'" "shrunk s s'"
    "\<And>r'. streamsAt s' r' = (if r' = r then AList.delete u (streamsAt s r) else streamsAt s r')"
proof -
  have opn: "\<not> st_closed (as_stream s ch)" using assms unfolding streamsOk_def by blast
  define s1 where "s1 = s\<lparr>as_stream := (as_stream s)(ch := (as_stream s ch)\<lparr>st_closed := True\<rparr>)\<rparr>"
  let ?s = "setStreams r (AList.delete u (streamsAt s r)) s1"
  have eq: "dropStream r u ch s = Some ?s"
    using opn by (simp add: dropStream_def closeStream_def s1_def)
  have at: "streamsAt ?s r' = (if r' = r then AList.delete u (streamsAt s r) else streamsAt s r')" for r'
    by (simp add: s1_def)
  have sub: "set (streamsAt ?s r') \<subseteq> set (streamsAt s r')" for r'
    unfolding at by (auto simp: set_delete)
  have "shrunk s ?s" using sub by (simp add: shrunk_def s1_def)
  moreover have "streamsOk ?s"
    unfolding streamsOk_def
  proof (intro conjI allI impI)
    fix r' show "distinct (map fst (streamsAt ?s r'))"
      using assms(1) unfolding at by (simp add: streamsOk_def distinct_delete)
  next
    fix r' v c assume in_s: "(v, c) \<in> set (streamsAt ?s r')"
    then have c: "(v, c) \<in> set (streamsAt s r')" using sub by blast
    then show "c < as_fresh ?s" using assms(1) by (auto simp: streamsOk_def s1_def)
    have "c \<noteq> ch"
    proof
      assume "c = ch"
      then have "r' = r \<and> v = u" using assms c unfolding streamsOk_def by blast
      then show False using in_s unfolding at by (simp add: set_delete)
    qed
    then show "\<not> st_closed (as_stream ?s c)" using assms(1) c by (auto simp: streamsOk_def s1_def)
  next
    fix r1 u1 r2 u2 c
    assume "(u1, c) \<in> set (streamsAt ?s r1) \<and> (u2, c) \<in> set (streamsAt ?s r2)"
    then have "(u1, c) \<in> set (streamsAt s r1) \<and> (u2, c) \<in> set (streamsAt s r2)" using sub by blast
    then show "r1 = r2" "u1 = u2" using assms(1) unfolding streamsOk_def by blast+
  qed
  ultimately show thesis using that [OF eq] at by blast
qed

lemma shrunk_refl: "shrunk s s"
  by (simp add: shrunk_def)

text \<open>Closing all streams of one item.\<close>

lemma dropAll:
  assumes "streamsOk s" and "set L \<subseteq> set (streamsAt s r)" and "distinct (map fst L)"
  shows "\<exists>s'. foldM (\<lambda>(user, ch). dropStream r user ch) L s = Some s' \<and> streamsOk s' \<and> shrunk s s'
    \<and> set (streamsAt s' r) = {x \<in> set (streamsAt s r). fst x \<notin> fst ` set L}"
  using assms
proof (induction L arbitrary: s)
  case Nil
  then show ?case by (simp add: shrunk_refl)
next
  case (Cons x L)
  obtain u ch where x: "x = (u, ch)" by fastforce
  have "(u, ch) \<in> set (streamsAt s r)" using Cons.prems x by simp
  then obtain s1 where s1: "dropStream r u ch s = Some s1" "streamsOk s1" "shrunk s s1"
    "\<And>r'. streamsAt s1 r' = (if r' = r then AList.delete u (streamsAt s r) else streamsAt s r')"
    using dropStream_ok [OF Cons.prems(1)] by metis
  have "set L \<subseteq> set (streamsAt s1 r)" "distinct (map fst L)"
    using Cons.prems(2,3) s1(4) x by (auto simp: set_delete)
  from Cons.IH [OF s1(2) this] obtain s2 where s2: "foldM (\<lambda>(user, ch). dropStream r user ch) L s1 = Some s2"
    "streamsOk s2" "shrunk s1 s2" "set (streamsAt s2 r) = {x \<in> set (streamsAt s1 r). fst x \<notin> fst ` set L}"
    by blast
  have "set (streamsAt s2 r) = {y \<in> set (streamsAt s r). fst y \<notin> fst ` set (x # L)}"
    using s2(4) s1(4) x by (auto simp: set_delete)
  then show ?case
    using s1(1,3) s2(1,2,3) shrunk_trans x by fastforce
qed

lemma audioDetach_ok:
  assumes "audioOk s" and "r < l_fresh (as_listeners s)"
  shows "\<exists>s'. audioDetach r s = Some s' \<and> audioOk s' \<and> as_fresh s' = as_fresh s
    \<and> l_fresh (as_listeners s') = l_fresh (as_listeners s)"
proof (cases "ei_detached (itemAt s r)")
  case True
  then show ?thesis using assms by (simp add: audioDetach_def)
next
  case False
  let ?e1 = "setItem r (\<lambda>i. i\<lparr>ei_detached := True\<rparr>) (as_listeners s)"
  let ?s1 = "s\<lparr>as_listeners := ?e1\<rparr>"
  obtain xs where xs: "rep (as_listeners s) xs" using assms(1) by (auto simp: audioOk_def)
  have at1: "streamsAt ?s1 r' = streamsAt s r'" for r' by (simp add: setItem_def)
  have ok1: "streamsOk ?s1" using assms(1) unfolding audioOk_def streamsOk_def at1 by simp
  have "distinct (map fst (streamsAt s r))" using ok1 unfolding streamsOk_def at1 by blast
  moreover have "{x \<in> set (streamsAt s r). fst x \<notin> fst ` set (streamsAt s r)} = {}" by auto
  moreover note dropAll [OF ok1, of "streamsAt s r" r, unfolded at1, OF subset_refl]
  ultimately obtain s2 where s2: "foldM (\<lambda>(user, ch). dropStream r user ch) (streamsAt s r) ?s1 = Some s2"
    "streamsOk s2" "shrunk ?s1 s2" "streamsAt s2 r = []"
    by (metis set_empty)
  let ?s3 = "s2\<lparr>as_listeners := unlink r (as_listeners s2)\<rparr>"
  have res: "audioDetach r s = Some ?s3"
    using False s2(1) at1 by (simp add: audioDetach_def Let_def)
  have sh: "shape (as_listeners s2) = shape ?e1" using s2(3) by (simp add: shrunk_def)
  have det: "Detach r (as_listeners s) = unlink r ?e1" using False by (simp add: Detach_def)
  have shp: "shape (as_listeners ?s3) = shape (Detach r (as_listeners s))"
    using shape_unlink [OF sh, of r] det by simp
  have rep3: "rep (as_listeners ?s3) (remove1 r xs)"
    using Detach_rep [OF xs assms(2)] rep_shape [OF shp] by simp
  have at3: "streamsAt ?s3 r' = streamsAt s2 r'" for r'
    by (simp add: unlink_def setItem_def Let_def split: option.split)
  have fresh3: "l_fresh (as_listeners ?s3) = l_fresh (as_listeners s)" "as_fresh ?s3 = as_fresh s"
    using Detach_rep [OF xs assms(2)] shape_l_fresh(1) [OF shp] s2(3) by (simp_all add: shrunk_def)
  have "audioOk ?s3"
    unfolding audioOk_def
  proof (intro conjI allI impI)
    show "streamsOk ?s3" using s2(2) unfolding streamsOk_def at3 by simp
    show "\<exists>xs. rep (as_listeners ?s3) xs" using rep3 by blast
  next
    fix r' assume ne: "streamsAt ?s3 r' \<noteq> []"
    then have "r' \<noteq> r" "streamsAt s r' \<noteq> []" using s2(3,4) at3 at1 unfolding shrunk_def
      by (metis, metis subset_empty set_empty)
    then have r': "r' < l_fresh (as_listeners s)" "\<not> ei_detached (itemAt s r')"
      using assms(1) unfolding audioOk_def by blast+
    then show "r' < l_fresh (as_listeners ?s3)" using fresh3(1) by simp
    have "r' \<in> set (remove1 r xs)" using xs r' \<open>r' \<noteq> r\<close> by (auto simp: rep_def)
    then show "\<not> ei_detached (itemAt ?s3 r')"
      using rep3 r'(1) unfolding rep_def by blast
  qed
  then show ?thesis using res fresh3 by blast
qed

lemma closeUserStreams_ok:
  assumes "audioOk s"
  shows "\<exists>s'. closeUserStreams user s = Some s' \<and> audioOk s' \<and> shrunk s s'"
proof -
  obtain xs where xs: "rep (as_listeners s) xs" using assms by (auto simp: audioOk_def)
  let ?f = "\<lambda>r s. case map_of (streamsAt s r) user of None \<Rightarrow> Some s | Some ch \<Rightarrow> dropStream r user ch s"
  have "\<exists>s'. foldM ?f items s = Some s' \<and> streamsOk s' \<and> shrunk s s'" if "streamsOk s" for items s
    using that
  proof (induction items arbitrary: s)
    case Nil
    then show ?case by (simp add: shrunk_refl)
  next
    case (Cons r items)
    show ?case
    proof (cases "map_of (streamsAt s r) user")
      case None
      then show ?thesis using Cons by simp
    next
      case (Some ch)
      then obtain s1 where "dropStream r user ch s = Some s1" "streamsOk s1" "shrunk s s1"
        using dropStream_ok [OF Cons.prems map_of_SomeD] by metis
      then show ?thesis using Cons.IH [of s1] Some shrunk_trans by fastforce
    qed
  qed
  then show ?thesis
    using assms shrunk_ok [OF assms] itemsOf_rep [OF xs] by (force simp: closeUserStreams_def audioOk_def)
qed

lemma update_append: "k \<notin> fst ` set xs \<Longrightarrow> AList.update k v xs = xs @ [(k, v)]"
  by (induction xs) auto

lemma openStream_ok:
  assumes "audioOk s" and "r < l_fresh (as_listeners s)" and "\<not> ei_detached (itemAt s r)"
  shows "case openStream buffers user r s of (d, s') \<Rightarrow> audioOk s'
    \<and> shape (as_listeners s') = shape (as_listeners s) \<and> dl_item d = r
    \<and> map_of (streamsAt s' r) user = Some (dl_ch d) \<and> (\<forall>r'. r' \<noteq> r \<longrightarrow> streamsAt s' r' = streamsAt s r')"
proof (cases "map_of (streamsAt s r) user")
  case (Some ch)
  then show ?thesis using assms(1) by (simp add: openStream_def)
next
  case None
  let ?ch = "as_fresh s"
  define s1 where "s1 = s\<lparr>as_fresh := Suc ?ch, as_stream := (as_stream s)(?ch :=
    \<lparr>st_buffer = [], st_cap = nat (if buffers < 1 then 1 else buffers), st_closed = False\<rparr>)\<rparr>"
  let ?m = "AList.update user ?ch (streamsAt s r)"
  let ?s = "setStreams r ?m s1"
  have eq: "openStream buffers user r s = (\<lparr>dl_item = r, dl_ch = ?ch, dl_new = True\<rparr>, ?s)"
    using None by (simp add: openStream_def s1_def Let_def)
  have at: "streamsAt ?s r' = (if r' = r then ?m else streamsAt s r')" for r' by (simp add: s1_def)
  have "user \<notin> fst ` set (streamsAt s r)" using None by (simp add: map_of_eq_None_iff)
  then have m: "?m = streamsAt s r @ [(user, ?ch)]" by (rule update_append)
  have mem: "(v, c) \<in> set (streamsAt ?s r') \<longleftrightarrow> (v, c) \<in> set (streamsAt s r') \<or> (r' = r \<and> v = user \<and> c = ?ch)" for v c r'
    unfolding at using m by auto
  have sok: "streamsOk s" using assms(1) by (simp add: audioOk_def)
  have old: "(v, c) \<in> set (streamsAt s r') \<Longrightarrow> c < ?ch" for v c r' using sok unfolding streamsOk_def by blast
  have "streamsOk ?s"
    unfolding streamsOk_def
  proof (intro conjI allI impI)
    fix r' show "distinct (map fst (streamsAt ?s r'))"
      using sok unfolding at by (simp add: streamsOk_def distinct_update)
  next
    fix r' v c assume "(v, c) \<in> set (streamsAt ?s r')"
    then show "c < as_fresh ?s" "\<not> st_closed (as_stream ?s c)"
      unfolding mem using sok old by (auto simp: streamsOk_def s1_def less_Suc_eq)
  next
    fix r1 u1 r2 u2 c
    assume "(u1, c) \<in> set (streamsAt ?s r1) \<and> (u2, c) \<in> set (streamsAt ?s r2)"
    then show "r1 = r2" "u1 = u2" unfolding mem using sok old unfolding streamsOk_def by blast+
  qed
  moreover have "shape (as_listeners ?s) = shape (as_listeners s)" by (simp add: s1_def)
  ultimately have "audioOk ?s"
    using assms rep_shape [of "as_listeners ?s" "as_listeners s"] shape_l_fresh [of "as_listeners ?s" "as_listeners s"]
    unfolding audioOk_def at by (metis (no_types, lifting))
  then show ?thesis unfolding eq using at \<open>shape (as_listeners ?s) = shape (as_listeners s)\<close>
    by (simp add: update_conv') (simp add: s1_def)
qed

lemma openStreams_ok:
  assumes "audioOk s" and "\<forall>r \<in> set rs. r < l_fresh (as_listeners s) \<and> \<not> ei_detached (itemAt s r)"
  shows "case openStreams buffers user rs s of (ds, s') \<Rightarrow> audioOk s'
    \<and> shape (as_listeners s') = shape (as_listeners s)"
  using assms
proof (induction rs arbitrary: s)
  case (Cons r rs)
  obtain d s1 where d: "openStream buffers user r s = (d, s1)" by fastforce
  then have s1: "audioOk s1" "shape (as_listeners s1) = shape (as_listeners s)"
    using openStream_ok [OF Cons.prems(1), where r = r and buffers = buffers and user = user] Cons.prems(2) by auto
  then have "\<forall>r \<in> set rs. r < l_fresh (as_listeners s1) \<and> \<not> ei_detached (itemAt s1 r)"
    using Cons.prems(2) shape_l_fresh [OF s1(2)] by simp
  from Cons.IH [OF s1(1) this] show ?case using d s1(2) by (auto split: prod.splits)
qed simp

lemma collectDeliveries_ok:
  assumes "audioOk s"
  shows "\<exists>ds s'. collectDeliveries buffers user s = Some (ds, s') \<and> audioOk s'
    \<and> shape (as_listeners s') = shape (as_listeners s)"
proof -
  obtain xs where xs: "rep (as_listeners s) xs" using assms by (auto simp: audioOk_def)
  then have "\<forall>r \<in> set xs. r < l_fresh (as_listeners s) \<and> \<not> ei_detached (itemAt s r)"
    by (auto simp: rep_def)
  from openStreams_ok [OF assms this, where buffers = buffers and user = user] show ?thesis
    using itemsOf_rep [OF xs] by (auto simp: collectDeliveries_def split: prod.splits)
qed

text \<open>Sending and receiving change buffers only.\<close>

lemma buffers_only:
  assumes "audioOk s" and "as_listeners s' = as_listeners s" and "as_fresh s' = as_fresh s"
    and "\<And>ch. st_closed (as_stream s' ch) = st_closed (as_stream s ch)"
  shows "audioOk s'"
  using assms(1) unfolding audioOk_def streamsOk_def assms(2,3,4) .

lemma deliver_ok:
  assumes "audioOk s"
  shows "\<exists>s'. deliver user packet d s = Some s' \<and> audioOk s' \<and> as_listeners s' = as_listeners s"
proof (cases "\<not> ei_detached (itemAt s (dl_item d)) \<and> map_of (streamsAt s (dl_item d)) user = Some (dl_ch d)")
  case True
  then have "(user, dl_ch d) \<in> set (streamsAt s (dl_item d))" by (simp add: map_of_SomeD)
  then have opn: "\<not> st_closed (as_stream s (dl_ch d))"
    using assms unfolding audioOk_def streamsOk_def by blast
  let ?st = "as_stream s (dl_ch d)"
  let ?s = "if length (st_buffer ?st) < st_cap ?st
    then s\<lparr>as_stream := (as_stream s)(dl_ch d := ?st\<lparr>st_buffer := st_buffer ?st @ [packet]\<rparr>)\<rparr> else s"
  have "deliver user packet d s = Some ?s" using True opn by (simp add: deliver_def trySend_def Let_def)
  moreover have "audioOk ?s" by (rule buffers_only [OF assms]) auto
  moreover have "as_listeners ?s = as_listeners s" by simp
  ultimately show ?thesis by blast
next
  case False
  then show ?thesis using assms by (auto simp: deliver_def)
qed

lemma receive_ok: "audioOk s \<Longrightarrow> audioOk (receive ch s)"
  by (rule buffers_only [of s]) (auto simp: receive_def)


lemma audioAttach_ok:
  assumes "audioOk s"
  shows "audioOk (snd (audioAttach l s))"
proof -
  obtain xs where xs: "rep (as_listeners s) xs" using assms by (auto simp: audioOk_def)
  let ?d = "\<lparr>ai_listener = l, ai_streams = []\<rparr>"
  obtain e where att: "Attach ?d (as_listeners s) = (l_fresh (as_listeners s), e)"
    and e: "l_fresh e = Suc (l_fresh (as_listeners s))" "rep e (xs @ [l_fresh (as_listeners s)])"
      "\<And>x. ei_data (l_items e x) = (if x = l_fresh (as_listeners s) then ?d else ei_data (itemAt s x))"
    using Attach_rep [OF xs, of ?d] by auto
  have eq: "snd (audioAttach l s) = s\<lparr>as_listeners := e\<rparr>" by (simp add: audioAttach_def att)
  have at: "streamsAt (s\<lparr>as_listeners := e\<rparr>) r = (if r = l_fresh (as_listeners s) then [] else streamsAt s r)" for r
    by (simp add: e(3))
  have old: "streamsAt s r \<noteq> [] \<Longrightarrow> r < l_fresh (as_listeners s) \<and> r \<in> set xs" for r
    using assms xs unfolding audioOk_def rep_def by blast
  show ?thesis
    unfolding eq audioOk_def
  proof (intro conjI allI impI)
    have "(u, c) \<in> set (streamsAt (s\<lparr>as_listeners := e\<rparr>) r) \<Longrightarrow> (u, c) \<in> set (streamsAt s r)" for u c r
      unfolding at by (auto split: if_splits)
    moreover have "streamsOk s" using assms by (simp add: audioOk_def)
    ultimately show "streamsOk (s\<lparr>as_listeners := e\<rparr>)"
      unfolding streamsOk_def by (smt (verit) at audioState.select_convs audioState.update_convs audioState.surjective
        distinct.simps(1) list.map(1))
    show "\<exists>xs. rep (as_listeners (s\<lparr>as_listeners := e\<rparr>)) xs" using e(2) by auto
  next
    fix r assume "streamsAt (s\<lparr>as_listeners := e\<rparr>) r \<noteq> []"
    then have "r < l_fresh (as_listeners s)" "r \<in> set xs" using old unfolding at by (auto split: if_splits)
    then show "r < l_fresh (as_listeners (s\<lparr>as_listeners := e\<rparr>))"
      "\<not> ei_detached (itemAt (s\<lparr>as_listeners := e\<rparr>) r)"
      using e(1,2) by (auto simp: rep_def)
  qed
qed

section \<open>Every interleaving\<close>

text \<open>The audio state together with the dispatches under way: for each, the user, the packet and
  the deliveries its second loop has still to make.\<close>

type_synonym audioSystem = "audioState \<times> (user_ref \<times> audioPacket \<times> delivery list) list"

datatype audioAction =
    DoAttach nat
  | DoDetach item_ref
  | DoRemoveUser user_ref
  | DoDispatch user_ref audioPacket
  | DoDeliver nat
  | DoReceive stream_ref

text \<open>One locked section.  \<open>DoDetach\<close> is called through a \<^verbatim>\<open>Detacher\<close>, hence for issued items;
  \<open>DoDeliver i\<close> is the next turn of the \<open>i\<close>-th dispatch, if it has one.\<close>

fun astep :: "int \<Rightarrow> audioAction \<Rightarrow> audioSystem \<Rightarrow> audioSystem option" where
  "astep buffers (DoAttach l) (s, ps) = Some (snd (audioAttach l s), ps)"
| "astep buffers (DoDetach r) (s, ps) =
    (if r < l_fresh (as_listeners s) then map_option (\<lambda>s. (s, ps)) (audioDetach r s) else Some (s, ps))"
| "astep buffers (DoRemoveUser u) (s, ps) = map_option (\<lambda>s. (s, ps)) (closeUserStreams u s)"
| "astep buffers (DoDispatch u p) (s, ps) =
    map_option (\<lambda>(ds, s). (s, ps @ [(u, p, ds)])) (collectDeliveries buffers u s)"
| "astep buffers (DoDeliver i) (s, ps) =
    (if i < length ps then
       (case ps ! i of
          (u, p, []) \<Rightarrow> Some (s, ps)
        | (u, p, d # ds) \<Rightarrow> map_option (\<lambda>s. (s, ps[i := (u, p, ds)])) (deliver u p d s))
     else Some (s, ps))"
| "astep buffers (DoReceive ch) (s, ps) = Some (receive ch s, ps)"

lemma astep_ok: "audioOk s \<Longrightarrow> \<exists>s' ps'. astep buffers a (s, ps) = Some (s', ps') \<and> audioOk s'"
  using audioAttach_ok audioDetach_ok closeUserStreams_ok collectDeliveries_ok receive_ok deliver_ok
  by (cases a) (fastforce split: prod.splits list.splits)+

lemma audioOk_noAudio: "audioOk noAudio"
proof -
  have "rep (as_listeners noAudio) []" by (simp add: noAudio_def rep_noListeners)
  moreover have "streamsAt noAudio r = []" for r by (simp add: noAudio_def noListeners_def)
  ultimately show ?thesis by (auto simp: audioOk_def streamsOk_def)
qed

text \<open>However the goroutines that dispatch packets, attach and detach listeners, remove users and
  receive from streams interleave, none of them ever sends on a closed channel or closes a
  channel twice: no schedule panics.\<close>

theorem audio_no_panic: "foldM (astep buffers) actions (noAudio, []) \<noteq> None"
proof -
  have "foldM (astep buffers) actions (s, ps) \<noteq> None" if "audioOk s" for s ps
    using that
  proof (induction actions arbitrary: s ps)
    case (Cons a as)
    then show ?case using astep_ok [OF Cons.prems, of buffers a ps] by auto
  qed simp
  then show ?thesis using audioOk_noAudio by blast
qed

section \<open>What one dispatch delivers\<close>

definition received :: "audioPacket \<Rightarrow> stream \<Rightarrow> stream" where
  "received packet st = (if length (st_buffer st) < st_cap st then st\<lparr>st_buffer := st_buffer st @ [packet]\<rparr> else st)"

lemma deliverAll:
  assumes "audioOk s" and "\<forall>d \<in> set ds. \<not> ei_detached (itemAt s (dl_item d))
      \<and> map_of (streamsAt s (dl_item d)) user = Some (dl_ch d)" and "distinct (map dl_item ds)"
  shows "\<exists>s'. foldM (deliver user packet) ds s = Some s' \<and> as_listeners s' = as_listeners s
    \<and> (\<forall>ch. as_stream s' ch = (if ch \<in> dl_ch ` set ds then received packet (as_stream s ch) else as_stream s ch))"
  using assms
proof (induction ds arbitrary: s)
  case (Cons d ds)
  let ?st = "as_stream s (dl_ch d)"
  have mem: "x \<in> set (d # ds) \<Longrightarrow> (user, dl_ch x) \<in> set (streamsAt s (dl_item x))" for x
    using Cons.prems(2) by (auto dest: map_of_SomeD)
  have ok: "streamsOk s" using Cons.prems(1) by (simp add: audioOk_def)
  have opn: "\<not> st_closed ?st" using mem [of d] ok by (auto simp: streamsOk_def)
  obtain s1 where s1: "deliver user packet d s = Some s1" "audioOk s1" "as_listeners s1 = as_listeners s"
    using deliver_ok [OF Cons.prems(1)] by blast
  have st1: "as_stream s1 ch = (if ch = dl_ch d then received packet ?st else as_stream s ch)" for ch
    using s1(1) opn Cons.prems(2) by (auto simp: deliver_def trySend_def Let_def received_def split: if_splits)
  from Cons.IH [OF s1(2)] Cons.prems(2,3) s1(3) obtain s2 where s2: "foldM (deliver user packet) ds s1 = Some s2"
    "as_listeners s2 = as_listeners s"
    "\<And>ch. as_stream s2 ch = (if ch \<in> dl_ch ` set ds then received packet (as_stream s1 ch) else as_stream s1 ch)"
    by auto
  have "dl_ch d \<notin> dl_ch ` set ds"
  proof
    assume "dl_ch d \<in> dl_ch ` set ds"
    then obtain x where x: "x \<in> set ds" "dl_ch x = dl_ch d" by auto
    then have "dl_item x = dl_item d" using mem [of x] mem [of d] ok unfolding streamsOk_def by (metis list.set_intros)
    then show False using x(1) Cons.prems(3) by (metis distinct.simps(2) image_eqI list.set_map list.simps(9))
  qed
  then have "as_stream s2 ch = (if ch \<in> dl_ch ` set (d # ds) then received packet (as_stream s ch) else as_stream s ch)" for ch
    using s2(3) [of ch] st1 [of ch] by auto
  then show ?case using s1(1) s2 by auto
qed simp

lemma openStreams_deliveries:
  assumes "audioOk s" and "\<forall>r \<in> set rs. r < l_fresh (as_listeners s) \<and> \<not> ei_detached (itemAt s r)" and "distinct rs"
    and "openStreams buffers user rs s = (ds, s')"
  shows "map dl_item ds = rs \<and> (\<forall>d \<in> set ds. map_of (streamsAt s' (dl_item d)) user = Some (dl_ch d))
    \<and> (\<forall>r. r \<notin> set rs \<longrightarrow> streamsAt s' r = streamsAt s r)"
  using assms
proof (induction rs arbitrary: s ds)
  case (Cons r rs)
  obtain d s1 where d: "openStream buffers user r s = (d, s1)" by fastforce
  then have s1: "audioOk s1" "shape (as_listeners s1) = shape (as_listeners s)" "dl_item d = r"
    "map_of (streamsAt s1 r) user = Some (dl_ch d)" "\<forall>r'. r' \<noteq> r \<longrightarrow> streamsAt s1 r' = streamsAt s r'"
    using openStream_ok [OF Cons.prems(1), where r = r and buffers = buffers and user = user] Cons.prems(2) by auto
  obtain ds' where ds': "openStreams buffers user rs s1 = (ds', s')" "ds = d # ds'"
    using Cons.prems(4) d by (auto split: prod.splits)
  have "\<forall>r \<in> set rs. r < l_fresh (as_listeners s1) \<and> \<not> ei_detached (itemAt s1 r)"
    using Cons.prems(2) shape_l_fresh [OF s1(2)] by simp
  from Cons.IH [OF s1(1) this _ ds'(1)] Cons.prems(3)
  show ?case using s1 ds'(2) by auto
qed simp

text \<open>A packet dispatched without interference reaches every attached listener exactly once: each
  has a stream for the sender afterwards, which got the packet at its end unless its buffer was
  full, and nothing else changed in any stream.\<close>

theorem dispatch_reaches_all:
  assumes "audioOk s" and "itemsOf (as_listeners s) = Some items"
  shows "\<exists>ds s1 s'. collectDeliveries buffers user s = Some (ds, s1)
    \<and> dispatchAudio buffers user packet s = Some s' \<and> map dl_item ds = items
    \<and> (\<forall>d \<in> set ds. map_of (streamsAt s' (dl_item d)) user = Some (dl_ch d))
    \<and> (\<forall>ch. as_stream s' ch = (if ch \<in> dl_ch ` set ds then received packet (as_stream s1 ch) else as_stream s1 ch))"
proof -
  obtain xs where xs: "rep (as_listeners s) xs" using assms(1) by (auto simp: audioOk_def)
  have items: "items = xs" using itemsOf_rep [OF xs] assms(2) by simp
  have alive: "\<forall>r \<in> set xs. r < l_fresh (as_listeners s) \<and> \<not> ei_detached (itemAt s r)" and "distinct xs"
    using xs by (auto simp: rep_def)
  obtain ds s1 where opened: "openStreams buffers user xs s = (ds, s1)" by fastforce
  have s1: "audioOk s1" "shape (as_listeners s1) = shape (as_listeners s)"
    using openStreams_ok [OF assms(1) alive, where buffers = buffers and user = user] opened by auto
  have ds: "map dl_item ds = xs" "\<forall>d \<in> set ds. map_of (streamsAt s1 (dl_item d)) user = Some (dl_ch d)"
    using openStreams_deliveries [OF assms(1) alive \<open>distinct xs\<close> opened] by auto
  have "\<forall>d \<in> set ds. \<not> ei_detached (itemAt s1 (dl_item d))"
    using alive ds(1) shape_l_fresh(2) [OF s1(2)] by auto
  then obtain s' where s': "foldM (deliver user packet) ds s1 = Some s'" "as_listeners s' = as_listeners s1"
    "\<forall>ch. as_stream s' ch = (if ch \<in> dl_ch ` set ds then received packet (as_stream s1 ch) else as_stream s1 ch)"
    using deliverAll [OF s1(1), of ds user packet] ds \<open>distinct xs\<close> by auto
  have "collectDeliveries buffers user s = Some (ds, s1)"
    using assms(2) items opened by (simp add: collectDeliveries_def)
  moreover from this have "dispatchAudio buffers user packet s = Some s'" using s'(1) by (simp add: dispatchAudio_def)
  ultimately show ?thesis using ds s'(2,3) items by (intro exI [of _ ds] exI [of _ s1] exI [of _ s']) simp
qed

definition samplePacket :: audioPacket where
  "samplePacket = \<lparr>ap_Sender = 7, ap_Target = None, ap_Sequence = 2, ap_AudioBuffer = [1, 2],
     ap_Terminator = False, ap_Position = None, ap_VolumeAdjustment = 0\<rparr>"

theorem dispatch_reaches_all_witness:
  "\<exists>ds s1 s'. collectDeliveries 5 7 (snd (audioAttach 1 noAudio)) = Some (ds, s1)
    \<and> dispatchAudio 5 7 samplePacket (snd (audioAttach 1 noAudio)) = Some s' \<and> map dl_item ds = [0]"
proof -
  have "itemsOf (as_listeners (snd (audioAttach 1 noAudio))) = Some [0]"
    by (simp add: itemsOf_def audioAttach_def Attach_def noAudio_def noListeners_def Let_def)
  from dispatch_reaches_all [OF audioAttach_ok [OF audioOk_noAudio] this, of 5 7 samplePacket]
  show ?thesis by (elim exE conjE) (intro exI conjI; assumption)
qed

end
