(* ===== verification/Config.thy ===== *)
theory Config
  imports Prelude
begin

text \<open>
  \<^verbatim>\<open>Config\<close> (\<^verbatim>\<open>gumble/gumble/config.go\<close>) and the constants of \<^verbatim>\<open>audio.go\<close>.  A
  \<^verbatim>\<open>time.Duration\<close> is its number of nanoseconds and an \<^verbatim>\<open>int\<close> is unbounded here: no value the code
  accepts comes near the limits.  The two listener lists of the record are in the client's state.
\<close>

section \<open>Constants of audio.go\<close>

definition AudioSampleRate :: int where
  "AudioSampleRate = 48000"

definition Millisecond :: int where
  "Millisecond = 1000000"

definition AudioDefaultInterval :: int where
  "AudioDefaultInterval = 10 * Millisecond"

definition AudioChannels :: int where
  "AudioChannels = 2"

definition AudioDefaultFrameSize :: int where
  "AudioDefaultFrameSize = goQuot AudioSampleRate 100"

definition AudioMaximumFrameSize :: int where
  "AudioMaximumFrameSize = (goQuot AudioSampleRate 1000 * 60) * AudioChannels"

definition AudioDefaultDataBytes :: int where
  "AudioDefaultDataBytes = 40"

lemma audio_constants:
  "AudioSampleRate = 48000" "Millisecond = 1000000" "AudioDefaultInterval = 10000000" "AudioChannels = 2"
  "AudioDefaultFrameSize = 480" "AudioMaximumFrameSize = 5760" "AudioDefaultDataBytes = 40"
  by (simp_all add: AudioSampleRate_def Millisecond_def AudioDefaultInterval_def AudioChannels_def
      AudioDefaultFrameSize_def AudioMaximumFrameSize_def AudioDefaultDataBytes_def goQuot_def)

section \<open>The configuration\<close>

record config =
  cfg_Username :: string
  cfg_Password :: string
  cfg_Address :: string
  cfg_Tokens :: "string list"
  cfg_AudioInterval :: int
  cfg_AudioDataBytes :: int
  cfg_IncomingAudioBuffer :: int
  cfg_DisableUDP :: bool
  cfg_Buffers :: int

definition MaximumBuffers :: int where
  "MaximumBuffers = 1024"

definition NewConfig :: config where
  "NewConfig = \<lparr>cfg_Username = [], cfg_Password = [], cfg_Address = [], cfg_Tokens = [],
     cfg_AudioInterval = AudioDefaultInterval, cfg_AudioDataBytes = AudioDefaultDataBytes,
     cfg_IncomingAudioBuffer = 40 * Millisecond, cfg_DisableUDP = False, cfg_Buffers = 8\<rparr>"

datatype config_error =
    BadAudioInterval | AudioDataBytesNotPositive | IncomingAudioBufferNegative | BuffersNotPositive
  | TooManyBuffers

definition Validate :: "config \<Rightarrow> config_error option" where
  "Validate c =
    (if cfg_AudioInterval c \<notin> {10 * Millisecond, 20 * Millisecond, 40 * Millisecond, 60 * Millisecond}
     then Some BadAudioInterval
     else if cfg_AudioDataBytes c \<le> 0 then Some AudioDataBytesNotPositive
     else if cfg_IncomingAudioBuffer c < 0 then Some IncomingAudioBufferNegative
     else if cfg_Buffers c \<le> 0 then Some BuffersNotPositive
     else if cfg_Buffers c > MaximumBuffers then Some TooManyBuffers
     else None)"

definition AudioFrameSize :: "config \<Rightarrow> int" where
  "AudioFrameSize c = goQuot (cfg_AudioInterval c) AudioDefaultInterval * AudioDefaultFrameSize"

section \<open>What a valid configuration guarantees\<close>

lemma valid_frame_sizes:
  assumes "Validate c = None"
  shows "AudioFrameSize c \<in> {480, 960, 1920, 2880}"
  using assms by (auto simp: Validate_def AudioFrameSize_def audio_constants goQuot_def split: if_splits)

text \<open>A configuration that passes \<^verbatim>\<open>Validate\<close> gives frames of 10, 20, 40 or 60 ms that fit the
  decoder's buffer, a positive packet size and between 1 and 1024 buffers; the default passes.\<close>

theorem validate_bounds:
  "Validate NewConfig = None \<and> (Validate c = None \<longrightarrow>
     AudioFrameSize c \<in> {480, 960, 1920, 2880} \<and> AudioFrameSize c * AudioChannels \<le> AudioMaximumFrameSize
     \<and> 0 < cfg_AudioDataBytes c \<and> 0 \<le> cfg_IncomingAudioBuffer c \<and> cfg_Buffers c \<in> {1..1024})"
proof -
  have "Validate NewConfig = None"
    by (simp add: Validate_def NewConfig_def audio_constants MaximumBuffers_def)
  moreover have "0 < cfg_AudioDataBytes c \<and> 0 \<le> cfg_IncomingAudioBuffer c \<and> cfg_Buffers c \<in> {1..1024}"
    if "Validate c = None"
    using that by (auto simp: Validate_def MaximumBuffers_def split: if_splits)
  moreover have "AudioFrameSize c * AudioChannels \<le> AudioMaximumFrameSize" if "Validate c = None"
    using valid_frame_sizes [OF that] by (auto simp: audio_constants)
  ultimately show ?thesis using valid_frame_sizes [of c] by blast
qed

theorem validate_bounds_witness:
  "AudioFrameSize (NewConfig\<lparr>cfg_AudioInterval := 20000000\<rparr>) \<in> {480, 960, 1920, 2880}"
proof -
  have "Validate (NewConfig\<lparr>cfg_AudioInterval := 20000000\<rparr>) = None"
    by (simp add: Validate_def NewConfig_def audio_constants MaximumBuffers_def)
  then show ?thesis using validate_bounds [of "NewConfig\<lparr>cfg_AudioInterval := 20000000\<rparr>"] by blast
qed

end
