(* ===== verification/ClientState.thy ===== *)
theory ClientState
  imports AudioStreams CryptState15 Ocb Config
begin

text \<open>
  The state of a client: \<^verbatim>\<open>Client\<close> of \<^verbatim>\<open>gumble/gumble/client.go\<close> with the objects it reaches
  (\<^verbatim>\<open>channel.go\<close>, \<^verbatim>\<open>channels.go\<close>, \<^verbatim>\<open>user.go\<close>, \<^verbatim>\<open>users.go\<close>, \<^verbatim>\<open>userstats.go\<close>, \<^verbatim>\<open>acl.go\<close>,
  \<^verbatim>\<open>bans.go\<close>, \<^verbatim>\<open>userlist.go\<close>, \<^verbatim>\<open>contextaction.go\<close>, \<^verbatim>\<open>version.go\<close>) and the events it hands to its
  listeners (\<^verbatim>\<open>event.go\<close>, \<^verbatim>\<open>permission.go\<close>).  Channels and users are heap objects: a
  \<^verbatim>\<open>*Channel\<close> or \<^verbatim>\<open>*User\<close> is a reference, allocation takes the next free one, and an object that is
  no longer in the client's maps stays reachable through the references other objects keep.  A Go
  map is an association list in an arbitrary order, read with \<open>map_of\<close>.
\<close>

section \<open>Channels and users\<close>

type_synonym chan_ref = nat
type_synonym int32 = "32 word"
type_synonym decoder = "(bytes option) list"

type_synonym encoder = "((int16 list \<times> int) option) list"

text \<open>A decoder object is the sequence of its calls so far, the latest first: \<open>Some data\<close> for a
  \<^verbatim>\<open>Decode\<close> and \<open>None\<close> for a \<^verbatim>\<open>Reset\<close>.  An encoder is one likewise, with the samples and the
  \<^verbatim>\<open>maxDataBytes\<close> of each \<^verbatim>\<open>Encode\<close>.\<close>

record channel =
  ch_ID :: uint32
  ch_Name :: string
  ch_Parent :: "chan_ref option"
  ch_Children :: "(uint32 \<times> chan_ref) list"
  ch_Links :: "(uint32 \<times> chan_ref) list"
  ch_Users :: "(uint32 \<times> user_ref) list"
  ch_Description :: string
  ch_DescriptionHash :: "bytes option"
  ch_MaxUsers :: uint32
  ch_Position :: int32
  ch_Temporary :: bool
  ch_client :: bool

record version =
  v_Version :: uint32
  v_Release :: string
  v_OS :: string
  v_OSVersion :: string

record userStatsUDP =
  us_Good :: uint32
  us_Late :: uint32
  us_Lost :: uint32
  us_Resync :: uint32

record userStats =
  us_FromClient :: userStatsUDP
  us_FromServer :: userStatsUDP
  us_UDPPackets :: uint32
  us_UDPPingAverage :: float32
  us_UDPPingVariance :: float32
  us_TCPPackets :: uint32
  us_TCPPingAverage :: float32
  us_TCPPingVariance :: float32
  us_Version :: version
  us_Connected :: int
  us_Idle :: int64
  us_Bandwidth :: int
  us_Certificates :: "bytes list"
  us_StrongCertificate :: bool
  us_CELTVersions :: "int32 list"
  us_Opus :: bool
  us_IP :: bytes

record user =
  u_Session :: uint32
  u_UserID :: uint32
  u_Name :: string
  u_Channel :: "chan_ref option"
  u_Muted :: bool
  u_Deafened :: bool
  u_Suppressed :: bool
  u_SelfMuted :: bool
  u_SelfDeafened :: bool
  u_PrioritySpeaker :: bool
  u_Recording :: bool
  u_Comment :: string
  u_CommentHash :: "bytes option"
  u_Hash :: string
  u_Texture :: "bytes option"
  u_TextureHash :: "bytes option"
  u_Stats :: "userStats option"
  u_client :: bool
  u_decoder :: "decoder option"
  u_audioSequence :: int64
  u_audioSequenceValid :: bool
  u_audioFrameStep :: int64
  u_boost :: uint16
  u_volume :: float32
  u_locallyMuted :: bool

definition newVersion :: version where
  "newVersion = \<lparr>v_Version = 0, v_Release = [], v_OS = [], v_OSVersion = []\<rparr>"

definition newStatsUDP :: userStatsUDP where
  "newStatsUDP = \<lparr>us_Good = 0, us_Late = 0, us_Lost = 0, us_Resync = 0\<rparr>"

definition newUserStats :: userStats where
  "newUserStats = \<lparr>us_FromClient = newStatsUDP, us_FromServer = newStatsUDP, us_UDPPackets = 0,
     us_UDPPingAverage = 0, us_UDPPingVariance = 0, us_TCPPackets = 0, us_TCPPingAverage = 0,
     us_TCPPingVariance = 0, us_Version = newVersion, us_Connected = 0, us_Idle = 0, us_Bandwidth = 0,
     us_Certificates = [], us_StrongCertificate = False, us_CELTVersions = [], us_Opus = False, us_IP = []\<rparr>"

definition newChannel :: "uint32 \<Rightarrow> channel" where
  "newChannel channelID = \<lparr>ch_ID = channelID, ch_Name = [], ch_Parent = None, ch_Children = [], ch_Links = [], ch_Users = [],
     ch_Description = [], ch_DescriptionHash = None, ch_MaxUsers = 0, ch_Position = 0, ch_Temporary = False,
     ch_client = False\<rparr>"

definition newUser :: "uint32 \<Rightarrow> user" where
  "newUser session = \<lparr>u_Session = session, u_UserID = 0, u_Name = [], u_Channel = None, u_Muted = False,
     u_Deafened = False, u_Suppressed = False, u_SelfMuted = False, u_SelfDeafened = False,
     u_PrioritySpeaker = False, u_Recording = False, u_Comment = [], u_CommentHash = None, u_Hash = [],
     u_Texture = None, u_TextureHash = None, u_Stats = None, u_client = False, u_decoder = None,
     u_audioSequence = 0, u_audioSequenceValid = False, u_audioFrameStep = 0, u_boost = 0, u_volume = 0,
     u_locallyMuted = False\<rparr>"

section \<open>Access control, bans, registered users, context actions\<close>

record aclUser =
  au_UserID :: uint32
  au_Name :: string

record aclGroup =
  ag_Name :: string
  ag_Inherited :: bool
  ag_InheritUsers :: bool
  ag_Inheritable :: bool
  ag_UsersAdd :: "(uint32 \<times> aclUser) list"
  ag_UsersRemove :: "(uint32 \<times> aclUser) list"
  ag_UsersInherited :: "(uint32 \<times> aclUser) list"

type_synonym permission = int64

text \<open>The group of a rule is one of the list's groups, shared, or a new one of that name: its
  name is all the rule uses.\<close>

record aclRule =
  ar_AppliesCurrent :: bool
  ar_AppliesChildren :: bool
  ar_Inherited :: bool
  ar_Granted :: permission
  ar_Denied :: permission
  ar_User :: "aclUser option"
  ar_Group :: "string option"

record acl =
  acl_Channel :: chan_ref
  acl_Groups :: "aclGroup list"
  acl_Rules :: "aclRule list"
  acl_Inherits :: bool

record ban =
  b_Address :: bytes
  b_Mask :: "bytes option"
  b_Name :: string
  b_Hash :: string
  b_Reason :: string
  b_Start :: int
  b_Duration :: int64
  b_unban :: bool

record registeredUser =
  ru_UserID :: uint32
  ru_Name :: string
  ru_LastSeen :: int
  ru_LastChannel :: "chan_ref option"
  ru_changed :: bool
  ru_deregister :: bool

record contextAction =
  ca_Type :: int
  ca_Name :: string
  ca_Label :: string

section \<open>Events\<close>

record serverConfig =
  sc_MaximumBitrate :: "int option"
  sc_WelcomeMessage :: "string option"
  sc_AllowHTML :: "bool option"
  sc_MaximumMessageLength :: "int option"
  sc_MaximumImageMessageLength :: "int option"
  sc_MaximumUsers :: "int option"
  sc_RecordingAllowed :: "bool option"
  sc_CodecAlpha :: "int32 option"
  sc_CodecBeta :: "int32 option"
  sc_CodecPreferAlpha :: "bool option"
  sc_CodecOpus :: "bool option"
  sc_SuggestVersion :: "version option"
  sc_SuggestPositional :: "bool option"
  sc_SuggestPushToTalk :: "bool option"

definition newServerConfig :: serverConfig where
  "newServerConfig = \<lparr>sc_MaximumBitrate = None, sc_WelcomeMessage = None, sc_AllowHTML = None,
     sc_MaximumMessageLength = None, sc_MaximumImageMessageLength = None, sc_MaximumUsers = None,
     sc_RecordingAllowed = None, sc_CodecAlpha = None, sc_CodecBeta = None, sc_CodecPreferAlpha = None,
     sc_CodecOpus = None, sc_SuggestVersion = None, sc_SuggestPositional = None, sc_SuggestPushToTalk = None\<rparr>"

datatype disconnectType = DisconnectError | DisconnectKicked | DisconnectBanned | DisconnectUser

text \<open>The change bits (\<^verbatim>\<open>1 << iota\<close>).\<close>

abbreviation "UserChangeConnected \<equiv> (0x1 :: int64)"
abbreviation "UserChangeDisconnected \<equiv> (0x2 :: int64)"
abbreviation "UserChangeKicked \<equiv> (0x4 :: int64)"
abbreviation "UserChangeBanned \<equiv> (0x8 :: int64)"
abbreviation "UserChangeRegistered \<equiv> (0x10 :: int64)"
abbreviation "UserChangeUnregistered \<equiv> (0x20 :: int64)"
abbreviation "UserChangeName \<equiv> (0x40 :: int64)"
abbreviation "UserChangeChannel \<equiv> (0x80 :: int64)"
abbreviation "UserChangeComment \<equiv> (0x100 :: int64)"
abbreviation "UserChangeAudio \<equiv> (0x200 :: int64)"
abbreviation "UserChangeTexture \<equiv> (0x400 :: int64)"
abbreviation "UserChangePrioritySpeaker \<equiv> (0x800 :: int64)"
abbreviation "UserChangeRecording \<equiv> (0x1000 :: int64)"
abbreviation "UserChangeStats \<equiv> (0x2000 :: int64)"

abbreviation "ChannelChangeCreated \<equiv> (0x1 :: int64)"
abbreviation "ChannelChangeRemoved \<equiv> (0x2 :: int64)"
abbreviation "ChannelChangeMoved \<equiv> (0x4 :: int64)"
abbreviation "ChannelChangeName \<equiv> (0x8 :: int64)"
abbreviation "ChannelChangeLinks \<equiv> (0x10 :: int64)"
abbreviation "ChannelChangeDescription \<equiv> (0x20 :: int64)"
abbreviation "ChannelChangePosition \<equiv> (0x40 :: int64)"
abbreviation "ChannelChangePermission \<equiv> (0x80 :: int64)"
abbreviation "ChannelChangeMaxUsers \<equiv> (0x100 :: int64)"

text \<open>\<^verbatim>\<open>Has\<close> of every bit-mask type.\<close>

definition Has :: "int64 \<Rightarrow> int64 \<Rightarrow> bool" where
  "Has p changeType = (p AND changeType = changeType)"

record userChangeEvent =
  uc_Type :: int64
  uc_User :: "user_ref option"
  uc_Actor :: "user_ref option"
  uc_String :: string

record channelChangeEvent =
  cc_Type :: int64
  cc_Channel :: "chan_ref option"

record textMessage =
  tm_Sender :: "user_ref option"
  tm_Users :: "user_ref list"
  tm_Channels :: "chan_ref list"
  tm_Trees :: "chan_ref list"
  tm_Message :: string

record permissionDeniedEvent =
  pd_Type :: int
  pd_Channel :: "chan_ref option"
  pd_User :: "user_ref option"
  pd_Permission :: permission
  pd_String :: string

datatype event =
    ConnectEvent "string option" "int option"
  | DisconnectEvent disconnectType string
  | TextMessageEvent textMessage
  | UserChangeEvent userChangeEvent
  | ChannelChangeEvent channelChangeEvent
  | PermissionDeniedEvent permissionDeniedEvent
  | UserListEvent "registeredUser list"
  | ACLEvent acl
  | BanListEvent "ban list"
  | ContextActionAddEvent contextAction
  | ContextActionRemoveEvent contextAction
  | ServerConfigEvent serverConfig

section \<open>The client\<close>

datatype State = StateDisconnected | StateConnected | StateSynced

record rejectError =
  re_Type :: int
  re_Reason :: string

text \<open>The listeners of \<^verbatim>\<open>c.Config\<close> are in \<open>c_audio\<close> and, as the events delivered, in \<open>c_events\<close>.\<close>

record client =
  c_Self :: "user_ref option"
  c_Config :: config
  c_channel :: "chan_ref \<Rightarrow> channel"
  c_nextChannel :: chan_ref
  c_user :: "user_ref \<Rightarrow> user"
  c_nextUser :: user_ref
  c_Users :: "(uint32 \<times> user_ref) list"
  c_Channels :: "(uint32 \<times> chan_ref) list"
  c_permissions :: "(uint32 \<times> permission) list"
  c_tmpACL :: "acl option"
  c_tcpPacketsReceived :: uint32
  c_tcpPingTimes :: "float32 list"
  c_tcpPingAvg :: float32
  c_tcpPingVar :: float32
  c_ContextActions :: "(string \<times> contextAction) list"
  c_audioCodec :: bool
  c_AudioEncoder :: "encoder option"
  c_AudioEncoderStereo :: "encoder option"
  c_useStereoEncoder :: bool
  c_VoiceTarget :: "uint32 option"
  c_udpConn :: bool
  c_udpStarted :: bool
  c_udpActive :: bool
  c_udpCryptoOut :: "cryptState15 option"
  c_udpCryptoIn :: "cryptState15 option"
  c_udpFrameNumber :: uint64
  c_udpProtobuf :: bool
  c_udpFallbackLogged :: bool
  c_udpFirstRecv :: bool
  c_cryptOut :: cryptState
  c_cryptIn :: cryptState
  c_state :: State
  c_connect :: "rejectError list"
  c_connectClosed :: bool
  c_connClosed :: bool
  c_endClosed :: bool
  c_disconnectEvent :: "disconnectType \<times> string"
  c_audio :: audioState
  c_events :: "event list"

definition newClient :: "config \<Rightarrow> client" where
  "newClient cfg = \<lparr>c_Self = None, c_Config = cfg, c_channel = (\<lambda>_. newChannel 0), c_nextChannel = 0,
     c_user = (\<lambda>_. newUser 0), c_nextUser = 0, c_Users = [], c_Channels = [], c_permissions = [],
     c_tmpACL = None, c_tcpPacketsReceived = 0, c_tcpPingTimes = replicate 12 0, c_tcpPingAvg = 0,
     c_tcpPingVar = 0, c_ContextActions = [], c_audioCodec = False, c_AudioEncoder = None,
     c_AudioEncoderStereo = None, c_useStereoEncoder = False, c_VoiceTarget = None, c_udpConn = False,
     c_udpStarted = False, c_udpActive = False, c_udpCryptoOut = None, c_udpCryptoIn = None,
     c_udpFrameNumber = 0, c_udpProtobuf = False, c_udpFallbackLogged = False, c_udpFirstRecv = False,
     c_cryptOut = newCryptState, c_cryptIn = newCryptState, c_state = StateConnected, c_connect = [],
     c_connectClosed = False, c_connClosed = False, c_endClosed = False,
     c_disconnectEvent = (DisconnectError, []), c_audio = noAudio, c_events = []\<rparr>"

section \<open>Results of a handler\<close>

text \<open>The errors of the package, and the outcomes of a handler: returned, returned an error (the
  state keeps what was already changed), or panicked (\<^verbatim>\<open>Panic\<close>), or blocked for ever on a channel.\<close>

datatype gerror =
    ErrUnmarshal | ErrUnimplementedHandler | ErrIncompleteProtobuf | ErrInvalidProtobuf
  | ErrUnsupportedAudio | ErrNoCodec | ErrDecode | ErrCrypt crypt_error

datatype outcome = Ok client | Err gerror client | Panic | Blocked

section \<open>Heap operations\<close>

definition setChannel :: "chan_ref \<Rightarrow> (channel \<Rightarrow> channel) \<Rightarrow> client \<Rightarrow> client" where
  "setChannel r f c = c\<lparr>c_channel := (c_channel c)(r := f (c_channel c r))\<rparr>"

definition setUser :: "user_ref \<Rightarrow> (user \<Rightarrow> user) \<Rightarrow> client \<Rightarrow> client" where
  "setUser r f c = c\<lparr>c_user := (c_user c)(r := f (c_user c r))\<rparr>"

text \<open>\<^verbatim>\<open>Channels.create\<close> and \<^verbatim>\<open>Users.create\<close> on the client's maps.\<close>

definition createChannel :: "uint32 \<Rightarrow> client \<Rightarrow> chan_ref \<times> client" where
  "createChannel channelID c =
    (let r = c_nextChannel c in
     (r, c\<lparr>c_nextChannel := Suc r, c_channel := (c_channel c)(r := newChannel channelID),
          c_Channels := AList.update channelID r (c_Channels c)\<rparr>))"

definition createUser :: "uint32 \<Rightarrow> client \<Rightarrow> user_ref \<times> client" where
  "createUser session c =
    (let r = c_nextUser c in
     (r, c\<lparr>c_nextUser := Suc r, c_user := (c_user c)(r := newUser session),
          c_Users := AList.update session r (c_Users c)\<rparr>))"

definition emit :: "event \<Rightarrow> client \<Rightarrow> client" where
  "emit e c = c\<lparr>c_events := c_events c @ [e]\<rparr>"

text \<open>\<^verbatim>\<open>if c.State() == StateSynced { c.Config.Listeners.on...(&event) }\<close>.\<close>

definition emitIfSynced :: "event \<Rightarrow> client \<Rightarrow> client" where
  "emitIfSynced e c = (if c_state c = StateSynced then emit e c else c)"

text \<open>\<^verbatim>\<open>if packet.X != nil { ... *packet.X ... }\<close>.\<close>

definition whenSome :: "'a option \<Rightarrow> ('a \<Rightarrow> 's \<Rightarrow> 's) \<Rightarrow> 's \<Rightarrow> 's" where
  "whenSome x f s = (case x of None \<Rightarrow> s | Some v \<Rightarrow> f v s)"

lemma whenSome_simps [simp]: "whenSome None f s = s" "whenSome (Some v) f s = f v s"
  by (simp_all add: whenSome_def)

lemma setChannel_heap:
  "c_channel (setChannel r f c) r' = (if r' = r then f (c_channel c r) else c_channel c r')"
  by (simp add: setChannel_def)

lemma setUser_heap:
  "c_user (setUser r f c) r' = (if r' = r then f (c_user c r) else c_user c r')"
  by (simp add: setUser_def)

end
