(* ===== verification/Messages.thy ===== *)
theory Messages
  imports ClientState
begin

text \<open>
  What the handlers get from code that is not in the repository: the generated protobuf messages
  (\<^verbatim>\<open>gumble/gumble/MumbleProto\<close>, only the fields the handlers read; an optional field is an
  option, a repeated one a list, which is nil exactly when it is empty), \<^verbatim>\<open>proto.Unmarshal\<close>, the
  clock and time parser, the certificate parser, the Opus codec and the float32 arithmetic.  They are
  the parameters collected in the record \<open>env\<close>.
\<close>

record versionMsg =
  m_ver_VersionV1 :: "uint32 option"
  m_ver_Release :: "string option"
  m_ver_Os :: "string option"
  m_ver_OsVersion :: "string option"

record pingMsg =
  m_ping_Timestamp :: "uint64 option"

record rejectMsg =
  m_rej_Type :: "int option"
  m_rej_Reason :: "string option"

record serverSyncMsg =
  m_ss_Session :: "uint32 option"
  m_ss_MaxBandwidth :: "uint32 option"
  m_ss_WelcomeText :: "string option"

record channelRemoveMsg =
  m_cr_ChannelId :: "uint32 option"

record channelStateMsg =
  m_cs_ChannelId :: "uint32 option"
  m_cs_Parent :: "uint32 option"
  m_cs_Name :: "string option"
  m_cs_Links :: "uint32 list"
  m_cs_Description :: "string option"
  m_cs_LinksAdd :: "uint32 list"
  m_cs_LinksRemove :: "uint32 list"
  m_cs_Temporary :: "bool option"
  m_cs_Position :: "int32 option"
  m_cs_DescriptionHash :: "bytes option"
  m_cs_MaxUsers :: "uint32 option"

record userRemoveMsg =
  m_ur_Session :: "uint32 option"
  m_ur_Actor :: "uint32 option"
  m_ur_Reason :: "string option"
  m_ur_Ban :: "bool option"

record userStateMsg =
  m_us_Session :: "uint32 option"
  m_us_Actor :: "uint32 option"
  m_us_Name :: "string option"
  m_us_UserId :: "uint32 option"
  m_us_ChannelId :: "uint32 option"
  m_us_Mute :: "bool option"
  m_us_Deaf :: "bool option"
  m_us_Suppress :: "bool option"
  m_us_SelfMute :: "bool option"
  m_us_SelfDeaf :: "bool option"
  m_us_Texture :: "bytes option"
  m_us_Comment :: "string option"
  m_us_Hash :: "string option"
  m_us_CommentHash :: "bytes option"
  m_us_TextureHash :: "bytes option"
  m_us_PrioritySpeaker :: "bool option"
  m_us_Recording :: "bool option"
  m_us_PluginContext :: "bytes option"
  m_us_PluginIdentity :: "string option"

record banEntryMsg =
  m_be_Address :: bytes
  m_be_Mask :: "uint32 option"
  m_be_Name :: "string option"
  m_be_Hash :: "string option"
  m_be_Reason :: "string option"
  m_be_Start :: "string option"
  m_be_Duration :: "uint32 option"

record textMessageMsg =
  m_tm_Actor :: "uint32 option"
  m_tm_Session :: "uint32 list"
  m_tm_ChannelId :: "uint32 list"
  m_tm_TreeId :: "uint32 list"
  m_tm_Message :: "string option"

record permissionDeniedMsg =
  m_pd_Permission :: "uint32 option"
  m_pd_ChannelId :: "uint32 option"
  m_pd_Session :: "uint32 option"
  m_pd_Reason :: "string option"
  m_pd_Type :: "int option"
  m_pd_Name :: "string option"

record chanGroupMsg =
  m_cg_Name :: "string option"
  m_cg_Inherited :: "bool option"
  m_cg_Inherit :: "bool option"
  m_cg_Inheritable :: "bool option"
  m_cg_Add :: "uint32 list"
  m_cg_Remove :: "uint32 list"
  m_cg_InheritedMembers :: "uint32 list"

record chanACLMsg =
  m_ca_ApplyHere :: "bool option"
  m_ca_ApplySubs :: "bool option"
  m_ca_Inherited :: "bool option"
  m_ca_UserId :: "uint32 option"
  m_ca_Group :: "string option"
  m_ca_Grant :: "uint32 option"
  m_ca_Deny :: "uint32 option"

record aclMsg =
  m_acl_ChannelId :: "uint32 option"
  m_acl_InheritAcls :: "bool option"
  m_acl_Groups :: "chanGroupMsg list"
  m_acl_Acls :: "chanACLMsg list"

record queryUsersMsg =
  m_qu_Ids :: "uint32 list"
  m_qu_Names :: "string list"

record cryptSetupMsg =
  m_cry_Key :: "bytes option"
  m_cry_ClientNonce :: "bytes option"
  m_cry_ServerNonce :: "bytes option"

record contextActionModifyMsg =
  m_cam_Action :: "string option"
  m_cam_Text :: "string option"
  m_cam_Context :: "uint32 option"
  m_cam_Operation :: "int option"

record userListUserMsg =
  m_ul_UserId :: "uint32 option"
  m_ul_Name :: "string option"
  m_ul_LastSeen :: "string option"
  m_ul_LastChannel :: "uint32 option"

record permissionQueryMsg =
  m_pq_ChannelId :: "uint32 option"
  m_pq_Permissions :: "uint32 option"
  m_pq_Flush :: "bool option"

record codecVersionMsg =
  m_cv_Alpha :: "int32 option"
  m_cv_Beta :: "int32 option"
  m_cv_PreferAlpha :: "bool option"
  m_cv_Opus :: "bool option"

record statsMsg =
  m_st_Good :: "uint32 option"
  m_st_Late :: "uint32 option"
  m_st_Lost :: "uint32 option"
  m_st_Resync :: "uint32 option"

record userStatsMsg =
  m_ust_Session :: "uint32 option"
  m_ust_FromClient :: "statsMsg option"
  m_ust_FromServer :: "statsMsg option"
  m_ust_UdpPackets :: "uint32 option"
  m_ust_UdpPingAvg :: "float32 option"
  m_ust_UdpPingVar :: "float32 option"
  m_ust_TcpPackets :: "uint32 option"
  m_ust_TcpPingAvg :: "float32 option"
  m_ust_TcpPingVar :: "float32 option"
  m_ust_Version :: "versionMsg option"
  m_ust_Onlinesecs :: "uint32 option"
  m_ust_Idlesecs :: "uint32 option"
  m_ust_Bandwidth :: "uint32 option"
  m_ust_Address :: "bytes option"
  m_ust_Certificates :: "bytes list"
  m_ust_StrongCertificate :: "bool option"
  m_ust_CeltVersions :: "int32 list"
  m_ust_Opus :: "bool option"

record serverConfigMsg =
  m_sc_MaxBandwidth :: "uint32 option"
  m_sc_WelcomeText :: "string option"
  m_sc_AllowHtml :: "bool option"
  m_sc_MessageLength :: "uint32 option"
  m_sc_ImageMessageLength :: "uint32 option"
  m_sc_MaxUsers :: "uint32 option"
  m_sc_RecordingAllowed :: "bool option"

record suggestConfigMsg =
  m_sg_VersionV1 :: "uint32 option"
  m_sg_Positional :: "bool option"
  m_sg_PushToTalk :: "bool option"

section \<open>The environment\<close>

record unmarshal =
  unm_Version :: "bytes \<Rightarrow> versionMsg option"
  unm_Ping :: "bytes \<Rightarrow> pingMsg option"
  unm_Reject :: "bytes \<Rightarrow> rejectMsg option"
  unm_ServerSync :: "bytes \<Rightarrow> serverSyncMsg option"
  unm_ChannelRemove :: "bytes \<Rightarrow> channelRemoveMsg option"
  unm_ChannelState :: "bytes \<Rightarrow> channelStateMsg option"
  unm_UserRemove :: "bytes \<Rightarrow> userRemoveMsg option"
  unm_UserState :: "bytes \<Rightarrow> userStateMsg option"
  unm_BanList :: "bytes \<Rightarrow> banEntryMsg list option"
  unm_TextMessage :: "bytes \<Rightarrow> textMessageMsg option"
  unm_PermissionDenied :: "bytes \<Rightarrow> permissionDeniedMsg option"
  unm_ACL :: "bytes \<Rightarrow> aclMsg option"
  unm_QueryUsers :: "bytes \<Rightarrow> queryUsersMsg option"
  unm_CryptSetup :: "bytes \<Rightarrow> cryptSetupMsg option"
  unm_ContextActionModify :: "bytes \<Rightarrow> contextActionModifyMsg option"
  unm_UserList :: "bytes \<Rightarrow> userListUserMsg list option"
  unm_PermissionQuery :: "bytes \<Rightarrow> permissionQueryMsg option"
  unm_CodecVersion :: "bytes \<Rightarrow> codecVersionMsg option"
  unm_UserStats :: "bytes \<Rightarrow> userStatsMsg option"
  unm_ServerConfig :: "bytes \<Rightarrow> serverConfigMsg option"
  unm_SuggestConfig :: "bytes \<Rightarrow> suggestConfigMsg option"

text \<open>\<open>opusDecode\<close> is the answer of a decoder to its latest call, as a function of all its calls
  (\<open>None\<close> an error), and \<open>opusEncode\<close> likewise for an encoder; \<open>opusRegistered\<close> says whether \<^verbatim>\<open>getAudioCodec(audioCodecIDOpus)\<close> finds the
  codec; \<open>sinceMillis\<close> is \<^verbatim>\<open>float32(time.Since(time.Unix(0, ts)).Seconds() * 1000)\<close>; the time
  parsers give the zero time on an error.\<close>

record env =
  e_unm :: unmarshal
  e_opusRegistered :: bool
  e_opusDecode :: "decoder \<Rightarrow> int16 list option"
  e_opusEncode :: "encoder \<Rightarrow> bytes option"
  e_now :: int
  e_parseTime :: "string \<Rightarrow> int"
  e_parseTimeInLocation :: "string \<Rightarrow> int"
  e_parseCertificate :: "bytes \<Rightarrow> bytes option"
  e_sinceMillis :: "uint64 \<Rightarrow> float32"
  e_fAdd :: "float32 \<Rightarrow> float32 \<Rightarrow> float32"
  e_fSub :: "float32 \<Rightarrow> float32 \<Rightarrow> float32"
  e_fMul :: "float32 \<Rightarrow> float32 \<Rightarrow> float32"
  e_fDiv :: "float32 \<Rightarrow> float32 \<Rightarrow> float32"
  e_fOfInt :: "int \<Rightarrow> float32"

text \<open>An environment in which nothing unmarshals and nothing decodes, for concrete runs.\<close>

definition nullUnmarshal :: unmarshal where
  "nullUnmarshal = \<lparr>unm_Version = (\<lambda>_. None), unm_Ping = (\<lambda>_. None), unm_Reject = (\<lambda>_. None),
     unm_ServerSync = (\<lambda>_. None), unm_ChannelRemove = (\<lambda>_. None), unm_ChannelState = (\<lambda>_. None),
     unm_UserRemove = (\<lambda>_. None), unm_UserState = (\<lambda>_. None), unm_BanList = (\<lambda>_. None),
     unm_TextMessage = (\<lambda>_. None), unm_PermissionDenied = (\<lambda>_. None), unm_ACL = (\<lambda>_. None),
     unm_QueryUsers = (\<lambda>_. None), unm_CryptSetup = (\<lambda>_. None), unm_ContextActionModify = (\<lambda>_. None),
     unm_UserList = (\<lambda>_. None), unm_PermissionQuery = (\<lambda>_. None), unm_CodecVersion = (\<lambda>_. None),
     unm_UserStats = (\<lambda>_. None), unm_ServerConfig = (\<lambda>_. None), unm_SuggestConfig = (\<lambda>_. None)\<rparr>"

definition nullEnv :: env where
  "nullEnv = \<lparr>e_unm = nullUnmarshal, e_opusRegistered = False, e_opusDecode = (\<lambda>_. None), e_opusEncode = (\<lambda>_. None), e_now = 0,
     e_parseTime = (\<lambda>_. 0), e_parseTimeInLocation = (\<lambda>_. 0), e_parseCertificate = (\<lambda>_. None),
     e_sinceMillis = (\<lambda>_. 0), e_fAdd = (\<lambda>x y. x), e_fSub = (\<lambda>x y. x), e_fMul = (\<lambda>x y. x),
     e_fDiv = (\<lambda>x y. x), e_fOfInt = (\<lambda>_. 0)\<rparr>"

text \<open>\<^verbatim>\<open>if err := proto.Unmarshal(buffer, &packet); err != nil { return err }\<close>.\<close>

definition withPacket :: "'p option \<Rightarrow> ('p \<Rightarrow> client \<Rightarrow> outcome) \<Rightarrow> client \<Rightarrow> outcome" where
  "withPacket p handle c = (case p of None \<Rightarrow> Err ErrUnmarshal c | Some packet \<Rightarrow> handle packet c)"

end
