(* ===== verification/ChannelHandlers.thy ===== *)
theory ChannelHandlers
  imports Messages
begin

text \<open>
  The handlers of channel messages (\<^verbatim>\<open>handleChannelRemove\<close>, \<^verbatim>\<open>handleChannelState\<close> and
  \<^verbatim>\<open>isChannelDescendant\<close> of \<^verbatim>\<open>gumble/gumble/handlers.go\<close>) and the lookups along the channel tree
  (\<^verbatim>\<open>Find\<close> of \<^verbatim>\<open>channel.go\<close> and \<^verbatim>\<open>channels.go\<close>).  A handler's changes under the \<^verbatim>\<open>volatile\<close> lock
  are one step.
\<close>

section \<open>The handlers\<close>

definition maxChannelDepth :: nat where
  "maxChannelDepth = 1024"

text \<open>The loop of \<^verbatim>\<open>isChannelDescendant\<close>, with the number of turns left.\<close>

fun descendantWithin :: "nat \<Rightarrow> chan_ref option \<Rightarrow> chan_ref \<Rightarrow> (chan_ref \<Rightarrow> channel) \<Rightarrow> bool" where
  "descendantWithin 0 candidate channel h = False"
| "descendantWithin (Suc n) None channel h = False"
| "descendantWithin (Suc n) (Some r) channel h =
    (if r = channel then True else descendantWithin n (ch_Parent (h r)) channel h)"

definition isChannelDescendant :: "chan_ref option \<Rightarrow> chan_ref \<Rightarrow> client \<Rightarrow> bool" where
  "isChannelDescendant candidate channel c =
    descendantWithin (Suc maxChannelDepth) candidate channel (c_channel c)"

text \<open>Writes and deletes in the map fields of a channel.\<close>

definition setChild :: "chan_ref \<Rightarrow> uint32 \<Rightarrow> chan_ref \<Rightarrow> client \<Rightarrow> client" where
  "setChild p k v = setChannel p (\<lambda>ch. ch\<lparr>ch_Children := AList.update k v (ch_Children ch)\<rparr>)"

definition delChild :: "chan_ref \<Rightarrow> uint32 \<Rightarrow> client \<Rightarrow> client" where
  "delChild p k = setChannel p (\<lambda>ch. ch\<lparr>ch_Children := AList.delete k (ch_Children ch)\<rparr>)"

definition setLink :: "chan_ref \<Rightarrow> uint32 \<Rightarrow> chan_ref \<Rightarrow> client \<Rightarrow> client" where
  "setLink p k v = setChannel p (\<lambda>ch. ch\<lparr>ch_Links := AList.update k v (ch_Links ch)\<rparr>)"

definition delLink :: "chan_ref \<Rightarrow> uint32 \<Rightarrow> client \<Rightarrow> client" where
  "delLink p k = setChannel p (\<lambda>ch. ch\<lparr>ch_Links := AList.delete k (ch_Links ch)\<rparr>)"

definition channelRemove :: "channelRemoveMsg \<Rightarrow> client \<Rightarrow> outcome" where
  "channelRemove packet c =
    (case m_cr_ChannelId packet of
       None \<Rightarrow> Err ErrIncompleteProtobuf c
     | Some channelID \<Rightarrow>
         (case map_of (c_Channels c) channelID of
            None \<Rightarrow> Err ErrInvalidProtobuf c
          | Some channel \<Rightarrow>
              let c = setChannel channel (\<lambda>ch. ch\<lparr>ch_client := False\<rparr>) c;
                  c = c\<lparr>c_Channels := AList.delete channelID (c_Channels c),
                        c_permissions := AList.delete channelID (c_permissions c)\<rparr>;
                  c = (case ch_Parent (c_channel c channel) of
                         None \<Rightarrow> c
                       | Some parent \<Rightarrow> delChild parent (ch_ID (c_channel c channel)) c);
                  c = fold (\<lambda>(_, link). delLink link channelID) (ch_Links (c_channel c channel)) c
              in Ok (emitIfSynced (ChannelChangeEvent
                   \<lparr>cc_Type = ChannelChangeRemoved, cc_Channel = Some channel\<rparr>) c)))"

definition handleChannelRemove :: "env \<Rightarrow> bytes \<Rightarrow> client \<Rightarrow> outcome" where
  "handleChannelRemove E buffer = withPacket (unm_ChannelRemove (e_unm E) buffer) channelRemove"

text \<open>The parts of \<^verbatim>\<open>handleChannelState\<close>, on the event bits and the client.\<close>

type_synonym chan_step = "int64 \<times> client \<Rightarrow> int64 \<times> client"

definition reparent :: "uint32 \<Rightarrow> chan_ref \<Rightarrow> uint32 \<Rightarrow> chan_step" where
  "reparent channelID channel parentID s =
    (case s of (ty, c) \<Rightarrow>
     let newParent = map_of (c_Channels c) parentID
     in
     if isChannelDescendant newParent channel c then (ty, c)
     else
       let oldParent = ch_Parent (c_channel c channel);
           c = (case oldParent of None \<Rightarrow> c | Some p \<Rightarrow> delChild p channelID c);
           ty = (if newParent \<noteq> oldParent then ty OR ChannelChangeMoved else ty);
           c = setChannel channel (\<lambda>ch. ch\<lparr>ch_Parent := newParent\<rparr>) c;
           c = (case newParent of None \<Rightarrow> c | Some p \<Rightarrow> setChild p (ch_ID (c_channel c channel)) channel c)
       in (ty, c))"

definition linkBoth :: "chan_ref \<Rightarrow> uint32 \<Rightarrow> chan_ref \<Rightarrow> client \<Rightarrow> client" where
  "linkBoth channel linkedID linked c =
    setLink linked (ch_ID (c_channel c channel)) channel (setLink channel linkedID linked c)"

definition unlinkBoth :: "chan_ref \<Rightarrow> uint32 \<Rightarrow> chan_ref \<Rightarrow> client \<Rightarrow> client" where
  "unlinkBoth channel linkedID linked c =
    delLink linked (ch_ID (c_channel c channel)) (delLink channel linkedID c)"

definition replaceLinks :: "chan_ref \<Rightarrow> uint32 list \<Rightarrow> chan_step" where
  "replaceLinks channel links s =
    (if links = [] then s
     else case s of (ty, c) \<Rightarrow>
       let c = fold (\<lambda>(oldID, old) c. delLink channel oldID (delLink old (ch_ID (c_channel c channel)) c))
                 (ch_Links (c_channel c channel)) c;
           c = fold (\<lambda>linkedID c. case map_of (c_Channels c) linkedID of
                 None \<Rightarrow> c | Some linked \<Rightarrow> linkBoth channel linkedID linked c) links c
       in (ty OR ChannelChangeLinks, c))"

definition addLink :: "chan_ref \<Rightarrow> uint32 \<Rightarrow> chan_step" where
  "addLink channel linkedID s =
    (case s of (ty, c) \<Rightarrow> case map_of (c_Channels c) linkedID of
       None \<Rightarrow> (ty, c)
     | Some linked \<Rightarrow> (ty OR ChannelChangeLinks, linkBoth channel linkedID linked c))"

definition removeLink :: "chan_ref \<Rightarrow> uint32 \<Rightarrow> chan_step" where
  "removeLink channel linkedID s =
    (case s of (ty, c) \<Rightarrow> case map_of (c_Channels c) linkedID of
       None \<Rightarrow> (ty, c)
     | Some linked \<Rightarrow> (ty OR ChannelChangeLinks, unlinkBoth channel linkedID linked c))"

text \<open>Setting a field, with the change bit when the value is new.\<close>

definition changeField :: "(channel \<Rightarrow> 'v) \<Rightarrow> (('v \<Rightarrow> 'v) \<Rightarrow> channel \<Rightarrow> channel) \<Rightarrow> int64 \<Rightarrow> chan_ref \<Rightarrow> 'v \<Rightarrow> chan_step" where
  "changeField get upd flag channel v s =
    (case s of (ty, c) \<Rightarrow>
     (if v \<noteq> get (c_channel c channel) then ty OR flag else ty, setChannel channel (upd (\<lambda>_. v)) c))"

text \<open>The body of \<^verbatim>\<open>handleChannelState\<close> once the channel is found or created.\<close>

definition updateChannel :: "channelStateMsg \<Rightarrow> uint32 \<Rightarrow> chan_ref \<Rightarrow> chan_step" where
  "updateChannel packet channelID channel s =
    (let s = whenSome (m_cs_Parent packet) (reparent channelID channel) s;
         s = whenSome (m_cs_Name packet) (changeField ch_Name ch_Name_update ChannelChangeName channel) s;
         s = replaceLinks channel (m_cs_Links packet) s;
         s = fold (addLink channel) (m_cs_LinksAdd packet) s;
         s = fold (removeLink channel) (m_cs_LinksRemove packet) s;
         s = whenSome (m_cs_Description packet) (\<lambda>d s.
               case changeField ch_Description ch_Description_update ChannelChangeDescription channel d s of
                 (ty, c) \<Rightarrow> (ty, setChannel channel (\<lambda>ch. ch\<lparr>ch_DescriptionHash := None\<rparr>) c)) s;
         s = whenSome (m_cs_Temporary packet) (\<lambda>t (ty, c).
               (ty, setChannel channel (\<lambda>ch. ch\<lparr>ch_Temporary := t\<rparr>) c)) s;
         s = whenSome (m_cs_Position packet)
               (changeField ch_Position ch_Position_update ChannelChangePosition channel) s;
         s = whenSome (m_cs_DescriptionHash packet) (\<lambda>h (ty, c).
               (ty OR ChannelChangeDescription,
                setChannel channel (\<lambda>ch. ch\<lparr>ch_DescriptionHash := Some h, ch_Description := []\<rparr>) c)) s
     in whenSome (m_cs_MaxUsers packet) (\<lambda>n (ty, c).
          (ty OR ChannelChangeMaxUsers, setChannel channel (\<lambda>ch. ch\<lparr>ch_MaxUsers := n\<rparr>) c)) s)"

definition findOrCreateChannel :: "uint32 \<Rightarrow> client \<Rightarrow> int64 \<times> chan_ref \<times> client" where
  "findOrCreateChannel channelID c =
    (case map_of (c_Channels c) channelID of
       Some channel \<Rightarrow> (0, channel, c)
     | None \<Rightarrow> (case createChannel channelID c of (channel, c) \<Rightarrow>
         (ChannelChangeCreated, channel, setChannel channel (\<lambda>ch. ch\<lparr>ch_client := True\<rparr>) c)))"

definition channelState :: "channelStateMsg \<Rightarrow> client \<Rightarrow> outcome" where
  "channelState packet c =
    (case m_cs_ChannelId packet of
       None \<Rightarrow> Err ErrIncompleteProtobuf c
     | Some channelID \<Rightarrow>
         let (ty, channel, c) = findOrCreateChannel channelID c;
             (ty, c) = updateChannel packet channelID channel (ty, c)
         in Ok (emitIfSynced (ChannelChangeEvent \<lparr>cc_Type = ty, cc_Channel = Some channel\<rparr>) c))"

definition handleChannelState :: "env \<Rightarrow> bytes \<Rightarrow> client \<Rightarrow> outcome" where
  "handleChannelState E buffer = withPacket (unm_ChannelState (e_unm E) buffer) channelState"

section \<open>Lookups along the tree\<close>

text \<open>\<^verbatim>\<open>(*Channel).Find\<close>: the recursion is on the path, and the children are tried in the map's order.\<close>

fun ChannelFind :: "chan_ref \<Rightarrow> string list \<Rightarrow> (chan_ref \<Rightarrow> channel) \<Rightarrow> chan_ref option" where
  "ChannelFind r [] h = Some r"
| "ChannelFind r (name # names) h =
    (case find (\<lambda>(_, child). ch_Name (h child) = name) (ch_Children (h r)) of
       None \<Rightarrow> None
     | Some (_, child) \<Rightarrow> ChannelFind child names h)"

definition ChannelsFind :: "string list \<Rightarrow> client \<Rightarrow> chan_ref option" where
  "ChannelsFind names c =
    (case map_of (c_Channels c) 0 of
       None \<Rightarrow> None
     | Some root \<Rightarrow> if names = [] then Some root else ChannelFind root names (c_channel c))"

definition IsRoot :: "channel \<Rightarrow> bool" where
  "IsRoot ch = (ch_ID ch = 0)"

end
