(* ===== verification/ChannelTree.thy ===== *)
theory ChannelTree
  imports ChannelHandlers
begin

text \<open>
  The channel graph under the channel handlers: an invariant on the heap of channels (identifiers,
  parents and children, reciprocal links) that every message keeps, and what keeps the tree acyclic.
\<close>

section \<open>The invariant\<close>

text \<open>\<open>m\<close> is the client's channel map.  Only registered channels are constrained as link partners and
  children; a removed channel may keep stale fields.\<close>

definition chansOk :: "(chan_ref \<Rightarrow> channel) \<Rightarrow> chan_ref \<Rightarrow> (uint32 \<Rightarrow> chan_ref option) \<Rightarrow> bool" where
  "chansOk h n m \<longleftrightarrow>
    (\<forall>k r. m k = Some r \<longrightarrow> r < n \<and> ch_ID (h r) = k)
    \<and> (\<forall>k r p. m k = Some r \<and> ch_Parent (h r) = Some p \<longrightarrow> map_of (ch_Children (h p)) k = Some r \<and> p < n)
    \<and> (\<forall>p k x. map_of (ch_Children (h p)) k = Some x \<longrightarrow> ch_Parent (h x) = Some p \<and> m k = Some x)
    \<and> (\<forall>k r k' x. m k = Some r \<and> map_of (ch_Links (h r)) k' = Some x
         \<longrightarrow> m k' = Some x \<and> map_of (ch_Links (h x)) k = Some r)
    \<and> (\<forall>r. distinct (map fst (ch_Links (h r))))"

definition channelsOk :: "client \<Rightarrow> bool" where
  "channelsOk c = chansOk (c_channel c) (c_nextChannel c) (map_of (c_Channels c))"

lemma chansOkD:
  assumes "chansOk h n m"
  shows "m k = Some r \<Longrightarrow> r < n" "m k = Some r \<Longrightarrow> ch_ID (h r) = k"
    "m k = Some r \<Longrightarrow> ch_Parent (h r) = Some p \<Longrightarrow> map_of (ch_Children (h p)) k = Some r \<and> p < n"
    "map_of (ch_Children (h p)) k = Some x \<Longrightarrow> ch_Parent (h x) = Some p \<and> m k = Some x"
    "m k = Some r \<Longrightarrow> map_of (ch_Links (h r)) k' = Some x \<Longrightarrow> m k' = Some x \<and> map_of (ch_Links (h x)) k = Some r"
    "distinct (map fst (ch_Links (h r)))"
  using assms unfolding chansOk_def by blast+

lemma registered_inj: "chansOk h n m \<Longrightarrow> m k = Some r \<Longrightarrow> m k' = Some r \<Longrightarrow> k = k'"
  by (metis chansOkD(2))

text \<open>A change of the other fields.\<close>

lemma chansOk_scalar:
  assumes "chansOk h n m" and "ch_ID (f (h r)) = ch_ID (h r)" and "ch_Parent (f (h r)) = ch_Parent (h r)"
    and "ch_Children (f (h r)) = ch_Children (h r)" and "ch_Links (f (h r)) = ch_Links (h r)"
  shows "chansOk (h(r := f (h r))) n m"
proof -
  have eqs: "ch_ID ((h(r := f (h r))) x) = ch_ID (h x)" "ch_Parent ((h(r := f (h r))) x) = ch_Parent (h x)"
    "ch_Children ((h(r := f (h r))) x) = ch_Children (h x)" "ch_Links ((h(r := f (h r))) x) = ch_Links (h x)" for x
    using assms(2-5) by simp_all
  show ?thesis using assms(1) unfolding chansOk_def eqs .
qed

text \<open>A new channel.\<close>

lemma chansOk_create:
  assumes "chansOk h n m" and "m k = None"
  shows "chansOk (h(n := (newChannel k)\<lparr>ch_client := b\<rparr>)) (Suc n) (m(k \<mapsto> n))"
proof -
  define h' where "h' = h(n := (newChannel k)\<lparr>ch_client := b\<rparr>)"
  have f: "ch_ID (h' x) = (if x = n then k else ch_ID (h x))"
    "ch_Parent (h' x) = (if x = n then None else ch_Parent (h x))"
    "ch_Children (h' x) = (if x = n then [] else ch_Children (h x))"
    "ch_Links (h' x) = (if x = n then [] else ch_Links (h x))" for x
    by (simp_all add: h'_def newChannel_def)
  have old: "m k' = Some r \<Longrightarrow> r \<noteq> n \<and> k' \<noteq> k" for k' r
    using chansOkD(1) [OF assms(1), of k' r] assms(2) by auto
  have m': "(m(k \<mapsto> n)) k' = Some r \<longleftrightarrow> k' = k \<and> r = n \<or> m k' = Some r" for k' r
    using assms(2) by auto
  show ?thesis
    unfolding h'_def [symmetric] chansOk_def m'
  proof (intro conjI allI impI)
    fix k' r assume "k' = k \<and> r = n \<or> m k' = Some r"
    then show "r < Suc n" "ch_ID (h' r) = k'"
      using chansOkD(1,2) [OF assms(1), of k' r] old [of k' r] by (auto simp: f)
  next
    fix k' r p assume *: "(k' = k \<and> r = n \<or> m k' = Some r) \<and> ch_Parent (h' r) = Some p"
    then have r: "m k' = Some r" "ch_Parent (h r) = Some p" by (auto simp: f split: if_splits)
    from chansOkD(3) [OF assms(1) this] show "map_of (ch_Children (h' p)) k' = Some r" "p < Suc n"
      by (auto simp: f)
  next
    fix p k' x assume "map_of (ch_Children (h' p)) k' = Some x"
    then have "map_of (ch_Children (h p)) k' = Some x" by (auto simp: f split: if_splits)
    then have "ch_Parent (h x) = Some p" "m k' = Some x" using chansOkD(4) [OF assms(1)] by blast+
    then show "ch_Parent (h' x) = Some p" "k' = k \<and> x = n \<or> m k' = Some x" using old [of k' x] by (auto simp: f)
  next
    fix k' r k'' x assume *: "(k' = k \<and> r = n \<or> m k' = Some r) \<and> map_of (ch_Links (h' r)) k'' = Some x"
    then have r: "m k' = Some r" "map_of (ch_Links (h r)) k'' = Some x" by (auto simp: f split: if_splits)
    from chansOkD(5) [OF assms(1) this] have "m k'' = Some x" "map_of (ch_Links (h x)) k' = Some r" by blast+
    then show "k'' = k \<and> x = n \<or> m k'' = Some x" "map_of (ch_Links (h' x)) k' = Some r"
      using old [of k'' x] by (auto simp: f)
  next
    fix r show "distinct (map fst (ch_Links (h' r)))" using chansOkD(6) [OF assms(1), of r] by (simp add: f)
  qed
qed

section \<open>Moving a channel\<close>

text \<open>The heap after taking channel \<open>r\<close> (registered under \<open>k\<close>) out of its parent's children and after
  putting it under \<open>p\<close>.\<close>

definition moved :: "uint32 \<Rightarrow> chan_ref \<Rightarrow> chan_ref option \<Rightarrow> (chan_ref \<Rightarrow> channel) \<Rightarrow> chan_ref \<Rightarrow> channel" where
  "moved k r p h = (\<lambda>x. (h x)\<lparr>ch_Parent := (if x = r then p else ch_Parent (h x)),
     ch_Children := (let m = (if ch_Parent (h r) = Some x then AList.delete k (ch_Children (h x)) else ch_Children (h x))
                     in if p = Some x then AList.update k r m else m)\<rparr>)"

lemma moved_fields [simp]:
  "ch_ID (moved k r p h x) = ch_ID (h x)" "ch_Links (moved k r p h x) = ch_Links (h x)"
  "ch_Parent (moved k r p h x) = (if x = r then p else ch_Parent (h x))"
  by (simp_all add: moved_def)

lemma moved_children:
  assumes "chansOk h n m" and "m k = Some r"
  shows "map_of (ch_Children (moved k r p h x)) k'
    = (if k' = k then (if p = Some x then Some r else None) else map_of (ch_Children (h x)) k')"
proof -
  have "ch_Parent (h r) \<noteq> Some x \<Longrightarrow> map_of (ch_Children (h x)) k = None"
    using chansOkD(4) [OF assms(1), of x k] assms(2) by (metis not_None_eq option.inject)
  then show ?thesis by (auto simp: moved_def Let_def update_conv' delete_conv')
qed

lemma chansOk_moved:
  assumes ok: "chansOk h n m" and r: "m k = Some r" and p: "\<And>q. p = Some q \<Longrightarrow> q < n"
  shows "chansOk (moved k r p h) n m"
  unfolding chansOk_def
proof (intro conjI allI impI)
  fix k' r' assume "m k' = Some r'"
  then show "r' < n" "ch_ID (moved k r p h r') = k'" using chansOkD(1,2) [OF ok] by simp_all
next
  fix k' r' q assume *: "m k' = Some r' \<and> ch_Parent (moved k r p h r') = Some q"
  have "map_of (ch_Children (moved k r p h q)) k' = Some r' \<and> q < n"
  proof (cases "k' = k")
    case True
    then have "r' = r" "p = Some q" using * r by auto
    then show ?thesis using p unfolding moved_children [OF ok r] by (simp add: True)
  next
    case False
    then have "r' \<noteq> r" using * r registered_inj [OF ok r, of k'] by auto
    then have "ch_Parent (h r') = Some q" using * by simp
    then show ?thesis using chansOkD(3) [OF ok, of k' r' q] * False unfolding moved_children [OF ok r] by simp
  qed
  then show "map_of (ch_Children (moved k r p h q)) k' = Some r'" "q < n" by blast+
next
  fix q k' x assume *: "map_of (ch_Children (moved k r p h q)) k' = Some x"
  have "ch_Parent (moved k r p h x) = Some q \<and> m k' = Some x"
  proof (cases "k' = k")
    case True
    then have "x = r" "p = Some q" using * unfolding moved_children [OF ok r] by (simp_all split: if_splits)
    then show ?thesis using r True by simp
  next
    case False
    then have old: "ch_Parent (h x) = Some q" "m k' = Some x"
      using * chansOkD(4) [OF ok, of q k' x] unfolding moved_children [OF ok r] by simp_all
    then have "x \<noteq> r" using False registered_inj [OF ok r, of k'] by blast
    then show ?thesis using old by simp
  qed
  then show "ch_Parent (moved k r p h x) = Some q" "m k' = Some x" by blast+
next
  fix k' r' k'' x assume "m k' = Some r' \<and> map_of (ch_Links (moved k r p h r')) k'' = Some x"
  then show "m k'' = Some x" "map_of (ch_Links (moved k r p h x)) k' = Some r'"
    using chansOkD(5) [OF ok, of k' r' k'' x] by simp_all
next
  fix r' show "distinct (map fst (ch_Links (moved k r p h r')))" using chansOkD(6) [OF ok] by simp
qed

lemma reparent_moved:
  assumes "channelsOk c" and "map_of (c_Channels c) k = Some r"
  shows "reparent k r parentID (ty, c) =
    (let p = map_of (c_Channels c) parentID in
     if isChannelDescendant p r c then (ty, c)
     else (if p \<noteq> ch_Parent (c_channel c r) then ty OR ChannelChangeMoved else ty,
           c\<lparr>c_channel := moved k r p (c_channel c)\<rparr>))"
proof -
  have id: "ch_ID (c_channel c r) = k" using assms chansOkD(2) by (simp add: channelsOk_def)
  have self: "p \<noteq> Some r" if "\<not> isChannelDescendant p r c" for p
    using that by (auto simp: isChannelDescendant_def)
  show ?thesis
  proof (cases "isChannelDescendant (map_of (c_Channels c) parentID) r c")
    case True
    then show ?thesis by (simp add: reparent_def Let_def)
  next
    case False
    note ne = self [OF False]
    let ?p = "map_of (c_Channels c) parentID"
    define d where "d = setChannel r (\<lambda>ch. ch\<lparr>ch_Parent := ?p\<rparr>)
        (case ch_Parent (c_channel c r) of None \<Rightarrow> c | Some q \<Rightarrow> delChild q k c)"
    define e where "e = (case ?p of None \<Rightarrow> d | Some q \<Rightarrow> setChild q (ch_ID (c_channel d r)) r d)"
    have "c_channel e = moved k r ?p (c_channel c)"
    proof
      fix x
      have "ch_ID (c_channel d r) = k"
        using id by (simp add: d_def delChild_def setChannel_def split: option.split)
      then show "c_channel e x = moved k r ?p (c_channel c) x"
        using ne unfolding e_def moved_def
        by (simp add: d_def delChild_def setChild_def setChannel_def Let_def split: option.split)
    qed
    moreover have "e = c\<lparr>c_channel := c_channel e\<rparr>"
      by (simp add: e_def d_def delChild_def setChild_def setChannel_def split: option.split)
    ultimately have "e = c\<lparr>c_channel := moved k r ?p (c_channel c)\<rparr>" by simp
    then show ?thesis using False unfolding e_def d_def by (simp add: reparent_def Let_def)
  qed
qed

section \<open>Linking and unlinking\<close>

definition linked :: "uint32 \<Rightarrow> chan_ref \<Rightarrow> uint32 \<Rightarrow> chan_ref \<Rightarrow> (chan_ref \<Rightarrow> channel) \<Rightarrow> chan_ref \<Rightarrow> channel" where
  "linked k r k' x h = (\<lambda>y. (h y)\<lparr>ch_Links := (let l = (if y = r then AList.update k' x (ch_Links (h y)) else ch_Links (h y))
     in if y = x then AList.update k r l else l)\<rparr>)"

definition unlinked :: "uint32 \<Rightarrow> chan_ref \<Rightarrow> uint32 \<Rightarrow> chan_ref \<Rightarrow> (chan_ref \<Rightarrow> channel) \<Rightarrow> chan_ref \<Rightarrow> channel" where
  "unlinked k r k' x h = (\<lambda>y. (h y)\<lparr>ch_Links := (let l = (if y = r then AList.delete k' (ch_Links (h y)) else ch_Links (h y))
     in if y = x then AList.delete k l else l)\<rparr>)"

lemma linked_fields [simp]:
  "ch_ID (linked k r k' x h y) = ch_ID (h y)" "ch_Parent (linked k r k' x h y) = ch_Parent (h y)"
  "ch_Children (linked k r k' x h y) = ch_Children (h y)"
  "ch_ID (unlinked k r k' x h y) = ch_ID (h y)" "ch_Parent (unlinked k r k' x h y) = ch_Parent (h y)"
  "ch_Children (unlinked k r k' x h y) = ch_Children (h y)"
  by (simp_all add: linked_def unlinked_def)

lemma map_of_linked:
  "map_of (ch_Links (linked k r k' x h y)) b = (if y = x \<and> b = k then Some r
     else if y = r \<and> b = k' then Some x else map_of (ch_Links (h y)) b)"
  by (simp add: linked_def Let_def update_conv')

lemma map_of_unlinked:
  "map_of (ch_Links (unlinked k r k' x h y)) b = (if y = x \<and> b = k \<or> y = r \<and> b = k' then None
     else map_of (ch_Links (h y)) b)"
  by (simp add: unlinked_def Let_def delete_conv')

lemma distinct_linked:
  "distinct (map fst (ch_Links (h y))) \<Longrightarrow> distinct (map fst (ch_Links (linked k r k' x h y)))"
  "distinct (map fst (ch_Links (h y))) \<Longrightarrow> distinct (map fst (ch_Links (unlinked k r k' x h y)))"
  by (auto simp: linked_def unlinked_def Let_def intro!: distinct_update distinct_delete)

text \<open>The part of the invariant about identifiers, parents and children does not see links.\<close>

lemma chansOk_links:
  assumes ok: "chansOk h n m" and "\<And>y. ch_ID (h' y) = ch_ID (h y)" "\<And>y. ch_Parent (h' y) = ch_Parent (h y)"
    "\<And>y. ch_Children (h' y) = ch_Children (h y)"
    and "\<And>y. distinct (map fst (ch_Links (h' y)))"
    and "\<And>a r1 b y. m a = Some r1 \<Longrightarrow> map_of (ch_Links (h' r1)) b = Some y \<Longrightarrow> m b = Some y \<and> map_of (ch_Links (h' y)) a = Some r1"
  shows "chansOk h' n m"
  using ok assms(5,6) unfolding chansOk_def assms(2-4) by blast

lemma chansOk_linked:
  assumes ok: "chansOk h n m" and r: "m k = Some r" and x: "m k' = Some x"
  shows "chansOk (linked k r k' x h) n m"
proof (rule chansOk_links [OF ok])
  fix a r1 b y
  assume a: "m a = Some r1" and e: "map_of (ch_Links (linked k r k' x h r1)) b = Some y"
  show "m b = Some y \<and> map_of (ch_Links (linked k r k' x h y)) a = Some r1"
  proof (cases "r1 = x \<and> b = k \<or> r1 = r \<and> b = k'")
    case True
    then consider "r1 = x" "b = k" | "r1 = r" "b = k'" by blast
    then show ?thesis
    proof cases
      case 1
      then have "a = k'" "y = r" using registered_inj [OF ok a, of k'] x e by (simp_all add: map_of_linked)
      then show ?thesis using 1 r by (simp add: map_of_linked)
    next
      case 2
      have "a = k" using registered_inj [OF ok a, of k] r 2 by simp
      have "y = x" using e 2 by (auto simp: map_of_linked split: if_splits)
      then show ?thesis using \<open>a = k\<close> 2 x by (simp add: map_of_linked)
    qed
  next
    case False
    then have "map_of (ch_Links (h r1)) b = Some y" using e by (auto simp: map_of_linked)
    then have old: "m b = Some y" "map_of (ch_Links (h y)) a = Some r1" using chansOkD(5) [OF ok a] by blast+
    have "y = x \<and> a = k \<Longrightarrow> r1 = r" "y = r \<and> a = k' \<Longrightarrow> r1 = x" using a r x by auto
    then show ?thesis using old by (auto simp: map_of_linked)
  qed
qed (use chansOkD(6) [OF ok] in \<open>simp_all add: distinct_linked\<close>)

lemma chansOk_unlinked:
  assumes ok: "chansOk h n m" and r: "m k = Some r" and x: "m k' = Some x"
  shows "chansOk (unlinked k r k' x h) n m"
proof (rule chansOk_links [OF ok])
  fix a r1 b y
  assume a: "m a = Some r1" and e: "map_of (ch_Links (unlinked k r k' x h r1)) b = Some y"
  then have kept: "\<not> (r1 = x \<and> b = k)" "\<not> (r1 = r \<and> b = k')" "map_of (ch_Links (h r1)) b = Some y"
    by (simp_all add: map_of_unlinked split: if_splits)
  then have old: "m b = Some y" "map_of (ch_Links (h y)) a = Some r1" using chansOkD(5) [OF ok a] by blast+
  have "\<not> (y = x \<and> a = k)" using kept(2) a r old(1) registered_inj [OF ok x] by (metis option.inject)
  moreover have "\<not> (y = r \<and> a = k')" using kept(1) a x old(1) registered_inj [OF ok r] by (metis option.inject)
  ultimately show "m b = Some y \<and> map_of (ch_Links (unlinked k r k' x h y)) a = Some r1"
    using old by (simp add: map_of_unlinked)
qed (use chansOkD(6) [OF ok] in \<open>simp_all add: distinct_linked\<close>)

lemma linkBoth_linked:
  assumes "channelsOk c" and "map_of (c_Channels c) k = Some r"
  shows "linkBoth r k' x c = c\<lparr>c_channel := linked k r k' x (c_channel c)\<rparr>"
    "unlinkBoth r k' x c = c\<lparr>c_channel := unlinked k r k' x (c_channel c)\<rparr>"
proof -
  have id: "ch_ID (c_channel c r) = k" using assms chansOkD(2) by (simp add: channelsOk_def)
  have "(c_channel c)(r := f (c_channel c r), x := g (((c_channel c)(r := f (c_channel c r))) x))
    = (\<lambda>y. let ch = (if y = r then f (c_channel c y) else c_channel c y) in if y = x then g ch else ch)" for f g
    by (auto simp: fun_eq_iff Let_def)
  then show "linkBoth r k' x c = c\<lparr>c_channel := linked k r k' x (c_channel c)\<rparr>"
    "unlinkBoth r k' x c = c\<lparr>c_channel := unlinked k r k' x (c_channel c)\<rparr>"
    using id by (auto simp: linkBoth_def unlinkBoth_def setLink_def delLink_def setChannel_def linked_def unlinked_def
        Let_def fun_eq_iff intro!: arg_cong [where f = "\<lambda>h. c_channel_update h c"])
qed

section \<open>The handlers keep the invariant\<close>

text \<open>What holds between the parts of \<^verbatim>\<open>handleChannelState\<close> for the channel \<open>r\<close> with identifier \<open>k\<close>.\<close>

definition stepOk :: "uint32 \<Rightarrow> chan_ref \<Rightarrow> int64 \<times> client \<Rightarrow> bool" where
  "stepOk k r s = (channelsOk (snd s) \<and> map_of (c_Channels (snd s)) k = Some r)"

lemma stepOkI: "channelsOk c \<Longrightarrow> map_of (c_Channels c) k = Some r \<Longrightarrow> stepOk k r (ty, c)"
  by (simp add: stepOk_def)

lemma stepOk_heap: "stepOk k r (ty, c\<lparr>c_channel := h\<rparr>) \<longleftrightarrow>
    chansOk h (c_nextChannel c) (map_of (c_Channels c)) \<and> map_of (c_Channels c) k = Some r"
  by (simp add: stepOk_def channelsOk_def)

lemma stepOk_scalar:
  assumes "stepOk k r (ty, c)" and "\<And>ch. ch_ID (f ch) = ch_ID ch" "\<And>ch. ch_Parent (f ch) = ch_Parent ch"
    "\<And>ch. ch_Children (f ch) = ch_Children ch" "\<And>ch. ch_Links (f ch) = ch_Links ch"
  shows "stepOk k r (ty', setChannel x f c)"
  using assms chansOk_scalar [of "c_channel c" _ _ f x]
  unfolding setChannel_def stepOk_heap by (simp add: stepOk_def channelsOk_def)

lemma stepOk_field:
  assumes "stepOk k r s" and "\<And>v ch. ch_ID (upd v ch) = ch_ID ch" "\<And>v ch. ch_Parent (upd v ch) = ch_Parent ch"
    "\<And>v ch. ch_Children (upd v ch) = ch_Children ch" "\<And>v ch. ch_Links (upd v ch) = ch_Links ch"
  shows "stepOk k r (changeField get upd flag r v s)"
  using assms stepOk_scalar [of k r "fst s" "snd s" "upd (\<lambda>_. v)"]
  by (cases s) (simp add: changeField_def)

lemma stepOk_reparent:
  assumes "stepOk k r (ty, c)"
  shows "stepOk k r (reparent k r parentID (ty, c))"
proof -
  have ok: "channelsOk c" "map_of (c_Channels c) k = Some r" using assms by (simp_all add: stepOk_def)
  have "chansOk (moved k r (map_of (c_Channels c) parentID) (c_channel c)) (c_nextChannel c) (map_of (c_Channels c))"
    using ok(1) unfolding channelsOk_def
    by (rule chansOk_moved [where m = "map_of (c_Channels c)"]) (use ok in \<open>auto simp: channelsOk_def dest: chansOkD(1)\<close>)
  then show ?thesis
    unfolding reparent_moved [OF ok] using assms ok(2) by (simp add: Let_def stepOk_heap)
qed

lemma stepOk_link:
  assumes "stepOk k r (ty, c)" and "map_of (c_Channels c) k' = Some x"
  shows "stepOk k r (ty', linkBoth r k' x c)" "stepOk k r (ty', unlinkBoth r k' x c)"
proof -
  have ok: "channelsOk c" "map_of (c_Channels c) k = Some r" using assms by (simp_all add: stepOk_def)
  show "stepOk k r (ty', linkBoth r k' x c)" "stepOk k r (ty', unlinkBoth r k' x c)"
    using chansOk_linked [OF _ ok(2) assms(2)] chansOk_unlinked [OF _ ok(2) assms(2)] ok
    unfolding linkBoth_linked [OF ok] stepOk_heap by (simp_all add: channelsOk_def)
qed

lemma Channels_link [simp]:
  "c_Channels (linkBoth r k' x c) = c_Channels c" "c_Channels (unlinkBoth r k' x c) = c_Channels c"
  "c_Channels (setChannel r f c) = c_Channels c"
  by (simp_all add: linkBoth_def unlinkBoth_def setLink_def delLink_def setChannel_def)

text \<open>The order of the two deletes in the replacement of links does not matter.\<close>

lemma delLink_unlinkBoth:
  assumes "channelsOk c" and "map_of (c_Channels c) k = Some r"
  shows "delLink r k' (delLink x (ch_ID (c_channel c r)) c) = unlinkBoth r k' x c"
  by (simp add: unlinkBoth_def delLink_def setChannel_def Let_def AList.delete_twist)
    (auto simp: fun_upd_twist)

lemma stepOk_unlinkAll:
  assumes "stepOk k r (ty, c)" and "\<forall>(k', x) \<in> set links. map_of (c_Channels c) k' = Some x"
  shows "stepOk k r (ty', fold (\<lambda>(oldID, old) c. delLink r oldID (delLink old (ch_ID (c_channel c r)) c)) links c)
    \<and> c_Channels (fold (\<lambda>(oldID, old) c. delLink r oldID (delLink old (ch_ID (c_channel c r)) c)) links c) = c_Channels c"
  using assms
proof (induction links arbitrary: c)
  case Nil
  then show ?case by (simp add: stepOk_def)
next
  case (Cons l links)
  obtain k' x where l: "l = (k', x)" by fastforce
  have ok: "channelsOk c" "map_of (c_Channels c) k = Some r" using Cons.prems(1) by (simp_all add: stepOk_def)
  have "map_of (c_Channels c) k' = Some x" using Cons.prems(2) l by simp
  then have "stepOk k r (ty, unlinkBoth r k' x c)" by (rule stepOk_link(2) [OF Cons.prems(1)])
  from Cons.IH [OF this] Cons.prems(2) show ?case
    by (simp add: l delLink_unlinkBoth [OF ok])
qed

lemma stepOk_linkAll:
  assumes "stepOk k r (ty, c)"
  shows "stepOk k r (ty', fold (\<lambda>linkedID c. case map_of (c_Channels c) linkedID of
      None \<Rightarrow> c | Some x \<Rightarrow> linkBoth r linkedID x c) ids c)"
  using assms
proof (induction ids arbitrary: c)
  case Nil
  then show ?case by (simp add: stepOk_def)
next
  case (Cons k' ids)
  show ?case
  proof (cases "map_of (c_Channels c) k'")
    case None
    then show ?thesis using Cons by simp
  next
    case (Some x)
    then show ?thesis using Cons.IH [OF stepOk_link(1) [OF Cons.prems Some]] by simp
  qed
qed

lemma stepOk_replaceLinks:
  assumes "stepOk k r s"
  shows "stepOk k r (replaceLinks r links s)"
proof -
  obtain ty c where s: "s = (ty, c)" by fastforce
  have ok: "channelsOk c" "map_of (c_Channels c) k = Some r" using assms s by (simp_all add: stepOk_def)
  have "\<forall>(k', x) \<in> set (ch_Links (c_channel c r)). map_of (c_Channels c) k' = Some x"
  proof clarify
    fix k' x assume "(k', x) \<in> set (ch_Links (c_channel c r))"
    then have "map_of (ch_Links (c_channel c r)) k' = Some x"
      using chansOkD(6) [OF ok(1) [unfolded channelsOk_def]] by simp
    then show "map_of (c_Channels c) k' = Some x" using chansOkD(5) [OF ok(1) [unfolded channelsOk_def] ok(2)] by blast
  qed
  from stepOk_unlinkAll [OF assms [unfolded s] this] show ?thesis
    using assms by (simp add: s replaceLinks_def Let_def stepOk_linkAll)
qed

lemma stepOk_addLink: "stepOk k r s \<Longrightarrow> stepOk k r (addLink r k' s)"
proof (cases s)
  case (Pair ty c)
  assume "stepOk k r s"
  with Pair stepOk_link(1) [of k r ty c k'] show ?thesis
    by (cases "map_of (c_Channels c) k'") (simp_all add: addLink_def)
qed

lemma stepOk_removeLink: "stepOk k r s \<Longrightarrow> stepOk k r (removeLink r k' s)"
proof (cases s)
  case (Pair ty c)
  assume "stepOk k r s"
  with Pair stepOk_link(2) [of k r ty c k'] show ?thesis
    by (cases "map_of (c_Channels c) k'") (simp_all add: removeLink_def)
qed

lemma stepOk_fold: "stepOk k r s \<Longrightarrow> (\<And>x s. stepOk k r s \<Longrightarrow> stepOk k r (f x s)) \<Longrightarrow> stepOk k r (fold f xs s)"
  by (induction xs arbitrary: s) auto

lemma stepOk_whenSome:
  "stepOk k r s \<Longrightarrow> (\<And>v s. stepOk k r s \<Longrightarrow> stepOk k r (f v s)) \<Longrightarrow> stepOk k r (whenSome x f s)"
  by (cases x) auto

lemma channelsOk_emit [simp]: "channelsOk (emitIfSynced e c) = channelsOk c"
  by (simp add: emitIfSynced_def emit_def channelsOk_def)

lemma findOrCreate_ok:
  assumes "channelsOk c" and "findOrCreateChannel k c = (ty, r, c0)"
  shows "stepOk k r (ty', c0)"
proof (cases "map_of (c_Channels c) k")
  case None
  from chansOk_create [OF assms(1) [unfolded channelsOk_def] None, of True] show ?thesis
    using assms(2) None
    by (auto simp: findOrCreateChannel_def createChannel_def Let_def setChannel_def stepOk_def channelsOk_def update_conv')
next
  case (Some x)
  then show ?thesis using assms by (auto simp: findOrCreateChannel_def stepOk_def)
qed

lemma updateChannel_ok:
  assumes "stepOk k r s"
  shows "stepOk k r (updateChannel packet k r s)"
proof -
  have scalar: "stepOk k r (ty, setChannel r f (snd s))"
    if "stepOk k r s" "\<And>ch. ch_ID (f ch) = ch_ID ch" "\<And>ch. ch_Parent (f ch) = ch_Parent ch"
      "\<And>ch. ch_Children (f ch) = ch_Children ch" "\<And>ch. ch_Links (f ch) = ch_Links ch" for s f ty
    using that stepOk_scalar [of k r "fst s" "snd s" f] by simp
  have rep: "stepOk k r (reparent k r v s)" if "stepOk k r s" for v s
    using that stepOk_reparent by (cases s) simp
  show ?thesis
    unfolding updateChannel_def Let_def split_def
    by (intro stepOk_whenSome stepOk_fold stepOk_addLink stepOk_removeLink stepOk_replaceLinks rep assms scalar stepOk_field)
      simp_all
qed

lemma channelState_ok:
  assumes "channelsOk c"
  shows "case channelState packet c of Ok c' \<Rightarrow> channelsOk c' | Err e c' \<Rightarrow> c' = c | _ \<Rightarrow> False"
proof (cases "m_cs_ChannelId packet")
  case None
  then show ?thesis by (simp add: channelState_def)
next
  case (Some k)
  obtain ty r c0 where init: "findOrCreateChannel k c = (ty, r, c0)" by (metis prod_cases3)
  obtain ty' c1 where upd: "updateChannel packet k r (ty, c0) = (ty', c1)" by fastforce
  have "stepOk k r (ty', c1)" using updateChannel_ok [OF findOrCreate_ok [OF assms init], of packet] upd by metis
  then show ?thesis by (simp add: channelState_def Some init upd stepOk_def)
qed

section \<open>Removal\<close>

lemma delLinks_fields:
  "c_channel (fold (\<lambda>(_, x). delLink x k) L c) y =
     (c_channel c y)\<lparr>ch_Links := (if y \<in> snd ` set L then AList.delete k (ch_Links (c_channel c y)) else ch_Links (c_channel c y))\<rparr>"
  "c_Channels (fold (\<lambda>(_, x). delLink x k) L c) = c_Channels c"
  "c_nextChannel (fold (\<lambda>(_, x). delLink x k) L c) = c_nextChannel c"
proof (induction L arbitrary: c)
  case (Cons l L)
  case 1 show ?case using Cons(1) [of "delLink (snd l) k c"]
    by (cases l) (auto simp: delLink_def setChannel_def AList.delete_idem)
  case 2 show ?case using Cons(2) by (cases l) (simp add: delLink_def)
  case 3 show ?case using Cons(3) by (cases l) (simp add: delLink_def setChannel_def)
qed simp_all

lemma channelRemove_ok:
  assumes "channelsOk c"
  shows "case channelRemove packet c of Ok c' \<Rightarrow> channelsOk c' | Err e c' \<Rightarrow> c' = c | _ \<Rightarrow> False"
proof (cases "m_cr_ChannelId packet")
  case None
  then show ?thesis by (simp add: channelRemove_def)
next
  case id: (Some k)
  show ?thesis
  proof (cases "map_of (c_Channels c) k")
    case None
    then show ?thesis by (simp add: channelRemove_def id)
  next
    case r: (Some r)
    let ?h = "c_channel c" and ?m = "map_of (c_Channels c)"
    have ok: "chansOk ?h (c_nextChannel c) ?m" using assms by (simp add: channelsOk_def)
    note D = chansOkD [OF ok]
    define c0 where "c0 = setChannel r (\<lambda>ch. ch\<lparr>ch_client := False\<rparr>) c"
    define c1 where "c1 = c0\<lparr>c_Channels := AList.delete k (c_Channels c0),
      c_permissions := AList.delete k (c_permissions c0)\<rparr>"
    define c2 where "c2 = (case ch_Parent (c_channel c1 r) of None \<Rightarrow> c1
      | Some parent \<Rightarrow> delChild parent (ch_ID (c_channel c1 r)) c1)"
    define c3 where "c3 = fold (\<lambda>(_, link). delLink link k) (ch_Links (c_channel c2 r)) c2"
    have res: "channelRemove packet c = Ok (emitIfSynced (ChannelChangeEvent
        \<lparr>cc_Type = ChannelChangeRemoved, cc_Channel = Some r\<rparr>) c3)"
      unfolding channelRemove_def id option.case r Let_def c0_def [symmetric] c1_def [symmetric]
        c2_def [symmetric] c3_def [symmetric] ..
    have h1: "ch_ID (c_channel c1 y) = ch_ID (?h y)" "ch_Parent (c_channel c1 y) = ch_Parent (?h y)"
      "ch_Children (c_channel c1 y) = ch_Children (?h y)" "ch_Links (c_channel c1 y) = ch_Links (?h y)" for y
      by (simp_all add: c1_def c0_def setChannel_def)
    have h2: "ch_ID (c_channel c2 y) = ch_ID (?h y)" "ch_Parent (c_channel c2 y) = ch_Parent (?h y)"
      "ch_Links (c_channel c2 y) = ch_Links (?h y)"
      "ch_Children (c_channel c2 y) = (if ch_Parent (?h r) = Some y then AList.delete k (ch_Children (?h y)) else ch_Children (?h y))"
      "c_Channels c2 = AList.delete k (c_Channels c)" "c_nextChannel c2 = c_nextChannel c" for y
      using D(2) [OF r] h1 by (simp_all add: c2_def delChild_def setChannel_def c1_def c0_def split: option.split)
    have h3: "ch_ID (c_channel c3 y) = ch_ID (?h y)" "ch_Parent (c_channel c3 y) = ch_Parent (?h y)"
      "map_of (ch_Links (c_channel c3 y)) b = (if b = k \<and> y \<in> snd ` set (ch_Links (?h r)) then None else map_of (ch_Links (?h y)) b)"
      "map_of (ch_Children (c_channel c3 y)) b = (if b = k \<and> ch_Parent (?h r) = Some y then None else map_of (ch_Children (?h y)) b)"
      "map_of (c_Channels c3) b = (if b = k then None else ?m b)" "c_nextChannel c3 = c_nextChannel c" for y b
      by (simp_all add: c3_def delLinks_fields h2 delete_conv')
    have dist: "distinct (map fst (ch_Links (c_channel c3 y)))" for y
      using D(6) [of y] by (simp add: c3_def delLinks_fields h2 distinct_delete)
    have "chansOk (c_channel c3) (c_nextChannel c) (\<lambda>b. if b = k then None else ?m b)"
      unfolding chansOk_def h3(1,2)
    proof (intro conjI allI impI)
      fix a r1 assume "(if a = k then None else ?m a) = Some r1"
      then have "?m a = Some r1" by (simp split: if_splits)
      then show "r1 < c_nextChannel c" "ch_ID (?h r1) = a" using D(1,2) by blast+
    next
      fix a r1 p assume "(if a = k then None else ?m a) = Some r1 \<and> ch_Parent (?h r1) = Some p"
      then have a: "a \<noteq> k" "?m a = Some r1" "ch_Parent (?h r1) = Some p" by (simp_all split: if_splits)
      from D(3) [OF a(2,3)] a(1) show "map_of (ch_Children (c_channel c3 p)) a = Some r1" "p < c_nextChannel c"
        by (simp_all add: h3(4))
    next
      fix p a x assume "map_of (ch_Children (c_channel c3 p)) a = Some x"
      then have x: "map_of (ch_Children (?h p)) a = Some x" "\<not> (a = k \<and> ch_Parent (?h r) = Some p)"
        by (simp_all add: h3(4) split: if_splits)
      from D(4) [OF x(1)] x(2) r show "ch_Parent (?h x) = Some p" "(if a = k then None else ?m a) = Some x" by auto
    next
      fix a r1 b y assume "(if a = k then None else ?m a) = Some r1 \<and> map_of (ch_Links (c_channel c3 r1)) b = Some y"
      then have a: "a \<noteq> k" "?m a = Some r1" "map_of (ch_Links (?h r1)) b = Some y"
        "\<not> (b = k \<and> r1 \<in> snd ` set (ch_Links (?h r)))" by (simp_all add: h3(3) split: if_splits)
      from D(5) [OF a(2,3)] have y: "?m b = Some y" "map_of (ch_Links (?h y)) a = Some r1" by blast+
      have "b \<noteq> k"
      proof
        assume "b = k"
        then have "(a, r1) \<in> set (ch_Links (?h r))" using y r by (auto dest: map_of_SomeD)
        then show False using a(4) \<open>b = k\<close> by force
      qed
      then show "(if b = k then None else ?m b) = Some y" "map_of (ch_Links (c_channel c3 y)) a = Some r1"
        using y a(1) by (simp_all add: h3(3))
    qed (rule dist)
    moreover have "map_of (c_Channels c3) = (\<lambda>b. if b = k then None else ?m b)" using h3(5) by auto
    ultimately have "channelsOk c3" by (simp add: channelsOk_def h3(6))
    then show ?thesis by (simp add: res)
  qed
qed

section \<open>The tree stays acyclic\<close>

type_synonym parents = "chan_ref \<Rightarrow> chan_ref option"

definition parents :: "client \<Rightarrow> parents" where
  "parents c = (\<lambda>r. ch_Parent (c_channel c r))"

text \<open>The ancestry of a candidate ends within \<open>n\<close> steps.\<close>

fun rootedWithin :: "nat \<Rightarrow> parents \<Rightarrow> chan_ref option \<Rightarrow> bool" where
  "rootedWithin n P None = True"
| "rootedWithin 0 P (Some r) = False"
| "rootedWithin (Suc n) P (Some r) = rootedWithin n P (P r)"

definition acyclicTree :: "parents \<Rightarrow> bool" where
  "acyclicTree P = (\<forall>r. \<exists>n. rootedWithin n P (Some r))"

text \<open>A walk that ends without meeting \<open>r\<close> does not change when \<open>r\<close> gets another parent.\<close>

lemma rooted_avoids:
  "rootedWithin n (\<lambda>x. ch_Parent (h x)) p \<Longrightarrow> \<not> descendantWithin n p r h \<Longrightarrow>
    rootedWithin n ((\<lambda>x. ch_Parent (h x))(r := q)) p"
  by (induction n p r h rule: descendantWithin.induct) (auto split: if_splits elim: rootedWithin.elims)

lemma acyclic_reparent:
  assumes "acyclicTree (\<lambda>x. ch_Parent (h x))" and "rootedWithin n (\<lambda>x. ch_Parent (h x)) p"
    and "\<not> descendantWithin n p r h"
  shows "acyclicTree ((\<lambda>x. ch_Parent (h x))(r := p))"
  unfolding acyclicTree_def
proof
  let ?P = "(\<lambda>x. ch_Parent (h x))" let ?Q = "?P(r := p)"
  have p: "rootedWithin n ?Q p" using rooted_avoids [OF assms(2,3)] .
  have "\<exists>m. rootedWithin m ?Q c" if "rootedWithin k ?P c" for k c
    using that
  proof (induction k ?P c rule: rootedWithin.induct)
    case (3 k x)
    show ?case
    proof (cases "x = r")
      case True
      then have "rootedWithin (Suc n) ?Q (Some x)" using p by simp
      then show ?thesis ..
    next
      case False
      from 3 obtain m where "rootedWithin m ?Q (?P x)" by auto
      then have "rootedWithin (Suc m) ?Q (Some x)" using False by simp
      then show ?thesis ..
    qed
  qed auto
  then show "\<exists>m. rootedWithin m ?Q (Some x)" for x using assms(1) unfolding acyclicTree_def by blast
qed

text \<open>Only the move changes parents.\<close>

definition sameParents :: "parents \<Rightarrow> int64 \<times> client \<Rightarrow> bool" where
  "sameParents P s = (parents (snd s) = P)"

lemma parents_setChannel:
  "(\<And>ch. ch_Parent (f ch) = ch_Parent ch) \<Longrightarrow> parents (setChannel r f c) = parents c"
  by (auto simp: parents_def setChannel_def)

lemma parents_links [simp]:
  "parents (setLink r k x c) = parents c" "parents (delLink r k c) = parents c"
  "parents (linkBoth r k x c) = parents c" "parents (unlinkBoth r k x c) = parents c"
  by (simp_all add: setLink_def delLink_def linkBoth_def unlinkBoth_def parents_setChannel)

lemma parents_fold: "(\<And>x c. parents (f x c) = parents c) \<Longrightarrow> parents (fold f xs c) = parents c"
  by (induction xs arbitrary: c) auto

lemma sameParents_links:
  "sameParents P s \<Longrightarrow> sameParents P (addLink r k s)"
  "sameParents P s \<Longrightarrow> sameParents P (removeLink r k s)"
  by (auto simp: sameParents_def addLink_def removeLink_def split: prod.splits option.splits)

lemma sameParents_replaceLinks: "sameParents P s \<Longrightarrow> sameParents P (replaceLinks r links s)"
proof (cases s)
  case (Pair ty c)
  let ?c1 = "fold (\<lambda>(oldID, old) c. delLink r oldID (delLink old (ch_ID (c_channel c r)) c)) (ch_Links (c_channel c r)) c"
  have "parents ?c1 = parents c" by (rule parents_fold) auto
  moreover have "parents (fold (\<lambda>linkedID c. case map_of (c_Channels c) linkedID of None \<Rightarrow> c
      | Some x \<Rightarrow> linkBoth r linkedID x c) links ?c1) = parents ?c1"
    by (rule parents_fold) (simp split: option.split)
  ultimately show "sameParents P s \<Longrightarrow> sameParents P (replaceLinks r links s)"
    by (simp add: Pair sameParents_def replaceLinks_def Let_def)
qed

lemmas sameParents_steps = sameParents_links sameParents_replaceLinks

lemma sameParents_fold: "sameParents P s \<Longrightarrow> (\<And>x s. sameParents P s \<Longrightarrow> sameParents P (f x s)) \<Longrightarrow> sameParents P (fold f xs s)"
  by (induction xs arbitrary: s) auto

lemma sameParents_whenSome:
  "sameParents P s \<Longrightarrow> (\<And>v s. sameParents P s \<Longrightarrow> sameParents P (f v s)) \<Longrightarrow> sameParents P (whenSome x f s)"
  by (cases x) auto

lemma sameParents_scalar:
  "sameParents P s \<Longrightarrow> (\<And>ch. ch_Parent (f ch) = ch_Parent ch) \<Longrightarrow> sameParents P (ty, setChannel r f (snd s))"
  by (simp add: sameParents_def parents_setChannel)

lemma sameParents_field:
  "sameParents P s \<Longrightarrow> (\<And>v ch. ch_Parent (upd v ch) = ch_Parent ch) \<Longrightarrow> sameParents P (changeField get upd flag r v s)"
  by (auto simp: sameParents_def changeField_def parents_setChannel split: prod.split)

lemma updateChannel_parents:
  "parents (snd (updateChannel packet k r s)) = parents (snd (whenSome (m_cs_Parent packet) (reparent k r) s))"
proof -
  let ?s = "whenSome (m_cs_Parent packet) (reparent k r) s"
  have "sameParents (parents (snd ?s)) (updateChannel packet k r s)"
    unfolding updateChannel_def Let_def split_def
    by (intro sameParents_whenSome [where x = "m_cs_Name packet"] sameParents_whenSome [where x = "m_cs_Description packet"]
        sameParents_whenSome [where x = "m_cs_Temporary packet"] sameParents_whenSome [where x = "m_cs_Position packet"]
        sameParents_whenSome [where x = "m_cs_DescriptionHash packet"] sameParents_whenSome [where x = "m_cs_MaxUsers packet"]
        sameParents_fold sameParents_steps sameParents_scalar sameParents_field)
      (simp_all add: sameParents_def)
  then show ?thesis by (simp add: sameParents_def)
qed

text \<open>A channel just created has no ancestors, and no ancestry changes by creating it.\<close>

lemma fresh_parents:
  assumes "findOrCreateChannel k c = (ty, r, c0)"
  shows "parents c0 = parents c \<and> r \<in> ran (map_of (c_Channels c)) \<or> parents c0 = (parents c)(r := None) \<and> map_of (c_Channels c) k = None"
  using assms by (auto simp: findOrCreateChannel_def createChannel_def Let_def parents_def setChannel_def newChannel_def
      fun_eq_iff ran_def split: option.splits)

lemma rooted_clear: "rootedWithin n P p \<Longrightarrow> rootedWithin n (P(r := None)) p"
  by (induction n P p rule: rootedWithin.induct) auto

lemma fresh_acyclic:
  assumes "channelsOk c" and "acyclicTree (parents c)" and "findOrCreateChannel k c = (ty, r, c0)"
  shows "acyclicTree (parents c0)"
  using fresh_parents [OF assms(3)] assms(2) rooted_clear unfolding acyclicTree_def by metis

lemma fresh_rooted:
  assumes "channelsOk c" and "\<forall>p \<in> ran (map_of (c_Channels c)). rootedWithin (Suc n) (parents c) (Some p)"
    and "findOrCreateChannel k c = (ty, r, c0)" and "map_of (c_Channels c0) pid = Some p"
  shows "rootedWithin (Suc n) (parents c0) (Some p)"
proof -
  show ?thesis
  proof (cases "map_of (c_Channels c) k")
    case (Some x)
    then have "c0 = c" using assms(3) by (simp add: findOrCreateChannel_def)
    then show ?thesis using assms(2,4) by (auto simp: ran_def)
  next
    case None
    then have c0: "c_Channels c0 = AList.update k r (c_Channels c)" "parents c0 = (parents c)(r := None)"
      using assms(3) by (auto simp: findOrCreateChannel_def createChannel_def Let_def setChannel_def parents_def newChannel_def)
    then show ?thesis
      using assms(2,4) rooted_clear [of "Suc n" "parents c" "Some p" r] by (auto simp: update_conv' ran_def split: if_splits)
  qed
qed

lemma channelState_acyclic:
  assumes "channelsOk c" and "acyclicTree (parents c)"
    and "\<forall>p \<in> ran (map_of (c_Channels c)). rootedWithin (Suc maxChannelDepth) (parents c) (Some p)"
    and "channelState packet c = Ok c'"
  shows "acyclicTree (parents c')"
proof -
  obtain k where k: "m_cs_ChannelId packet = Some k" using assms(4) by (auto simp: channelState_def split: option.splits)
  obtain ty r c0 where init: "findOrCreateChannel k c = (ty, r, c0)" by (metis prod_cases3)
  obtain ty' c1 where upd: "updateChannel packet k r (ty, c0) = (ty', c1)" by fastforce
  have c': "c' = emitIfSynced (ChannelChangeEvent \<lparr>cc_Type = ty', cc_Channel = Some r\<rparr>) c1"
    using assms(4) by (simp add: channelState_def k init upd)
  then have par': "parents c' = parents c1" by (auto simp: parents_def emitIfSynced_def emit_def)
  have ok0: "channelsOk c0" "map_of (c_Channels c0) k = Some r"
    using findOrCreate_ok [OF assms(1) init] by (simp_all add: stepOk_def)
  show ?thesis
  proof (cases "m_cs_Parent packet")
    case None
    then have "parents c1 = parents c0" using updateChannel_parents [of packet k r "(ty, c0)"] upd by simp
    moreover have "acyclicTree (parents c0)"
      using fresh_acyclic [OF assms(1,2) init] by simp
    ultimately show ?thesis using par' by simp
  next
    case (Some pid)
    let ?p = "map_of (c_Channels c0) pid"
    have par: "parents c1 = parents (snd (reparent k r pid (ty, c0)))"
      using updateChannel_parents [of packet k r "(ty, c0)"] upd Some by simp
    have acy0: "acyclicTree (parents c0)" using fresh_acyclic [OF assms(1,2) init] by simp
    show ?thesis
    proof (cases "isChannelDescendant ?p r c0")
      case True
      then show ?thesis using par par' acy0 unfolding reparent_moved [OF ok0] by (simp add: Let_def)
    next
      case False
      have "rootedWithin (Suc maxChannelDepth) (parents c0) ?p"
        using fresh_rooted [OF assms(1,3) init, of pid] by (cases ?p) (auto simp: isChannelDescendant_def)
      then have "acyclicTree ((parents c0)(r := ?p))"
        using acyclic_reparent [of "c_channel c0"] acy0 False by (simp add: parents_def isChannelDescendant_def)
      moreover have "parents (c0\<lparr>c_channel := moved k r ?p (c_channel c0)\<rparr>) = (parents c0)(r := ?p)"
        by (auto simp: parents_def)
      ultimately show ?thesis using par par' False unfolding reparent_moved [OF ok0] by (simp add: Let_def)
    qed
  qed
qed

section \<open>Every history of channel messages\<close>

datatype channelMsg = StateMsg channelStateMsg | RemoveMsg channelRemoveMsg

text \<open>The client after a message, whatever the handler returned (\<open>None\<close>: it panicked or blocked).\<close>

fun clientOf :: "outcome \<Rightarrow> client option" where
  "clientOf (Ok c) = Some c"
| "clientOf (Err e c) = Some c"
| "clientOf Panic = None"
| "clientOf Blocked = None"

fun channelMessage :: "channelMsg \<Rightarrow> client \<Rightarrow> client option" where
  "channelMessage (StateMsg packet) c = clientOf (channelState packet c)"
| "channelMessage (RemoveMsg packet) c = clientOf (channelRemove packet c)"

lemma channelsOk_newClient: "channelsOk (newClient cfg)"
  by (simp add: channelsOk_def chansOk_def newClient_def newChannel_def)

lemma channelMessage_ok:
  assumes "channelsOk c"
  obtains c' where "channelMessage msg c = Some c'" "channelsOk c'"
proof (cases msg)
  case (StateMsg packet)
  then show ?thesis using that channelState_ok [OF assms, of packet] assms
    by (cases "channelState packet c") auto
next
  case (RemoveMsg packet)
  then show ?thesis using that channelRemove_ok [OF assms, of packet] assms
    by (cases "channelRemove packet c") auto
qed

text \<open>C4. Whatever channel messages the server sends, in whatever order, the handlers neither panic nor
  block, and in the resulting graph every registered channel has its identifier, is among the
  children of its parent and of no other channel, and is linked only to registered channels that
  are linked back.\<close>

theorem channel_graph_invariant:
  "\<exists>c. foldM channelMessage msgs (newClient cfg) = Some c \<and> channelsOk c"
proof -
  have "\<exists>c'. foldM channelMessage msgs c = Some c' \<and> channelsOk c'" if "channelsOk c" for c
    using that
  proof (induction msgs arbitrary: c)
    case (Cons msg msgs)
    obtain c1 where "channelMessage msg c = Some c1" "channelsOk c1"
      using channelMessage_ok [OF Cons.prems] .
    then show ?case using Cons.IH by simp
  qed simp
  then show ?thesis using channelsOk_newClient by blast
qed

text \<open>C5. No \<^verbatim>\<open>ChannelState\<close> message makes the channel tree cyclic, as long as no registered channel lies
  deeper than the 1025 ancestors the cycle check walks.\<close>

theorem channel_tree_acyclic:
  assumes "channelsOk c" and "acyclicTree (parents c)"
    and "\<forall>p \<in> ran (map_of (c_Channels c)). rootedWithin (Suc maxChannelDepth) (parents c) (Some p)"
    and "channelState packet c = Ok c'"
  shows "acyclicTree (parents c')"
  using assms by (rule channelState_acyclic)

definition moveMsg :: "uint32 \<Rightarrow> uint32 option \<Rightarrow> channelStateMsg" where
  "moveMsg k p = \<lparr>m_cs_ChannelId = Some k, m_cs_Parent = p, m_cs_Name = None, m_cs_Links = [],
     m_cs_Description = None, m_cs_LinksAdd = [], m_cs_LinksRemove = [], m_cs_Temporary = None,
     m_cs_Position = None, m_cs_DescriptionHash = None, m_cs_MaxUsers = None\<rparr>"

abbreviation sampleConfig :: config where
  "sampleConfig \<equiv> NewConfig"

text \<open>A new channel that is to be its own parent.\<close>

theorem channel_tree_acyclic_witness:
  "\<exists>c'. channelState (moveMsg 5 (Some 5)) (newClient sampleConfig) = Ok c' \<and> acyclicTree (parents c')"
proof -
  let ?c = "newClient sampleConfig"
  obtain c' where run: "channelState (moveMsg 5 (Some 5)) ?c = Ok c'"
    by (cases "channelState (moveMsg 5 (Some 5)) ?c")
      (auto simp: channelState_def moveMsg_def Let_def split: prod.splits)
  have "rootedWithin 1 (parents ?c) (Some r)" for r
    by (simp add: parents_def newClient_def newChannel_def)
  then have acy: "acyclicTree (parents ?c)" unfolding acyclicTree_def by blast
  have "\<forall>p \<in> ran (map_of (c_Channels ?c)). rootedWithin (Suc maxChannelDepth) (parents ?c) (Some p)"
    by (simp add: newClient_def)
  from channel_tree_acyclic [OF channelsOk_newClient acy this run] run show ?thesis by blast
qed

text \<open>A removed channel is gone everywhere: from the client's channels and permissions, from the
  children of every channel and from the links of every remaining one.\<close>

theorem channel_removed_gone:
  assumes "channelsOk c" and "channelRemove packet c = Ok c'" and "m_cr_ChannelId packet = Some k"
  shows "map_of (c_Channels c') k = None \<and> map_of (c_permissions c') k = None
    \<and> (\<forall>p. map_of (ch_Children (c_channel c' p)) k = None)
    \<and> (\<forall>r \<in> ran (map_of (c_Channels c')). map_of (ch_Links (c_channel c' r)) k = None)"
proof -
  have ok': "channelsOk c'" using channelRemove_ok [OF assms(1), of packet] assms(2) by simp
  have perm: "c_permissions (fold (\<lambda>(_, x). delLink x k) L d) = c_permissions d" for L d
    by (induction L arbitrary: d) (auto simp: delLink_def setChannel_def)
  have gone: "map_of (c_Channels c') k = None \<and> map_of (c_permissions c') k = None"
    using assms(2,3) by (auto simp: channelRemove_def Let_def delLinks_fields perm delete_conv' delChild_def
        setChannel_def emitIfSynced_def emit_def split: option.splits)
  moreover have "map_of (ch_Children (c_channel c' p)) k = None" for p
    using chansOkD(4) [OF ok' [unfolded channelsOk_def], of p k] gone by (metis not_None_eq)
  moreover have "map_of (ch_Links (c_channel c' r)) k = None" if r: "r \<in> ran (map_of (c_Channels c'))" for r
  proof -
    obtain a where "map_of (c_Channels c') a = Some r" using r by (auto simp: ran_def)
    from chansOkD(5) [OF ok' [unfolded channelsOk_def] this, of k] gone show ?thesis by (metis not_None_eq)
  qed
  ultimately show ?thesis by blast
qed

theorem channel_removed_gone_witness:
  "\<exists>c c'. channelState (moveMsg 5 None) (newClient sampleConfig) = Ok c
    \<and> channelRemove \<lparr>m_cr_ChannelId = Some 5\<rparr> c = Ok c' \<and> map_of (c_Channels c') 5 = None"
proof -
  obtain c where run: "channelState (moveMsg 5 None) (newClient sampleConfig) = Ok c"
    by (cases "channelState (moveMsg 5 None) (newClient sampleConfig)")
      (auto simp: channelState_def moveMsg_def Let_def split: prod.splits)
  have ok: "channelsOk c" using channelState_ok [OF channelsOk_newClient [of sampleConfig], where packet = "moveMsg 5 None"] run by simp
  have "map_of (c_Channels c) 5 \<noteq> None"
    using run by (auto simp: channelState_def updateChannel_def moveMsg_def findOrCreateChannel_def newClient_def
        createChannel_def replaceLinks_def setChannel_def emitIfSynced_def Let_def)
  then obtain c' where "channelRemove \<lparr>m_cr_ChannelId = Some 5\<rparr> c = Ok c'"
    by (auto simp: channelRemove_def Let_def)
  then show ?thesis using channel_removed_gone [OF ok] run by fastforce
qed

end
