(* ===== verification/UserHandlers.thy ===== *)
theory UserHandlers
  imports Messages
begin

text \<open>
  The handlers of user messages: \<^verbatim>\<open>handleUserState\<close>, \<^verbatim>\<open>handleUserRemove\<close>, \<^verbatim>\<open>handleUserStats\<close> and
  \<^verbatim>\<open>parseVersion\<close> of \<^verbatim>\<open>gumble/gumble/handlers.go\<close>, and \<^verbatim>\<open>Users.Find\<close> of \<^verbatim>\<open>users.go\<close>.
\<close>

section \<open>handleUserRemove\<close>

definition delMember :: "chan_ref \<Rightarrow> uint32 \<Rightarrow> client \<Rightarrow> client" where
  "delMember ch session = setChannel ch (\<lambda>x. x\<lparr>ch_Users := AList.delete session (ch_Users x)\<rparr>)"

definition setMember :: "chan_ref \<Rightarrow> uint32 \<Rightarrow> user_ref \<Rightarrow> client \<Rightarrow> client" where
  "setMember ch session u = setChannel ch (\<lambda>x. x\<lparr>ch_Users := AList.update session u (ch_Users x)\<rparr>)"

text \<open>The actor named in a message: \<open>None\<close> when it names an unknown one.\<close>

definition findActor :: "uint32 option \<Rightarrow> client \<Rightarrow> user_ref option option" where
  "findActor actor c =
    (case actor of
       None \<Rightarrow> Some None
     | Some a \<Rightarrow> (case map_of (c_Users c) a of None \<Rightarrow> None | Some r \<Rightarrow> Some (Some r)))"

definition userRemove :: "userRemoveMsg \<Rightarrow> client \<Rightarrow> outcome" where
  "userRemove packet c =
    (case m_ur_Session packet of
       None \<Rightarrow> Err ErrIncompleteProtobuf c
     | Some session \<Rightarrow>
       (case map_of (c_Users c) session of
          None \<Rightarrow> Err ErrInvalidProtobuf c
        | Some user \<Rightarrow>
          (case findActor (m_ur_Actor packet) c of
             None \<Rightarrow> Err ErrInvalidProtobuf c
           | Some actor \<Rightarrow>
               let ty = UserChangeDisconnected;
                   ty = (if actor \<noteq> None then ty OR UserChangeKicked else ty);
                   c = setUser user (\<lambda>u. u\<lparr>u_client := False\<rparr>) c;
                   c = (case u_Channel (c_user c user) of None \<Rightarrow> c | Some ch \<Rightarrow> delMember ch session c);
                   c = c\<lparr>c_Users := AList.delete session (c_Users c)\<rparr>
               in
               (case closeUserStreams user (c_audio c) of
                  None \<Rightarrow> Panic
                | Some au \<Rightarrow>
                    let c = c\<lparr>c_audio := au\<rparr>;
                        str = (case m_ur_Reason packet of None \<Rightarrow> [] | Some reason \<Rightarrow> reason);
                        banned = (m_ur_Ban packet = Some True);
                        ty = (if banned then ty OR UserChangeBanned else ty);
                        c = (if c_Self c = Some user then
                               c\<lparr>c_disconnectEvent := (if banned then DisconnectBanned else DisconnectKicked, str)\<rparr>
                             else c)
                    in Ok (emitIfSynced (UserChangeEvent
                         \<lparr>uc_Type = ty, uc_User = Some user, uc_Actor = actor, uc_String = str\<rparr>) c)))))"

definition handleUserRemove :: "env \<Rightarrow> bytes \<Rightarrow> client \<Rightarrow> outcome" where
  "handleUserRemove E buffer = withPacket (unm_UserRemove (e_unm E) buffer) userRemove"

section \<open>handleUserState\<close>

type_synonym user_step = "int64 \<times> client \<Rightarrow> int64 \<times> client"

text \<open>The user of the session, created in the root channel if new; the last component is false when
  there is no root channel (the new user stays registered, without a channel).\<close>

definition findOrCreateUser :: "uint32 \<Rightarrow> client \<Rightarrow> int64 \<times> user_ref \<times> client \<times> bool" where
  "findOrCreateUser session c =
    (case map_of (c_Users c) session of
       Some user \<Rightarrow> (0, user, c, True)
     | None \<Rightarrow>
         (case createUser session c of (user, c) \<Rightarrow>
          let root = map_of (c_Channels c) 0;
              c = setUser user (\<lambda>u. u\<lparr>u_Channel := root, u_client := True\<rparr>) c
          in case root of
               None \<Rightarrow> (UserChangeConnected, user, c, False)
             | Some ch \<Rightarrow> (UserChangeConnected OR UserChangeChannel, user, setMember ch session user c, True)))"

definition setFlagged :: "(user \<Rightarrow> 'v) \<Rightarrow> (('v \<Rightarrow> 'v) \<Rightarrow> user \<Rightarrow> user) \<Rightarrow> int64 \<Rightarrow> user_ref \<Rightarrow> 'v \<Rightarrow> user_step" where
  "setFlagged get upd flag user v s =
    (case s of (ty, c) \<Rightarrow>
     (if v \<noteq> get (c_user c user) then ty OR flag else ty, setUser user (upd (\<lambda>_. v)) c))"

definition setUserID :: "user_ref \<Rightarrow> uint32 \<Rightarrow> user_step" where
  "setUserID user v s =
    (case s of (ty, c) \<Rightarrow>
     if v \<noteq> u_UserID (c_user c user) \<and> \<not> Has ty UserChangeConnected then
       if v \<noteq> 0xFFFFFFFF then (ty OR UserChangeRegistered, setUser user (\<lambda>u. u\<lparr>u_UserID := v\<rparr>) c)
       else (ty OR UserChangeUnregistered, setUser user (\<lambda>u. u\<lparr>u_UserID := 0\<rparr>) c)
     else (ty, setUser user (\<lambda>u. u\<lparr>u_UserID := v\<rparr>) c))"

text \<open>The change of channel; the first component is false when the channel is unknown.\<close>

definition moveUser :: "user_ref \<Rightarrow> uint32 \<Rightarrow> int64 \<times> client \<Rightarrow> bool \<times> int64 \<times> client" where
  "moveUser user channelID s =
    (case s of (ty, c) \<Rightarrow>
     let session = u_Session (c_user c user);
         c = (case u_Channel (c_user c user) of None \<Rightarrow> c | Some ch \<Rightarrow> delMember ch session c)
     in case map_of (c_Channels c) channelID of
          None \<Rightarrow> (False, ty, c)
        | Some newChan \<Rightarrow>
            let (ty, c) = (if Some newChan \<noteq> u_Channel (c_user c user)
                  then (ty OR UserChangeChannel, setUser user (\<lambda>u. u\<lparr>u_Channel := Some newChan\<rparr>) c)
                  else (ty, c))
            in (True, ty, setMember newChan session user c))"

text \<open>The remaining fields.\<close>

definition updateUser :: "userStateMsg \<Rightarrow> user_ref \<Rightarrow> user_step" where
  "updateUser packet user s =
    (let s = whenSome (m_us_Mute packet) (setFlagged u_Muted u_Muted_update UserChangeAudio user) s;
         s = whenSome (m_us_Deaf packet) (setFlagged u_Deafened u_Deafened_update UserChangeAudio user) s;
         s = whenSome (m_us_Suppress packet) (setFlagged u_Suppressed u_Suppressed_update UserChangeAudio user) s;
         s = whenSome (m_us_SelfMute packet) (setFlagged u_SelfMuted u_SelfMuted_update UserChangeAudio user) s;
         s = whenSome (m_us_SelfDeaf packet) (setFlagged u_SelfDeafened u_SelfDeafened_update UserChangeAudio user) s;
         s = whenSome (m_us_Texture packet) (\<lambda>v (ty, c). (ty OR UserChangeTexture,
               setUser user (\<lambda>u. u\<lparr>u_Texture := Some v, u_TextureHash := None\<rparr>) c)) s;
         s = whenSome (m_us_Comment packet) (\<lambda>v s.
               case setFlagged u_Comment u_Comment_update UserChangeComment user v s of
                 (ty, c) \<Rightarrow> (ty, setUser user (\<lambda>u. u\<lparr>u_CommentHash := None\<rparr>) c)) s;
         s = whenSome (m_us_Hash packet) (\<lambda>v (ty, c). (ty, setUser user (\<lambda>u. u\<lparr>u_Hash := v\<rparr>) c)) s;
         s = whenSome (m_us_CommentHash packet) (\<lambda>v (ty, c). (ty OR UserChangeComment,
               setUser user (\<lambda>u. u\<lparr>u_CommentHash := Some v, u_Comment := []\<rparr>) c)) s;
         s = whenSome (m_us_TextureHash packet) (\<lambda>v (ty, c). (ty OR UserChangeTexture,
               setUser user (\<lambda>u. u\<lparr>u_TextureHash := Some v, u_Texture := None\<rparr>) c)) s;
         s = whenSome (m_us_PrioritySpeaker packet)
               (setFlagged u_PrioritySpeaker u_PrioritySpeaker_update UserChangePrioritySpeaker user) s
     in whenSome (m_us_Recording packet) (setFlagged u_Recording u_Recording_update UserChangeRecording user) s)"

definition userState :: "userStateMsg \<Rightarrow> client \<Rightarrow> outcome" where
  "userState packet c =
    (case m_us_Session packet of
       None \<Rightarrow> Err ErrIncompleteProtobuf c
     | Some session \<Rightarrow>
       (case findOrCreateUser session c of (ty, user, c, rooted) \<Rightarrow>
        if \<not> rooted then Err ErrInvalidProtobuf c
        else
          (case findActor (m_us_Actor packet) c of
             None \<Rightarrow> Err ErrInvalidProtobuf c
           | Some actor \<Rightarrow>
               let s = (ty, c);
                   s = whenSome (m_us_Name packet) (setFlagged u_Name u_Name_update UserChangeName user) s;
                   s = whenSome (m_us_UserId packet) (setUserID user) s;
                   (found, s) = (case m_us_ChannelId packet of
                       None \<Rightarrow> (True, s) | Some channelID \<Rightarrow> moveUser user channelID s)
               in if \<not> found then Err ErrInvalidProtobuf (snd s)
                  else
                    let (ty, c) = updateUser packet user s
                    in Ok (emitIfSynced (UserChangeEvent
                         \<lparr>uc_Type = ty, uc_User = Some user, uc_Actor = actor, uc_String = []\<rparr>) c))))"

definition handleUserState :: "env \<Rightarrow> bytes \<Rightarrow> client \<Rightarrow> outcome" where
  "handleUserState E buffer = withPacket (unm_UserState (e_unm E) buffer) userState"

section \<open>handleUserStats\<close>

definition parseVersion :: "versionMsg \<Rightarrow> version" where
  "parseVersion packet =
    (let v = newVersion;
         v = whenSome (m_ver_VersionV1 packet) (\<lambda>x v. v\<lparr>v_Version := x\<rparr>) v;
         v = whenSome (m_ver_Release packet) (\<lambda>x v. v\<lparr>v_Release := x\<rparr>) v;
         v = whenSome (m_ver_Os packet) (\<lambda>x v. v\<lparr>v_OS := x\<rparr>) v
     in whenSome (m_ver_OsVersion packet) (\<lambda>x v. v\<lparr>v_OSVersion := x\<rparr>) v)"

definition statsUDP :: "statsMsg \<Rightarrow> userStatsUDP \<Rightarrow> userStatsUDP" where
  "statsUDP p u =
    (let u = whenSome (m_st_Good p) (\<lambda>x u. u\<lparr>us_Good := x\<rparr>) u;
         u = whenSome (m_st_Late p) (\<lambda>x u. u\<lparr>us_Late := x\<rparr>) u;
         u = whenSome (m_st_Lost p) (\<lambda>x u. u\<lparr>us_Lost := x\<rparr>) u
     in whenSome (m_st_Resync p) (\<lambda>x u. u\<lparr>us_Resync := x\<rparr>) u)"

abbreviation second :: int64 where
  "second \<equiv> 1000000000"

definition fillStats :: "env \<Rightarrow> userStatsMsg \<Rightarrow> userStats" where
  "fillStats E packet =
    (let s = newUserStats;
         s = whenSome (m_ust_FromClient packet) (\<lambda>p s. s\<lparr>us_FromClient := statsUDP p (us_FromClient s)\<rparr>) s;
         s = whenSome (m_ust_FromServer packet) (\<lambda>p s. s\<lparr>us_FromServer := statsUDP p (us_FromServer s)\<rparr>) s;
         s = whenSome (m_ust_UdpPackets packet) (\<lambda>x s. s\<lparr>us_UDPPackets := x\<rparr>) s;
         s = whenSome (m_ust_UdpPingAvg packet) (\<lambda>x s. s\<lparr>us_UDPPingAverage := x\<rparr>) s;
         s = whenSome (m_ust_UdpPingVar packet) (\<lambda>x s. s\<lparr>us_UDPPingVariance := x\<rparr>) s;
         s = whenSome (m_ust_TcpPackets packet) (\<lambda>x s. s\<lparr>us_TCPPackets := x\<rparr>) s;
         s = whenSome (m_ust_TcpPingAvg packet) (\<lambda>x s. s\<lparr>us_TCPPingAverage := x\<rparr>) s;
         s = whenSome (m_ust_TcpPingVar packet) (\<lambda>x s. s\<lparr>us_TCPPingVariance := x\<rparr>) s;
         s = whenSome (m_ust_Version packet) (\<lambda>x s. s\<lparr>us_Version := parseVersion x\<rparr>) s;
         s = whenSome (m_ust_Onlinesecs packet) (\<lambda>x s. s\<lparr>us_Connected := e_now E + sint (ucast x * - second)\<rparr>) s;
         s = whenSome (m_ust_Idlesecs packet) (\<lambda>x s. s\<lparr>us_Idle := ucast x * second\<rparr>) s;
         s = whenSome (m_ust_Bandwidth packet) (\<lambda>x s. s\<lparr>us_Bandwidth := uint x\<rparr>) s;
         s = whenSome (m_ust_Address packet) (\<lambda>x s. s\<lparr>us_IP := x\<rparr>) s;
         s = s\<lparr>us_Certificates := List.map_filter (e_parseCertificate E) (m_ust_Certificates packet)\<rparr>;
         s = s\<lparr>us_StrongCertificate := (m_ust_StrongCertificate packet = Some True)\<rparr>;
         s = s\<lparr>us_CELTVersions := m_ust_CeltVersions packet\<rparr>
     in whenSome (m_ust_Opus packet) (\<lambda>x s. s\<lparr>us_Opus := x\<rparr>) s)"

definition userStats :: "env \<Rightarrow> userStatsMsg \<Rightarrow> client \<Rightarrow> outcome" where
  "userStats E packet c =
    (case m_ust_Session packet of
       None \<Rightarrow> Err ErrIncompleteProtobuf c
     | Some session \<Rightarrow>
       (case map_of (c_Users c) session of
          None \<Rightarrow> Err ErrInvalidProtobuf c
        | Some user \<Rightarrow>
            let c = setUser user (\<lambda>u. u\<lparr>u_Stats := Some (fillStats E packet)\<rparr>) c
            in Ok (emit (UserChangeEvent
                 \<lparr>uc_Type = UserChangeStats, uc_User = Some user, uc_Actor = None, uc_String = []\<rparr>) c)))"

definition handleUserStats :: "env \<Rightarrow> bytes \<Rightarrow> client \<Rightarrow> outcome" where
  "handleUserStats E buffer = withPacket (unm_UserStats (e_unm E) buffer) (userStats E)"

section \<open>Users.Find\<close>

definition UsersFind :: "string \<Rightarrow> (uint32 \<times> user_ref) list \<Rightarrow> (user_ref \<Rightarrow> user) \<Rightarrow> user_ref option" where
  "UsersFind name us h = map_option snd (find (\<lambda>(_, u). u_Name (h u) = name) us)"

end
