(* ===== verification/UserRoster.thy ===== *)
theory UserRoster
  imports UserHandlers ChannelTree
begin

text \<open>
  Users and the channels they are in, under every channel and user message: an invariant that ties
  the client's user map, the users' channels and the channels' user maps together, and the one
  error path that breaks their agreement.
\<close>

section \<open>The invariant\<close>

definition rosterOk :: "client \<Rightarrow> bool" where
  "rosterOk c \<longleftrightarrow>
    (\<forall>k u. map_of (c_Users c) k = Some u \<longrightarrow> u < c_nextUser c \<and> u_Session (c_user c u) = k
       \<and> (\<forall>ch. u_Channel (c_user c u) = Some ch \<longrightarrow> ch < c_nextChannel c))
    \<and> (\<forall>ch k u. map_of (ch_Users (c_channel c ch)) k = Some u
         \<longrightarrow> map_of (c_Users c) k = Some u \<and> u_Channel (c_user c u) = Some ch)"

text \<open>Every user is listed in its channel.\<close>

definition rosterComplete :: "client \<Rightarrow> bool" where
  "rosterComplete c \<longleftrightarrow> (\<forall>k u ch. map_of (c_Users c) k = Some u \<and> u_Channel (c_user c u) = Some ch
     \<longrightarrow> map_of (ch_Users (c_channel c ch)) k = Some u)"

definition stateOk :: "client \<Rightarrow> bool" where
  "stateOk c = (channelsOk c \<and> rosterOk c \<and> audioOk (c_audio c))"

lemma rosterOkD:
  assumes "rosterOk c"
  shows "map_of (c_Users c) k = Some u \<Longrightarrow> u < c_nextUser c" "map_of (c_Users c) k = Some u \<Longrightarrow> u_Session (c_user c u) = k"
    "map_of (c_Users c) k = Some u \<Longrightarrow> u_Channel (c_user c u) = Some ch \<Longrightarrow> ch < c_nextChannel c"
    "map_of (ch_Users (c_channel c ch)) k = Some u \<Longrightarrow> map_of (c_Users c) k = Some u \<and> u_Channel (c_user c u) = Some ch"
  using assms unfolding rosterOk_def by blast+

section \<open>Steps that touch neither sessions nor channels\<close>

definition userFrame :: "client \<Rightarrow> int64 \<times> client \<Rightarrow> bool" where
  "userFrame c0 s = (snd s = c0\<lparr>c_user := c_user (snd s)\<rparr>
     \<and> (\<forall>u. u_Session (c_user (snd s) u) = u_Session (c_user c0 u) \<and> u_Channel (c_user (snd s) u) = u_Channel (c_user c0 u)))"

lemma userFrame_refl: "userFrame c (ty, c)"
  by (simp add: userFrame_def)

lemma userFrame_set:
  assumes "userFrame c0 s" and "\<And>u. u_Session (f u) = u_Session u" and "\<And>u. u_Channel (f u) = u_Channel u"
  shows "userFrame c0 (ty, setUser r f (snd s))"
proof -
  have "snd s = c0\<lparr>c_user := c_user (snd s)\<rparr>" using assms(1) by (simp add: userFrame_def)
  then have "setUser r f (snd s) = c0\<lparr>c_user := c_user (setUser r f (snd s))\<rparr>"
    unfolding setUser_def by (metis client.surjective client.update_convs(5))
  then show ?thesis using assms by (simp add: userFrame_def setUser_heap)
qed

lemma userFrame_whenSome:
  "userFrame c0 s \<Longrightarrow> (\<And>v s. userFrame c0 s \<Longrightarrow> userFrame c0 (f v s)) \<Longrightarrow> userFrame c0 (whenSome x f s)"
  by (cases x) auto

lemma userFrame_flagged:
  "userFrame c0 s \<Longrightarrow> (\<And>v u. u_Session (upd v u) = u_Session u) \<Longrightarrow> (\<And>v u. u_Channel (upd v u) = u_Channel u) \<Longrightarrow>
    userFrame c0 (setFlagged get upd flag r v s)"
  using userFrame_set [of c0 s "upd (\<lambda>_. v)"] by (cases s) (auto simp: setFlagged_def)

lemma userFrame_userID: "userFrame c0 s \<Longrightarrow> userFrame c0 (setUserID r v s)"
  using userFrame_set [of c0 s "\<lambda>u. u\<lparr>u_UserID := v\<rparr>"] userFrame_set [of c0 s "\<lambda>u. u\<lparr>u_UserID := 0\<rparr>"]
  by (cases s) (auto simp: setUserID_def)

lemma userFrame_update: "userFrame c0 s \<Longrightarrow> userFrame c0 (updateUser packet r s)"
  unfolding updateUser_def Let_def split_def
  by (intro userFrame_whenSome userFrame_flagged userFrame_set) simp_all

lemma userFrame_ok:
  assumes "userFrame c0 (ty, c)"
  shows "stateOk c = stateOk c0" "rosterComplete c = rosterComplete c0" "c_Users c = c_Users c0"
    "c_Channels c = c_Channels c0" "u_Session (c_user c u) = u_Session (c_user c0 u)"
    "u_Channel (c_user c u) = u_Channel (c_user c0 u)" "c_channel c = c_channel c0"
proof -
  have eq: "c = c0\<lparr>c_user := c_user c\<rparr>" and
    f: "u_Session (c_user c u) = u_Session (c_user c0 u)" "u_Channel (c_user c u) = u_Channel (c_user c0 u)" for u
    using assms by (simp_all add: userFrame_def)
  then show "u_Session (c_user c u) = u_Session (c_user c0 u)" "u_Channel (c_user c u) = u_Channel (c_user c0 u)" by simp_all
  have g: "c_Users c = c_Users c0" "c_nextUser c = c_nextUser c0" "c_channel c = c_channel c0"
    "c_nextChannel c = c_nextChannel c0" "c_Channels c = c_Channels c0" "c_audio c = c_audio c0"
    by (subst eq, simp)+
  show "stateOk c = stateOk c0" "rosterComplete c = rosterComplete c0"
    unfolding stateOk_def channelsOk_def rosterOk_def rosterComplete_def f g by simp_all
  show "c_Users c = c_Users c0" "c_Channels c = c_Channels c0" "c_channel c = c_channel c0" by (rule g)+
qed

section \<open>Channel membership\<close>

lemma channelsOk_cong:
  assumes "\<And>x. ch_ID (c_channel c' x) = ch_ID (c_channel c x)" "\<And>x. ch_Parent (c_channel c' x) = ch_Parent (c_channel c x)"
    "\<And>x. ch_Children (c_channel c' x) = ch_Children (c_channel c x)" "\<And>x. ch_Links (c_channel c' x) = ch_Links (c_channel c x)"
    "c_Channels c' = c_Channels c" "c_nextChannel c' = c_nextChannel c"
  shows "channelsOk c' = channelsOk c"
  unfolding channelsOk_def chansOk_def assms by (rule refl)

lemma members_channelsOk:
  "channelsOk (delMember ch k c) = channelsOk c" "channelsOk (setMember ch k u c) = channelsOk c"
  by (rule channelsOk_cong; simp add: delMember_def setMember_def setChannel_def)+

lemma member_fields:
  "map_of (ch_Users (c_channel (delMember ch k c) x)) b = (if x = ch \<and> b = k then None else map_of (ch_Users (c_channel c x)) b)"
  "map_of (ch_Users (c_channel (setMember ch k u c) x)) b = (if x = ch \<and> b = k then Some u else map_of (ch_Users (c_channel c x)) b)"
  by (simp_all add: delMember_def setMember_def setChannel_def delete_conv' update_conv')

lemma member_rest [simp]:
  "c_Users (delMember ch k c) = c_Users c" "c_user (delMember ch k c) = c_user c" "c_nextUser (delMember ch k c) = c_nextUser c"
  "c_nextChannel (delMember ch k c) = c_nextChannel c" "c_Channels (delMember ch k c) = c_Channels c" "c_audio (delMember ch k c) = c_audio c"
  "c_Users (setMember ch k u c) = c_Users c" "c_user (setMember ch k u c) = c_user c" "c_nextUser (setMember ch k u c) = c_nextUser c"
  "c_nextChannel (setMember ch k u c) = c_nextChannel c" "c_Channels (setMember ch k u c) = c_Channels c" "c_audio (setMember ch k u c) = c_audio c"
  "c_Self (delMember ch k c) = c_Self c" "c_state (delMember ch k c) = c_state c"
  by (simp_all add: delMember_def setMember_def setChannel_def)

lemma user_rest [simp]:
  "c_Users (setUser r f c) = c_Users c" "c_nextUser (setUser r f c) = c_nextUser c" "c_channel (setUser r f c) = c_channel c"
  "c_nextChannel (setUser r f c) = c_nextChannel c" "c_Channels (setUser r f c) = c_Channels c" "c_audio (setUser r f c) = c_audio c"
  "channelsOk (setUser r f c) = channelsOk c" "c_Self (setUser r f c) = c_Self c" "c_state (setUser r f c) = c_state c"
  by (simp_all add: setUser_def channelsOk_def)

text \<open>Taking the user of session \<open>k\<close> out of its channel.\<close>

definition leave :: "user_ref \<Rightarrow> uint32 \<Rightarrow> client \<Rightarrow> client" where
  "leave u k c = (case u_Channel (c_user c u) of None \<Rightarrow> c | Some ch \<Rightarrow> delMember ch k c)"

lemma leave_rest [simp]:
  "c_Users (leave u k c) = c_Users c" "c_user (leave u k c) = c_user c" "c_nextUser (leave u k c) = c_nextUser c"
  "c_nextChannel (leave u k c) = c_nextChannel c" "c_Channels (leave u k c) = c_Channels c" "c_audio (leave u k c) = c_audio c"
  "channelsOk (leave u k c) = channelsOk c" "c_Self (leave u k c) = c_Self c" "c_state (leave u k c) = c_state c"
  by (simp_all add: leave_def members_channelsOk split: option.split)

lemma leave_members:
  assumes "rosterOk c" and "map_of (c_Users c) k = Some u"
  shows "map_of (ch_Users (c_channel (leave u k c) x)) b = (if b = k then None else map_of (ch_Users (c_channel c x)) b)"
proof -
  have "map_of (ch_Users (c_channel c x)) k = Some v \<Longrightarrow> u_Channel (c_user c u) = Some x" for v
    using rosterOkD(4) [OF assms(1), of x k v] assms(2) by simp
  then show ?thesis
    by (cases "map_of (ch_Users (c_channel c x)) k") (auto simp: leave_def member_fields split: option.split)
qed

lemma leave_rosterOk:
  assumes "rosterOk c" and "map_of (c_Users c) k = Some u"
  shows "rosterOk (leave u k c)"
  unfolding rosterOk_def leave_rest leave_members [OF assms]
proof (intro conjI allI impI)
  fix k' v assume v: "map_of (c_Users c) k' = Some v"
  show "v < c_nextUser c" "u_Session (c_user c v) = k'" by (rule rosterOkD(1,2) [OF assms(1) v])+
  show "ch < c_nextChannel c" if "u_Channel (c_user c v) = Some ch" for ch by (rule rosterOkD(3) [OF assms(1) v that])
next
  fix ch k' v assume "(if k' = k then None else map_of (ch_Users (c_channel c ch)) k') = Some v"
  then have "map_of (ch_Users (c_channel c ch)) k' = Some v" by (simp split: if_splits)
  from rosterOkD(4) [OF assms(1) this]
  show "map_of (c_Users c) k' = Some v" "u_Channel (c_user c v) = Some ch" by simp_all
qed

lemma session_inj: "rosterOk c \<Longrightarrow> map_of (c_Users c) k = Some u \<Longrightarrow> map_of (c_Users c) k' = Some u \<Longrightarrow> k' = k"
  by (metis rosterOkD(2))

lemma enter_rosterOk:
  assumes ok: "rosterOk c" and u: "map_of (c_Users c) k = Some u" and "ch < c_nextChannel c"
    and out: "\<And>x. map_of (ch_Users (c_channel c x)) k = None"
  shows "rosterOk (setMember ch k u (setUser u (\<lambda>v. v\<lparr>u_Channel := Some ch\<rparr>) c))" (is "rosterOk ?c")
  unfolding rosterOk_def
proof (intro conjI allI impI)
  fix k' v assume "map_of (c_Users ?c) k' = Some v"
  then have v: "map_of (c_Users c) k' = Some v" by simp
  show "v < c_nextUser ?c" "u_Session (c_user ?c v) = k'" using rosterOkD(1,2) [OF ok v] by (auto simp: setUser_heap)
  fix x assume "u_Channel (c_user ?c v) = Some x"
  then show "x < c_nextChannel ?c" using rosterOkD(3) [OF ok v, of x] assms(3) by (auto simp: setUser_heap split: if_splits)
next
  fix x k' v assume "map_of (ch_Users (c_channel ?c x)) k' = Some v"
  then have e: "(if x = ch \<and> k' = k then Some u else map_of (ch_Users (c_channel c x)) k') = Some v"
    by (simp only: member_fields user_rest)
  have "map_of (c_Users c) k' = Some v \<and> u_Channel (c_user ?c v) = Some x"
  proof (cases "x = ch \<and> k' = k")
    case True
    then show ?thesis using u e by (auto simp: setUser_heap)
  next
    case False
    then have m: "map_of (ch_Users (c_channel c x)) k' = Some v" using e by auto
    from rosterOkD(4) [OF ok m] have old: "map_of (c_Users c) k' = Some v" "u_Channel (c_user c v) = Some x" by simp_all
    have "k' \<noteq> k" using m out [of x] by auto
    then have "v \<noteq> u" using session_inj [OF ok u, of k'] old(1) by auto
    then show ?thesis using old by (simp add: setUser_heap)
  qed
  then show "map_of (c_Users ?c) k' = Some v" "u_Channel (c_user ?c v) = Some x" by simp_all
qed

lemma enter_complete:
  assumes ok: "rosterOk c" and u: "map_of (c_Users c) k = Some u"
    and others: "\<forall>k' v x. k' \<noteq> k \<and> map_of (c_Users c) k' = Some v \<and> u_Channel (c_user c v) = Some x
      \<longrightarrow> map_of (ch_Users (c_channel c x)) k' = Some v"
  shows "rosterComplete (setMember ch k u (setUser u (\<lambda>v. v\<lparr>u_Channel := Some ch\<rparr>) c))" (is "rosterComplete ?c")
  unfolding rosterComplete_def
proof (intro allI impI)
  fix k' v x assume *: "map_of (c_Users ?c) k' = Some v \<and> u_Channel (c_user ?c v) = Some x"
  show "map_of (ch_Users (c_channel ?c x)) k' = Some v"
  proof (cases "k' = k")
    case True
    then show ?thesis using * u by (auto simp: member_fields setUser_heap)
  next
    case False
    then have "v \<noteq> u" using session_inj [OF ok u, of k'] * by auto
    then have "map_of (ch_Users (c_channel c x)) k' = Some v" using * False others by (auto simp: setUser_heap)
    then show ?thesis using False by (simp add: member_fields)
  qed
qed

section \<open>The user handlers\<close>

lemma moveUser_result:
  "moveUser u channelID (ty, c) =
    (let c' = leave u (u_Session (c_user c u)) c in
     case map_of (c_Channels c) channelID of
       None \<Rightarrow> (False, ty, c')
     | Some ch \<Rightarrow> (True, if Some ch \<noteq> u_Channel (c_user c u) then ty OR UserChangeChannel else ty,
         setMember ch (u_Session (c_user c u)) u
           (if Some ch \<noteq> u_Channel (c_user c u) then setUser u (\<lambda>v. v\<lparr>u_Channel := Some ch\<rparr>) c' else c')))"
  unfolding moveUser_def leave_def [symmetric] Let_def by (simp split: option.split)

lemma setUser_same: "f (c_user c u) = c_user c u \<Longrightarrow> setUser u f c = c"
  by (simp add: setUser_def)

lemma moveUser_enter:
  assumes "map_of (c_Channels c) channelID = Some ch"
  shows "\<exists>ty'. moveUser u channelID (ty, c) = (True, ty', setMember ch (u_Session (c_user c u)) u
    (setUser u (\<lambda>v. v\<lparr>u_Channel := Some ch\<rparr>) (leave u (u_Session (c_user c u)) c)))"
  using assms by (auto simp: moveUser_result Let_def setUser_same)

lemma moveUser_ok:
  assumes "stateOk c" and u: "map_of (c_Users c) k = Some u"
  shows "case moveUser u channelID (ty, c) of (found, ty', c') \<Rightarrow> stateOk c' \<and> map_of (c_Users c') k = Some u
    \<and> (found \<longleftrightarrow> map_of (c_Channels c) channelID \<noteq> None) \<and> (found \<and> rosterComplete c \<longrightarrow> rosterComplete c')"
proof -
  have ok: "channelsOk c" "rosterOk c" "audioOk (c_audio c)" using assms(1) by (simp_all add: stateOk_def)
  have k: "u_Session (c_user c u) = k" by (rule rosterOkD(2) [OF ok(2) u])
  let ?l = "leave u k c"
  have lok: "rosterOk ?l" by (rule leave_rosterOk [OF ok(2) u])
  show ?thesis
  proof (cases "map_of (c_Channels c) channelID")
    case None
    then show ?thesis using ok lok u k by (simp add: moveUser_result Let_def stateOk_def)
  next
    case (Some ch)
    obtain ty' where mv: "moveUser u channelID (ty, c) = (True, ty', setMember ch k u
        (setUser u (\<lambda>v. v\<lparr>u_Channel := Some ch\<rparr>) ?l))"
      using moveUser_enter [OF Some, of u ty] k by auto
    have "ch < c_nextChannel ?l" using chansOkD(1) [OF ok(1) [unfolded channelsOk_def] Some] by simp
    then have "rosterOk (setMember ch k u (setUser u (\<lambda>v. v\<lparr>u_Channel := Some ch\<rparr>) ?l))"
      using u by (intro enter_rosterOk [OF lok]) (simp_all add: leave_members [OF ok(2) u])
    moreover have "rosterComplete (setMember ch k u (setUser u (\<lambda>v. v\<lparr>u_Channel := Some ch\<rparr>) ?l))" if "rosterComplete c"
      using u that by (intro enter_complete [OF lok]) (auto simp: leave_members [OF ok(2) u] rosterComplete_def)
    ultimately show ?thesis
      using ok u Some by (simp add: mv stateOk_def members_channelsOk)
  qed
qed

lemma findOrCreateUser_ok:
  assumes "stateOk c" and "findOrCreateUser k c = (ty, u, c', rooted)"
  shows "stateOk c' \<and> map_of (c_Users c') k = Some u \<and> (rosterComplete c \<longrightarrow> rosterComplete c') \<and> c_Channels c' = c_Channels c"
proof (cases "map_of (c_Users c) k")
  case (Some v)
  then show ?thesis using assms by (auto simp: findOrCreateUser_def)
next
  case None
  have ok: "channelsOk c" "rosterOk c" "audioOk (c_audio c)" using assms(1) by (simp_all add: stateOk_def)
  let ?r = "c_nextUser c"
  define c1 where "c1 = c\<lparr>c_nextUser := Suc ?r, c_user := (c_user c)(?r := newUser k\<lparr>u_client := True\<rparr>),
    c_Users := AList.update k ?r (c_Users c)\<rparr>"
  have users: "map_of (c_Users c1) k' = (if k' = k then Some ?r else map_of (c_Users c) k')" for k'
    by (simp add: c1_def update_conv')
  have old: "map_of (c_Users c) k' = Some v \<Longrightarrow> v \<noteq> ?r \<and> k' \<noteq> k" for k' v
    using rosterOkD(1) [OF ok(2), of k' v] None by auto
  have usr: "c_user c1 v = (if v = ?r then newUser k\<lparr>u_client := True\<rparr> else c_user c v)" for v by (simp add: c1_def)
  have rest: "c_channel c1 = c_channel c" "c_Channels c1 = c_Channels c" "c_nextChannel c1 = c_nextChannel c"
    "c_audio c1 = c_audio c" "c_nextUser c1 = Suc ?r" by (simp_all add: c1_def)
  have chan1: "channelsOk c1" using ok(1) by (simp add: channelsOk_def rest)
  have r1: "rosterOk c1"
    unfolding rosterOk_def rest
  proof (intro conjI allI impI)
    fix k' v assume v: "map_of (c_Users c1) k' = Some v"
    show "v < Suc ?r" "u_Session (c_user c1 v) = k'"
      using v old [of k' v] rosterOkD(1,2) [OF ok(2), of k' v] by (auto simp: users usr newUser_def split: if_splits)
    fix ch assume "u_Channel (c_user c1 v) = Some ch"
    then show "ch < c_nextChannel c"
      using v old [of k' v] rosterOkD(3) [OF ok(2), of k' v ch] by (auto simp: users usr newUser_def split: if_splits)
  next
    fix ch k' v assume "map_of (ch_Users (c_channel c ch)) k' = Some v"
    from rosterOkD(4) [OF ok(2) this] old [of k' v]
    show "map_of (c_Users c1) k' = Some v" "u_Channel (c_user c1 v) = Some ch" by (simp_all add: users usr)
  qed
  have others: "\<forall>k' v x. k' \<noteq> k \<and> map_of (c_Users c1) k' = Some v \<and> u_Channel (c_user c1 v) = Some x
      \<longrightarrow> map_of (ch_Users (c_channel c1 x)) k' = Some v" if "rosterComplete c"
    using that old unfolding rosterComplete_def rest users usr by (auto simp: newUser_def)
  have out: "map_of (ch_Users (c_channel c1 x)) k = None" for x
    using rosterOkD(4) [OF ok(2), of x k] None by (cases "map_of (ch_Users (c_channel c x)) k") (auto simp: rest)
  have split: "findOrCreateUser k c = (case map_of (c_Channels c) 0 of
      None \<Rightarrow> (UserChangeConnected, ?r, c1, False)
    | Some ch \<Rightarrow> (UserChangeConnected OR UserChangeChannel, ?r, setMember ch k ?r (setUser ?r (\<lambda>v. v\<lparr>u_Channel := Some ch\<rparr>) c1), True))"
    using None by (simp add: findOrCreateUser_def createUser_def Let_def c1_def setUser_def newUser_def split: option.split)
  show ?thesis
  proof (cases "map_of (c_Channels c) 0")
    case root: None
    have "rosterComplete c1" if "rosterComplete c"
      unfolding rosterComplete_def
    proof (intro allI impI)
      fix k' v x assume *: "map_of (c_Users c1) k' = Some v \<and> u_Channel (c_user c1 v) = Some x"
      then have "k' \<noteq> k" by (auto simp: users usr newUser_def)
      then show "map_of (ch_Users (c_channel c1 x)) k' = Some v" using others [OF that] * by blast
    qed
    moreover have "c' = c1" "u = ?r" using assms(2) by (simp_all add: split root)
    ultimately show ?thesis using ok chan1 r1 by (simp add: users rest stateOk_def)
  next
    case (Some ch)
    let ?c = "setMember ch k ?r (setUser ?r (\<lambda>v. v\<lparr>u_Channel := Some ch\<rparr>) c1)"
    have u1: "map_of (c_Users c1) k = Some ?r" by (simp add: users)
    have "ch < c_nextChannel c1" using chansOkD(1) [OF ok(1) [unfolded channelsOk_def] Some] by (simp add: rest)
    then have "rosterOk ?c" by (rule enter_rosterOk [OF r1 u1 _ out])
    moreover have "rosterComplete c \<Longrightarrow> rosterComplete ?c" using enter_complete [OF r1 u1 others] by blast
    moreover have "c' = ?c" "u = ?r" using assms(2) by (auto simp: split Some)
    ultimately show ?thesis using ok chan1 by (simp add: users rest stateOk_def members_channelsOk)
  qed
qed

lemma emitIfSynced_fields [simp]:
  "c_Users (emitIfSynced e c) = c_Users c" "c_user (emitIfSynced e c) = c_user c" "c_nextUser (emitIfSynced e c) = c_nextUser c"
  "c_channel (emitIfSynced e c) = c_channel c" "c_nextChannel (emitIfSynced e c) = c_nextChannel c"
  "c_Channels (emitIfSynced e c) = c_Channels c" "c_audio (emitIfSynced e c) = c_audio c"
  by (simp_all add: emitIfSynced_def emit_def)

lemma stateOk_emit [simp]: "stateOk (emitIfSynced e c) = stateOk c" "rosterComplete (emitIfSynced e c) = rosterComplete c"
  by (simp_all add: stateOk_def channelsOk_def rosterOk_def rosterComplete_def)

text \<open>What a user message does to the invariant, and when the roster stays complete.\<close>

lemma userState_ok:
  assumes "stateOk c"
  shows "case userState packet c of
      Ok c' \<Rightarrow> stateOk c' \<and> (rosterComplete c \<longrightarrow> rosterComplete c') | Err e c' \<Rightarrow> stateOk c' | _ \<Rightarrow> False"
proof (cases "m_us_Session packet")
  case None
  then show ?thesis using assms by (simp add: userState_def)
next
  case (Some k)
  obtain ty u c0 rooted where init: "findOrCreateUser k c = (ty, u, c0, rooted)" by (metis prod_cases4)
  note c0 = findOrCreateUser_ok [OF assms init]
  show ?thesis
  proof (cases "\<not> rooted \<or> findActor (m_us_Actor packet) c0 = None")
    case True
    then show ?thesis using c0 by (auto simp: userState_def Some init)
  next
    case False
    then obtain actor where actor: "rooted" "findActor (m_us_Actor packet) c0 = Some actor" by auto
    let ?s1 = "whenSome (m_us_UserId packet) (setUserID u)
        (whenSome (m_us_Name packet) (setFlagged u_Name u_Name_update UserChangeName u) (ty, c0))"
    obtain ty1 c1 where s1: "?s1 = (ty1, c1)" by fastforce
    have "userFrame c0 ?s1"
      by (intro userFrame_whenSome userFrame_userID userFrame_flagged userFrame_refl) simp_all
    then have "userFrame c0 (ty1, c1)" unfolding s1 .
    note f1 = userFrame_ok [OF this]
    obtain found ty2 c2 where s2: "(case m_us_ChannelId packet of None \<Rightarrow> (True, ty1, c1)
        | Some channelID \<Rightarrow> moveUser u channelID (ty1, c1)) = (found, ty2, c2)" by (metis prod_cases3)
    have c2: "stateOk c2 \<and> (found \<and> rosterComplete c \<longrightarrow> rosterComplete c2)"
    proof (cases "m_us_ChannelId packet")
      case None
      then show ?thesis using s2 f1 c0 by auto
    next
      case (Some channelID)
      then show ?thesis using s2 f1 c0 moveUser_ok [of c1 k u channelID ty1] by auto
    qed
    obtain ty3 c3 where s3: "updateUser packet u (ty2, c2) = (ty3, c3)" by fastforce
    have "userFrame c2 (ty3, c3)" using userFrame_update [OF userFrame_refl, of c2 packet u ty2] s3 by simp
    note f3 = userFrame_ok [OF this]
    have "userState packet c = (if \<not> found then Err ErrInvalidProtobuf c2 else Ok (emitIfSynced (UserChangeEvent
        \<lparr>uc_Type = ty3, uc_User = Some u, uc_Actor = actor, uc_String = []\<rparr>) c3))"
      by (simp add: userState_def Some init actor Let_def del: not_None_eq)
        (simp only: s1 s2 s3 prod.case snd_conv split: if_split, simp)
    then show ?thesis using c2 f3 by simp
  qed
qed

lemma stateOk_audio:
  assumes "channelsOk c" "rosterOk c" "audioOk au"
  shows "stateOk (c\<lparr>c_audio := au\<rparr>)" "stateOk (c\<lparr>c_audio := au, c_disconnectEvent := d\<rparr>)"
    "rosterComplete (c\<lparr>c_audio := au\<rparr>) = rosterComplete c"
    "rosterComplete (c\<lparr>c_audio := au, c_disconnectEvent := d\<rparr>) = rosterComplete c"
  using assms by (simp_all add: stateOk_def channelsOk_def rosterOk_def rosterComplete_def)

lemma userRemove_ok:
  assumes "stateOk c"
  shows "case userRemove packet c of
      Ok c' \<Rightarrow> stateOk c' \<and> (rosterComplete c \<longrightarrow> rosterComplete c') | Err e c' \<Rightarrow> c' = c | _ \<Rightarrow> False"
proof -
  have ok: "channelsOk c" "rosterOk c" "audioOk (c_audio c)" using assms by (simp_all add: stateOk_def)
  consider "m_ur_Session packet = None" | k where "m_ur_Session packet = Some k" "map_of (c_Users c) k = None"
    | k u where "m_ur_Session packet = Some k" "map_of (c_Users c) k = Some u" "findActor (m_ur_Actor packet) c = None"
    | k u actor where "m_ur_Session packet = Some k" "map_of (c_Users c) k = Some u" "findActor (m_ur_Actor packet) c = Some actor"
    by (metis not_None_eq)
  then show ?thesis
  proof cases
    case (4 k u actor)
    let ?c1 = "setUser u (\<lambda>u. u\<lparr>u_client := False\<rparr>) c"
    have "userFrame c (0, ?c1)" using userFrame_set [OF userFrame_refl [of c 0], where f = "\<lambda>u. u\<lparr>u_client := False\<rparr>"] by simp
    note f = userFrame_ok [OF this]
    have r1: "rosterOk ?c1" and u1: "map_of (c_Users ?c1) k = Some u" using f(1) assms 4 by (simp_all add: stateOk_def)
    define c2 where "c2 = (leave u k ?c1)\<lparr>c_Users := AList.delete k (c_Users (leave u k ?c1))\<rparr>"
    obtain au where au: "closeUserStreams u (c_audio c2) = Some au" "audioOk au"
      using closeUserStreams_ok [of "c_audio c2" u] ok(3) by (auto simp: c2_def)
    have mem: "map_of (ch_Users (c_channel c2 x)) b = (if b = k then None else map_of (ch_Users (c_channel c x)) b)" for x b
      using leave_members [OF r1 u1] by (simp add: c2_def)
    have rest: "map_of (c_Users c2) b = (if b = k then None else map_of (c_Users c) b)" "c_nextUser c2 = c_nextUser c"
      "c_nextChannel c2 = c_nextChannel c" "u_Session (c_user c2 v) = u_Session (c_user c v)"
      "u_Channel (c_user c2 v) = u_Channel (c_user c v)" for b v
      by (simp_all add: c2_def delete_conv' f(3,5,6))
    have chan2: "channelsOk c2"
      using ok(1) channelsOk_cong [of c2 "leave u k ?c1"] by (simp add: c2_def)
    have roster2: "rosterOk c2"
      unfolding rosterOk_def rest mem
    proof (intro conjI allI impI)
      fix k' v assume "(if k' = k then None else map_of (c_Users c) k') = Some v"
      then have v: "map_of (c_Users c) k' = Some v" by (simp split: if_splits)
      show "v < c_nextUser c" "u_Session (c_user c v) = k'" by (rule rosterOkD(1,2) [OF ok(2) v])+
      show "x < c_nextChannel c" if "u_Channel (c_user c v) = Some x" for x by (rule rosterOkD(3) [OF ok(2) v that])
    next
      fix x k' v assume "(if k' = k then None else map_of (ch_Users (c_channel c x)) k') = Some v"
      then have ne: "k' \<noteq> k" and m: "map_of (ch_Users (c_channel c x)) k' = Some v" by (simp_all split: if_splits)
      from rosterOkD(4) [OF ok(2) m] ne
      show "(if k' = k then None else map_of (c_Users c) k') = Some v" "u_Channel (c_user c v) = Some x" by simp_all
    qed
    have complete2: "rosterComplete c \<longrightarrow> rosterComplete c2"
      unfolding rosterComplete_def rest mem by (auto split: if_splits)
    let ?d = "(if m_ur_Ban packet = Some True then DisconnectBanned else DisconnectKicked,
      case m_ur_Reason packet of None \<Rightarrow> [] | Some reason \<Rightarrow> reason)"
    let ?c3 = "if c_Self (c2\<lparr>c_audio := au\<rparr>) = Some u then (c2\<lparr>c_audio := au\<rparr>)\<lparr>c_disconnectEvent := ?d\<rparr>
      else c2\<lparr>c_audio := au\<rparr>"
    have "\<exists>e. userRemove packet c = Ok (emitIfSynced e ?c3)"
      unfolding userRemove_def 4 option.case Let_def leave_def [symmetric] c2_def [symmetric] au(1)
      by (rule exI, rule refl)
    moreover have frame: "stateOk ?c3 \<and> (rosterComplete c \<longrightarrow> rosterComplete ?c3)"
      using stateOk_audio [OF chan2 roster2 au(2)] complete2 by (cases "c_Self (c2\<lparr>c_audio := au\<rparr>) = Some u") (simp_all del: client.simps)
    ultimately show ?thesis by auto
  qed (simp_all add: userRemove_def)
qed

section \<open>Channel messages leave the users alone\<close>

definition memberFrame :: "client \<Rightarrow> int64 \<times> client \<Rightarrow> bool" where
  "memberFrame c0 s = (snd s = c0\<lparr>c_channel := c_channel (snd s)\<rparr>
     \<and> (\<forall>x. ch_Users (c_channel (snd s) x) = ch_Users (c_channel c0 x)))"

lemma memberFrame_refl: "memberFrame c (ty, c)"
  by (simp add: memberFrame_def)

lemma memberFrame_set:
  assumes "memberFrame c0 s" and "\<And>ch. ch_Users (f ch) = ch_Users ch"
  shows "memberFrame c0 (ty, setChannel r f (snd s))"
proof -
  have "snd s = c0\<lparr>c_channel := c_channel (snd s)\<rparr>" using assms(1) by (simp add: memberFrame_def)
  then have "setChannel r f (snd s) = c0\<lparr>c_channel := c_channel (setChannel r f (snd s))\<rparr>"
    unfolding setChannel_def by (metis client.surjective client.update_convs(3))
  then show ?thesis using assms by (simp add: memberFrame_def setChannel_heap)
qed

lemma memberFrame_set': "memberFrame c0 (ty, c) \<Longrightarrow> (\<And>ch. ch_Users (f ch) = ch_Users ch) \<Longrightarrow> memberFrame c0 (ty', setChannel r f c)"
  using memberFrame_set [of c0 "(ty, c)"] by simp

lemma memberFrame_maps:
  assumes "memberFrame c0 (ty, c)"
  shows "memberFrame c0 (ty', setLink r k x c)" "memberFrame c0 (ty', delLink r k c)"
    "memberFrame c0 (ty', setChild r k x c)" "memberFrame c0 (ty', delChild r k c)"
  unfolding setLink_def delLink_def setChild_def delChild_def
  by (rule memberFrame_set' [OF assms], simp)+

lemma memberFrame_links:
  assumes "memberFrame c0 (ty, c)"
  shows "memberFrame c0 (ty', linkBoth r k x c)" "memberFrame c0 (ty', unlinkBoth r k x c)"
  unfolding linkBoth_def unlinkBoth_def
  by (intro memberFrame_maps(1) [of _ ty] memberFrame_maps(2) [of _ ty] assms)+

lemma memberFrame_foldc:
  "memberFrame c0 (ty, c) \<Longrightarrow> (\<And>x c. memberFrame c0 (ty, c) \<Longrightarrow> memberFrame c0 (ty, f x c)) \<Longrightarrow> memberFrame c0 (ty, fold f xs c)"
  by (induction xs arbitrary: c) auto

lemma memberFrame_fold:
  "memberFrame c0 s \<Longrightarrow> (\<And>x s. memberFrame c0 s \<Longrightarrow> memberFrame c0 (f x s)) \<Longrightarrow> memberFrame c0 (fold f xs s)"
  by (induction xs arbitrary: s) auto

lemma memberFrame_whenSome:
  "memberFrame c0 s \<Longrightarrow> (\<And>v s. memberFrame c0 s \<Longrightarrow> memberFrame c0 (f v s)) \<Longrightarrow> memberFrame c0 (whenSome x f s)"
  by (cases x) auto

lemma memberFrame_bits: "memberFrame c0 (ty, c) \<Longrightarrow> memberFrame c0 (ty', c)"
  by (simp add: memberFrame_def)

lemma memberFrame_field:
  "memberFrame c0 s \<Longrightarrow> (\<And>v ch. ch_Users (upd v ch) = ch_Users ch) \<Longrightarrow> memberFrame c0 (changeField get upd flag r v s)"
  using memberFrame_set [of c0 s "upd (\<lambda>_. v)"] by (cases s) (auto simp: changeField_def)

lemma memberFrame_reparent: "memberFrame c0 s \<Longrightarrow> memberFrame c0 (reparent k r pid s)"
proof (cases s)
  case (Pair ty c)
  assume "memberFrame c0 s"
  then have "memberFrame c0 (t, c)" for t using Pair memberFrame_bits by blast
  then show ?thesis
    unfolding Pair reparent_def Let_def prod.case
    by (cases "ch_Parent (c_channel c r)"; cases "map_of (c_Channels c) pid")
      (auto intro!: memberFrame_maps(3) [of _ 0] memberFrame_maps(4) [of _ 0] memberFrame_set' [of _ 0])
qed

lemma memberFrame_linkSteps:
  "memberFrame c0 s \<Longrightarrow> memberFrame c0 (addLink r k s)" "memberFrame c0 s \<Longrightarrow> memberFrame c0 (removeLink r k s)"
  by (cases s; auto simp: addLink_def removeLink_def split: option.split intro: memberFrame_links memberFrame_bits)+

lemma memberFrame_replaceLinks: "memberFrame c0 s \<Longrightarrow> memberFrame c0 (replaceLinks r links s)"
proof (cases s)
  case (Pair ty c)
  assume "memberFrame c0 s"
  then have "memberFrame c0 (ty OR ChannelChangeLinks, c)" using Pair memberFrame_bits by blast
  then show ?thesis
    using \<open>memberFrame c0 s\<close> unfolding Pair replaceLinks_def Let_def prod.case
    by (auto intro!: memberFrame_foldc memberFrame_maps(2) [of _ "ty OR ChannelChangeLinks"]
        memberFrame_links(1) [of _ "ty OR ChannelChangeLinks"] split: option.split)
qed

lemma memberFrame_update: "memberFrame c0 s \<Longrightarrow> memberFrame c0 (updateChannel packet k r s)"
  unfolding updateChannel_def Let_def split_def
  by (intro memberFrame_whenSome memberFrame_reparent memberFrame_fold memberFrame_linkSteps memberFrame_replaceLinks
      memberFrame_field memberFrame_set) simp_all

text \<open>What the roster needs of a step to survive it.\<close>

definition rosterFrame :: "client \<Rightarrow> client \<Rightarrow> bool" where
  "rosterFrame c c' = (c_Users c' = c_Users c \<and> c_user c' = c_user c \<and> c_nextUser c' = c_nextUser c
     \<and> c_audio c' = c_audio c \<and> c_nextChannel c \<le> c_nextChannel c'
     \<and> (\<forall>x k. map_of (ch_Users (c_channel c' x)) k = map_of (ch_Users (c_channel c x)) k))"

lemma rosterFrame_trans: "rosterFrame c c1 \<Longrightarrow> rosterFrame c1 c2 \<Longrightarrow> rosterFrame c c2"
  by (simp add: rosterFrame_def)

lemma rosterFrame_keeps:
  assumes "rosterFrame c c'" and "rosterOk c"
  shows "rosterOk c'" "rosterComplete c \<longrightarrow> rosterComplete c'" "c_audio c' = c_audio c"
proof -
  have f: "c_Users c' = c_Users c" "c_user c' = c_user c" "c_nextUser c' = c_nextUser c"
    "map_of (ch_Users (c_channel c' x)) k = map_of (ch_Users (c_channel c x)) k" for x k
    using assms(1) by (simp_all add: rosterFrame_def)
  have n: "c_nextChannel c \<le> c_nextChannel c'" and a: "c_audio c' = c_audio c"
    using assms(1) by (simp_all add: rosterFrame_def)
  show "rosterOk c'"
    unfolding rosterOk_def f
  proof (intro conjI allI impI)
    fix k u assume u: "map_of (c_Users c) k = Some u"
    show "u < c_nextUser c" "u_Session (c_user c u) = k" by (rule rosterOkD(1,2) [OF assms(2) u])+
    show "ch < c_nextChannel c'" if "u_Channel (c_user c u) = Some ch" for ch
      using rosterOkD(3) [OF assms(2) u that] n by simp
  next
    fix ch k u assume "map_of (ch_Users (c_channel c ch)) k = Some u"
    from rosterOkD(4) [OF assms(2) this]
    show "map_of (c_Users c) k = Some u" "u_Channel (c_user c u) = Some ch" by simp_all
  qed
  show "rosterComplete c \<longrightarrow> rosterComplete c'" unfolding rosterComplete_def f by simp
  show "c_audio c' = c_audio c" by (rule a)
qed

lemma rosterFrame_member:
  assumes "memberFrame c (ty, c')"
  shows "rosterFrame c c'"
proof -
  have eq: "c' = c\<lparr>c_channel := c_channel c'\<rparr>" and u: "\<And>x. ch_Users (c_channel c' x) = ch_Users (c_channel c x)"
    using assms by (simp_all add: memberFrame_def)
  have "c_Users c' = c_Users c" "c_user c' = c_user c" "c_nextUser c' = c_nextUser c" "c_audio c' = c_audio c"
    "c_nextChannel c' = c_nextChannel c"
    by (subst eq, simp)+
  then show ?thesis by (simp add: rosterFrame_def u)
qed

lemma rosterFrame_create:
  assumes "rosterOk c" and "findOrCreateChannel k c = (ty, r, c0)"
  shows "rosterFrame c c0"
proof (cases "map_of (c_Channels c) k")
  case (Some x)
  then have "c0 = c" using assms(2) by (simp add: findOrCreateChannel_def)
  then show ?thesis by (simp add: rosterFrame_def)
next
  case None
  let ?r = "c_nextChannel c"
  have "map_of (ch_Users (c_channel c ?r)) b = None" for b
  proof (rule ccontr)
    assume "map_of (ch_Users (c_channel c ?r)) b \<noteq> None"
    then obtain u where u: "map_of (ch_Users (c_channel c ?r)) b = Some u" by auto
    note m = rosterOkD(4) [OF assms(1) u]
    from m have "map_of (c_Users c) b = Some u" "u_Channel (c_user c u) = Some ?r" by simp_all
    from rosterOkD(3) [OF assms(1) this] show False by simp
  qed
  then show ?thesis
    using assms(2) None by (auto simp: findOrCreateChannel_def createChannel_def setChannel_def rosterFrame_def Let_def newChannel_def)
qed

lemma rosterFrame_emit: "rosterFrame c c' \<Longrightarrow> rosterFrame c (emitIfSynced e c')"
  by (simp add: rosterFrame_def)

lemma channelState_frame:
  assumes "rosterOk c" and "channelState packet c = Ok c'"
  shows "rosterFrame c c'"
proof -
  obtain k where k: "m_cs_ChannelId packet = Some k" using assms(2) by (auto simp: channelState_def split: option.splits)
  obtain ty r c0 where init: "findOrCreateChannel k c = (ty, r, c0)" by (metis prod_cases3)
  obtain ty' c1 where upd: "updateChannel packet k r (ty, c0) = (ty', c1)" by fastforce
  have c': "c' = emitIfSynced (ChannelChangeEvent \<lparr>cc_Type = ty', cc_Channel = Some r\<rparr>) c1"
    using assms(2) by (simp add: channelState_def k init upd)
  have "memberFrame c0 (ty', c1)" using memberFrame_update [OF memberFrame_refl, of c0 packet k r ty] upd by simp
  then show ?thesis unfolding c'
    by (intro rosterFrame_emit rosterFrame_trans [OF rosterFrame_create [OF assms(1) init]] rosterFrame_member)
qed

lemma channelRemove_frame:
  assumes "channelRemove packet c = Ok c'"
  shows "rosterFrame c c'"
proof -
  obtain k r where k: "m_cr_ChannelId packet = Some k" and r: "map_of (c_Channels c) k = Some r"
    using assms by (auto simp: channelRemove_def split: option.splits)
  let ?c1 = "setChannel r (\<lambda>ch. ch\<lparr>ch_client := False\<rparr>) c"
  define c2 where "c2 = ?c1\<lparr>c_Channels := AList.delete k (c_Channels ?c1), c_permissions := AList.delete k (c_permissions ?c1)\<rparr>"
  have f2: "rosterFrame c c2" by (simp add: rosterFrame_def c2_def setChannel_def)
  have f3: "memberFrame c2 (0, case ch_Parent (c_channel c2 r) of None \<Rightarrow> c2 | Some p \<Rightarrow> delChild p (ch_ID (c_channel c2 r)) c2)" (is "memberFrame c2 (0, ?c3)")
    using memberFrame_maps(4) [OF memberFrame_refl [of c2 0]] memberFrame_refl [of c2 0] by (cases "ch_Parent (c_channel c2 r)") simp_all
  have f4: "memberFrame c2 (0, fold (\<lambda>(_, link). delLink link k) (ch_Links (c_channel ?c3 r)) ?c3)" (is "memberFrame c2 (0, ?c4)")
    by (rule memberFrame_foldc [OF f3]) (auto intro: memberFrame_maps(2))
  have "\<exists>e. channelRemove packet c = Ok (emitIfSynced e ?c4)"
    unfolding channelRemove_def k r option.case Let_def c2_def [symmetric] by (rule exI, rule refl)
  then show ?thesis using assms rosterFrame_emit [OF rosterFrame_trans [OF f2 rosterFrame_member [OF f4]]] by fastforce
qed

section \<open>Every history of channel and user messages\<close>

datatype rosterMsg =
    ChannelStateMsg channelStateMsg | ChannelRemoveMsg channelRemoveMsg
  | UserStateMsg userStateMsg | UserRemoveMsg userRemoveMsg

fun rosterMessage :: "rosterMsg \<Rightarrow> client \<Rightarrow> outcome" where
  "rosterMessage (ChannelStateMsg packet) c = channelState packet c"
| "rosterMessage (ChannelRemoveMsg packet) c = channelRemove packet c"
| "rosterMessage (UserStateMsg packet) c = userState packet c"
| "rosterMessage (UserRemoveMsg packet) c = userRemove packet c"

lemma rosterMessage_ok:
  assumes "stateOk c"
  shows "case rosterMessage msg c of
      Ok c' \<Rightarrow> stateOk c' \<and> (rosterComplete c \<longrightarrow> rosterComplete c') | Err e c' \<Rightarrow> stateOk c' | _ \<Rightarrow> False"
proof (cases msg)
  case (ChannelStateMsg packet)
  have ok: "channelsOk c" "rosterOk c" "audioOk (c_audio c)" using assms by (simp_all add: stateOk_def)
  show ?thesis
  proof (cases "channelState packet c")
    case (Ok c')
    note k = rosterFrame_keeps [OF channelState_frame [OF ok(2) Ok] ok(2)]
    show ?thesis using ChannelStateMsg Ok k channelState_ok [OF ok(1), of packet] ok(3) by (simp add: stateOk_def)
  qed (use ChannelStateMsg channelState_ok [OF ok(1), of packet] assms in auto)
next
  case (ChannelRemoveMsg packet)
  have ok: "channelsOk c" "rosterOk c" "audioOk (c_audio c)" using assms by (simp_all add: stateOk_def)
  show ?thesis
  proof (cases "channelRemove packet c")
    case (Ok c')
    note k = rosterFrame_keeps [OF channelRemove_frame [OF Ok] ok(2)]
    show ?thesis using ChannelRemoveMsg Ok k channelRemove_ok [OF ok(1), of packet] ok(3) by (simp add: stateOk_def)
  qed (use ChannelRemoveMsg channelRemove_ok [OF ok(1), of packet] assms in auto)
next
  case (UserStateMsg packet)
  then show ?thesis using userState_ok [OF assms, of packet] by simp
next
  case (UserRemoveMsg packet)
  then show ?thesis using userRemove_ok [OF assms, of packet] assms by (cases "userRemove packet c") auto
qed

lemma stateOk_newClient: "stateOk (newClient cfg)" "rosterComplete (newClient cfg)"
  using channelsOk_newClient [of cfg] audioOk_noAudio
  by (simp_all add: stateOk_def rosterOk_def rosterComplete_def newClient_def newChannel_def)


text \<open>The client after a message whose handler returned no error.\<close>

fun okOf :: "outcome \<Rightarrow> client option" where
  "okOf (Ok c) = Some c"
| "okOf _ = None"

lemma foldM_complete:
  assumes "foldM (\<lambda>msg c. okOf (rosterMessage msg c)) msgs c = Some c'" and "stateOk c" and "rosterComplete c"
  shows "stateOk c' \<and> rosterComplete c'"
  using assms
proof (induction msgs arbitrary: c)
  case (Cons msg msgs)
  then obtain c1 where c1: "rosterMessage msg c = Ok c1" "foldM (\<lambda>msg c. okOf (rosterMessage msg c)) msgs c1 = Some c'"
    by (cases "rosterMessage msg c") auto
  from Cons.IH [OF c1(2)] show ?case using rosterMessage_ok [OF Cons.prems(2), of msg] Cons.prems(3) c1(1) by simp
qed simp

text \<open>As long as no handler returns an error, the two sides agree: every registered user that is in a
  channel is also listed in that channel, and a channel lists only registered users that are in it.\<close>

theorem roster_complete:
  assumes "foldM (\<lambda>msg c. okOf (rosterMessage msg c)) msgs (newClient cfg) = Some c"
  shows "map_of (ch_Users (c_channel c ch)) k = Some u \<longleftrightarrow>
    map_of (c_Users c) k = Some u \<and> u_Channel (c_user c u) = Some ch"
proof -
  have ok: "rosterOk c" "rosterComplete c"
    using foldM_complete [OF assms stateOk_newClient] by (simp_all add: stateOk_def)
  then show ?thesis unfolding rosterOk_def rosterComplete_def by blast
qed

definition userMsg :: "uint32 \<Rightarrow> uint32 option \<Rightarrow> userStateMsg" where
  "userMsg k channelID = \<lparr>m_us_Session = Some k, m_us_Actor = None, m_us_Name = Some ''a'', m_us_UserId = None,
     m_us_ChannelId = channelID, m_us_Mute = None, m_us_Deaf = None, m_us_Suppress = None, m_us_SelfMute = None,
     m_us_SelfDeaf = None, m_us_Texture = None, m_us_Comment = None, m_us_Hash = None, m_us_CommentHash = None,
     m_us_TextureHash = None, m_us_PrioritySpeaker = None, m_us_Recording = None,
     m_us_PluginContext = None, m_us_PluginIdentity = None\<rparr>"

text \<open>A root channel, a second channel, and a user who joins the root and moves on.\<close>

abbreviation sampleHistory :: "rosterMsg list" where
  "sampleHistory \<equiv> [ChannelStateMsg (moveMsg 0 None), ChannelStateMsg (moveMsg 5 (Some 0)),
     UserStateMsg (userMsg 7 None), UserStateMsg (userMsg 7 (Some 5))]"

lemma sample_history:
  "\<exists>c. foldM (\<lambda>msg c. okOf (rosterMessage msg c)) sampleHistory (newClient sampleConfig) = Some c
    \<and> map_of (c_Users c) 7 = Some 0 \<and> u_Channel (c_user c 0) = Some 1 \<and> c_Channels c = [(0, 0), (5, 1)]"
proof -
  have "case foldM (\<lambda>msg c. okOf (rosterMessage msg c)) sampleHistory (newClient sampleConfig) of
      None \<Rightarrow> False | Some c \<Rightarrow> map_of (c_Users c) 7 = Some 0 \<and> u_Channel (c_user c 0) = Some 1
        \<and> c_Channels c = [(0, 0), (5, 1)]"
    by code_simp
  then show ?thesis by (rule case_SomeD)
qed

theorem roster_complete_witness:
  "\<exists>c. foldM (\<lambda>msg c. okOf (rosterMessage msg c)) sampleHistory (newClient sampleConfig) = Some c
    \<and> map_of (ch_Users (c_channel c 1)) 7 = Some 0"
proof -
  obtain c where run: "foldM (\<lambda>msg c. okOf (rosterMessage msg c)) sampleHistory (newClient sampleConfig) = Some c"
    and m: "map_of (c_Users c) 7 = Some 0" "u_Channel (c_user c 0) = Some 1"
    using sample_history by blast
  from roster_complete [OF run, of 1 7 0] m have "map_of (ch_Users (c_channel c 1)) 7 = Some 0" by simp
  with run show ?thesis by blast
qed

text \<open>An error does break the agreement: a \<^verbatim>\<open>UserState\<close> message that moves a registered user to a
  channel the client does not know is refused after the user has already been taken out of its
  channel's list, so the user still points to a channel that no longer lists it.\<close>

theorem user_lost_from_channel:
  assumes "stateOk c" and "m_us_Session packet = Some k" and "map_of (c_Users c) k = Some u"
    and "u_Channel (c_user c u) = Some ch" and "m_us_ChannelId packet = Some x" and "map_of (c_Channels c) x = None"
    and "findActor (m_us_Actor packet) c \<noteq> None"
  obtains c' where "userState packet c = Err ErrInvalidProtobuf c'" "map_of (c_Users c') k = Some u"
    "u_Channel (c_user c' u) = Some ch" "map_of (ch_Users (c_channel c' ch)) k = None"
proof -
  have roster: "rosterOk c" using assms(1) by (simp add: stateOk_def)
  obtain actor where actor: "findActor (m_us_Actor packet) c = Some actor" using assms(7) by auto
  have init: "findOrCreateUser k c = (0, u, c, True)" using assms(3) by (simp add: findOrCreateUser_def)
  let ?s1 = "whenSome (m_us_UserId packet) (setUserID u)
      (whenSome (m_us_Name packet) (setFlagged u_Name u_Name_update UserChangeName u) (0, c))"
  obtain ty1 c1 where s1: "?s1 = (ty1, c1)" by fastforce
  have "userFrame c ?s1"
    by (intro userFrame_whenSome userFrame_userID userFrame_flagged userFrame_refl) simp_all
  then have "userFrame c (ty1, c1)" unfolding s1 .
  note f1 = userFrame_ok [OF this]
  let ?c2 = "leave u k c1"
  have k: "u_Session (c_user c1 u) = k" using rosterOkD(2) [OF roster assms(3)] f1(5) by simp
  have mv: "moveUser u x (ty1, c1) = (False, ty1, ?c2)"
    using assms(6) f1(4) k by (simp add: moveUser_result Let_def)
  have "userState packet c = Err ErrInvalidProtobuf ?c2"
    by (simp add: userState_def assms(2,5) init actor Let_def) (simp only: s1 mv prod.case snd_conv if_True not_False_eq_True simp_thms)
  moreover have "u_Channel (c_user ?c2 u) = Some ch" using f1(6) assms(4) by simp
  moreover have "map_of (ch_Users (c_channel ?c2 ch)) k = None"
    using f1(6) assms(4) by (simp add: leave_def member_fields)
  moreover have "map_of (c_Users ?c2) k = Some u" using f1(3) assms(3) by simp
  ultimately show ?thesis using that by blast
qed

theorem user_lost_from_channel_witness:
  "\<exists>c c'. foldM (\<lambda>msg c. okOf (rosterMessage msg c)) sampleHistory (newClient sampleConfig) = Some c
    \<and> userState (userMsg 7 (Some 9)) c = Err ErrInvalidProtobuf c' \<and> map_of (c_Users c') 7 = Some 0
    \<and> u_Channel (c_user c' 0) = Some 1 \<and> map_of (ch_Users (c_channel c' 1)) 7 = None"
proof -
  obtain c where run: "foldM (\<lambda>msg c. okOf (rosterMessage msg c)) sampleHistory (newClient sampleConfig) = Some c"
    and m: "map_of (c_Users c) 7 = Some 0" "u_Channel (c_user c 0) = Some 1" "c_Channels c = [(0, 0), (5, 1)]"
    using sample_history by blast
  have "stateOk c" using foldM_complete [OF run stateOk_newClient] by simp
  then obtain c' where "userState (userMsg 7 (Some 9)) c = Err ErrInvalidProtobuf c'" "map_of (c_Users c') 7 = Some 0"
    "u_Channel (c_user c' 0) = Some 1" "map_of (ch_Users (c_channel c' 1)) 7 = None"
    by (rule user_lost_from_channel [of c "userMsg 7 (Some 9)" 7 0 1 9])
      (simp_all add: m userMsg_def findActor_def)
  with run show ?thesis by blast
qed

end
