(* ===== verification/InfoHandlers.thy ===== *)
theory InfoHandlers
  imports Messages Varint
begin

text \<open>
  The remaining message handlers of \<^verbatim>\<open>gumble/gumble/handlers.go\<close> (version, ping, rejection, server
  sync, bans, text, permissions, access control, context actions, registered users, codec and server
  configuration) and \<^verbatim>\<open>handleCryptSetup\<close> of \<^verbatim>\<open>crypt.go\<close> with \<^verbatim>\<open>setUDP15Crypto\<close> of \<^verbatim>\<open>udp15.go\<close>.
\<close>

section \<open>Version and ping\<close>

definition ClientVersion :: uint32 where
  "ClientVersion = push_bit 16 1 OR push_bit 8 5 OR 0"

definition versionMessage :: "versionMsg \<Rightarrow> client \<Rightarrow> outcome" where
  "versionMessage packet c =
    Ok (whenSome (m_ver_VersionV1 packet) (\<lambda>v c. c\<lparr>c_udpProtobuf := (ClientVersion \<le> v)\<rparr>) c)"

definition handleVersion :: "env \<Rightarrow> bytes \<Rightarrow> client \<Rightarrow> outcome" where
  "handleVersion E buffer = withPacket (unm_Version (e_unm E) buffer) versionMessage"

text \<open>Sum and variance of the latest pings.  The index is \<^verbatim>\<open>int(tcpPacketsReceived) - 1\<close>; a 64-bit
  \<^verbatim>\<open>int\<close> holds every \<^verbatim>\<open>uint32\<close>, and an index below 0 is a panic.\<close>

definition pingSum :: "env \<Rightarrow> float32 list \<Rightarrow> float32" where
  "pingSum E xs = foldl (e_fAdd E) 0 xs"

definition shiftTimes :: "float32 list \<Rightarrow> float32 list" where
  "shiftTimes ts = tl ts @ [last ts]"

definition pingMessage :: "env \<Rightarrow> pingMsg \<Rightarrow> client \<Rightarrow> outcome" where
  "pingMessage E packet c =
    (let c = c\<lparr>c_tcpPacketsReceived := c_tcpPacketsReceived c + 1\<rparr> in
     case m_ping_Timestamp packet of
       None \<Rightarrow> Ok c
     | Some ts \<Rightarrow>
         let index = uint (c_tcpPacketsReceived c) - 1;
             times = c_tcpPingTimes c;
             (index, times) = (if index \<ge> int (length times) then (int (length times) - 1, shiftTimes times)
                               else (index, times))
         in if index < 0 \<or> index \<ge> int (length times) then Panic
            else
              let times = times[nat index := e_sinceMillis E ts];
                  seen = take (nat index + 1) times;
                  avg = e_fDiv E (pingSum E seen) (e_fOfInt E (index + 1));
                  devs = map (\<lambda>t. e_fMul E (e_fSub E avg t) (e_fSub E avg t)) seen;
                  variance = e_fDiv E (pingSum E devs) (e_fOfInt E (index + 1))
              in Ok (c\<lparr>c_tcpPingTimes := times, c_tcpPingAvg := avg, c_tcpPingVar := variance\<rparr>))"

definition handlePing :: "env \<Rightarrow> bytes \<Rightarrow> client \<Rightarrow> outcome" where
  "handlePing E buffer = withPacket (unm_Ping (e_unm E) buffer) (pingMessage E)"

section \<open>Reject and server sync\<close>

text \<open>\<^verbatim>\<open>c.connect\<close> is a channel with one buffer place; the dialling goroutine takes from it.\<close>

definition rejectMessage :: "rejectMsg \<Rightarrow> client \<Rightarrow> outcome" where
  "rejectMessage packet c =
    (if c_state c \<noteq> StateConnected then Err ErrInvalidProtobuf c
     else
       let err = \<lparr>re_Type = (case m_rej_Type packet of None \<Rightarrow> 0 | Some t \<Rightarrow> t),
                  re_Reason = (case m_rej_Reason packet of None \<Rightarrow> [] | Some r \<Rightarrow> r)\<rparr>
       in if c_connectClosed c then Panic
          else if c_connect c \<noteq> [] then Blocked
          else Ok (c\<lparr>c_connect := [err], c_connClosed := True\<rparr>))"

definition handleReject :: "env \<Rightarrow> bytes \<Rightarrow> client \<Rightarrow> outcome" where
  "handleReject E buffer = withPacket (unm_Reject (e_unm E) buffer) rejectMessage"

definition serverSync :: "serverSyncMsg \<Rightarrow> client \<Rightarrow> outcome" where
  "serverSync packet c =
    (let c = whenSome (m_ss_Session packet) (\<lambda>s c. c\<lparr>c_Self := map_of (c_Users c) s\<rparr>) c;
         c = c\<lparr>c_state := StateSynced\<rparr>;
         c = emit (ConnectEvent (m_ss_WelcomeText packet) (map_option uint (m_ss_MaxBandwidth packet))) c
     in if c_connectClosed c then Panic else Ok (c\<lparr>c_connectClosed := True\<rparr>))"

definition handleServerSync :: "env \<Rightarrow> bytes \<Rightarrow> client \<Rightarrow> outcome" where
  "handleServerSync E buffer = withPacket (unm_ServerSync (e_unm E) buffer) serverSync"

section \<open>Ban list, text messages, denied permissions\<close>

text \<open>\<^verbatim>\<open>net.CIDRMask\<close>: \<open>ones\<close> one bits in a mask of \<open>bits\<close> bits, nil outside the range.\<close>

definition CIDRMask :: "int \<Rightarrow> nat \<Rightarrow> bytes option" where
  "CIDRMask ones bits =
    (if ones < 0 \<or> ones > int bits then None
     else Some (map (\<lambda>i. let n = nat ones - 8 * i in
       if 8 \<le> n then 0xFF else NOT (drop_bit n 0xFF)) [0..<bits div 8]))"

definition banEntry :: "env \<Rightarrow> banEntryMsg \<Rightarrow> ban" where
  "banEntry E p =
    \<lparr>b_Address = m_be_Address p,
     b_Mask = (case m_be_Mask p of None \<Rightarrow> None
       | Some m \<Rightarrow> CIDRMask (uint m) (if length (m_be_Address p) = 16 then 16 * 8 else 4 * 8)),
     b_Name = (case m_be_Name p of None \<Rightarrow> [] | Some s \<Rightarrow> s),
     b_Hash = (case m_be_Hash p of None \<Rightarrow> [] | Some s \<Rightarrow> s),
     b_Reason = (case m_be_Reason p of None \<Rightarrow> [] | Some s \<Rightarrow> s),
     b_Start = (case m_be_Start p of None \<Rightarrow> 0 | Some s \<Rightarrow> e_parseTime E s),
     b_Duration = (case m_be_Duration p of None \<Rightarrow> 0 | Some d \<Rightarrow> ucast d * 1000000000),
     b_unban = False\<rparr>"

definition handleBanList :: "env \<Rightarrow> bytes \<Rightarrow> client \<Rightarrow> outcome" where
  "handleBanList E buffer =
    withPacket (unm_BanList (e_unm E) buffer) (\<lambda>bans c. Ok (emit (BanListEvent (map (banEntry E) bans)) c))"

definition textMessageEvent :: "textMessageMsg \<Rightarrow> client \<Rightarrow> outcome" where
  "textMessageEvent packet c =
    Ok (emit (TextMessageEvent
      \<lparr>tm_Sender = (case m_tm_Actor packet of None \<Rightarrow> None | Some a \<Rightarrow> map_of (c_Users c) a),
       tm_Users = List.map_filter (map_of (c_Users c)) (m_tm_Session packet),
       tm_Channels = List.map_filter (map_of (c_Channels c)) (m_tm_ChannelId packet),
       tm_Trees = List.map_filter (map_of (c_Channels c)) (m_tm_TreeId packet),
       tm_Message = (case m_tm_Message packet of None \<Rightarrow> [] | Some s \<Rightarrow> s)\<rparr>) c)"

definition handleTextMessage :: "env \<Rightarrow> bytes \<Rightarrow> client \<Rightarrow> outcome" where
  "handleTextMessage E buffer = withPacket (unm_TextMessage (e_unm E) buffer) textMessageEvent"

text \<open>\<^verbatim>\<open>MumbleProto.PermissionDenied_H9K\<close>.\<close>

abbreviation H9K :: int where
  "H9K \<equiv> 5"

text \<open>A field that names an entry of a map, which must exist when it is set: \<open>None\<close> when it does not.\<close>

definition named :: "'k option \<Rightarrow> ('k \<times> 'v) list \<Rightarrow> 'v option option" where
  "named k m = (case k of None \<Rightarrow> Some None | Some k \<Rightarrow> map_option Some (map_of m k))"

definition permissionDenied :: "permissionDeniedMsg \<Rightarrow> client \<Rightarrow> outcome" where
  "permissionDenied packet c =
    (case m_pd_Type packet of
       None \<Rightarrow> Err ErrInvalidProtobuf c
     | Some ty \<Rightarrow>
         if ty = H9K then Err ErrInvalidProtobuf c
         else case named (m_pd_Session packet) (c_Users c) of
           None \<Rightarrow> Err ErrInvalidProtobuf c
         | Some user \<Rightarrow> (case named (m_pd_ChannelId packet) (c_Channels c) of
             None \<Rightarrow> Err ErrInvalidProtobuf c
           | Some channel \<Rightarrow>
               let str = (case m_pd_Reason packet of None \<Rightarrow> [] | Some s \<Rightarrow> s);
                   str = (case m_pd_Name packet of None \<Rightarrow> str | Some s \<Rightarrow> s)
               in Ok (emit (PermissionDeniedEvent
                    \<lparr>pd_Type = ty, pd_Channel = channel, pd_User = user,
                     pd_Permission = (case m_pd_Permission packet of None \<Rightarrow> 0 | Some p \<Rightarrow> ucast p),
                     pd_String = str\<rparr>) c)))"

definition handlePermissionDenied :: "env \<Rightarrow> bytes \<Rightarrow> client \<Rightarrow> outcome" where
  "handlePermissionDenied E buffer = withPacket (unm_PermissionDenied (e_unm E) buffer) permissionDenied"

section \<open>Access control lists\<close>

definition newACLUser :: "uint32 \<Rightarrow> aclUser" where
  "newACLUser userID = \<lparr>au_UserID = userID, au_Name = []\<rparr>"

definition aclUsers :: "uint32 list \<Rightarrow> (uint32 \<times> aclUser) list" where
  "aclUsers ids = fold (\<lambda>userID. AList.update userID (newACLUser userID)) ids []"

definition isTrue :: "bool option \<Rightarrow> bool" where
  "isTrue b = (b = Some True)"

definition aclGroupOf :: "chanGroupMsg \<Rightarrow> aclGroup option" where
  "aclGroupOf g = map_option (\<lambda>name.
     \<lparr>ag_Name = name, ag_Inherited = (m_cg_Inherited g \<noteq> Some False),
      ag_InheritUsers = (m_cg_Inherit g \<noteq> Some False), ag_Inheritable = (m_cg_Inheritable g \<noteq> Some False),
      ag_UsersAdd = aclUsers (m_cg_Add g), ag_UsersRemove = aclUsers (m_cg_Remove g),
      ag_UsersInherited = aclUsers (m_cg_InheritedMembers g)\<rparr>) (m_cg_Name g)"

fun traverse :: "('a \<Rightarrow> 'b option) \<Rightarrow> 'a list \<Rightarrow> 'b list option" where
  "traverse f [] = Some []"
| "traverse f (x # xs) =
    (case f x of None \<Rightarrow> None | Some y \<Rightarrow> map_option ((#) y) (traverse f xs))"

definition aclRuleOf :: "chanACLMsg \<Rightarrow> aclRule" where
  "aclRuleOf r =
    \<lparr>ar_AppliesCurrent = (m_ca_ApplyHere r \<noteq> Some False), ar_AppliesChildren = (m_ca_ApplySubs r \<noteq> Some False),
     ar_Inherited = (m_ca_Inherited r \<noteq> Some False),
     ar_Granted = (case m_ca_Grant r of None \<Rightarrow> 0 | Some p \<Rightarrow> ucast p),
     ar_Denied = (case m_ca_Deny r of None \<Rightarrow> 0 | Some p \<Rightarrow> ucast p),
     ar_User = map_option newACLUser (m_ca_UserId r),
     ar_Group = (if m_ca_UserId r \<noteq> None then None else m_ca_Group r)\<rparr>"

definition aclMessage :: "aclMsg \<Rightarrow> client \<Rightarrow> outcome" where
  "aclMessage packet c =
    (case m_acl_ChannelId packet of
       None \<Rightarrow> Err ErrInvalidProtobuf c
     | Some channelID \<Rightarrow> (case map_of (c_Channels c) channelID of
         None \<Rightarrow> Err ErrInvalidProtobuf c
       | Some channel \<Rightarrow> (case traverse aclGroupOf (m_acl_Groups packet) of
           None \<Rightarrow> Err ErrInvalidProtobuf c
         | Some groups \<Rightarrow> Ok (c\<lparr>c_tmpACL := Some
             \<lparr>acl_Channel = channel, acl_Groups = groups, acl_Rules = map aclRuleOf (m_acl_Acls packet),
              acl_Inherits = (m_acl_InheritAcls packet \<noteq> Some False)\<rparr>\<rparr>))))"

definition handleACL :: "env \<Rightarrow> bytes \<Rightarrow> client \<Rightarrow> outcome" where
  "handleACL E buffer = withPacket (unm_ACL (e_unm E) buffer) aclMessage"

definition nameACLUser :: "(uint32 \<times> string) list \<Rightarrow> aclUser \<Rightarrow> aclUser" where
  "nameACLUser names u = u\<lparr>au_Name := (case map_of names (au_UserID u) of None \<Rightarrow> [] | Some n \<Rightarrow> n)\<rparr>"

definition nameACLUsers :: "(uint32 \<times> string) list \<Rightarrow> (uint32 \<times> aclUser) list \<Rightarrow> (uint32 \<times> aclUser) list" where
  "nameACLUsers names us = map (\<lambda>(k, u). (k, nameACLUser names u)) us"

definition queryUsers :: "queryUsersMsg \<Rightarrow> client \<Rightarrow> outcome" where
  "queryUsers packet c =
    (case c_tmpACL c of
       None \<Rightarrow> Err ErrIncompleteProtobuf c
     | Some acl \<Rightarrow>
         let c = c\<lparr>c_tmpACL := None\<rparr>;
             names = fold (\<lambda>(k, n). AList.update k n) (zip (m_qu_Ids packet) (m_qu_Names packet)) [];
             groups = map (\<lambda>g. g\<lparr>ag_UsersAdd := nameACLUsers names (ag_UsersAdd g),
                 ag_UsersRemove := nameACLUsers names (ag_UsersRemove g),
                 ag_UsersInherited := nameACLUsers names (ag_UsersInherited g)\<rparr>) (acl_Groups acl);
             rules = map (\<lambda>r. r\<lparr>ar_User := map_option (nameACLUser names) (ar_User r)\<rparr>) (acl_Rules acl)
         in Ok (emit (ACLEvent (acl\<lparr>acl_Groups := groups, acl_Rules := rules\<rparr>)) c))"

definition handleQueryUsers :: "env \<Rightarrow> bytes \<Rightarrow> client \<Rightarrow> outcome" where
  "handleQueryUsers E buffer = withPacket (unm_QueryUsers (e_unm E) buffer) queryUsers"

section \<open>Context actions and registered users\<close>

abbreviation OperationAdd :: int where
  "OperationAdd \<equiv> 0"

abbreviation OperationRemove :: int where
  "OperationRemove \<equiv> 1"

text \<open>\<^verbatim>\<open>ContextActions.create\<close>, with the label and type the handler sets.\<close>

definition newContextAction :: "string \<Rightarrow> contextActionModifyMsg \<Rightarrow> contextAction" where
  "newContextAction action packet =
    \<lparr>ca_Type = (case m_cam_Context packet of None \<Rightarrow> 0 | Some t \<Rightarrow> uint t), ca_Name = action,
     ca_Label = (case m_cam_Text packet of None \<Rightarrow> [] | Some l \<Rightarrow> l)\<rparr>"

definition contextActionModify :: "contextActionModifyMsg \<Rightarrow> client \<Rightarrow> outcome" where
  "contextActionModify packet c =
    (case (m_cam_Action packet, m_cam_Operation packet) of
       (Some action, Some operation) \<Rightarrow>
         if operation = OperationAdd then
           (case map_of (c_ContextActions c) action of
              Some ca \<Rightarrow> Ok c
            | None \<Rightarrow>
                let ca = newContextAction action packet in
                Ok (emit (ContextActionAddEvent ca)
                  (c\<lparr>c_ContextActions := AList.update action ca (c_ContextActions c)\<rparr>)))
         else if operation = OperationRemove then
           (case map_of (c_ContextActions c) action of
              None \<Rightarrow> Ok c
            | Some ca \<Rightarrow> Ok (emit (ContextActionRemoveEvent ca)
                (c\<lparr>c_ContextActions := AList.delete action (c_ContextActions c)\<rparr>)))
         else Err ErrInvalidProtobuf c
     | _ \<Rightarrow> Err ErrInvalidProtobuf c)"

definition handleContextActionModify :: "env \<Rightarrow> bytes \<Rightarrow> client \<Rightarrow> outcome" where
  "handleContextActionModify E buffer = withPacket (unm_ContextActionModify (e_unm E) buffer) contextActionModify"

definition registeredUserOf :: "env \<Rightarrow> client \<Rightarrow> userListUserMsg \<Rightarrow> registeredUser option" where
  "registeredUserOf E c u = map_option (\<lambda>userID.
     \<lparr>ru_UserID = userID, ru_Name = (case m_ul_Name u of None \<Rightarrow> [] | Some n \<Rightarrow> n),
      ru_LastSeen = (case m_ul_LastSeen u of None \<Rightarrow> 0 | Some s \<Rightarrow> e_parseTimeInLocation E s),
      ru_LastChannel = Option.bind (m_ul_LastChannel u) (map_of (c_Channels c)),
      ru_changed = False, ru_deregister = False\<rparr>) (m_ul_UserId u)"

definition userList :: "env \<Rightarrow> userListUserMsg list \<Rightarrow> client \<Rightarrow> outcome" where
  "userList E users c =
    (case traverse (registeredUserOf E c) users of
       None \<Rightarrow> Err ErrInvalidProtobuf c
     | Some us \<Rightarrow> Ok (emit (UserListEvent us) c))"

definition handleUserList :: "env \<Rightarrow> bytes \<Rightarrow> client \<Rightarrow> outcome" where
  "handleUserList E buffer = withPacket (unm_UserList (e_unm E) buffer) (userList E)"

section \<open>Permission query\<close>

definition permissionEvent :: "chan_ref option \<Rightarrow> event" where
  "permissionEvent channel = ChannelChangeEvent \<lparr>cc_Type = ChannelChangePermission, cc_Channel = channel\<rparr>"

text \<open>The channels of the flushed permissions are looked up as the code does: one that is no longer
  registered would be announced as nil.\<close>

definition permissionQuery :: "permissionQueryMsg \<Rightarrow> client \<Rightarrow> outcome" where
  "permissionQuery packet c =
    (case (case (m_pq_ChannelId packet, m_pq_Permissions packet) of
             (Some channelID, Some p) \<Rightarrow> map_option (\<lambda>r. Some (r, p)) (map_of (c_Channels c) channelID)
           | _ \<Rightarrow> Some None) of
       None \<Rightarrow> Err ErrInvalidProtobuf c
     | Some single \<Rightarrow>
         let (changed, c) = (if isTrue (m_pq_Flush packet)
               then (map (\<lambda>(k, p). map_of (c_Channels c) k) (c_permissions c), c\<lparr>c_permissions := []\<rparr>)
               else ([], c));
             (changed, c) = (case single of None \<Rightarrow> (changed, c)
               | Some (r, p) \<Rightarrow> (changed @ [Some r],
                   c\<lparr>c_permissions := AList.update (ch_ID (c_channel c r)) (ucast p) (c_permissions c)\<rparr>))
         in Ok (fold (\<lambda>ch. emit (permissionEvent ch)) changed c))"

definition handlePermissionQuery :: "env \<Rightarrow> bytes \<Rightarrow> client \<Rightarrow> outcome" where
  "handlePermissionQuery E buffer = withPacket (unm_PermissionQuery (e_unm E) buffer) permissionQuery"

section \<open>Codec and server configuration\<close>

definition codecVersion :: "env \<Rightarrow> codecVersionMsg \<Rightarrow> client \<Rightarrow> outcome" where
  "codecVersion E packet c =
    (let opus = isTrue (m_cv_Opus packet);
         event = newServerConfig\<lparr>sc_CodecAlpha := m_cv_Alpha packet, sc_CodecBeta := m_cv_Beta packet,
           sc_CodecPreferAlpha := Some (m_cv_PreferAlpha packet \<noteq> Some False), sc_CodecOpus := Some opus\<rparr>;
         c = (if opus \<and> e_opusRegistered E
              then c\<lparr>c_audioCodec := True, c_AudioEncoder := Some [], c_AudioEncoderStereo := None\<rparr> else c)
     in Ok (emit (ServerConfigEvent event) c))"

definition handleCodecVersion :: "env \<Rightarrow> bytes \<Rightarrow> client \<Rightarrow> outcome" where
  "handleCodecVersion E buffer = withPacket (unm_CodecVersion (e_unm E) buffer) (codecVersion E)"

text \<open>The hand-written scan for field 7 of a \<^verbatim>\<open>ServerConfig\<close> message; it reads the protobuf bytes with
  Mumble's own variable-length integers.  Every turn drops at least one byte.\<close>

function parseServerConfigRecordingAllowed :: "bytes \<Rightarrow> bool option" where
  "parseServerConfigRecordingAllowed buffer =
    (if buffer = [] then None
     else
       let (key, n) = Decode buffer in
       if n \<le> 0 then None
       else
         let buffer = drop n buffer;
             field = signed_drop_bit 3 key;
             wireType = key AND 7
         in if field = 7 \<and> wireType = 0 then
              (let (val, n) = Decode buffer in if n \<le> 0 then None else Some (val \<noteq> 0))
            else
              let skip =
                   (if wireType = 0 then Some (int (snd (Decode buffer)))
                    else if wireType = 1 then Some 8
                    else if wireType = 2 then
                      (let (l, n) = Decode buffer in
                       if n \<le> 0 \<or> l <s 0 then None else Some (sint (of_nat n + l :: int64)))
                    else if wireType = 5 then Some 4
                    else None)
              in case skip of
                   None \<Rightarrow> None
                 | Some skip \<Rightarrow>
                     if skip \<le> 0 \<or> skip > int (length buffer) then None
                     else parseServerConfigRecordingAllowed (drop (nat skip) buffer))"
  by pat_completeness auto
termination
  by (relation "measure length") auto

declare parseServerConfigRecordingAllowed.simps [simp del]

definition serverConfigEvent :: "bytes \<Rightarrow> serverConfigMsg \<Rightarrow> client \<Rightarrow> outcome" where
  "serverConfigEvent buffer packet c =
    Ok (emit (ServerConfigEvent (newServerConfig
      \<lparr>sc_MaximumBitrate := map_option uint (m_sc_MaxBandwidth packet),
       sc_WelcomeMessage := m_sc_WelcomeText packet, sc_AllowHTML := m_sc_AllowHtml packet,
       sc_MaximumMessageLength := map_option uint (m_sc_MessageLength packet),
       sc_MaximumImageMessageLength := map_option uint (m_sc_ImageMessageLength packet),
       sc_MaximumUsers := map_option uint (m_sc_MaxUsers packet),
       sc_RecordingAllowed := (case m_sc_RecordingAllowed packet of
           Some v \<Rightarrow> Some v
         | None \<Rightarrow> parseServerConfigRecordingAllowed buffer)\<rparr>)) c)"

definition handleServerConfig :: "env \<Rightarrow> bytes \<Rightarrow> client \<Rightarrow> outcome" where
  "handleServerConfig E buffer = withPacket (unm_ServerConfig (e_unm E) buffer) (serverConfigEvent buffer)"

definition suggestConfig :: "suggestConfigMsg \<Rightarrow> client \<Rightarrow> outcome" where
  "suggestConfig packet c =
    Ok (emit (ServerConfigEvent (newServerConfig
      \<lparr>sc_SuggestVersion := map_option (\<lambda>v. newVersion\<lparr>v_Version := v\<rparr>) (m_sg_VersionV1 packet),
       sc_SuggestPositional := m_sg_Positional packet, sc_SuggestPushToTalk := m_sg_PushToTalk packet\<rparr>)) c)"

definition handleSuggestConfig :: "env \<Rightarrow> bytes \<Rightarrow> client \<Rightarrow> outcome" where
  "handleSuggestConfig E buffer = withPacket (unm_SuggestConfig (e_unm E) buffer) suggestConfig"

text \<open>\<^verbatim>\<open>handleAuthenticate\<close>, \<^verbatim>\<open>handleContextAction\<close>, \<^verbatim>\<open>handleVoiceTarget\<close> and \<^verbatim>\<open>handleRequestBlob\<close>.\<close>

definition handleUnimplemented :: "env \<Rightarrow> bytes \<Rightarrow> client \<Rightarrow> outcome" where
  "handleUnimplemented E buffer c = Err ErrUnimplementedHandler c"

section \<open>Crypt setup\<close>

definition setUDP15Crypto :: "bytes \<Rightarrow> bytes \<Rightarrow> bytes \<Rightarrow> client \<Rightarrow> crypt_error option \<times> client" where
  "setUDP15Crypto k clientNonce serverNonce c =
    (case setup15 k clientNonce serverNonce newCryptState15 of
       (Some e, _) \<Rightarrow> (Some e, c)
     | (None, outbound) \<Rightarrow>
         (case setup15 k clientNonce serverNonce newCryptState15 of
            (Some e, _) \<Rightarrow> (Some e, c)
          | (None, inbound) \<Rightarrow>
              (None, c\<lparr>c_udpCryptoOut := Some outbound, c_udpCryptoIn := Some inbound, c_udpFrameNumber := 0\<rparr>)))"

definition startUDPIfReady :: "client \<Rightarrow> client" where
  "startUDPIfReady c =
    (if cs_initialized (c_cryptOut c) \<and> c_udpConn c \<and> \<not> c_udpStarted c \<and> c_udpCryptoOut c \<noteq> None
     then c\<lparr>c_udpStarted := True\<rparr> else c)"

definition cryptSetup :: "cryptSetupMsg \<Rightarrow> client \<Rightarrow> outcome" where
  "cryptSetup packet c =
    (case (m_cry_Key packet, m_cry_ClientNonce packet, m_cry_ServerNonce packet) of
       (Some k, Some clientNonce, Some serverNonce) \<Rightarrow>
         let c = c\<lparr>c_cryptOut := snd (setupCrypt k clientNonce (c_cryptOut c)),
                   c_cryptIn := snd (setupCrypt k serverNonce (c_cryptIn c))\<rparr>
         in (case setUDP15Crypto k clientNonce serverNonce c of
               (Some e, c) \<Rightarrow> Err (ErrCrypt e) c
             | (None, c) \<Rightarrow> Ok (startUDPIfReady c))
     | _ \<Rightarrow> Ok (startUDPIfReady c))"

definition handleCryptSetup :: "env \<Rightarrow> bytes \<Rightarrow> client \<Rightarrow> outcome" where
  "handleCryptSetup E buffer = withPacket (unm_CryptSetup (e_unm E) buffer) cryptSetup"

end
