(* ===== verification/AudioDispatch.thy ===== *)
theory AudioDispatch
  imports Messages UdpAudio Varint
begin

text \<open>
  The way of received audio from the packet to the listeners: \<^verbatim>\<open>handleUDPTunnel\<close> and
  \<^verbatim>\<open>dispatchPLC\<close> (\<^verbatim>\<open>gumble/gumble/handlers.go\<close>) for audio in the TCP stream, and
  \<^verbatim>\<open>HandleUDPPacket15\<close>, \<^verbatim>\<open>dispatchOpus15\<close>, \<^verbatim>\<open>handleLegacyUDPVoice\<close>, \<^verbatim>\<open>decodeAndDispatch\<close>,
  \<^verbatim>\<open>dispatchPLC15\<close> (\<^verbatim>\<open>udp15.go\<close>) for native UDP.  A result of \<open>None\<close> is a panic.  Logging is left out.
\<close>

section \<open>A user's decoder\<close>

definition decoderCalls :: "user_ref \<Rightarrow> client \<Rightarrow> decoder" where
  "decoderCalls user c = (case u_decoder (c_user c user) of None \<Rightarrow> [] | Some d \<Rightarrow> d)"

definition decodeCall :: "env \<Rightarrow> user_ref \<Rightarrow> bytes \<Rightarrow> client \<Rightarrow> int16 list option \<times> client" where
  "decodeCall E user data c =
    (let d = Some data # decoderCalls user c in
     (e_opusDecode E d, setUser user (\<lambda>u. u\<lparr>u_decoder := Some d\<rparr>) c))"

definition decoderReset :: "user_ref \<Rightarrow> client \<Rightarrow> client" where
  "decoderReset user c = setUser user (\<lambda>u. u\<lparr>u_decoder := Some (None # decoderCalls user c)\<rparr>) c"

text \<open>The decoder of the user, new if there is none; \<open>None\<close> when no codec is registered.\<close>

definition ensureDecoder :: "user_ref \<Rightarrow> client \<Rightarrow> client option" where
  "ensureDecoder user c =
    (if u_decoder (c_user c user) \<noteq> None then Some c
     else if \<not> c_audioCodec c then None
     else Some (setUser user (\<lambda>u. u\<lparr>u_decoder := Some []\<rparr>) c))"

definition dispatchTo :: "user_ref \<Rightarrow> audioPacket \<Rightarrow> client \<Rightarrow> client option" where
  "dispatchTo user packet c =
    map_option (\<lambda>au. c\<lparr>c_audio := au\<rparr>) (dispatchAudio (cfg_Buffers (c_Config c)) user packet (c_audio c))"

definition audioPacketOf :: "user_ref \<Rightarrow> uint32 \<Rightarrow> int64 \<Rightarrow> int16 list \<Rightarrow> audioPacket" where
  "audioPacketOf user target sequence pcm =
    \<lparr>ap_Sender = user, ap_Target = Some target, ap_Sequence = sequence, ap_AudioBuffer = pcm,
     ap_Terminator = False, ap_Position = None, ap_VolumeAdjustment = 0\<rparr>"

definition terminatorPacket :: "user_ref \<Rightarrow> audioPacket" where
  "terminatorPacket user =
    \<lparr>ap_Sender = user, ap_Target = None, ap_Sequence = 0, ap_AudioBuffer = [], ap_Terminator = True,
     ap_Position = None, ap_VolumeAdjustment = 0\<rparr>"

text \<open>A packet, and with it the end of the talk burst when it is the last one.\<close>

definition deliverFrame :: "(client \<Rightarrow> client option) \<Rightarrow> user_ref \<Rightarrow> audioPacket \<Rightarrow> bool \<Rightarrow> client \<Rightarrow> client option" where
  "deliverFrame endOf user event final c =
    (case dispatchTo user event c of None \<Rightarrow> None | Some c \<Rightarrow> if final then endOf c else Some c)"

fun outcomeOf :: "client option \<Rightarrow> outcome" where
  "outcomeOf None = Panic"
| "outcomeOf (Some c) = Ok c"

section \<open>Audio in the TCP stream\<close>

definition dispatchPLC :: "env \<Rightarrow> user_ref \<Rightarrow> byte \<Rightarrow> client \<Rightarrow> client option" where
  "dispatchPLC E user audioTarget c =
    (case decodeCall E user [] c of
       (None, c) \<Rightarrow> Some (decoderReset user c)
     | (Some pcm, c) \<Rightarrow>
         let seq = u_audioSequence (c_user c user) + 1;
             c = setUser user (\<lambda>u. u\<lparr>u_audioSequence := seq\<rparr>) c
         in dispatchTo user (audioPacketOf user (ucast audioTarget) seq pcm) c)"

text \<open>The reaction to the sequence number of a packet: the second component is true for a duplicate.\<close>

definition tunnelSequence :: "env \<Rightarrow> user_ref \<Rightarrow> byte \<Rightarrow> int64 \<Rightarrow> client \<Rightarrow> (client \<times> bool) option" where
  "tunnelSequence E user audioTarget seq c =
    (if u_audioSequenceValid (c_user c user) then
       let gap = seq - u_audioSequence (c_user c user) in
       if 1 <s gap \<and> gap <s 100 then
         map_option (\<lambda>c. (c, False)) (foldM (\<lambda>_. dispatchPLC E user audioTarget) [1..<nat (sint gap)] c)
       else if gap <s 0 \<and> -100 <s gap then Some (decoderReset user c, False)
       else Some (c, gap = 0)
     else Some (c, False))"

definition endBurst :: "user_ref \<Rightarrow> client \<Rightarrow> client option" where
  "endBurst user c =
    (let c = setUser user (\<lambda>u. u\<lparr>u_audioSequenceValid := False\<rparr>) (decoderReset user c)
     in dispatchTo user (terminatorPacket user) c)"

text \<open>The packet after its session and sequence number, that is from its length on.\<close>

definition tunnelPayload :: "env \<Rightarrow> user_ref \<Rightarrow> byte \<Rightarrow> int64 \<Rightarrow> bytes \<Rightarrow> client \<Rightarrow> outcome" where
  "tunnelPayload E user audioTarget seq buffer c =
    (let (len, n) = Decode buffer in
     if n \<le> 0 then Err ErrInvalidProtobuf c
     else
       let buffer = drop n buffer;
           audioLength = sint (len AND NOT 0x2000);
           isFinal = (len AND 0x2000 \<noteq> 0)
       in if audioLength < 0 \<or> audioLength > int (length buffer) then Err ErrInvalidProtobuf c
          else
            (case decodeCall E user (take (nat audioLength) buffer) c of
               (None, c) \<Rightarrow> Err ErrDecode (decoderReset user c)
             | (Some pcm, c) \<Rightarrow>
                 let event = audioPacketOf user (ucast audioTarget) seq pcm;
                     rest = drop (nat audioLength) buffer;
                     event = (if length rest = 3 * 4
                       then event\<lparr>ap_Position := Some (Uint32LE rest, Uint32LE (drop 4 rest), Uint32LE (drop 8 rest))\<rparr>
                       else event)
                 in outcomeOf (deliverFrame (endBurst user) user event isFinal c)))"

definition tunnelLegacy :: "env \<Rightarrow> byte \<Rightarrow> bytes \<Rightarrow> client \<Rightarrow> outcome" where
  "tunnelLegacy E b0 buffer c =
    (let audioType = drop_bit 5 b0 AND 7;
         audioTarget = b0 AND 0x1F
     in if audioType \<noteq> 4 then Err ErrUnsupportedAudio c
        else
          let (session, n) = Decode buffer in
          if n \<le> 0 then Err ErrInvalidProtobuf c
          else
            let buffer = drop n buffer in
            case map_of (c_Users c) (ucast session) of
              None \<Rightarrow> Err ErrInvalidProtobuf c
            | Some user \<Rightarrow>
                (case ensureDecoder user c of
                   None \<Rightarrow> Err ErrNoCodec c
                 | Some c \<Rightarrow>
                     let (seq, n) = Decode buffer in
                     if n \<le> 0 then Err ErrInvalidProtobuf c
                     else
                       (case tunnelSequence E user audioTarget seq c of
                          None \<Rightarrow> Panic
                        | Some (c, duplicate) \<Rightarrow>
                            if duplicate then Ok c
                            else tunnelPayload E user audioTarget seq (drop n buffer)
                              (setUser user (\<lambda>u. u\<lparr>u_audioSequence := seq, u_audioSequenceValid := True\<rparr>) c))))"

section \<open>Native UDP\<close>

definition missingAudioPackets :: "int64 \<Rightarrow> int64 \<Rightarrow> int64" where
  "missingAudioPackets gap frameStep =
    (if frameStep <s 1 \<or> gap \<le>s frameStep \<or> rem64 gap frameStep \<noteq> 0 then 0
     else quot64 gap frameStep - 1)"

definition audioFrameStep :: "nat \<Rightarrow> int64" where
  "audioFrameStep samples =
    (let frames = goQuot (int samples) AudioChannels;
         step = word_of_int (goQuot frames AudioDefaultFrameSize) :: int64
     in if step <s 1 then 1 else step)"

definition dispatchPLC15 :: "env \<Rightarrow> user_ref \<Rightarrow> int64 \<Rightarrow> client \<Rightarrow> client option" where
  "dispatchPLC15 E user sequence c =
    (case decodeCall E user [] c of
       (None, c) \<Rightarrow> Some (decoderReset user c)
     | (Some pcm, c) \<Rightarrow> dispatchTo user (audioPacketOf user 0 sequence pcm) c)"

definition sequence15 :: "env \<Rightarrow> user_ref \<Rightarrow> int64 \<Rightarrow> client \<Rightarrow> (client \<times> bool) option" where
  "sequence15 E user frameNum c =
    (if u_audioSequenceValid (c_user c user) then
       let seq = u_audioSequence (c_user c user);
           gap = frameNum - seq;
           frameStep = u_audioFrameStep (c_user c user);
           frameStep = (if frameStep <s 1 then 1 else frameStep)
       in if frameStep <s gap \<and> gap <s 100 then
            let missing = missingAudioPackets gap frameStep in
            if 0 <s missing then
              map_option (\<lambda>c. (c, False))
                (foldM (\<lambda>i. dispatchPLC15 E user (seq + of_nat i * frameStep)) [1..<Suc (nat (sint missing))] c)
            else Some (c, False)
          else if gap <s 0 \<and> -100 <s gap then Some (decoderReset user c, False)
          else Some (c, gap = 0)
     else Some (c, False))"

definition endBurst15 :: "user_ref \<Rightarrow> client \<Rightarrow> client option" where
  "endBurst15 user c =
    (let c = setUser user (\<lambda>u. u\<lparr>u_audioSequenceValid := False, u_audioFrameStep := 0\<rparr>) (decoderReset user c)
     in dispatchTo user (terminatorPacket user) c)"

record audioFrame =
  fr_frameNum :: int64
  fr_opusData :: bytes
  fr_terminator :: bool
  fr_context :: uint32
  fr_position :: "(float32 \<times> float32 \<times> float32) option"
  fr_volume :: float32

definition decodeAndDispatch :: "env \<Rightarrow> user_ref \<Rightarrow> audioFrame \<Rightarrow> client \<Rightarrow> client option" where
  "decodeAndDispatch E user frame c =
    (case sequence15 E user (fr_frameNum frame) c of
       None \<Rightarrow> None
     | Some (c, duplicate) \<Rightarrow>
         if duplicate then Some c
         else
           (case decodeCall E user (fr_opusData frame) c of
              (None, c) \<Rightarrow> Some (decoderReset user c)
            | (Some pcm, c) \<Rightarrow>
                let c = setUser user (\<lambda>u. u\<lparr>u_audioSequence := fr_frameNum frame, u_audioSequenceValid := True,
                          u_audioFrameStep := audioFrameStep (length pcm)\<rparr>) c;
                    event = (audioPacketOf user (fr_context frame) (fr_frameNum frame) pcm)
                      \<lparr>ap_VolumeAdjustment := fr_volume frame, ap_Position := fr_position frame\<rparr>
                in deliverFrame (endBurst15 user) user event (fr_terminator frame) c))"

definition dispatchOpus15 :: "env \<Rightarrow> uint32 \<Rightarrow> audioFrame \<Rightarrow> client \<Rightarrow> client option" where
  "dispatchOpus15 E session frame c =
    (if length (fr_opusData frame) = 0 \<and> \<not> fr_terminator frame then Some c
     else case map_of (c_Users c) session of
       None \<Rightarrow> Some c
     | Some user \<Rightarrow>
         (case ensureDecoder user c of
            None \<Rightarrow> Some c
          | Some c \<Rightarrow>
              if fr_terminator frame \<and> length (fr_opusData frame) = 0 then endBurst15 user c
              else if length (fr_opusData frame) = 0 then Some c
              else decodeAndDispatch E user frame c))"

definition frameOf :: "audio_fields \<Rightarrow> audioFrame" where
  "frameOf f = \<lparr>fr_frameNum = af_frameNumber f, fr_opusData = af_opusData f, fr_terminator = af_terminator f,
     fr_context = af_context f, fr_position = af_position f, fr_volume = af_volumeAdjustment f\<rparr>"

text \<open>The slice expression \<^verbatim>\<open>data[pos : pos+audioLen]\<close> panics on a negative length.\<close>

definition handleLegacyUDPVoice :: "env \<Rightarrow> bytes \<Rightarrow> client \<Rightarrow> client option" where
  "handleLegacyUDPVoice E data c =
    (let (session, n) = Decode data in
     if n \<le> 0 then Some c
     else let data = drop n data; (seq, n) = Decode data in
     if n \<le> 0 then Some c
     else let data = drop n data; (len, n) = Decode data in
     if n \<le> 0 then Some c
     else
       let data = drop n data;
           terminator = (len AND 0x2000 \<noteq> 0);
           audioLen = sint (len AND NOT 0x2000)
       in if audioLen > int (length data) then Some c
          else if audioLen < 0 then None
          else dispatchOpus15 E (ucast session)
            \<lparr>fr_frameNum = seq, fr_opusData = take (nat audioLen) data, fr_terminator = terminator,
             fr_context = 0, fr_position = None, fr_volume = 0\<rparr> c)"

text \<open>The part of \<^verbatim>\<open>HandleUDPPacket15\<close> after the decryption.\<close>

definition handlePlaintext15 :: "env \<Rightarrow> bytes \<Rightarrow> client \<Rightarrow> client option" where
  "handlePlaintext15 E plaintext c =
    (let c = c\<lparr>c_udpActive := True\<rparr> in
     case plaintext of
       [] \<Rightarrow> Some c
     | msgType # plaintext \<Rightarrow>
         if msgType = 0x01 then Some c
         else if msgType = 0x00 then
           let f = decodeUDPAudio plaintext in dispatchOpus15 E (af_session f) (frameOf f) c
         else if drop_bit 5 msgType = 4 then handleLegacyUDPVoice E plaintext c
         else Some c)"

definition HandleUDPPacket15 :: "env \<Rightarrow> bytes \<Rightarrow> client \<Rightarrow> client option" where
  "HandleUDPPacket15 E packet c =
    (if length packet < 4 then Some c
     else
       let c = c\<lparr>c_udpFirstRecv := True\<rparr> in
       case c_udpCryptoIn c of
         None \<Rightarrow> Some c
       | Some cs \<Rightarrow>
           (case decrypt15 packet cs of
              (Inl e, cs) \<Rightarrow> Some (c\<lparr>c_udpCryptoIn := Some cs\<rparr>)
            | (Inr plaintext, cs) \<Rightarrow> handlePlaintext15 E plaintext (c\<lparr>c_udpCryptoIn := Some cs\<rparr>)))"

text \<open>\<^verbatim>\<open>handleUDPTunnel\<close>: the envelope of native UDP, or the legacy format.\<close>

definition handleUDPTunnel :: "env \<Rightarrow> bytes \<Rightarrow> client \<Rightarrow> outcome" where
  "handleUDPTunnel E buffer c =
    (case buffer of
       [] \<Rightarrow> Err ErrInvalidProtobuf c
     | b0 # rest \<Rightarrow>
         if c_udpProtobuf c \<and> b0 = 0x00 then
           let f = decodeUDPAudio rest in
           if af_session f = 0 then Err ErrInvalidProtobuf c
           else outcomeOf (dispatchOpus15 E (af_session f) (frameOf f) c)
         else tunnelLegacy E b0 rest c)"

end
