(* ===== verification/Conn.thy ===== *)
theory Conn
  imports Messages Varint
begin

text \<open>
  The framing of the control connection: \<^verbatim>\<open>gumble/gumble/conn.go\<close>.  The input is the bytes the peer
  sends until the connection ends.  A write gives the chunks handed to the connection in order;
  a chunk is written only when the ones before it were, so a failing connection sends a prefix.
\<close>

section \<open>Header\<close>

definition PutUint16BE :: "uint16 \<Rightarrow> bytes" where
  "PutUint16BE v = [ucast (drop_bit 8 v), ucast v]"

definition Uint16BE :: "bytes \<Rightarrow> uint16" where
  "Uint16BE b = push_bit 8 (ucast (b ! 0)) OR ucast (b ! 1)"

lemma length_PutUint16BE [simp]: "length (PutUint16BE v) = 2"
  by (simp add: PutUint16BE_def)

lemma Uint16BE_Put [simp]: "Uint16BE (PutUint16BE v @ rest) = v"
  unfolding Uint16BE_def PutUint16BE_def
  by (intro bit_word_eqI) (auto simp: bit_simps shift_index max_def)

definition writeHeader :: "uint16 \<Rightarrow> uint32 \<Rightarrow> bytes" where
  "writeHeader pType pLength = PutUint16BE pType @ PutUint32BE pLength"

section \<open>Reading\<close>

definition retainedPacketBytes :: int where
  "retainedPacketBytes = 64 * 1024"

record conn =
  cn_MaximumPacketBytes :: int
  cn_Timeout :: int64
  cn_buffer :: bytes

definition NewConn :: conn where
  "NewConn = \<lparr>cn_MaximumPacketBytes = 1024 * 1024 * 10, cn_Timeout = 1000000000 * 20, cn_buffer = []\<rparr>"

text \<open>The buffer before the body is read into it.\<close>

definition sizeBuffer :: "int \<Rightarrow> bytes \<Rightarrow> bytes" where
  "sizeBuffer pLength buffer =
    (if pLength > int (length buffer) then replicate (nat pLength) 0
     else if int (length buffer) > retainedPacketBytes \<and> pLength \<le> retainedPacketBytes
     then replicate (nat retainedPacketBytes) 0
     else buffer)"

datatype read_error = ReadFailed | PacketTooLarge

definition ReadPacket :: "bytes \<Rightarrow> conn \<Rightarrow> (read_error + uint16 \<times> bytes \<times> bytes) \<times> conn" where
  "ReadPacket input c =
    (if length input < 6 then (Inl ReadFailed, c)
     else
       let header = take 6 input;
           pType = Uint16BE header;
           pLength = uint (Uint32BE (drop 2 header));
           input = drop 6 input
       in if pLength > cn_MaximumPacketBytes c then (Inl PacketTooLarge, c)
          else
            let buffer = sizeBuffer pLength (cn_buffer c);
                n = nat pLength
            in if length input < n then (Inl ReadFailed, c\<lparr>cn_buffer := input @ drop (length input) buffer\<rparr>)
               else
                 let buffer = take n input @ drop n buffer
                 in (Inr (pType, take n buffer, drop n input), c\<lparr>cn_buffer := buffer\<rparr>))"

section \<open>Writing\<close>

definition WritePacket :: "uint16 \<Rightarrow> bytes \<Rightarrow> bytes list" where
  "WritePacket ptype data = [writeHeader ptype (of_nat (length data)), data]"

datatype write_error = VarintOutOfRange | PositionIncomplete | UnknownMessage | MarshalFailed

text \<open>\<^verbatim>\<open>(*Conn).WriteAudio\<close>; the header array has \<^verbatim>\<open>1 + varint.MaxVarintLen*2\<close> bytes.\<close>

definition ConnWriteAudio ::
  "byte \<Rightarrow> byte \<Rightarrow> int64 \<Rightarrow> bool \<Rightarrow> bytes \<Rightarrow> float32 option \<Rightarrow> float32 option \<Rightarrow> float32 option \<Rightarrow> write_error + bytes list" where
  "ConnWriteAudio format target sequence final data X Y Z =
    (let (seqBytes, n) = Encode (replicate (MaxVarintLen * 2) 0) sequence in
     if n = 0 then Inl VarintOutOfRange
     else
       let l = of_nat (length data) :: int64;
           l = (if final then l OR 0x2000 else l);
           (lenBytes, m) = Encode (replicate (MaxVarintLen * 2 - n) 0) l
       in if m = 0 then Inl VarintOutOfRange
          else
            let header = (push_bit 5 format OR target) # take n seqBytes @ take m lenBytes in
            if X \<noteq> None \<or> Y \<noteq> None \<or> Z \<noteq> None then
              (case (X, Y, Z) of
                 (Some x, Some y, Some z) \<Rightarrow>
                   Inr [writeHeader 1 (of_nat (length header + length data + 3 * 4)), header, data,
                        PutUint32LE x, PutUint32LE y, PutUint32LE z]
               | _ \<Rightarrow> Inl PositionIncomplete)
            else Inr [writeHeader 1 (of_nat (length header + length data)), header, data])"

text \<open>The dynamic types of the messages, in the order of \<^verbatim>\<open>WriteProto\<close>'s switch; \<open>OtherMessage\<close> is
  any other type.\<close>

datatype messageKind =
    KVersion | KAuthenticate | KPing | KReject | KServerSync | KChannelRemove | KChannelState
  | KUserRemove | KUserState | KBanList | KTextMessage | KPermissionDenied | KACL | KQueryUsers
  | KCryptSetup | KContextActionModify | KContextAction | KUserList | KVoiceTarget
  | KPermissionQuery | KCodecVersion | KUserStats | KRequestBlob | KServerConfig | KSuggestConfig
  | OtherMessage

fun protoType :: "messageKind \<Rightarrow> uint16 option" where
  "protoType KVersion = Some 0"
| "protoType KAuthenticate = Some 2"
| "protoType KPing = Some 3"
| "protoType KReject = Some 4"
| "protoType KServerSync = Some 5"
| "protoType KChannelRemove = Some 6"
| "protoType KChannelState = Some 7"
| "protoType KUserRemove = Some 8"
| "protoType KUserState = Some 9"
| "protoType KBanList = Some 10"
| "protoType KTextMessage = Some 11"
| "protoType KPermissionDenied = Some 12"
| "protoType KACL = Some 13"
| "protoType KQueryUsers = Some 14"
| "protoType KCryptSetup = Some 15"
| "protoType KContextActionModify = Some 16"
| "protoType KContextAction = Some 17"
| "protoType KUserList = Some 18"
| "protoType KVoiceTarget = Some 19"
| "protoType KPermissionQuery = Some 20"
| "protoType KCodecVersion = Some 21"
| "protoType KUserStats = Some 22"
| "protoType KRequestBlob = Some 23"
| "protoType KServerConfig = Some 24"
| "protoType KSuggestConfig = Some 25"
| "protoType OtherMessage = None"

text \<open>\<open>marshalled\<close> is the result of \<^verbatim>\<open>proto.Marshal(message)\<close>.\<close>

definition WriteProto :: "messageKind \<Rightarrow> bytes option \<Rightarrow> write_error + bytes list" where
  "WriteProto kind marshalled =
    (case protoType kind of
       None \<Rightarrow> Inl UnknownMessage
     | Some t \<Rightarrow> (case marshalled of None \<Rightarrow> Inl MarshalFailed | Some data \<Rightarrow> Inr (WritePacket t data)))"

section \<open>Round trip of the framing\<close>

text \<open>Everything the reader gets from an input: the packets until the first error.\<close>

function ReadPackets :: "bytes \<Rightarrow> conn \<Rightarrow> (uint16 \<times> bytes) list \<times> bytes \<times> conn" where
  "ReadPackets input c =
    (case ReadPacket input c of
       (Inl e, c) \<Rightarrow> ([], input, c)
     | (Inr (t, data, rest), c) \<Rightarrow>
         (case ReadPackets rest c of (ps, left, c) \<Rightarrow> ((t, data) # ps, left, c)))"
  by pat_completeness auto
termination
  by (relation "measure (length \<circ> fst)")
    (auto simp: ReadPacket_def Let_def split: if_splits)

declare ReadPackets.simps [simp del]

lemma sizeBuffer_length: "nat n \<le> length (sizeBuffer n buffer)"
  by (auto simp: sizeBuffer_def)

lemma read_written:
  assumes "int (length data) \<le> cn_MaximumPacketBytes c" and "length data < 2 ^ 32"
  shows "ReadPacket (concat (WritePacket t data) @ rest) c =
    (Inr (t, data, rest), c\<lparr>cn_buffer := data @ drop (length data) (sizeBuffer (int (length data)) (cn_buffer c))\<rparr>)"
proof -
  have len: "uint (of_nat (length data) :: uint32) = int (length data)"
    using assms(2) by (simp add: uint_nat unat_of_nat take_bit_nat_eq_self)
  have hd: "take 6 (concat (WritePacket t data) @ rest) = PutUint16BE t @ PutUint32BE (of_nat (length data))"
    "drop 6 (concat (WritePacket t data) @ rest) = data @ rest"
    by (simp_all add: WritePacket_def writeHeader_def)
  have ty: "Uint16BE (PutUint16BE t @ PutUint32BE n) = t" for n by simp
  have sz: "Uint32BE (drop 2 (PutUint16BE t @ PutUint32BE n)) = n" for n
    using Uint32BE_Put [of n "[]"] by simp
  have l6: "\<not> length (concat (WritePacket t data) @ rest) < 6"
    by (simp add: WritePacket_def writeHeader_def)
  show ?thesis
    unfolding ReadPacket_def Let_def hd ty sz len using l6 assms(1) by simp
qed

lemma framing:
  assumes "\<forall>(t, data) \<in> set ps. length data \<le> 10485760" and "length left < 6"
  shows "\<exists>c. ReadPackets (concat (map (\<lambda>(t, data). concat (WritePacket t data)) ps) @ left) NewConn = (ps, left, c)"
proof -
  have "\<exists>c'. ReadPackets (concat (map (\<lambda>(t, data). concat (WritePacket t data)) ps) @ left) c = (ps, left, c')"
    if "cn_MaximumPacketBytes c = 10485760" for c
    using that assms(1)
  proof (induction ps arbitrary: c)
    case Nil
    then show ?case using assms(2) by (subst ReadPackets.simps) (simp add: ReadPacket_def)
  next
    case (Cons p ps)
    obtain t data where p: "p = (t, data)" by fastforce
    let ?rest = "concat (map (\<lambda>(t, data). concat (WritePacket t data)) ps) @ left"
    obtain c1 where rd: "ReadPacket (concat (WritePacket t data) @ ?rest) c = (Inr (t, data, ?rest), c1)"
      and mx: "cn_MaximumPacketBytes c1 = 10485760"
      using read_written [of data c t ?rest] Cons.prems by (simp add: p)
    obtain c2 where "ReadPackets ?rest c1 = (ps, left, c2)" using Cons.IH [OF mx] Cons.prems(2) by auto
    then show ?case by (subst ReadPackets.simps) (simp add: p rd)
  qed
  then show ?thesis by (simp add: NewConn_def)
qed

text \<open>C24. Reading back any sequence of packets that \<^verbatim>\<open>WritePacket\<close> wrote, each within the size limit, gives
  exactly these packets, and leaves the bytes after them when they are no whole packet.\<close>

theorem framing_roundtrip:
  assumes "\<forall>(t, data) \<in> set ps. length data \<le> 10485760" and "length left < 6"
  shows "\<exists>c. ReadPackets (concat (map (\<lambda>(t, data). concat (WritePacket t data)) ps) @ left) NewConn = (ps, left, c)"
  by (rule framing [OF assms])

theorem framing_roundtrip_witness:
  "\<exists>c. ReadPackets (concat (map (\<lambda>(t, data). concat (WritePacket t data)) [(3, [1, 2]), (1, [])]) @ [9]) NewConn
    = ([(3, [1, 2]), (1, [])], [9], c)"
  by (rule framing_roundtrip) simp_all

text \<open>The read buffer never grows beyond what the packets need: after a packet was read the buffer
  holds at most the larger of the old buffer and the packet, and after a packet of at most 64 KiB it
  holds at most 64 KiB whatever was read before.\<close>

theorem buffer_retention:
  assumes "ReadPacket input c = (Inr (t, data, rest), c')"
  shows "length (cn_buffer c') \<le> max (length (cn_buffer c)) (length data)
    \<and> (length data \<le> 65536 \<longrightarrow> length (cn_buffer c') \<le> 65536) \<and> length data \<le> length (cn_buffer c')"
proof -
  define n where "n = uint (Uint32BE (drop 2 (take 6 input)))"
  have le: "length (take (nat n) xs @ drop (nat n) (sizeBuffer n (cn_buffer c))) = length (sizeBuffer n (cn_buffer c))"
    if "nat n \<le> length xs" for xs using that sizeBuffer_length [of n] by simp
  from assms have d: "length data = nat n" and b: "length (cn_buffer c') = length (sizeBuffer n (cn_buffer c))"
    using sizeBuffer_length [of n "cn_buffer c"]
    unfolding ReadPacket_def Let_def n_def by (auto split: if_splits)
  show ?thesis unfolding d b by (auto simp: sizeBuffer_def retainedPacketBytes_def)
qed

theorem buffer_retention_witness:
  "\<exists>c'. ReadPacket [0, 3, 0, 0, 0, 1, 7] NewConn = (Inr (3, [7], []), c') \<and> length (cn_buffer c') \<le> 65536"
proof -
  obtain c' where r: "ReadPacket [0, 3, 0, 0, 0, 1, 7] NewConn = (Inr (3, [7], []), c')"
    using read_written [of "[7]" NewConn 3 "[]"]
    by (simp add: WritePacket_def writeHeader_def PutUint16BE_def PutUint32BE_def NewConn_def)
  from buffer_retention [OF this] r show ?thesis by simp
qed

end
