(* ===== verification/AudioSend.thy ===== *)
theory AudioSend
  imports AudioDispatch Conn
begin

text \<open>
  Outgoing audio: \<^verbatim>\<open>AudioOutgoing\<close>, \<^verbatim>\<open>WriteAudio\<close> and the stereo encoder switches
  (\<^verbatim>\<open>gumble/gumble/client.go\<close>), \<^verbatim>\<open>writeAudio\<close> (\<^verbatim>\<open>audio.go\<close>), \<^verbatim>\<open>encodeLegacyUDPAudio\<close> and
  \<^verbatim>\<open>WriteAudioUDP15\<close> (\<^verbatim>\<open>udp15.go\<close>), \<^verbatim>\<open>sendUDPPing\<close> (\<^verbatim>\<open>udp.go\<close>).  What leaves the client is a
  list of datagrams and of chunk sequences for the TCP connection; \<open>up\<close> says whether a write to the
  UDP socket succeeds.
\<close>

section \<open>UDP\<close>

datatype wire = Datagram bytes | Stream "bytes list"

datatype send_error = UDPWriteFailed | EncryptFailed crypt_error | StreamFailed write_error | EncodeFailed

definition encodeLegacyUDPAudio ::
  "byte \<Rightarrow> byte \<Rightarrow> int64 \<Rightarrow> bytes \<Rightarrow> bool \<Rightarrow> float32 option \<Rightarrow> float32 option \<Rightarrow> float32 option \<Rightarrow> bytes" where
  "encodeLegacyUDPAudio format target sequence data final X Y Z =
    (let (seqBytes, n) = Encode (replicate (MaxVarintLen * 2) 0) sequence;
         len = of_nat (length data) :: int64;
         len = (if final then len OR 0x2000 else len);
         (lenBytes, m) = Encode (replicate (MaxVarintLen * 2 - n) 0) len
     in (push_bit 5 format OR target) # take n seqBytes @ take m lenBytes @ data
        @ (case (X, Y, Z) of
             (Some x, Some y, Some z) \<Rightarrow> PutUint32LE x @ PutUint32LE y @ PutUint32LE z
           | _ \<Rightarrow> []))"

definition WriteAudioUDP15 ::
  "bool \<Rightarrow> byte \<Rightarrow> uint32 \<Rightarrow> int64 \<Rightarrow> bytes \<Rightarrow> bool \<Rightarrow> float32 option \<Rightarrow> float32 option \<Rightarrow> float32 option
    \<Rightarrow> client \<Rightarrow> bool \<times> send_error option \<times> wire list \<times> client" where
  "WriteAudioUDP15 up format target sequence data final X Y Z c =
    (let cs = c_udpCryptoOut c;
         frameNum = c_udpFrameNumber c;
         c = (if c_udpProtobuf c then c\<lparr>c_udpFrameNumber := frameNum + 1\<rparr> else c)
     in case cs of
          None \<Rightarrow> (False, None, [], c)
        | Some cs \<Rightarrow>
            if \<not> c_udpConn c then (False, None, [], c)
            else
              let payload = (if c_udpProtobuf c then 0x00 # encodeUDPAudio target frameNum data final X Y Z
                    else encodeLegacyUDPAudio format (ucast target) sequence data final X Y Z)
              in (case encrypt15 payload cs of
                    (Inl e, cs) \<Rightarrow> (False, Some (EncryptFailed e), [], c\<lparr>c_udpCryptoOut := Some cs\<rparr>)
                  | (Inr encrypted, cs) \<Rightarrow>
                      let c = c\<lparr>c_udpCryptoOut := Some cs\<rparr> in
                      if up then (True, None, [Datagram encrypted], c)
                      else (False, Some UDPWriteFailed, [], c)))"

text \<open>The ping; \<open>millis\<close> is \<^verbatim>\<open>time.Now().UnixMilli()\<close>.\<close>

definition sendUDPPing :: "bool \<Rightarrow> uint64 \<Rightarrow> client \<Rightarrow> wire list \<times> client" where
  "sendUDPPing up millis c =
    (case c_udpCryptoOut c of
       None \<Rightarrow> ([], c)
     | Some cs \<Rightarrow>
         if \<not> c_udpConn c then ([], c)
         else
           let buf = 0x01 # pbEncodeVarint (pbTag 1 0) @ pbEncodeVarint millis in
           (case encrypt15 buf cs of
              (Inl e, cs) \<Rightarrow> ([], c\<lparr>c_udpCryptoOut := Some cs\<rparr>)
            | (Inr encrypted, cs) \<Rightarrow> (if up then [Datagram encrypted] else [], c\<lparr>c_udpCryptoOut := Some cs\<rparr>)))"

section \<open>WriteAudio\<close>

definition WriteAudio ::
  "bool \<Rightarrow> byte \<Rightarrow> byte \<Rightarrow> int64 \<Rightarrow> bool \<Rightarrow> bytes \<Rightarrow> float32 option \<Rightarrow> float32 option \<Rightarrow> float32 option
    \<Rightarrow> client \<Rightarrow> send_error option \<times> wire list \<times> client" where
  "WriteAudio up format target sequence final data X Y Z c =
    (let (sent, err, out, c) =
           (if cfg_DisableUDP (c_Config c) then (False, None, [], c)
            else WriteAudioUDP15 up format (ucast target) sequence data final X Y Z c)
     in if sent then (err, out, c)
        else
          let c = c\<lparr>c_udpFallbackLogged := True\<rparr> in
          if c_udpProtobuf c then
            (None, out @ [Stream (WritePacket 1 (0x00 # encodeUDPAudio (ucast target) sequence data final X Y Z))], c)
          else
            (case ConnWriteAudio format target sequence final data X Y Z of
               Inl e \<Rightarrow> (Some (StreamFailed e), out, c)
             | Inr chunks \<Rightarrow> (None, out @ [Stream chunks], c)))"

section \<open>Encoding and the outgoing channel\<close>

definition SetStereoEncoder :: "encoder option \<Rightarrow> client \<Rightarrow> client" where
  "SetStereoEncoder e c = c\<lparr>c_AudioEncoderStereo := e\<rparr>"

definition EnableStereoEncoder :: "client \<Rightarrow> client" where
  "EnableStereoEncoder c = c\<lparr>c_useStereoEncoder := True\<rparr>"

definition DisableStereoEncoder :: "client \<Rightarrow> client" where
  "DisableStereoEncoder c =
    c\<lparr>c_useStereoEncoder := False, c_AudioEncoderStereo := map_option ((#) None) (c_AudioEncoderStereo c)\<rparr>"

definition IsStereoEncoderEnabled :: "client \<Rightarrow> bool" where
  "IsStereoEncoderEnabled c = c_useStereoEncoder c"

definition usesStereo :: "client \<Rightarrow> bool" where
  "usesStereo c = (c_useStereoEncoder c \<and> c_AudioEncoderStereo c \<noteq> None)"

definition currentEncoder :: "client \<Rightarrow> encoder option" where
  "currentEncoder c = (if usesStereo c then c_AudioEncoderStereo c else c_AudioEncoder c)"

definition setEncoder :: "encoder \<Rightarrow> client \<Rightarrow> client" where
  "setEncoder e c = (if usesStereo c then c\<lparr>c_AudioEncoderStereo := Some e\<rparr> else c\<lparr>c_AudioEncoder := Some e\<rparr>)"

definition writeAudio :: "env \<Rightarrow> bool \<Rightarrow> int16 list \<Rightarrow> int64 \<Rightarrow> bool \<Rightarrow> client \<Rightarrow> send_error option \<times> wire list \<times> client" where
  "writeAudio E up a seq final c =
    (case currentEncoder c of
       None \<Rightarrow> (None, [], c)
     | Some calls \<Rightarrow>
         let calls = Some (a, cfg_AudioDataBytes (c_Config c)) # calls;
             raw = e_opusEncode E calls;
             calls = (if final then None # calls else calls);
             c = setEncoder calls c;
             targetID = (case c_VoiceTarget c of None \<Rightarrow> 0 | Some t \<Rightarrow> ucast t)
         in (case raw of
               None \<Rightarrow> (Some EncodeFailed, [], c)
             | Some data \<Rightarrow> WriteAudio up 4 targetID seq final data None None None c))"

text \<open>The goroutine of \<^verbatim>\<open>AudioOutgoing\<close>: the \<^verbatim>\<open>writeAudio\<close> calls for the buffers received until the
  channel is closed.  A nil buffer is \<open>None\<close>.\<close>

type_synonym audio_call = "int16 list option \<times> int64 \<times> bool"

definition outgoingStep :: "config \<Rightarrow> int64" where
  "outgoingStep cfg =
    (let frameStep = word_of_int (goQuot (AudioFrameSize cfg) AudioDefaultFrameSize) :: int64
     in if frameStep <s 1 then 1 else frameStep)"

fun outgoing :: "int64 \<Rightarrow> int64 \<Rightarrow> int16 list option \<Rightarrow> int16 list option list \<Rightarrow> audio_call list" where
  "outgoing frameStep seq previous [] = (if previous \<noteq> None then [(previous, seq, True)] else [])"
| "outgoing frameStep seq previous (p # ps) =
    (previous, seq, False) # outgoing frameStep (rem64 (seq + frameStep) 0x7FFFFFFF) p ps"

text \<open>The first receive of a closed, empty channel gives nil.\<close>

definition AudioOutgoing :: "config \<Rightarrow> int16 list option list \<Rightarrow> audio_call list" where
  "AudioOutgoing cfg buffers =
    (case buffers of
       [] \<Rightarrow> outgoing (outgoingStep cfg) 0 None []
     | b # bs \<Rightarrow> outgoing (outgoingStep cfg) 0 b bs)"

section \<open>Sequence numbers of a talk burst\<close>

lemma rem64_step:
  assumes "0 \<le> s" and "s < 0x7FFFFFFF" and "0 < k" and "k \<le> 6"
  shows "rem64 (word_of_int s + word_of_int k) 0x7FFFFFFF = word_of_int ((s + k) mod 0x7FFFFFFF)"
proof -
  have "sint (word_of_int (s + k) :: int64) = s + k"
    using assms by (simp only: signed_of_int len_num1 len_bit0, simp add: signed_take_bit_int_eq_self)
  then have "sint (word_of_int s + word_of_int k :: int64) = s + k" by simp
  moreover have "sint (0x7FFFFFFF :: int64) = 0x7FFFFFFF" by simp
  ultimately show ?thesis using assms by (simp only: rem64_def goRem_nonneg)
qed

lemma outgoing_calls:
  assumes "0 < k" "k \<le> 6" and "0 \<le> s" "s < 0x7FFFFFFF" and "\<forall>b \<in> set (p # ps). b \<noteq> None"
  shows "outgoing (word_of_int k) (word_of_int s) p ps =
    map (\<lambda>i. ((p # ps) ! i, word_of_int ((s + int i * k) mod 0x7FFFFFFF), i = length ps)) [0..<Suc (length ps)]"
  using assms(3-)
proof (induction ps arbitrary: p s)
  case Nil
  then show ?case by (simp del: of_int_numeral)
next
  case (Cons q qs)
  let ?s = "(s + k) mod 0x7FFFFFFF"
  have "outgoing (word_of_int k) (word_of_int s) p (q # qs)
      = (p, word_of_int s, False) # outgoing (word_of_int k) (word_of_int ?s) q qs"
    using rem64_step [of s k] assms Cons.prems by simp
  also have "outgoing (word_of_int k) (word_of_int ?s) q qs =
      map (\<lambda>i. ((q # qs) ! i, word_of_int ((?s + int i * k) mod 0x7FFFFFFF), i = length qs)) [0..<Suc (length qs)]"
    using Cons.prems by (intro Cons.IH) simp_all
  also have "\<dots> = map (\<lambda>i. ((p # q # qs) ! Suc i, word_of_int ((s + int (Suc i) * k) mod 0x7FFFFFFF), Suc i = length (q # qs)))
      [0..<Suc (length qs)]"
    by (intro map_cong refl) (simp add: mod_simps algebra_simps)
  also have "(p, word_of_int s, False) # \<dots> =
      map (\<lambda>i. ((p # q # qs) ! i, word_of_int ((s + int i * k) mod 0x7FFFFFFF), i = length (q # qs))) [0..<Suc (length (q # qs))]"
    using Cons.prems by (subst upt_conv_Cons) (simp_all add: map_Suc_upt [symmetric] del: upt_Suc)
  finally show ?case .
qed

lemma step_values:
  assumes "Validate cfg = None"
  obtains k where "outgoingStep cfg = word_of_int k" "k = AudioFrameSize cfg div 480" "0 < k" "k \<le> 6"
proof -
  have "AudioFrameSize cfg \<in> {480, 960, 1920, 2880}" by (rule valid_frame_sizes [OF assms])
  then show ?thesis
    by (intro that [of "AudioFrameSize cfg div 480"])
      (auto simp: outgoingStep_def audio_constants goQuot_nonneg word_sless_alt)
qed

text \<open>With a valid configuration, the buffers of a talk burst are written in order, the i-th with the
  sequence number i times the frame length in units of 10 ms (modulo 2^31 - 1), and exactly the last
  one with the final flag.\<close>

theorem outgoing_sequence:
  assumes "Validate cfg = None" and "\<forall>b \<in> set buffers. b \<noteq> None"
  shows "AudioOutgoing cfg buffers =
    map (\<lambda>i. (buffers ! i, word_of_int ((int i * (AudioFrameSize cfg div 480)) mod 0x7FFFFFFF), Suc i = length buffers))
      [0..<length buffers]"
proof (cases buffers)
  case Nil
  then show ?thesis by (simp add: AudioOutgoing_def)
next
  case (Cons b bs)
  obtain k where k: "outgoingStep cfg = word_of_int k" "k = AudioFrameSize cfg div 480" "0 < k" "k \<le> 6"
    by (rule step_values [OF assms(1)])
  have "outgoing (word_of_int k) (word_of_int 0) b bs = map (\<lambda>i. ((b # bs) ! i, word_of_int ((0 + int i * k) mod 0x7FFFFFFF),
      i = length bs)) [0..<Suc (length bs)]"
    using assms(2) Cons k by (intro outgoing_calls) auto
  then show ?thesis by (simp add: AudioOutgoing_def Cons k(1) k(2) [symmetric] del: upt_Suc)
qed

theorem outgoing_sequence_witness:
  "AudioOutgoing (NewConfig\<lparr>cfg_AudioInterval := 20000000\<rparr>) [Some [1], Some [2], Some [3]]
    = [(Some [1], 0, False), (Some [2], 2, False), (Some [3], 4, True)]"
proof -
  have "Validate (NewConfig\<lparr>cfg_AudioInterval := 20000000\<rparr>) = None"
    by (simp add: Validate_def NewConfig_def audio_constants MaximumBuffers_def)
  from outgoing_sequence [OF this, of "[Some [1], Some [2], Some [3]]"] show ?thesis
    by (simp add: AudioFrameSize_def audio_constants goQuot_nonneg)
qed

section \<open>Which transport a packet takes\<close>

lemma udp_result:
  assumes "WriteAudioUDP15 up format target sequence data final X Y Z c = (sent, err, out, c')"
  shows "(sent \<longrightarrow> err = None \<and> (\<exists>d. out = [Datagram d])) \<and> (\<not> sent \<longrightarrow> out = [])
    \<and> c_udpProtobuf c' = c_udpProtobuf c \<and> c_Config c' = c_Config c"
  using assms by (auto simp: WriteAudioUDP15_def Let_def split: option.splits sum.splits if_splits prod.splits)


text \<open>Once the keys are set and the socket is open, audio leaves as a datagram although no
  authenticated packet has come back yet (\<^verbatim>\<open>udpActive\<close> is still false).\<close>

theorem udp_used_before_confirmed:
  assumes "\<not> cfg_DisableUDP (c_Config c)" and "c_udpConn c" and "c_udpCryptoOut c = Some cs" and "initialized cs"
    and "\<not> c_udpActive c"
  shows "\<exists>d c'. WriteAudio True format target sequence final data X Y Z c = (None, [Datagram d], c') \<and> \<not> c_udpActive c'"
proof -
  obtain payload where "\<exists>d cs'. encrypt15 payload cs = (Inr d, cs')"
    and p: "payload = (if c_udpProtobuf c then 0x00 # encodeUDPAudio (ucast target) (c_udpFrameNumber c) data final X Y Z
      else encodeLegacyUDPAudio format (ucast (ucast target :: uint32)) sequence data final X Y Z)"
    using assms(4) by (auto simp: encrypt15_def Let_def split: prod.split)
  then obtain d cs' where "encrypt15 payload cs = (Inr d, cs')" by blast
  then show ?thesis
    using assms unfolding WriteAudio_def WriteAudioUDP15_def Let_def p by (cases "c_udpProtobuf c") auto
qed

theorem udp_used_before_confirmed_witness:
  "\<exists>d c'. WriteAudio True 4 0 7 False [1, 2] None None None
     (newClient NewConfig\<lparr>c_udpConn := True, c_udpCryptoOut := Some (newCryptState15\<lparr>initialized := True\<rparr>)\<rparr>)
     = (None, [Datagram d], c') \<and> \<not> c_udpActive c'"
  by (rule udp_used_before_confirmed [where cs = "newCryptState15\<lparr>initialized := True\<rparr>"]) (simp_all add: newClient_def NewConfig_def newCryptState15_def)

text \<open>On native UDP the sequence number of the caller, which counts in 10 ms units, is not used: the
  frame number sent is the counter of packets, which grows by one with each of them.\<close>

theorem udp_frame_numbers_count_packets:
  assumes "c_udpProtobuf c"
  shows "WriteAudioUDP15 up format target sequence data final X Y Z c = WriteAudioUDP15 up format' target sequence' data final X Y Z c
    \<and> c_udpFrameNumber (snd (snd (snd (WriteAudioUDP15 up format target sequence data final X Y Z c)))) = c_udpFrameNumber c + 1"
  using assms by (auto simp: WriteAudioUDP15_def Let_def split: option.split sum.split prod.split)

theorem udp_frame_numbers_count_packets_witness:
  "WriteAudioUDP15 True 4 0 2 [1] False None None None (newClient NewConfig\<lparr>c_udpProtobuf := True\<rparr>)
    = WriteAudioUDP15 True 4 0 90 [1] False None None None (newClient NewConfig\<lparr>c_udpProtobuf := True\<rparr>)"
  using udp_frame_numbers_count_packets [of "newClient NewConfig\<lparr>c_udpProtobuf := True\<rparr>" True 4 0 2 "[1]" False None None None 4 90]
  by simp

end
