(* ===== verification/ClientInv.thy ===== *)
theory ClientInv
  imports UserRoster InfoHandlers AudioDispatch
begin

text \<open>
  The invariant of a connected client and its preservation by the audio path and by the handlers
  of theory \<^verbatim>\<open>InfoHandlers\<close>.
\<close>

section \<open>The invariant\<close>

text \<open>Permissions are known only for registered channels.\<close>

definition permsOk :: "client \<Rightarrow> bool" where
  "permsOk c \<longleftrightarrow> (\<forall>k. map_of (c_permissions c) k \<noteq> None \<longrightarrow> map_of (c_Channels c) k \<noteq> None)"

definition clientOk :: "client \<Rightarrow> bool" where
  "clientOk c = (stateOk c \<and> permsOk c \<and> length (c_tcpPingTimes c) = 12
     \<and> (c_state c = StateConnected \<longrightarrow> \<not> c_connectClosed c))"

lemma clientOk_new: "clientOk (newClient cfg)"
  using stateOk_newClient by (simp add: clientOk_def permsOk_def newClient_def)

text \<open>The fields the invariant reads.\<close>

definition core :: "client \<Rightarrow> _" where
  "core c = (c_Users c, c_user c, c_nextUser c, c_channel c, c_nextChannel c, c_Channels c, c_audio c)"

lemma stateOk_core: "core c' = core c \<Longrightarrow> stateOk c' = stateOk c"
  by (simp add: core_def stateOk_def channelsOk_def rosterOk_def)

lemma clientOk_core:
  assumes "clientOk c" and "core c' = core c" and "c_permissions c' = c_permissions c"
    and "length (c_tcpPingTimes c') = 12" and "c_state c' = c_state c" and "c_connectClosed c' = c_connectClosed c"
  shows "clientOk c'"
proof -
  have "c_Channels c' = c_Channels c" using assms(2) by (simp add: core_def)
  then show ?thesis using assms stateOk_core [OF assms(2)] by (simp add: clientOk_def permsOk_def)
qed

text \<open>A handler that neither panics nor blocks and keeps the invariant, on every branch.\<close>

fun good :: "outcome \<Rightarrow> bool" where
  "good (Ok c) = clientOk c"
| "good (Err e c) = clientOk c"
| "good Panic = False"
| "good Blocked = False"

lemma good_withPacket: "(\<And>p. good (f p c)) \<Longrightarrow> clientOk c \<Longrightarrow> good (withPacket x f c)"
  by (simp add: withPacket_def split: option.split)

lemma clientOk_setUser:
  assumes "clientOk c" and "\<And>u. u_Session (f u) = u_Session u" and "\<And>u. u_Channel (f u) = u_Channel u"
  shows "clientOk (setUser r f c)"
proof -
  have "userFrame c (0, setUser r f c)" using userFrame_set [OF userFrame_refl [of c 0] assms(2,3)] by simp
  note f = userFrame_ok [OF this]
  show ?thesis using assms(1) f by (simp add: clientOk_def permsOk_def setUser_def)
qed

lemma foldM_append: "foldM f (xs @ ys) s = Option.bind (foldM f xs s) (foldM f ys)"
  by (induction xs arbitrary: s) (auto split: option.split)

section \<open>The audio path\<close>

definition okStep :: "client option \<Rightarrow> bool" where
  "okStep x = (\<exists>c. x = Some c \<and> clientOk c)"

lemma okStepI [intro]: "clientOk c \<Longrightarrow> okStep (Some c)"
  by (simp add: okStep_def)

lemma okStep_foldM:
  assumes "\<And>x c. clientOk c \<Longrightarrow> okStep (f x c)" and "clientOk c"
  shows "okStep (foldM f xs c)"
  using assms(2)
proof (induction xs arbitrary: c)
  case (Cons x xs)
  obtain c1 where "f x c = Some c1" "clientOk c1" using assms(1) [OF Cons.prems, of x] by (auto simp: okStep_def)
  then show ?case using Cons.IH by simp
qed auto

lemma foldM_deliver_ok:
  "audioOk s \<Longrightarrow> \<exists>s'. foldM (deliver user packet) ds s = Some s' \<and> audioOk s'"
proof (induction ds arbitrary: s)
  case (Cons d ds)
  obtain s1 where "deliver user packet d s = Some s1" "audioOk s1" using deliver_ok [OF Cons.prems] by blast
  then show ?case using Cons.IH by simp
qed simp

lemma dispatchAudio_ok: "audioOk s \<Longrightarrow> \<exists>s'. dispatchAudio buffers user packet s = Some s' \<and> audioOk s'"
  using collectDeliveries_ok [of s buffers user] foldM_deliver_ok by (auto simp: dispatchAudio_def)

lemma clientOk_audio: "clientOk c \<Longrightarrow> audioOk au \<Longrightarrow> clientOk (c\<lparr>c_audio := au\<rparr>)"
  by (simp add: clientOk_def permsOk_def stateOk_def channelsOk_def rosterOk_def)

lemma dispatchTo_ok:
  assumes "clientOk c"
  shows "okStep (dispatchTo user packet c)"
proof -
  have "audioOk (c_audio c)" using assms by (simp add: clientOk_def stateOk_def)
  then obtain au where "dispatchAudio (cfg_Buffers (c_Config c)) user packet (c_audio c) = Some au" "audioOk au"
    using dispatchAudio_ok by blast
  then show ?thesis using clientOk_audio [OF assms] by (simp add: dispatchTo_def okStep_def)
qed

lemma reset_ok: "clientOk c \<Longrightarrow> clientOk (decoderReset user c)"
  unfolding decoderReset_def by (rule clientOk_setUser) simp_all

lemma decode_ok: "clientOk c \<Longrightarrow> decodeCall E user data c = (r, c') \<Longrightarrow> clientOk c'"
  by (auto simp: decodeCall_def Let_def intro!: clientOk_setUser)

lemma ensureDecoder_ok: "clientOk c \<Longrightarrow> ensureDecoder user c = Some c' \<Longrightarrow> clientOk c'"
  by (auto simp: ensureDecoder_def intro!: clientOk_setUser split: if_splits)

lemma dispatchPLC_ok: "clientOk c \<Longrightarrow> okStep (dispatchPLC E user target c)"
  unfolding dispatchPLC_def Let_def
  by (cases "decodeCall E user [] c") (auto split: option.split intro!: dispatchTo_ok clientOk_setUser reset_ok dest: decode_ok)

lemma dispatchPLC15_ok: "clientOk c \<Longrightarrow> okStep (dispatchPLC15 E user sequence c)"
  unfolding dispatchPLC15_def
  by (cases "decodeCall E user [] c") (auto split: option.split intro!: dispatchTo_ok reset_ok dest: decode_ok)

lemma endBurst_ok: "clientOk c \<Longrightarrow> okStep (endBurst user c)" "clientOk c \<Longrightarrow> okStep (endBurst15 user c)"
  unfolding endBurst_def endBurst15_def Let_def by (intro dispatchTo_ok clientOk_setUser reset_ok; simp)+

definition okPair :: "(client \<times> bool) option \<Rightarrow> bool" where
  "okPair x = (\<exists>c d. x = Some (c, d) \<and> clientOk c)"

lemma okPairI: "clientOk c \<Longrightarrow> okPair (Some (c, d))"
  by (simp add: okPair_def)

lemma okPair_map: "okStep x \<Longrightarrow> okPair (map_option (\<lambda>c. (c, b)) x)"
  by (auto simp: okStep_def okPair_def)

lemma tunnelSequence_ok: "clientOk c \<Longrightarrow> okPair (tunnelSequence E user target seq c)"
  unfolding tunnelSequence_def Let_def
  by (simp add: okPairI okPair_map okStep_foldM dispatchPLC_ok reset_ok del: upt_Suc upt_rec_numeral)

lemma sequence15_ok: "clientOk c \<Longrightarrow> okPair (sequence15 E user n c)"
  unfolding sequence15_def Let_def
  by (simp add: okPairI okPair_map okStep_foldM dispatchPLC15_ok reset_ok del: upt_Suc upt_rec_numeral)

lemma deliverFrame_ok:
  assumes "clientOk c" and "\<And>c. clientOk c \<Longrightarrow> okStep (endOf c)"
  shows "okStep (deliverFrame endOf user event final c)"
  using dispatchTo_ok [OF assms(1), of user event] assms(2) by (auto simp: deliverFrame_def okStep_def)

lemma good_outcomeOf: "okStep x \<Longrightarrow> good (outcomeOf x)"
  by (auto simp: okStep_def)

lemma tunnelPayload_ok:
  assumes "clientOk c"
  shows "good (tunnelPayload E user target seq buffer c)"
proof -
  obtain len n where d: "Decode buffer = (len, n)" by fastforce
  have dec: "good (case decodeCall E user data c of
      (None, c) \<Rightarrow> Err ErrDecode (decoderReset user c)
    | (Some pcm, c) \<Rightarrow> outcomeOf (deliverFrame (endBurst user) user (f pcm) final c))" for data f final
    using assms by (cases "decodeCall E user data c")
      (auto split: option.split intro!: reset_ok good_outcomeOf deliverFrame_ok endBurst_ok dest: decode_ok)
  show ?thesis
    unfolding tunnelPayload_def d Let_def prod.case
    using assms dec by simp
qed

lemma good_after_sequence:
  assumes "okPair x" and "\<And>c. clientOk c \<Longrightarrow> good (f c)"
  shows "good (case x of None \<Rightarrow> Panic | Some (c, duplicate) \<Rightarrow> if duplicate then Ok c else f c)"
  using assms by (auto simp: okPair_def)

lemma tunnelLegacy_ok:
  assumes "clientOk c"
  shows "good (tunnelLegacy E b0 buffer c)"
proof -
  obtain session n where d: "Decode buffer = (session, n)" by fastforce
  obtain seq n' where d': "Decode (drop n buffer) = (seq, n')" by fastforce
  have tail: "good (case tunnelSequence E user target seq c of
      None \<Rightarrow> Panic
    | Some (c, duplicate) \<Rightarrow> if duplicate then Ok c
        else tunnelPayload E user target seq data
          (setUser user (\<lambda>u. u\<lparr>u_audioSequence := seq, u_audioSequenceValid := True\<rparr>) c))"
    if "clientOk c" for user target c data
    by (rule good_after_sequence [OF tunnelSequence_ok [OF that]]) (auto intro!: tunnelPayload_ok clientOk_setUser)
  have withUser: "good (case ensureDecoder user c of
      None \<Rightarrow> Err ErrNoCodec c
    | Some c \<Rightarrow> if n' \<le> 0 then Err ErrInvalidProtobuf c else (case tunnelSequence E user target seq c of
      None \<Rightarrow> Panic
    | Some (c, duplicate) \<Rightarrow> if duplicate then Ok c
        else tunnelPayload E user target seq data
          (setUser user (\<lambda>u. u\<lparr>u_audioSequence := seq, u_audioSequenceValid := True\<rparr>) c)))" for user target data
  proof (cases "ensureDecoder user c")
    case (Some c1)
    then show ?thesis using tail [OF ensureDecoder_ok [OF assms Some]] ensureDecoder_ok [OF assms Some] by simp
  qed (use assms in simp)
  show ?thesis
    unfolding tunnelLegacy_def d d' Let_def prod.case
    using assms withUser by (cases "map_of (c_Users c) (ucast session)") simp_all
qed

lemma decodeAndDispatch_ok:
  assumes "clientOk c"
  shows "okStep (decodeAndDispatch E user frame c)"
proof -
  have dec: "okStep (case decodeCall E user data c of
      (None, c) \<Rightarrow> Some (decoderReset user c)
    | (Some pcm, c) \<Rightarrow> deliverFrame (endBurst15 user) user (f pcm) final
        (setUser user (\<lambda>u. u\<lparr>u_audioSequence := n, u_audioSequenceValid := True, u_audioFrameStep := g pcm\<rparr>) c))"
    if "clientOk c" for data f g n final c
    using that by (cases "decodeCall E user data c")
      (auto split: option.split intro!: reset_ok deliverFrame_ok endBurst_ok clientOk_setUser dest: decode_ok)
  obtain c1 d where s: "sequence15 E user (fr_frameNum frame) c = Some (c1, d)" "clientOk c1"
    using sequence15_ok [OF assms, of E user "fr_frameNum frame"] by (auto simp: okPair_def)
  show ?thesis
    unfolding decodeAndDispatch_def s(1) Let_def option.case prod.case
    using s(2) dec by auto
qed

lemma dispatchOpus15_ok: "clientOk c \<Longrightarrow> okStep (dispatchOpus15 E session frame c)"
  unfolding dispatchOpus15_def
  by (auto split: option.split intro!: decodeAndDispatch_ok endBurst_ok dest: ensureDecoder_ok)

lemma handleUDPTunnel_ok: "clientOk c \<Longrightarrow> good (handleUDPTunnel E buffer c)"
  unfolding handleUDPTunnel_def Let_def
  by (auto split: list.split intro!: tunnelLegacy_ok good_outcomeOf dispatchOpus15_ok)

section \<open>The information handlers\<close>

lemma core_emit [simp]: "core (emit e c) = core c"
  by (simp add: core_def emit_def)

lemma emit_rest [simp]:
  "c_permissions (emit e c) = c_permissions c" "c_tcpPingTimes (emit e c) = c_tcpPingTimes c"
  "c_state (emit e c) = c_state c" "c_connectClosed (emit e c) = c_connectClosed c"
  "c_tcpPacketsReceived (emit e c) = c_tcpPacketsReceived c" "c_connect (emit e c) = c_connect c"
  "c_ContextActions (emit e c) = c_ContextActions c" "c_events (emit e c) = c_events c @ [e]"
  by (simp_all add: emit_def)

lemma clientOk_len: "clientOk c \<Longrightarrow> length (c_tcpPingTimes c) = 12"
  by (simp add: clientOk_def)

text \<open>A change of other fields keeps the invariant.\<close>

lemma clientOk_same:
  "clientOk c \<Longrightarrow> core c' = core c \<Longrightarrow> c_permissions c' = c_permissions c \<Longrightarrow> c_tcpPingTimes c' = c_tcpPingTimes c
    \<Longrightarrow> c_state c' = c_state c \<Longrightarrow> c_connectClosed c' = c_connectClosed c \<Longrightarrow> clientOk c'"
  by (rule clientOk_core) (simp_all add: clientOk_len)

lemma version_ok: "clientOk c \<Longrightarrow> good (versionMessage packet c)"
  by (cases "m_ver_VersionV1 packet") (auto simp: versionMessage_def core_def intro: clientOk_same)

lemma length_shiftTimes: "ts \<noteq> [] \<Longrightarrow> length (shiftTimes ts) = length ts"
  by (cases ts) (simp_all add: shiftTimes_def)

lemma ping_ok:
  assumes "clientOk c"
  shows "good (pingMessage E packet c) \<or> pingMessage E packet c = Panic \<and> c_tcpPacketsReceived c = 0xFFFFFFFF"
proof (cases "m_ping_Timestamp packet")
  case None
  have "clientOk (c\<lparr>c_tcpPacketsReceived := c_tcpPacketsReceived c + 1\<rparr>)"
    by (rule clientOk_same [OF assms]) (simp_all add: core_def)
  then show ?thesis using None by (simp add: pingMessage_def)
next
  case (Some ts)
  let ?n = "c_tcpPacketsReceived c + 1"
  have len: "length (c_tcpPingTimes c) = 12" by (rule clientOk_len [OF assms])
  then have len': "length (shiftTimes (c_tcpPingTimes c)) = 12" using length_shiftTimes [of "c_tcpPingTimes c"] by (cases "c_tcpPingTimes c = []") simp_all
  have ok: "clientOk (c\<lparr>c_tcpPacketsReceived := ?n, c_tcpPingTimes := times, c_tcpPingAvg := avg, c_tcpPingVar := var\<rparr>)"
    if "length times = 12" for times avg var
    by (rule clientOk_core [OF assms]) (simp_all add: core_def that)
  show ?thesis
  proof (cases "?n = 0")
    case True
    then have wrap: "c_tcpPacketsReceived c = 0xFFFFFFFF" by (simp add: eq_neg_iff_add_eq_0 [symmetric])
    have "pingMessage E packet c = Panic" using True len by (simp add: pingMessage_def Some Let_def)
    then show ?thesis using wrap by simp
  next
    case False
    then have pos: "1 \<le> uint ?n" using uint_ge_0 [of ?n] by (metis int_one_le_iff_zero_less order_le_less uint_0_iff)
    show ?thesis
      using ok len len' pos by (cases "uint ?n - 1 \<ge> 12") (simp_all add: pingMessage_def Some Let_def)
  qed
qed

lemma reject_ok:
  assumes "clientOk c"
  shows "good (rejectMessage packet c) \<or> rejectMessage packet c = Blocked \<and> c_connect c \<noteq> []"
proof -
  have "clientOk (c\<lparr>c_connect := x, c_connClosed := True\<rparr>)" for x
    by (rule clientOk_same [OF assms]) (simp_all add: core_def)
  moreover have "c_state c = StateConnected \<Longrightarrow> \<not> c_connectClosed c" using assms by (simp add: clientOk_def)
  ultimately show ?thesis using assms by (simp add: rejectMessage_def Let_def)
qed

lemma serverSync_ok:
  assumes "clientOk c"
  shows "good (serverSync packet c) \<or> serverSync packet c = Panic \<and> c_connectClosed c"
proof -
  let ?c1 = "whenSome (m_ss_Session packet) (\<lambda>s c. c\<lparr>c_Self := map_of (c_Users c) s\<rparr>) c"
  have f: "core ?c1 = core c" "c_permissions ?c1 = c_permissions c" "c_tcpPingTimes ?c1 = c_tcpPingTimes c"
    "c_connectClosed ?c1 = c_connectClosed c"
    by (cases "m_ss_Session packet"; simp add: core_def)+
  have chan: "c_Channels ?c1 = c_Channels c" using f(1) by (simp add: core_def)
  have core': "core (emit e (?c1\<lparr>c_state := StateSynced\<rparr>)\<lparr>c_connectClosed := True\<rparr>) = core c" for e
    using f(1) by (simp add: core_def emit_def)
  have "clientOk (emit e (?c1\<lparr>c_state := StateSynced\<rparr>)\<lparr>c_connectClosed := True\<rparr>)" for e
    using assms stateOk_core [OF core'] f chan by (simp add: clientOk_def permsOk_def emit_def)
  then show ?thesis using f(4) by (simp add: serverSync_def Let_def)
qed

lemma emit_ok: "clientOk c \<Longrightarrow> clientOk (emit e c)"
  by (rule clientOk_same) simp_all

lemma permissionDenied_ok: "clientOk c \<Longrightarrow> good (permissionDenied packet c)"
  by (auto simp: permissionDenied_def Let_def intro: emit_ok split: option.split)

lemma acl_ok: "clientOk c \<Longrightarrow> good (aclMessage packet c)"
  by (auto simp: aclMessage_def core_def intro: clientOk_same split: option.split)

lemma queryUsers_ok: "clientOk c \<Longrightarrow> good (queryUsers packet c)"
  by (auto simp: queryUsers_def Let_def core_def intro!: emit_ok elim: clientOk_same split: option.split)

lemma contextAction_ok: "clientOk c \<Longrightarrow> good (contextActionModify packet c)"
  by (auto simp: contextActionModify_def Let_def core_def intro!: emit_ok elim: clientOk_same split: option.split)

lemma userList_ok: "clientOk c \<Longrightarrow> good (userList E users c)"
  by (auto simp: userList_def intro!: emit_ok split: option.split)

lemma emits_ok: "clientOk c \<Longrightarrow> clientOk (fold (\<lambda>x. emit (f x)) xs c)"
  by (induction xs arbitrary: c) (auto intro: emit_ok)

lemma clientOk_permissions:
  assumes "clientOk c" and "\<And>k. map_of P k \<noteq> None \<Longrightarrow> map_of (c_Channels c) k \<noteq> None"
  shows "clientOk (c\<lparr>c_permissions := P\<rparr>)"
proof -
  have "stateOk (c\<lparr>c_permissions := P\<rparr>) = stateOk c" by (rule stateOk_core) (simp add: core_def)
  then show ?thesis using assms by (simp add: clientOk_def permsOk_def)
qed

lemma permissionQuery_ok:
  assumes "clientOk c"
  shows "good (permissionQuery packet c)"
proof -
  have perms: "map_of (c_permissions c) k \<noteq> None \<Longrightarrow> map_of (c_Channels c) k \<noteq> None" for k
    using assms by (simp add: clientOk_def permsOk_def)
  have chid: "map_of (c_Channels c) x = Some r \<Longrightarrow> ch_ID (c_channel c r) = x" for x r
    using assms chansOkD(2) [of "c_channel c" "c_nextChannel c" "map_of (c_Channels c)" x r]
    by (simp add: clientOk_def stateOk_def channelsOk_def)
  let ?P = "if isTrue (m_pq_Flush packet) then [] else c_permissions c"
  have flush: "clientOk (c\<lparr>c_permissions := ?P\<rparr>)"
    by (rule clientOk_permissions [OF assms]) (use perms in \<open>simp split: if_splits\<close>)
  have single: "clientOk (c\<lparr>c_permissions := AList.update (ch_ID (c_channel c r)) p ?P\<rparr>)"
    if "map_of (c_Channels c) x = Some r" for x r p
    by (rule clientOk_permissions [OF assms])
      (use perms that chid [OF that] in \<open>auto simp: update_conv' split: if_splits\<close>)
  show ?thesis
    using assms flush single unfolding permissionQuery_def Let_def
    by (auto split: option.split intro!: emits_ok emit_ok)
qed

lemma codecVersion_ok: "clientOk c \<Longrightarrow> good (codecVersion E packet c)"
  by (auto simp: codecVersion_def Let_def core_def intro!: emit_ok elim: clientOk_same)

lemma crypt_ok:
  assumes "clientOk c"
  shows "good (cryptSetup packet c)"
proof -
  have start: "clientOk c \<Longrightarrow> clientOk (startUDPIfReady c)" for c
    by (auto simp: startUDPIfReady_def core_def elim: clientOk_same)
  have keys: "clientOk (c\<lparr>c_cryptOut := a, c_cryptIn := b\<rparr>)" for a b
    by (rule clientOk_same [OF assms]) (simp_all add: core_def)
  have set: "clientOk c \<Longrightarrow> setUDP15Crypto k cn sn c = (r, c') \<Longrightarrow> clientOk c'" for k cn sn c r c'
    by (auto simp: setUDP15Crypto_def core_def elim: clientOk_same split: prod.splits option.splits)
  show ?thesis
    unfolding cryptSetup_def Let_def
    by (auto split: option.split prod.split intro!: start assms dest: set [OF keys])
qed

end
