(* ===== verification/Session.thy ===== *)
theory Session
  imports ClientInv AudioSend
begin

text \<open>
  A whole session: the table \<^verbatim>\<open>handlers\<close> (\<^verbatim>\<open>gumble/gumble/handlers.go\<close>) and \<^verbatim>\<open>readRoutine\<close> and
  \<^verbatim>\<open>Disconnect\<close> (\<^verbatim>\<open>client.go\<close>), with the datagrams that arrive between the packets of the TCP
  stream.  Each handler and each datagram is one step.
\<close>

section \<open>The table of handlers\<close>

definition handlers :: "env \<Rightarrow> (bytes \<Rightarrow> client \<Rightarrow> outcome) list" where
  "handlers E = [
     handleVersion E,
     handleUDPTunnel E,
     handleUnimplemented E,
     handlePing E,
     handleReject E,
     handleServerSync E,
     handleChannelRemove E,
     handleChannelState E,
     handleUserRemove E,
     handleUserState E,
     handleBanList E,
     handleTextMessage E,
     handlePermissionDenied E,
     handleACL E,
     handleQueryUsers E,
     handleCryptSetup E,
     handleContextActionModify E,
     handleUnimplemented E,
     handleUserList E,
     handleUnimplemented E,
     handlePermissionQuery E,
     handleCodecVersion E,
     handleUserStats E,
     handleUnimplemented E,
     handleServerConfig E,
     handleSuggestConfig E]"

text \<open>One packet in \<^verbatim>\<open>readRoutine\<close>: tunnelled audio is ignored while UDP is active, an unknown type is
  ignored, and the error of a handler is dropped.\<close>

definition readPacket :: "env \<Rightarrow> uint16 \<Rightarrow> bytes \<Rightarrow> client \<Rightarrow> outcome" where
  "readPacket E pType data c =
    (if pType = 1 \<and> c_udpActive c then Ok c
     else if unat pType < length (handlers E) then
       (case (handlers E ! unat pType) data c of Err e c \<Rightarrow> Ok c | r \<Rightarrow> r)
     else Ok c)"

text \<open>The end of \<^verbatim>\<open>readRoutine\<close>.\<close>

definition closeSession :: "client \<Rightarrow> client" where
  "closeSession c =
    (let wasSynced = (c_state c = StateSynced);
         c = c\<lparr>c_state := StateDisconnected, c_endClosed := True, c_udpConn := False, c_udpActive := False\<rparr>
     in if wasSynced then emit (DisconnectEvent (fst (c_disconnectEvent c)) (snd (c_disconnectEvent c))) c else c)"

definition Disconnect :: "client \<Rightarrow> bool \<times> client" where
  "Disconnect c =
    (if c_state c = StateDisconnected then (False, c)
     else (True, c\<lparr>c_disconnectEvent := (DisconnectUser, snd (c_disconnectEvent c)), c_connClosed := True\<rparr>))"

text \<open>The loop of \<^verbatim>\<open>readRoutine\<close> on the bytes that are still to come; a closed connection cannot be read.\<close>

function readLoop :: "env \<Rightarrow> bytes \<Rightarrow> conn \<Rightarrow> client \<Rightarrow> outcome" where
  "readLoop E input cn c =
    (if c_connClosed c then Ok (closeSession c)
     else case ReadPacket input cn of
       (Inl e, cn) \<Rightarrow> Ok (closeSession c)
     | (Inr (pType, data, rest), cn) \<Rightarrow>
         (case readPacket E pType data c of Ok c \<Rightarrow> readLoop E rest cn c | r \<Rightarrow> r))"
  by pat_completeness auto
termination
  by (relation "measure (\<lambda>(E, input, cn, c). length input)")
    (auto simp: ReadPacket_def Let_def split: if_splits)

declare readLoop.simps [simp del]

definition readRoutine :: "env \<Rightarrow> bytes \<Rightarrow> client \<Rightarrow> outcome" where
  "readRoutine E input c = readLoop E input NewConn (c\<lparr>c_disconnectEvent := (DisconnectError, [])\<rparr>)"

section \<open>The roster handlers keep the rest of the invariant\<close>

definition side :: "client \<Rightarrow> (uint32 \<times> permission) list \<times> float32 list \<times> State \<times> bool" where
  "side c = (c_permissions c, c_tcpPingTimes c, c_state c, c_connectClosed c)"

lemma side_simps [simp]:
  "side (setUser r f c) = side c" "side (setChannel ch g c) = side c" "side (setMember ch k u c) = side c"
  "side (delMember ch k c) = side c" "side (leave u k c) = side c" "side (emitIfSynced e c) = side c"
  "side (c\<lparr>c_audio := au\<rparr>) = side c" "side (c\<lparr>c_disconnectEvent := d\<rparr>) = side c" "side (c\<lparr>c_Users := us\<rparr>) = side c"
  by (simp_all add: side_def setUser_def setChannel_def setMember_def delMember_def leave_def emitIfSynced_def emit_def
      split: option.split)

lemma side_user: "side (c0\<lparr>c_user := us\<rparr>) = side c0" "side (c0\<lparr>c_channel := cs\<rparr>) = side c0"
  by (simp_all add: side_def)

lemma side_userFrame:
  assumes "userFrame c0 (ty, c)"
  shows "side c = side c0" "c_Channels c = c_Channels c0"
proof -
  have eq: "c = c0\<lparr>c_user := c_user c\<rparr>" using assms by (simp add: userFrame_def)
  show "side c = side c0" by (subst eq) (rule side_user)
  show "c_Channels c = c_Channels c0" by (subst eq) simp
qed

lemma side_memberFrame:
  assumes "memberFrame c0 (ty, c)"
  shows "side c = side c0" "c_Channels c = c_Channels c0"
proof -
  have eq: "c = c0\<lparr>c_channel := c_channel c\<rparr>" using assms by (simp add: memberFrame_def)
  show "side c = side c0" by (subst eq) (rule side_user)
  show "c_Channels c = c_Channels c0" by (subst eq) simp
qed

lemma side_findOrCreateUser:
  "findOrCreateUser k c = (ty, u, c', rooted) \<Longrightarrow> side c' = side c \<and> c_Channels c' = c_Channels c"
  by (auto simp: findOrCreateUser_def createUser_def Let_def split: option.splits) (simp_all add: side_def setMember_def setUser_def setChannel_def)

lemma moveUser_side:
  "moveUser u k (ty, c) = (found, ty', c') \<Longrightarrow> side c' = side c \<and> c_Channels c' = c_Channels c"
  by (auto simp: moveUser_result Let_def setMember_def setChannel_def setUser_def split: option.splits if_splits) (simp_all add: side_def leave_def delMember_def setChannel_def split: option.split)

definition keepsSide :: "client \<Rightarrow> outcome \<Rightarrow> bool" where
  "keepsSide c r = (\<forall>c'. clientOf r = Some c' \<longrightarrow> side c' = side c \<and> c_Channels c' = c_Channels c)"

lemma keepsSideI:
  "side c' = side c \<Longrightarrow> c_Channels c' = c_Channels c \<Longrightarrow> keepsSide c (Ok c')"
  "side c' = side c \<Longrightarrow> c_Channels c' = c_Channels c \<Longrightarrow> keepsSide c (Err e c')"
  by (simp_all add: keepsSide_def)

lemma userState_side: "keepsSide c (userState packet c)"
proof (cases "m_us_Session packet")
  case None
  then show ?thesis by (simp add: userState_def keepsSide_def)
next
  case (Some k)
  obtain ty u c0 rooted where init: "findOrCreateUser k c = (ty, u, c0, rooted)" by (metis prod_cases4)
  note c0 = side_findOrCreateUser [OF init]
  show ?thesis
  proof (cases "\<not> rooted \<or> findActor (m_us_Actor packet) c0 = None")
    case True
    then show ?thesis using c0 by (auto simp: userState_def Some init keepsSide_def)
  next
    case False
    then obtain actor where actor: "rooted" "findActor (m_us_Actor packet) c0 = Some actor" by auto
    let ?s1 = "whenSome (m_us_UserId packet) (setUserID u)
        (whenSome (m_us_Name packet) (setFlagged u_Name u_Name_update UserChangeName u) (ty, c0))"
    obtain ty1 c1 where s1: "?s1 = (ty1, c1)" by fastforce
    have "userFrame c0 ?s1"
      by (intro userFrame_whenSome userFrame_userID userFrame_flagged userFrame_refl) simp_all
    then have c1: "side c1 = side c0" "c_Channels c1 = c_Channels c0" unfolding s1 by (rule side_userFrame)+
    obtain found ty2 c2 where s2: "(case m_us_ChannelId packet of None \<Rightarrow> (True, ty1, c1)
        | Some channelID \<Rightarrow> moveUser u channelID (ty1, c1)) = (found, ty2, c2)" by (metis prod_cases3)
    have c2: "side c2 = side c1 \<and> c_Channels c2 = c_Channels c1"
      using s2 moveUser_side by (cases "m_us_ChannelId packet") auto
    obtain ty3 c3 where s3: "updateUser packet u (ty2, c2) = (ty3, c3)" by fastforce
    have "userFrame c2 (ty3, c3)" using userFrame_update [OF userFrame_refl, of c2 packet u ty2] s3 by simp
    note c3 = side_userFrame [OF this]
    have "userState packet c = (if \<not> found then Err ErrInvalidProtobuf c2 else Ok (emitIfSynced (UserChangeEvent
        \<lparr>uc_Type = ty3, uc_User = Some u, uc_Actor = actor, uc_String = []\<rparr>) c3))"
      by (simp add: userState_def Some init actor Let_def del: not_None_eq)
        (simp only: s1 s2 s3 prod.case snd_conv split: if_split, simp)
    then show ?thesis using c0 c1 c2 c3 by (simp add: keepsSideI)
  qed
qed

lemma c_Channels_simps [simp]:
  "c_Channels (delMember ch k c) = c_Channels c" "c_Channels (setUser r f c) = c_Channels c"
  "c_Channels (emitIfSynced e c) = c_Channels c"
  by simp_all

lemma userRemove_side: "keepsSide c (userRemove packet c)"
  unfolding userRemove_def Let_def
  by (auto split: option.split intro!: keepsSideI) (simp_all add: keepsSide_def)

lemma clientOk_side:
  assumes "clientOk c" and "stateOk c'" and "side c' = side c"
    and "\<And>k. map_of (c_Channels c) k \<noteq> None \<Longrightarrow> map_of (c_Channels c') k \<noteq> None"
  shows "clientOk c'"
  using assms by (simp add: clientOk_def permsOk_def side_def)

lemma good_clientOf: "good r \<longleftrightarrow> (\<exists>c. clientOf r = Some c \<and> clientOk c)"
  by (cases r) auto

lemma channelState_good:
  assumes "clientOk c"
  shows "good (channelState packet c)"
proof (cases "channelState packet c")
  case (Ok c')
  obtain k where k: "m_cs_ChannelId packet = Some k" using Ok by (auto simp: channelState_def split: option.splits)
  obtain ty r c0 where init: "findOrCreateChannel k c = (ty, r, c0)" by (metis prod_cases3)
  obtain ty' c1 where upd: "updateChannel packet k r (ty, c0) = (ty', c1)" by fastforce
  have c': "c' = emitIfSynced (ChannelChangeEvent \<lparr>cc_Type = ty', cc_Channel = Some r\<rparr>) c1"
    using Ok by (simp add: channelState_def k init upd)
  have "memberFrame c0 (ty', c1)" using memberFrame_update [OF memberFrame_refl, of c0 packet k r ty] upd by simp
  note m = side_memberFrame [OF this]
  have "side c0 = side c \<and> (\<forall>k. map_of (c_Channels c) k \<noteq> None \<longrightarrow> map_of (c_Channels c0) k \<noteq> None)"
    using init by (auto simp: findOrCreateChannel_def createChannel_def Let_def side_def setChannel_def update_conv' split: option.splits)
  moreover have "stateOk c'" using rosterMessage_ok [of c "ChannelStateMsg packet"] assms Ok by (simp add: clientOk_def)
  ultimately have "clientOk c'" by (intro clientOk_side [OF assms]) (simp_all add: c' m)
  then show ?thesis using Ok by simp
qed (use rosterMessage_ok [of c "ChannelStateMsg packet"] channelState_ok [of c packet] assms
    in \<open>auto simp: clientOk_def stateOk_def\<close>)

lemma delLink_side: "side (delLink x k c) = side c" "c_Channels (delLink x k c) = c_Channels c"
  by (simp_all add: delLink_def setChannel_def side_def)

lemma channelRemove_fields:
  assumes "channelRemove packet c = Ok c'"
  obtains k where "c_Channels c' = AList.delete k (c_Channels c)" "c_permissions c' = AList.delete k (c_permissions c)"
    "c_tcpPingTimes c' = c_tcpPingTimes c" "c_state c' = c_state c" "c_connectClosed c' = c_connectClosed c"
proof -
  obtain k r where k: "m_cr_ChannelId packet = Some k" and r: "map_of (c_Channels c) k = Some r"
    using assms by (auto simp: channelRemove_def split: option.splits)
  have f: "side (fold (\<lambda>(_, x). delLink x k) L d) = side d \<and> c_Channels (fold (\<lambda>(_, x). delLink x k) L d) = c_Channels d" for L d
    by (induction L arbitrary: d) (simp_all add: delLink_side split: prod.split)
  define c2 where "c2 = (setChannel r (\<lambda>ch. ch\<lparr>ch_client := False\<rparr>) c)\<lparr>c_Channels := AList.delete k (c_Channels (setChannel r (\<lambda>ch. ch\<lparr>ch_client := False\<rparr>) c)),
    c_permissions := AList.delete k (c_permissions (setChannel r (\<lambda>ch. ch\<lparr>ch_client := False\<rparr>) c))\<rparr>"
  define c3 where "c3 = (case ch_Parent (c_channel c2 r) of None \<Rightarrow> c2 | Some p \<Rightarrow> delChild p (ch_ID (c_channel c2 r)) c2)"
  have "\<exists>e. channelRemove packet c = Ok (emitIfSynced e (fold (\<lambda>(_, link). delLink link k) (ch_Links (c_channel c3 r)) c3))"
    unfolding channelRemove_def k r option.case Let_def c2_def [symmetric] c3_def [symmetric] by (rule exI, rule refl)
  then obtain e where c': "c' = emitIfSynced e (fold (\<lambda>(_, link). delLink link k) (ch_Links (c_channel c3 r)) c3)"
    using assms by auto
  have c3: "side c3 = side c2 \<and> c_Channels c3 = c_Channels c2"
    by (simp add: c3_def delChild_def setChannel_def side_def split: option.split)
  have "side c' = side c2 \<and> c_Channels c' = c_Channels c2" by (simp add: c' f c3)
  then show ?thesis by (intro that [of k]) (simp_all add: c2_def side_def setChannel_def)
qed

lemma channelRemove_good:
  assumes "clientOk c"
  shows "good (channelRemove packet c)"
proof (cases "channelRemove packet c")
  case (Ok c')
  obtain k where f: "c_Channels c' = AList.delete k (c_Channels c)" "c_permissions c' = AList.delete k (c_permissions c)"
    "c_tcpPingTimes c' = c_tcpPingTimes c" "c_state c' = c_state c" "c_connectClosed c' = c_connectClosed c"
    by (rule channelRemove_fields [OF Ok])
  have "stateOk c'" using rosterMessage_ok [of c "ChannelRemoveMsg packet"] assms Ok by (simp add: clientOk_def)
  then have "clientOk c'" using assms f by (simp add: clientOk_def permsOk_def delete_conv')
  then show ?thesis using Ok by simp
qed (use rosterMessage_ok [of c "ChannelRemoveMsg packet"] channelRemove_ok [of c packet] assms
    in \<open>auto simp: clientOk_def stateOk_def\<close>)

lemma good_keepsSide:
  assumes "clientOk c" and "keepsSide c r" and "case r of Ok c' \<Rightarrow> stateOk c' | Err e c' \<Rightarrow> stateOk c' | _ \<Rightarrow> False"
  shows "good r"
  using assms(2,3) clientOk_side [OF assms(1)] by (cases r) (auto simp: keepsSide_def)

lemma userState_good: "clientOk c \<Longrightarrow> good (userState packet c)"
  using userState_ok [of c packet]
  by (intro good_keepsSide [OF _ userState_side]) (auto simp: clientOk_def split: outcome.splits)

lemma userRemove_good: "clientOk c \<Longrightarrow> good (userRemove packet c)"
  using userRemove_ok [of c packet]
  by (intro good_keepsSide [OF _ userRemove_side]) (auto simp: clientOk_def split: outcome.splits)

lemma userStats_good: "clientOk c \<Longrightarrow> good (userStats E packet c)"
  by (auto simp: userStats_def Let_def split: option.split intro!: emit_ok clientOk_setUser)

lemmas info_good = version_ok permissionDenied_ok acl_ok queryUsers_ok contextAction_ok userList_ok permissionQuery_ok
  codecVersion_ok crypt_ok channelState_good channelRemove_good userState_good userRemove_good userStats_good

lemma plain_good:
  "clientOk c \<Longrightarrow> good (textMessageEvent p1 c)" "clientOk c \<Longrightarrow> good (serverConfigEvent b p2 c)"
  "clientOk c \<Longrightarrow> good (suggestConfig p3 c)" "clientOk c \<Longrightarrow> good (Ok (emit e c))"
  "clientOk c \<Longrightarrow> good (handleUnimplemented E b c)"
  by (simp_all add: textMessageEvent_def serverConfigEvent_def suggestConfig_def handleUnimplemented_def emit_ok)

section \<open>Every handler\<close>

text \<open>The three ways a handler can fail to return: a ping when the 32-bit counter of pings wraps around,
  a second server sync, and a second rejection while the first has not been taken.\<close>

definition badPing :: "env \<Rightarrow> nat \<Rightarrow> bytes \<Rightarrow> client \<Rightarrow> bool" where
  "badPing E t data c = (t = 3 \<and> c_tcpPacketsReceived c = 0xFFFFFFFF
     \<and> Option.bind (unm_Ping (e_unm E) data) m_ping_Timestamp \<noteq> None)"

definition secondSync :: "env \<Rightarrow> nat \<Rightarrow> bytes \<Rightarrow> client \<Rightarrow> bool" where
  "secondSync E t data c = (t = 5 \<and> c_connectClosed c \<and> unm_ServerSync (e_unm E) data \<noteq> None)"

definition secondReject :: "env \<Rightarrow> nat \<Rightarrow> bytes \<Rightarrow> client \<Rightarrow> bool" where
  "secondReject E t data c = (t = 4 \<and> c_state c = StateConnected \<and> c_connect c \<noteq> []
     \<and> unm_Reject (e_unm E) data \<noteq> None)"

definition handlerFails :: "env \<Rightarrow> nat \<Rightarrow> bytes \<Rightarrow> client \<Rightarrow> bool" where
  "handlerFails E t data c = (badPing E t data c \<or> secondSync E t data c \<or> secondReject E t data c)"

lemma ping_exact:
  assumes "clientOk c"
  shows "if badPing E 3 data c then handlePing E data c = Panic else good (handlePing E data c)"
proof (cases "unm_Ping (e_unm E) data")
  case None
  then show ?thesis using assms by (simp add: handlePing_def withPacket_def badPing_def)
next
  case (Some p)
  have len: "length (c_tcpPingTimes c) = 12" by (rule clientOk_len [OF assms])
  have panic: "pingMessage E p c = Panic" if "c_tcpPacketsReceived c = 0xFFFFFFFF" "m_ping_Timestamp p \<noteq> None"
    using that len by (auto simp: pingMessage_def Let_def)
  have plain: "good (pingMessage E p c)" if "m_ping_Timestamp p = None"
    using ping_ok [OF assms, of E p] that by (auto simp: pingMessage_def)
  show ?thesis
    using ping_ok [OF assms, of E p] panic plain Some
    by (cases "m_ping_Timestamp p = None") (auto simp: handlePing_def withPacket_def badPing_def)
qed

lemma reject_exact:
  assumes "clientOk c"
  shows "if secondReject E 4 data c then handleReject E data c = Blocked else good (handleReject E data c)"
proof -
  have "c_state c = StateConnected \<Longrightarrow> \<not> c_connectClosed c" using assms by (simp add: clientOk_def)
  moreover have "clientOk (c\<lparr>c_connect := x, c_connClosed := True\<rparr>)" for x
    by (rule clientOk_same [OF assms]) (simp_all add: core_def)
  ultimately show ?thesis
    using assms
    by (auto simp: handleReject_def withPacket_def secondReject_def rejectMessage_def Let_def split: option.splits if_splits)
qed

lemma serverSync_closed: "c_connectClosed c \<Longrightarrow> serverSync packet c = Panic"
  by (cases "m_ss_Session packet") (simp_all add: serverSync_def Let_def)

lemma sync_exact:
  assumes "clientOk c"
  shows "if secondSync E 5 data c then handleServerSync E data c = Panic else good (handleServerSync E data c)"
  using serverSync_ok [OF assms] serverSync_closed [of c] assms
  by (auto simp: handleServerSync_def withPacket_def secondSync_def split: option.splits)

lemma handler_cases:
  assumes "t < length (handlers E)"
  obtains "handlers E ! t = handlePing E" "t = 3" | "handlers E ! t = handleReject E" "t = 4"
    | "handlers E ! t = handleServerSync E" "t = 5"
    | "t \<noteq> 3" "t \<noteq> 4" "t \<noteq> 5" "\<And>data c. clientOk c \<Longrightarrow> good ((handlers E ! t) data c)"
proof -
  have rest: "good ((handlers E ! t) data c)" if ok: "clientOk c" and ne: "t \<noteq> 3" "t \<noteq> 4" "t \<noteq> 5" for data c
  proof -
    have "t < 26" using assms by (simp add: handlers_def)
    then have "t = 0 \<or> t = 1 \<or> t = 2 \<or> t = 6 \<or> t = 7 \<or> t = 8 \<or> t = 9 \<or> t = 10 \<or> t = 11 \<or> t = 12 \<or> t = 13 \<or> t = 14
      \<or> t = 15 \<or> t = 16 \<or> t = 17 \<or> t = 18 \<or> t = 19 \<or> t = 20 \<or> t = 21 \<or> t = 22 \<or> t = 23 \<or> t = 24 \<or> t = 25"
      using ne by presburger
    then show ?thesis
      using ok by (elim disjE;
        simp add: handlers_def handleVersion_def handleUDPTunnel_ok handleChannelRemove_def handleChannelState_def handleUserRemove_def
          handleUserState_def handleBanList_def handleTextMessage_def handlePermissionDenied_def handleACL_def
          handleQueryUsers_def handleCryptSetup_def handleContextActionModify_def handleUserList_def
          handlePermissionQuery_def handleCodecVersion_def handleUserStats_def handleServerConfig_def
          handleSuggestConfig_def good_withPacket info_good plain_good del: good.simps)
  qed
  consider "t = 3" | "t = 4" | "t = 5" | "t \<noteq> 3" "t \<noteq> 4" "t \<noteq> 5" by blast
  then show ?thesis
  proof cases
    case 1 then show ?thesis by (intro that(1)) (simp_all add: handlers_def)
  next
    case 2 then show ?thesis by (intro that(2)) (simp_all add: handlers_def)
  next
    case 3 then show ?thesis by (intro that(3)) (simp_all add: handlers_def)
  next
    case 4 then show ?thesis by (intro that(4) rest)
  qed
qed

lemma handler_exact:
  assumes "clientOk c" and "t < length (handlers E)"
  shows "if handlerFails E t data c then clientOf ((handlers E ! t) data c) = None else good ((handlers E ! t) data c)"
  using assms(2)
proof (cases rule: handler_cases)
  case 1
  then show ?thesis using ping_exact [OF assms(1), of E data]
    by (auto simp: handlerFails_def secondSync_def secondReject_def split: if_splits)
next
  case 2
  then show ?thesis using reject_exact [OF assms(1), of E data]
    by (auto simp: handlerFails_def badPing_def secondSync_def split: if_splits)
next
  case 3
  then show ?thesis using sync_exact [OF assms(1), of E data]
    by (auto simp: handlerFails_def badPing_def secondReject_def split: if_splits)
next
  case 4
  then show ?thesis using assms(1) by (auto simp: handlerFails_def badPing_def secondSync_def secondReject_def)
qed

section \<open>Datagrams\<close>

text \<open>A legacy voice packet whose length is negative.\<close>

definition negativeLegacy :: "bytes \<Rightarrow> bool" where
  "negativeLegacy plaintext =
    (case plaintext of
       [] \<Rightarrow> False
     | msgType # d0 \<Rightarrow>
         let (_, n0) = Decode d0; d1 = drop n0 d0; (_, n1) = Decode d1; d2 = drop n1 d1; (len, n2) = Decode d2
         in drop_bit 5 msgType = 4 \<and> 0 < n0 \<and> 0 < n1 \<and> 0 < n2 \<and> sint (len AND NOT 0x2000) < 0)"

lemma legacy_exact:
  assumes "clientOk c" and "drop_bit 5 b = 4"
  shows "if negativeLegacy (b # data) then handleLegacyUDPVoice E data c = None else okStep (handleLegacyUDPVoice E data c)"
proof -
  obtain s n where d: "Decode data = (s, n)" by fastforce
  obtain q n1 where d1: "Decode (drop n data) = (q, n1)" by fastforce
  obtain len n2 where d2: "Decode (drop n1 (drop n data)) = (len, n2)" by fastforce
  have big: "\<not> sint (len AND NOT 0x2000) > int (length xs)" if "sint (len AND NOT 0x2000) < 0" for xs :: bytes
    using that by (simp add: not_less)
  show ?thesis
    unfolding handleLegacyUDPVoice_def negativeLegacy_def list.case Let_def d d1 d2 prod.case
    using assms big by (simp add: okStepI dispatchOpus15_ok del: drop_drop)
qed

lemma plaintext_exact:
  assumes "clientOk c"
  shows "if negativeLegacy plaintext then handlePlaintext15 E plaintext c = None else okStep (handlePlaintext15 E plaintext c)"
proof -
  have active: "clientOk (c\<lparr>c_udpActive := True\<rparr>)"
    by (rule clientOk_same [OF assms]) (simp_all add: core_def)
  show ?thesis
  proof (cases plaintext)
    case Nil
    then show ?thesis using active by (simp add: handlePlaintext15_def negativeLegacy_def okStepI)
  next
    case (Cons b data)
    show ?thesis
    proof (cases "drop_bit 5 b = 4")
      case True
      then have "b \<noteq> 0" "b \<noteq> 1" by auto
      then show ?thesis using legacy_exact [OF active True, of data E] Cons True by (simp add: handlePlaintext15_def)
    next
      case False
      then show ?thesis
        using active Cons by (auto simp: handlePlaintext15_def negativeLegacy_def Let_def okStepI dispatchOpus15_ok)
    qed
  qed
qed

lemma clientOk_udp: "clientOk c \<Longrightarrow> clientOk (c\<lparr>c_udpFirstRecv := a\<rparr>)" "clientOk c \<Longrightarrow> clientOk (c\<lparr>c_udpCryptoIn := b\<rparr>)"
  "clientOk c \<Longrightarrow> clientOk (c\<lparr>c_udpFirstRecv := a, c_udpCryptoIn := b\<rparr>)"
  by (rule clientOk_same; simp add: core_def)+

text \<open>The plaintext of a datagram, if it is accepted.\<close>

definition acceptedPlaintext :: "bytes \<Rightarrow> client \<Rightarrow> bytes option" where
  "acceptedPlaintext packet c =
    (if length packet < 4 then None
     else Option.bind (c_udpCryptoIn c) (\<lambda>cs. case fst (decrypt15 packet cs) of Inl e \<Rightarrow> None | Inr p \<Rightarrow> Some p))"

definition datagramFails :: "bytes \<Rightarrow> client \<Rightarrow> bool" where
  "datagramFails packet c = (case acceptedPlaintext packet c of None \<Rightarrow> False | Some p \<Rightarrow> negativeLegacy p)"

lemma datagram_exact:
  assumes "clientOk c"
  shows "if datagramFails packet c then HandleUDPPacket15 E packet c = None else okStep (HandleUDPPacket15 E packet c)"
proof (cases "length packet < 4 \<or> c_udpCryptoIn c = None")
  case True
  then show ?thesis
    using assms by (auto simp: HandleUDPPacket15_def datagramFails_def acceptedPlaintext_def Let_def intro!: okStepI clientOk_udp)
next
  case False
  then obtain cs where cs: "c_udpCryptoIn c = Some cs" and long: "\<not> length packet < 4" by auto
  obtain r cs' where dec: "decrypt15 packet cs = (r, cs')" by fastforce
  let ?c = "c\<lparr>c_udpFirstRecv := True, c_udpCryptoIn := Some cs'\<rparr>"
  have ok: "clientOk ?c" by (rule clientOk_udp [OF assms])
  show ?thesis
  proof (cases r)
    case (Inl e)
    then show ?thesis using ok long by (simp add: HandleUDPPacket15_def datagramFails_def acceptedPlaintext_def cs dec okStepI)
  next
    case (Inr p)
    have "HandleUDPPacket15 E packet c = handlePlaintext15 E p ?c"
      using long by (simp add: HandleUDPPacket15_def cs dec Inr)
    moreover have "datagramFails packet c = negativeLegacy p"
      using long by (simp add: datagramFails_def acceptedPlaintext_def cs dec Inr)
    ultimately show ?thesis using plaintext_exact [OF ok, of p E] by simp
  qed
qed

section \<open>Every session\<close>

datatype sessionEvent = TcpPacket uint16 bytes | UdpPacket bytes

fun sessionStep :: "env \<Rightarrow> sessionEvent \<Rightarrow> client \<Rightarrow> client option" where
  "sessionStep E (TcpPacket t data) c = clientOf (readPacket E t data c)"
| "sessionStep E (UdpPacket packet) c = HandleUDPPacket15 E packet c"

fun stepFails :: "env \<Rightarrow> sessionEvent \<Rightarrow> client \<Rightarrow> bool" where
  "stepFails E (TcpPacket t data) c = handlerFails E (unat t) data c"
| "stepFails E (UdpPacket packet) c = datagramFails packet c"

lemma step_exact:
  assumes "clientOk c"
  shows "if stepFails E e c then sessionStep E e c = None else okStep (sessionStep E e c)"
proof (cases e)
  case (TcpPacket t data)
  show ?thesis
  proof (cases "t = 1 \<and> c_udpActive c \<or> \<not> unat t < length (handlers E)")
    case True
    then have "\<not> handlerFails E (unat t) data c"
      by (auto simp: handlerFails_def badPing_def secondSync_def secondReject_def handlers_def)
    then show ?thesis using True assms by (auto simp: TcpPacket readPacket_def okStepI)
  next
    case False
    then show ?thesis
      using handler_exact [OF assms, of "unat t" E data]
      by (cases "(handlers E ! unat t) data c") (auto simp: TcpPacket readPacket_def okStep_def split: if_splits)
  qed
next
  case (UdpPacket packet)
  then show ?thesis using datagram_exact [OF assms, of packet E] by simp
qed

lemma session_exact:
  assumes "clientOk c"
  shows "(\<exists>c'. foldM (sessionStep E) events c = Some c' \<and> clientOk c') \<or>
    (foldM (sessionStep E) events c = None \<and> (\<exists>pre e post c'. events = pre @ e # post
      \<and> foldM (sessionStep E) pre c = Some c' \<and> clientOk c' \<and> stepFails E e c'))"
  using assms
proof (induction events arbitrary: c)
  case (Cons e events)
  show ?case
  proof (cases "stepFails E e c")
    case True
    then have "foldM (sessionStep E) (e # events) c = None" using step_exact [OF Cons.prems, of E e] by simp
    moreover have "e # events = [] @ e # events \<and> foldM (sessionStep E) [] c = Some c" by simp
    ultimately show ?thesis using Cons.prems True by blast
  next
    case False
    then obtain c1 where c1: "sessionStep E e c = Some c1" "clientOk c1"
      using step_exact [OF Cons.prems, of E e] by (auto simp: okStep_def)
    from Cons.IH [OF c1(2)] show ?thesis
    proof
      assume "foldM (sessionStep E) events c1 = None \<and> (\<exists>pre e post c'. events = pre @ e # post
        \<and> foldM (sessionStep E) pre c1 = Some c' \<and> clientOk c' \<and> stepFails E e c')"
      then obtain pre e' post c' where *: "foldM (sessionStep E) events c1 = None" "events = pre @ e' # post"
        "foldM (sessionStep E) pre c1 = Some c'" "clientOk c'" "stepFails E e' c'" by blast
      then have "e # events = (e # pre) @ e' # post \<and> foldM (sessionStep E) (e # pre) c = Some c'" using c1(1) by simp
      then show ?thesis using * c1(1) by (metis foldM.simps(2) option.simps(5))
    qed (simp add: c1(1))
  qed
qed simp

text \<open>C1. Whatever packets and datagrams a client gets, in whatever order and with whatever content, it
  handles them all without panic or deadlock and keeps its invariant (channel graph, roster, audio
  streams, permissions of registered channels only), except exactly when it meets a second server
  sync, a second rejection that nobody waits for, the ping that wraps the 32-bit ping counter, or an
  authenticated legacy voice datagram with a negative length.\<close>

theorem session_safety:
  "case foldM (sessionStep E) events (newClient cfg) of
     Some c \<Rightarrow> clientOk c
   | None \<Rightarrow> \<exists>pre e post c. events = pre @ e # post \<and> foldM (sessionStep E) pre (newClient cfg) = Some c
       \<and> clientOk c \<and> stepFails E e c \<and> sessionStep E e c = None"
proof (cases "foldM (sessionStep E) events (newClient cfg)")
  case None
  then obtain pre e post c where "events = pre @ e # post" "foldM (sessionStep E) pre (newClient cfg) = Some c"
    "clientOk c" "stepFails E e c"
    using session_exact [OF clientOk_new, of E events cfg] by auto
  then show ?thesis using None step_exact [of c E e] by auto
next
  case (Some c)
  then show ?thesis using session_exact [OF clientOk_new, of E events cfg] by auto
qed

section \<open>The read loop\<close>

text \<open>What \<^verbatim>\<open>readRoutine\<close> is to do with a list of packets.\<close>

fun runPackets :: "env \<Rightarrow> (uint16 \<times> bytes) list \<Rightarrow> client \<Rightarrow> outcome" where
  "runPackets E [] c = Ok (closeSession c)"
| "runPackets E ((pType, data) # ps) c =
    (if c_connClosed c then Ok (closeSession c)
     else case readPacket E pType data c of Ok c \<Rightarrow> runPackets E ps c | r \<Rightarrow> r)"

lemma readLoop_run: "readLoop E input cn c = runPackets E (fst (ReadPackets input cn)) c"
proof (induction E input cn c rule: readLoop.induct)
  case (1 E input cn c)
  show ?case
  proof (cases "ReadPacket input cn")
    case (Pair r cn')
    show ?thesis
    proof (cases r)
      case (Inl e)
      then show ?thesis by (subst readLoop.simps, subst ReadPackets.simps) (simp add: Pair)
    next
      case (Inr x)
      obtain t data rest where x: "x = (t, data, rest)" by (metis prod_cases3)
      have rp: "fst (ReadPackets input cn) = (t, data) # fst (ReadPackets rest cn')"
        by (subst ReadPackets.simps) (simp add: Pair Inr x split: prod.split)
      have "readLoop E rest cn' c1 = runPackets E (fst (ReadPackets rest cn')) c1"
        if "\<not> c_connClosed c" "readPacket E t data c = Ok c1" for c1
        using "1.IH" [OF that(1) Pair [symmetric] Inr x [symmetric] refl that(2)] .
      then show ?thesis
        by (subst readLoop.simps) (auto simp: rp Pair Inr x split: outcome.split)
    qed
  qed
qed

text \<open>C2. The read loop refines the handling of the packets one by one: given the bytes of any sequence of
  packets, followed by an incomplete one, it handles exactly these packets in order, until the
  connection is closed from this side, and then closes the session.\<close>

theorem session_of_packets:
  assumes "\<forall>(t, data) \<in> set ps. length data \<le> 10485760" and "length left < 6"
  shows "readRoutine E (concat (map (\<lambda>(t, data). concat (WritePacket t data)) ps) @ left) c =
    runPackets E ps (c\<lparr>c_disconnectEvent := (DisconnectError, [])\<rparr>)"
proof -
  obtain cn where "ReadPackets (concat (map (\<lambda>(t, data). concat (WritePacket t data)) ps) @ left) NewConn = (ps, left, cn)"
    using framing [OF assms] by blast
  then show ?thesis by (simp add: readRoutine_def readLoop_run)
qed

theorem session_of_packets_witness:
  "readRoutine nullEnv (concat (map (\<lambda>(t, data). concat (WritePacket t data)) [(2, [7]), (99, [])]) @ [1]) (newClient NewConfig) =
    Ok (closeSession (newClient NewConfig\<lparr>c_disconnectEvent := (DisconnectError, [])\<rparr>))"
  using session_of_packets [of "[(2, [7]), (99, [])]" "[1]" nullEnv "newClient NewConfig"]
  by (simp add: newClient_def readPacket_def handlers_def handleUnimplemented_def)

lemma runPackets_closed:
  "runPackets E ps c = Ok c' \<Longrightarrow> \<exists>c1. c' = closeSession c1"
  "runPackets E ps c \<noteq> Err e c'"
  by (induction E ps c rule: runPackets.induct)
    (auto simp: readPacket_def split: if_splits outcome.splits)

text \<open>C35. Every session ends: whatever bytes arrive, the read loop terminates, and unless a handler crashed
  it leaves the client disconnected, with the UDP socket given up and the ping routines told to
  stop, and a client that was synced has got its disconnect event as the last one.\<close>

theorem session_ends:
  "case readRoutine E input c of
     Ok c' \<Rightarrow> c_state c' = StateDisconnected \<and> c_endClosed c' \<and> \<not> c_udpConn c' \<and> \<not> c_udpActive c'
       \<and> (\<exists>c1. c' = closeSession c1 \<and> (if c_state c1 = StateSynced
            then c_events c' = c_events c1 @ [DisconnectEvent (fst (c_disconnectEvent c1)) (snd (c_disconnectEvent c1))]
            else c_events c' = c_events c1))
   | Err e c' \<Rightarrow> False
   | Panic \<Rightarrow> True
   | Blocked \<Rightarrow> True"
proof (cases "readRoutine E input c")
  case (Ok c')
  then obtain c1 where "c' = closeSession c1" using runPackets_closed(1) unfolding readRoutine_def readLoop_run by blast
  moreover have "c_state (closeSession c1) = StateDisconnected \<and> c_endClosed (closeSession c1)
      \<and> \<not> c_udpConn (closeSession c1) \<and> \<not> c_udpActive (closeSession c1)"
    by (simp add: closeSession_def Let_def emit_def)
  moreover have "if c_state c1 = StateSynced
      then c_events (closeSession c1) = c_events c1 @ [DisconnectEvent (fst (c_disconnectEvent c1)) (snd (c_disconnectEvent c1))]
      else c_events (closeSession c1) = c_events c1"
    by (simp add: closeSession_def Let_def emit_def)
  ultimately show ?thesis using Ok by auto
qed (use runPackets_closed(2) in \<open>auto simp: readRoutine_def readLoop_run\<close>)

section \<open>The crashes\<close>

text \<open>A second \<^verbatim>\<open>ServerSync\<close> message closes a closed channel: the client panics.\<close>

theorem second_server_sync_panics:
  "\<exists>c. serverSync p (newClient cfg) = Ok c \<and> c_state c = StateSynced \<and> serverSync q c = Panic"
proof -
  obtain c where c: "serverSync p (newClient cfg) = Ok c" "c_state c = StateSynced" "c_connectClosed c"
    by (cases "m_ss_Session p") (auto simp: serverSync_def Let_def newClient_def emit_def)
  then show ?thesis using serverSync_closed [of c q] by blast
qed

text \<open>A legacy voice payload with a negative length, accepted from the server in an authenticated
  datagram, crashes the client on a slice expression; the same payload in the TCP stream is refused
  with an error.\<close>

theorem negative_legacy_length_panics:
  "handlePlaintext15 E [0x80, 1, 0, 0xFC] c = None
    \<and> (\<forall>user seq. tunnelPayload E user 0 seq [0xFC] c = Err ErrInvalidProtobuf c)"
proof -
  have "Decode [1, 0, 0xFC] = (1, 1)" "Decode [0, 0xFC] = (0, 1)" "Decode [0xFC] = (- 1, 1)"
    by (simp_all add: Decode.simps)
  moreover have "sint (- 1 AND NOT 0x2000 :: int64) < 0" by code_simp
  ultimately show ?thesis
    by (simp add: handlePlaintext15_def handleLegacyUDPVoice_def tunnelPayload_def Let_def)
qed

end
