(* ===== verification/InfoFacts.thy ===== *)
theory InfoFacts
  imports ClientInv UdpAudio
begin

text \<open>
  What the information handlers compute: the window of the latest pings, the announced permission
  changes, and the scan for field 7 of a server configuration.
\<close>

section \<open>The window of pings\<close>

definition pingAt :: "env \<Rightarrow> uint64 \<Rightarrow> client \<Rightarrow> client option" where
  "pingAt E ts c = okOf (pingMessage E \<lparr>m_ping_Timestamp = Some ts\<rparr> c)"

definition windowOf :: "float32 list \<Rightarrow> float32 list" where
  "windowOf ps = drop (length ps - 12) ps"

definition pingsAre :: "env \<Rightarrow> float32 list \<Rightarrow> client \<Rightarrow> bool" where
  "pingsAre E ps c = (c_tcpPacketsReceived c = of_nat (length ps) \<and> length (c_tcpPingTimes c) = 12
     \<and> take (min (length ps) 12) (c_tcpPingTimes c) = windowOf ps
     \<and> (ps \<noteq> [] \<longrightarrow> c_tcpPingAvg c = e_fDiv E (pingSum E (windowOf ps)) (e_fOfInt E (int (min (length ps) 12)))))"

lemma pingAt_step:
  assumes "pingsAre E ps c" and "length ps < 2 ^ 32 - 1"
  shows "\<exists>c'. pingAt E ts c = Some c' \<and> pingsAre E (ps @ [e_sinceMillis E ts]) c'"
proof -
  let ?n = "length ps" and ?p = "e_sinceMillis E ts"
  let ?t = "c_tcpPingTimes c"
  have len: "length ?t = 12" and win: "take (min ?n 12) ?t = windowOf ps" and cnt: "c_tcpPacketsReceived c = of_nat ?n"
    using assms(1) by (simp_all add: pingsAre_def)
  have "unat (of_nat (Suc ?n) :: uint32) = Suc ?n" using assms(2) by (simp add: unat_of_nat take_bit_nat_eq_self del: of_nat_Suc)
  then have idx: "uint (c_tcpPacketsReceived c + 1) - 1 = int ?n" using cnt by (simp add: uint_nat add.commute)
  show ?thesis
  proof (cases "?n < 12")
    case True
    define times where "times = ?t[?n := ?p]"
    have seen: "take (Suc ?n) times = windowOf (ps @ [?p])"
      using True len win by (simp add: times_def windowOf_def take_Suc_conv_app_nth)
    have r: "pingAt E ts c = Some (c\<lparr>c_tcpPacketsReceived := c_tcpPacketsReceived c + 1, c_tcpPingTimes := times,
        c_tcpPingAvg := e_fDiv E (pingSum E (take (Suc ?n) times)) (e_fOfInt E (int ?n + 1)),
        c_tcpPingVar := e_fDiv E (pingSum E (map (\<lambda>t. e_fMul E (e_fSub E (e_fDiv E (pingSum E (take (Suc ?n) times)) (e_fOfInt E (int ?n + 1))) t)
          (e_fSub E (e_fDiv E (pingSum E (take (Suc ?n) times)) (e_fOfInt E (int ?n + 1))) t)) (take (Suc ?n) times))) (e_fOfInt E (int ?n + 1))\<rparr>)"
      using True len idx by (simp add: pingAt_def pingMessage_def Let_def times_def)
    show ?thesis
      unfolding r using True len seen cnt
      by (simp add: pingsAre_def times_def add.commute min_def)
  next
    case False
    define times where "times = (shiftTimes ?t)[11 := ?p]"
    have shifted: "times = tl ?t @ [?p]"
      using len by (simp add: times_def shiftTimes_def list_update_append)
    have "?t = drop (?n - 12) ps" using False win len by (simp add: windowOf_def)
    moreover have "Suc ?n - 12 = Suc (?n - 12)" using False by simp
    ultimately have "tl ?t = drop (Suc ?n - 12) ps" by (simp only: drop_Suc tl_drop)
    then have seen: "times = windowOf (ps @ [?p])" using False by (simp add: shifted windowOf_def)
    have l12: "length times = 12" using len by (simp add: shifted)
    have r: "pingAt E ts c = Some (c\<lparr>c_tcpPacketsReceived := c_tcpPacketsReceived c + 1, c_tcpPingTimes := times,
        c_tcpPingAvg := e_fDiv E (pingSum E times) (e_fOfInt E 12),
        c_tcpPingVar := e_fDiv E (pingSum E (map (\<lambda>t. e_fMul E (e_fSub E (e_fDiv E (pingSum E times) (e_fOfInt E 12)) t)
          (e_fSub E (e_fDiv E (pingSum E times) (e_fOfInt E 12)) t)) times)) (e_fOfInt E 12)\<rparr>)"
      using False len l12 idx length_shiftTimes [of ?t]
      by (auto simp: pingAt_def pingMessage_def Let_def times_def)
    show ?thesis
      unfolding r using False l12 seen cnt by (simp add: pingsAre_def add.commute min_def)
  qed
qed

text \<open>After any number of ping replies below 2^32 the handler has not panicked, the first entries of
  \<^verbatim>\<open>tcpPingTimes\<close> are the round-trip times of the latest up to 12 pings in order, and the average is
  the one of exactly these.\<close>

theorem ping_window:
  assumes "length tss < 2 ^ 32"
  shows "\<exists>c. foldM (pingAt E) tss (newClient cfg) = Some c \<and> pingsAre E (map (e_sinceMillis E) tss) c"
  using assms
proof (induction tss rule: rev_induct)
  case Nil
  then show ?case by (simp add: pingsAre_def newClient_def windowOf_def)
next
  case (snoc ts tss)
  then obtain c where c: "foldM (pingAt E) tss (newClient cfg) = Some c" "pingsAre E (map (e_sinceMillis E) tss) c"
    by auto
  obtain c' where c': "pingAt E ts c = Some c'" "pingsAre E (map (e_sinceMillis E) tss @ [e_sinceMillis E ts]) c'"
    using pingAt_step [OF c(2), of ts] snoc.prems by auto
  then show ?case by (simp add: foldM_append c(1))
qed

theorem ping_window_witness:
  "\<exists>c. foldM (pingAt (nullEnv\<lparr>e_sinceMillis := ucast\<rparr>)) [5, 6, 7] (newClient NewConfig) = Some c
    \<and> take 3 (c_tcpPingTimes c) = [5, 6, 7]"
proof -
  let ?E = "nullEnv\<lparr>e_sinceMillis := ucast\<rparr>"
  obtain c where run: "foldM (pingAt ?E) [5, 6, 7] (newClient NewConfig) = Some c"
    and w: "pingsAre ?E (map (e_sinceMillis ?E) [5, 6, 7]) c"
    using ping_window [of "[5, 6, 7]" ?E NewConfig] by auto
  have "take (Suc (Suc (Suc 0))) (c_tcpPingTimes c) = [5, 6, 7]"
    using w by (simp add: pingsAre_def windowOf_def nullEnv_def)
  then have "take 3 (c_tcpPingTimes c) = [5, 6, 7]" by (simp add: numeral_3_eq_3)
  with run show ?thesis by blast
qed

section \<open>Announced permission changes\<close>

text \<open>A permission reply announces only registered channels: the flushed ones, each of them, and the
  one it sets.\<close>

theorem permission_events_registered:
  assumes "clientOk c" and "permissionQuery packet c = Ok c'"
  shows "\<exists>rs. c_events c' = c_events c @ map (\<lambda>r. permissionEvent (Some r)) rs \<and> set rs \<subseteq> ran (map_of (c_Channels c))
    \<and> (m_pq_Flush packet = Some True \<longrightarrow> (\<forall>k r. map_of (c_permissions c) k \<noteq> None \<and> map_of (c_Channels c) k = Some r \<longrightarrow> r \<in> set rs))"
proof -
  have perms: "map_of (c_Channels c) k \<noteq> None" if "(k, p) \<in> set (c_permissions c)" for k p
    using assms(1) weak_map_of_SomeI [OF that] by (simp add: clientOk_def permsOk_def)
  have ev: "c_events (fold (\<lambda>ch. emit (permissionEvent ch)) chs d) = c_events d @ map permissionEvent chs" for chs d
    by (induction chs arbitrary: d) (simp_all add: emit_def)
  obtain single where s: "(case (m_pq_ChannelId packet, m_pq_Permissions packet) of
      (Some channelID, Some p) \<Rightarrow> map_option (\<lambda>r. Some (r, p)) (map_of (c_Channels c) channelID) | _ \<Rightarrow> Some None) = Some single"
    using assms(2) unfolding permissionQuery_def by (auto split: option.splits)
  have sr: "single = Some (r, p) \<Longrightarrow> r \<in> ran (map_of (c_Channels c))" for r p
    using s by (auto simp: ran_def split: option.splits)
  let ?fl = "if isTrue (m_pq_Flush packet) then map (\<lambda>(k, p). the (map_of (c_Channels c) k)) (c_permissions c) else []"
  let ?rs = "?fl @ (case single of None \<Rightarrow> [] | Some (r, p) \<Rightarrow> [r])"
  have fl: "map (\<lambda>(k, p). map_of (c_Channels c) k) (c_permissions c)
      = map Some (map (\<lambda>(k, p). the (map_of (c_Channels c) k)) (c_permissions c))"
    using perms by (auto simp: map_eq_conv)
  have "c_events c' = c_events c @ map (\<lambda>r. permissionEvent (Some r)) ?rs"
    using assms(2) unfolding permissionQuery_def s Let_def fl
    by (auto simp: ev emit_def split: option.splits if_splits)
  moreover have "set ?rs \<subseteq> ran (map_of (c_Channels c))"
    using perms sr by (auto simp: ran_def split: option.splits)
  moreover have "r \<in> set ?rs" if fl: "m_pq_Flush packet = Some True" and kp: "map_of (c_permissions c) k \<noteq> None" and kr: "map_of (c_Channels c) k = Some r" for k r
  proof -
    obtain p where "(k, p) \<in> set (c_permissions c)" using kp by (auto dest: map_of_SomeD)
    then show ?thesis using fl kr by (force simp: isTrue_def)
  qed
  ultimately show ?thesis by blast
qed

theorem permission_events_registered_witness:
  "permissionQuery \<lparr>m_pq_ChannelId = None, m_pq_Permissions = None, m_pq_Flush = Some True\<rparr> (newClient NewConfig)
      = Ok ((newClient NewConfig)\<lparr>c_permissions := []\<rparr>)
    \<and> (\<exists>rs. c_events ((newClient NewConfig)\<lparr>c_permissions := []\<rparr>) = map (\<lambda>r. permissionEvent (Some r)) rs)"
proof -
  let ?p = "\<lparr>m_pq_ChannelId = None, m_pq_Permissions = None, m_pq_Flush = Some True\<rparr>"
  have run: "permissionQuery ?p (newClient NewConfig) = Ok ((newClient NewConfig)\<lparr>c_permissions := []\<rparr>)"
    by (simp add: permissionQuery_def isTrue_def newClient_def)
  from permission_events_registered [OF clientOk_new run] run show ?thesis
    by (auto simp: newClient_def)
qed

section \<open>Field 7 of a server configuration\<close>

text \<open>A message whose field numbers, values and lengths all fit in one byte.\<close>

datatype shortField = ShortVarint byte byte | ShortBytes byte bytes

fun shortBytes :: "shortField \<Rightarrow> bytes" where
  "shortBytes (ShortVarint num v) = [8 * num, v]"
| "shortBytes (ShortBytes num d) = (8 * num + 2) # of_nat (length d) # d"

fun shortOk :: "shortField \<Rightarrow> bool" where
  "shortOk (ShortVarint num v) = (num \<in> {1..15} \<and> v < 0x80)"
| "shortOk (ShortBytes num d) = (num \<in> {1..15} \<and> length d < 128)"

fun firstRecording :: "shortField list \<Rightarrow> bool option" where
  "firstRecording [] = None"
| "firstRecording (ShortVarint num v # fs) = (if num = 7 then Some (v \<noteq> 0) else firstRecording fs)"
| "firstRecording (ShortBytes num d # fs) = firstRecording fs"

lemma Decode_short: "b < 0x80 \<Longrightarrow> Decode (b # rest) = (ucast b, 1)"
proof -
  assume "b < 0x80"
  then have "b AND 0x80 = 0"
    by (intro bit_word_eqI) (auto simp: byte_high_bit byte_bits bit_simps)
  then show ?thesis by (simp add: Decode.simps)
qed

lemma field_numbers:
  assumes "(num :: byte) \<in> {1..15}"
  shows "num \<in> {1, 2, 3, 4, 5, 6, 7, 8, 9, 10, 11, 12, 13, 14, 15}"
proof -
  have "1 \<le> unat num" "unat num \<le> 15" using assms by (simp_all add: word_le_nat_alt)
  then have "unat num \<in> {1, 2, 3, 4, 5, 6, 7, 8, 9, 10, 11, 12, 13, 14, 15}" unfolding insert_iff empty_iff by presburger
  moreover have "num = of_nat (unat num)" by simp
  ultimately show ?thesis by (metis (no_types, lifting) insertE empty_iff insertI1 insertCI of_nat_1 of_nat_numeral)
qed

lemma short_keys:
  assumes "(num :: byte) \<in> {1..15}"
  shows "8 * num < 0x80" "8 * num + 2 < 0x80"
    "(ucast (8 * num) :: int64) AND 7 = 0" "(ucast (8 * num + 2) :: int64) AND 7 = 2"
    "signed_drop_bit 3 (ucast (8 * num) :: int64) = 7 \<longleftrightarrow> num = 7"
proof -
  have "\<forall>num \<in> {1 :: byte, 2, 3, 4, 5, 6, 7, 8, 9, 10, 11, 12, 13, 14, 15}. 8 * num < 0x80 \<and> 8 * num + 2 < 0x80
    \<and> (ucast (8 * num) :: int64) AND 7 = 0 \<and> (ucast (8 * num + 2) :: int64) AND 7 = 2
    \<and> (signed_drop_bit 3 (ucast (8 * num) :: int64) = 7 \<longleftrightarrow> num = 7)"
    by code_simp
  from bspec [OF this field_numbers [OF assms]]
  show "8 * num < 0x80" "8 * num + 2 < 0x80"
    "(ucast (8 * num) :: int64) AND 7 = 0" "(ucast (8 * num + 2) :: int64) AND 7 = 2"
    "signed_drop_bit 3 (ucast (8 * num) :: int64) = 7 \<longleftrightarrow> num = 7" by blast+
qed

lemma parse_short:
  assumes "shortOk f"
  shows "parseServerConfigRecordingAllowed (shortBytes f @ rest) =
    (case f of ShortVarint num v \<Rightarrow> if num = 7 then Some (v \<noteq> 0) else parseServerConfigRecordingAllowed rest
     | ShortBytes num d \<Rightarrow> parseServerConfigRecordingAllowed rest)"
proof (cases f)
  case (ShortVarint num v)
  then have "num \<in> {1..15}" and v: "Decode (v # rest) = (ucast v, 1)" using assms Decode_short by auto
  note k = short_keys [OF this(1)]
  have "uint (ucast v :: int64) = uint v" by (simp add: unsigned_ucast_eq take_bit_int_eq_self uint_lt2p order.strict_trans2 [OF uint_lt2p])
  then have "(ucast v :: int64) \<noteq> 0 \<longleftrightarrow> v \<noteq> 0" by (metis uint_0_iff)
  then show ?thesis
    using Decode_short [OF k(1), of "v # rest"] k v
    by (subst parseServerConfigRecordingAllowed.simps) (simp add: ShortVarint)
next
  case (ShortBytes num d)
  then have num: "num \<in> {1..15}" and len: "length d < 128" using assms by simp_all
  note k = short_keys [OF num]
  let ?l = "of_nat (length d) :: byte"
  have "?l < 0x80" using len by (simp add: word_less_nat_alt unat_of_nat take_bit_nat_eq_self)
  then have dl: "Decode (?l # d @ rest) = (ucast ?l, 1)" by (rule Decode_short)
  have l64: "(ucast ?l :: int64) = of_nat (length d)"
  proof (rule word_uint_eqI)
    have "uint ?l = int (length d)" using len by (simp add: uint_nat unat_of_nat take_bit_nat_eq_self)
    then show "uint (ucast ?l :: int64) = uint (of_nat (length d) :: int64)"
      using len by (simp add: unsigned_ucast_eq take_bit_int_eq_self uint_nat unat_of_nat take_bit_nat_eq_self)
  qed
  have pos: "sint (of_nat n :: int64) = int n" if "n < 1000" for n
    using that by (simp add: signed_of_nat signed_take_bit_int_eq_self)
  have sk: "sint (of_nat 1 + of_nat (length d) :: int64) = int (Suc (length d))"
    using pos [of "Suc (length d)"] len by simp
  have nn: "\<not> (of_nat (length d) :: int64) <s 0" using pos [of "length d"] len by (simp add: word_sless_alt)
  show ?thesis
    using Decode_short [OF k(2), of "?l # d @ rest"] k dl nn sk
    by (subst parseServerConfigRecordingAllowed.simps) (simp add: ShortBytes l64 nat_add_distrib)
qed

text \<open>On messages whose numbers, values and lengths fit in one byte, the scan finds the first
  \<^verbatim>\<open>recording_allowed\<close> field of the message.\<close>

theorem recording_allowed_short:
  assumes "\<forall>f \<in> set fs. shortOk f"
  shows "parseServerConfigRecordingAllowed (concat (map shortBytes fs)) = firstRecording fs"
  using assms
proof (induction fs)
  case Nil
  then show ?case by (subst parseServerConfigRecordingAllowed.simps) simp
next
  case (Cons f fs)
  then show ?case using parse_short [of f "concat (map shortBytes fs)"] by (cases f) simp_all
qed

theorem recording_allowed_short_witness:
  "parseServerConfigRecordingAllowed (concat (map shortBytes [ShortVarint 1 5, ShortBytes 2 [1, 2, 3], ShortVarint 7 0])) = Some False"
  using recording_allowed_short [of "[ShortVarint 1 5, ShortBytes 2 [1, 2, 3], ShortVarint 7 0]"] by simp

text \<open>On longer messages it does not: it reads protobuf lengths in Mumble's own format, so in a welcome
  text (field 2) of 128 bytes it takes up the second and third byte as a field.  A text that has
  \<^verbatim>\<open>80\<close> (the bytes 0x38 and 0x30) there makes a server allow recording that said nothing about it.\<close>

theorem recording_allowed_forged:
  "pbDecodeVarint (0x12 # xs) = (0x12, 1) \<and> pbDecodeVarint ([0x80, 0x01] @ xs) = (128, 2)
    \<and> parseServerConfigRecordingAllowed ([0x12, 0x80, 0x01] @ [x, 0x38, 0x30] @ rest) = Some True"
proof -
  have key: "signed_drop_bit 3 (0x12 :: int64) = 2" "(0x12 :: int64) AND 7 = 2" "signed_drop_bit 3 (0x38 :: int64) = 7"
    "(0x38 :: int64) AND 7 = 0" "sint (of_nat 2 + 1 :: int64) = 3" "\<not> (1 :: int64) <s 0"
    by code_simp+
  have d: "Decode (0x12 # ys) = (0x12, 1)" "Decode (0x80 # 1 # ys) = (1, 2)" "Decode (0x38 # ys) = (0x38, 1)"
    "Decode (0x30 # ys) = (0x30, 1)" for ys
    by (simp_all add: Decode.simps)
  have "parseServerConfigRecordingAllowed (0x38 # 0x30 # rest) = Some True"
    by (subst parseServerConfigRecordingAllowed.simps) (simp add: d key)
  then have "parseServerConfigRecordingAllowed ([0x12, 0x80, 0x01] @ [x, 0x38, 0x30] @ rest) = Some True"
    using key(5) by (subst parseServerConfigRecordingAllowed.simps) (simp add: d key)
  moreover have "pbDecodeVarint (0x12 # xs) = (0x12, 1)" "pbDecodeVarint ([0x80, 0x01] @ xs) = (128, 2)"
    by (simp_all add: pbDecodeVarint_def)
  ultimately show ?thesis by blast
qed

end
