(* ===== verification/AudioFacts.thy ===== *)
theory AudioFacts
  imports AudioDispatch
begin

text \<open>
  Loss concealment on the two ways audio arrives: how many frames are made up for a gap, and with
  which sequence numbers.
\<close>

section \<open>Small signed words\<close>

lemma sint_small: "n < 2 ^ 62 \<Longrightarrow> sint (of_nat n :: int64) = int n"
  by (simp add: signed_of_nat signed_take_bit_int_eq_self)

lemma small_less: "m < 2 ^ 62 \<Longrightarrow> n < 2 ^ 62 \<Longrightarrow> (of_nat m :: int64) <s of_nat n \<longleftrightarrow> m < n"
  by (simp add: word_sless_alt sint_small)

lemma small_quot: "m < 2 ^ 62 \<Longrightarrow> 0 < s \<Longrightarrow> s < 2 ^ 62 \<Longrightarrow> quot64 (of_nat m) (of_nat s) = of_nat (m div s)"
  by (simp add: quot64_def sint_small goQuot_nonneg flip: of_nat_div)

lemma small_rem: "m < 2 ^ 62 \<Longrightarrow> 0 < s \<Longrightarrow> s < 2 ^ 62 \<Longrightarrow> rem64 (of_nat m) (of_nat s) = of_nat (m mod s)"
  by (simp add: rem64_def sint_small goRem_nonneg flip: of_nat_mod)

section \<open>Missing packets\<close>

lemma of_nat_zero_small: "n < 2 ^ 62 \<Longrightarrow> (of_nat n :: int64) = 0 \<longleftrightarrow> n = 0"
  using sint_small [of n] by auto

lemma missing_small:
  assumes "0 < s" and "s < 2 ^ 62" and "g < 2 ^ 62"
  shows "missingAudioPackets (of_nat g) (of_nat s) = (if s < g \<and> s dvd g then of_nat (g div s - 1) else 0)"
proof -
  have lt: "\<not> (of_nat s :: int64) <s 1" using small_less [of s 1] assms by simp
  have le: "(of_nat g :: int64) \<le>s of_nat s \<longleftrightarrow> g \<le> s"
    using assms by (simp add: word_sle_eq sint_small)
  have "g mod s < 2 ^ 62" using assms by (meson mod_less_divisor order_less_trans)
  then have md: "rem64 (of_nat g) (of_nat s) = 0 \<longleftrightarrow> s dvd g"
    using assms by (simp add: small_rem of_nat_zero_small dvd_eq_mod_eq_0)
  show ?thesis
  proof (cases "s < g \<and> s dvd g")
    case True
    then have "1 \<le> g div s" using assms(1) by (simp add: Suc_leI div_greater_zero_iff)
    then have "(of_nat (g div s) :: int64) - 1 = of_nat (g div s - 1)" by simp
    then show ?thesis using True lt le md assms by (simp add: missingAudioPackets_def small_quot)
  next
    case False
    then show ?thesis using lt le md by (auto simp: missingAudioPackets_def)
  qed
qed



text \<open>In the TCP stream every unit of 10 ms counts as a packet: between two consecutive packets of 20 ms
  frames, with nothing lost, one frame is made up, where native UDP makes up none.\<close>

theorem tunnel_conceals_without_loss:
  assumes "u_audioSequenceValid (c_user c user)" and "u_audioFrameStep (c_user c user) = 2"
  shows "tunnelSequence E user target (u_audioSequence (c_user c user) + 2) c =
      map_option (\<lambda>c. (c, False)) (dispatchPLC E user target c)
    \<and> sequence15 E user (u_audioSequence (c_user c user) + 2) c = Some (c, False)"
proof -
  have w: "(1 :: int64) <s 2" "(2 :: int64) <s 100" "nat (sint (2 :: int64)) = 2" "\<not> (2 :: int64) <s 1" "\<not> (2 :: int64) <s 2"
    "\<not> (2 :: int64) <s 0"
    by code_simp+
  have "foldM (\<lambda>_. dispatchPLC E user target) [1..<2] c = dispatchPLC E user target c"
    by (simp add: numeral_2_eq_2 split: option.split)
  then show ?thesis
    using assms by (simp add: tunnelSequence_def sequence15_def Let_def w)
qed

theorem tunnel_conceals_without_loss_witness:
  "sequence15 nullEnv 0 2 (setUser 0 (\<lambda>u. u\<lparr>u_audioSequenceValid := True, u_audioFrameStep := 2\<rparr>) (newClient NewConfig))
    = Some (setUser 0 (\<lambda>u. u\<lparr>u_audioSequenceValid := True, u_audioFrameStep := 2\<rparr>) (newClient NewConfig), False)"
  using tunnel_conceals_without_loss [of "setUser 0 (\<lambda>u. u\<lparr>u_audioSequenceValid := True, u_audioFrameStep := 2\<rparr>) (newClient NewConfig)" 0 nullEnv 0]
  by (simp add: setUser_heap newClient_def newUser_def)

end
