(* ===== verification/RpwMutex.thy ===== *)
theory RpwMutex
  imports Prelude
begin

text \<open>
  \<^verbatim>\<open>rpwMutex\<close> (\<^verbatim>\<open>gumble/gumble/rpwmutex.go\<close>), the reader-preferred lock behind \<^verbatim>\<open>Client.volatile\<close>,
  as a step relation over goroutines: every \<^verbatim>\<open>Lock\<close> and \<^verbatim>\<open>Unlock\<close> of the two mutexes inside and every
  access to the counter is a step of its own, and the goroutines interleave freely.  A goroutine may
  hold several read locks; a writer holds none.
\<close>

section \<open>Steps\<close>

text \<open>Where a goroutine is; the argument is the number of read locks it holds.  \<open>RInc\<close>, \<open>RWait\<close> and \<open>RDone\<close>
  are inside \<^verbatim>\<open>RLock\<close> (before \<^verbatim>\<open>m.n++\<close>, before \<^verbatim>\<open>m.w.Lock()\<close>, before \<^verbatim>\<open>m.r.Unlock()\<close>), \<open>UDec\<close>, \<open>URelease\<close>
  and \<open>UDone\<close> likewise inside \<^verbatim>\<open>RUnlock\<close>.\<close>

datatype place =
    Free nat | RInc nat | RWait nat | RDone nat | UDec nat | URelease nat | UDone nat | Writing

record mutex =
  mx_w :: bool
  mx_r :: bool
  mx_n :: int
  mx_at :: "place list"

definition newMutex :: "nat \<Rightarrow> mutex" where
  "newMutex goroutines = \<lparr>mx_w = False, mx_r = False, mx_n = 0, mx_at = replicate goroutines (Free 0)\<rparr>"

definition move :: "nat \<Rightarrow> place \<Rightarrow> mutex \<Rightarrow> mutex" where
  "move i p m = m\<lparr>mx_at := (mx_at m)[i := p]\<rparr>"

inductive mstep :: "mutex \<Rightarrow> mutex \<Rightarrow> bool" where
  RLock_r: "i < length (mx_at m) \<Longrightarrow> mx_at m ! i = Free d \<Longrightarrow> \<not> mx_r m \<Longrightarrow> mstep m (move i (RInc d) (m\<lparr>mx_r := True\<rparr>))"
| RLock_n: "i < length (mx_at m) \<Longrightarrow> mx_at m ! i = RInc d \<Longrightarrow>
    mstep m (move i (if mx_n m + 1 = 1 then RWait d else RDone d) (m\<lparr>mx_n := mx_n m + 1\<rparr>))"
| RLock_w: "i < length (mx_at m) \<Longrightarrow> mx_at m ! i = RWait d \<Longrightarrow> \<not> mx_w m \<Longrightarrow> mstep m (move i (RDone d) (m\<lparr>mx_w := True\<rparr>))"
| RLock_end: "i < length (mx_at m) \<Longrightarrow> mx_at m ! i = RDone d \<Longrightarrow> mstep m (move i (Free (Suc d)) (m\<lparr>mx_r := False\<rparr>))"
| RUnlock_r: "i < length (mx_at m) \<Longrightarrow> mx_at m ! i = Free (Suc d) \<Longrightarrow> \<not> mx_r m \<Longrightarrow> mstep m (move i (UDec d) (m\<lparr>mx_r := True\<rparr>))"
| RUnlock_n: "i < length (mx_at m) \<Longrightarrow> mx_at m ! i = UDec d \<Longrightarrow>
    mstep m (move i (if mx_n m - 1 = 0 then URelease d else UDone d) (m\<lparr>mx_n := mx_n m - 1\<rparr>))"
| RUnlock_w: "i < length (mx_at m) \<Longrightarrow> mx_at m ! i = URelease d \<Longrightarrow> mstep m (move i (UDone d) (m\<lparr>mx_w := False\<rparr>))"
| RUnlock_end: "i < length (mx_at m) \<Longrightarrow> mx_at m ! i = UDone d \<Longrightarrow> mstep m (move i (Free d) (m\<lparr>mx_r := False\<rparr>))"
| Lock: "i < length (mx_at m) \<Longrightarrow> mx_at m ! i = Free 0 \<Longrightarrow> \<not> mx_w m \<Longrightarrow> mstep m (move i Writing (m\<lparr>mx_w := True\<rparr>))"
| Unlock: "i < length (mx_at m) \<Longrightarrow> mx_at m ! i = Writing \<Longrightarrow> mstep m (move i (Free 0) (m\<lparr>mx_w := False\<rparr>))"

inductive reachable :: "nat \<Rightarrow> mutex \<Rightarrow> bool" for goroutines where
  start: "reachable goroutines (newMutex goroutines)"
| next_step: "reachable goroutines m \<Longrightarrow> mstep m m' \<Longrightarrow> reachable goroutines m'"

section \<open>Counting goroutines\<close>

fun locks :: "place \<Rightarrow> nat" where
  "locks (Free d) = d"
| "locks (RInc d) = d"
| "locks (RWait d) = Suc d"
| "locks (RDone d) = Suc d"
| "locks (UDec d) = Suc d"
| "locks (URelease d) = d"
| "locks (UDone d) = d"
| "locks Writing = 0"

fun inR :: "place \<Rightarrow> nat" where
  "inR (Free d) = 0"
| "inR Writing = 0"
| "inR (RWait d) = 0"
| "inR (URelease d) = 0"
| "inR p = 1"

fun waiting :: "place \<Rightarrow> nat" where
  "waiting (RWait d) = 1"
| "waiting p = 0"

fun releasing :: "place \<Rightarrow> nat" where
  "releasing (URelease d) = 1"
| "releasing p = 0"

fun writing :: "place \<Rightarrow> nat" where
  "writing Writing = 1"
| "writing p = 0"

definition total :: "(place \<Rightarrow> nat) \<Rightarrow> mutex \<Rightarrow> nat" where
  "total f m = sum_list (map f (mx_at m))"

lemma sum_update:
  "i < length xs \<Longrightarrow> sum_list (map f (xs[i := y])) + f (xs ! i) = sum_list (map f xs) + (f y :: nat)"
proof (induction xs arbitrary: i)
  case (Cons x xs)
  then show ?case by (cases i) auto
qed simp

lemma total_move:
  assumes "i < length (mx_at m)" and "mx_at m ! i = q" and "mx_at m' = mx_at m"
  shows "total f (move i p m') + f q = total f m + f p"
  using sum_update [OF assms(1), of f p] assms(2,3) by (simp add: total_def move_def)

lemma move_fields [simp]:
  "mx_w (move i p m) = mx_w m" "mx_r (move i p m) = mx_r m" "mx_n (move i p m) = mx_n m"
  "mx_at (move i p m) = (mx_at m)[i := p]"
  by (simp_all add: move_def)

text \<open>The counter counts the read locks; the inner mutex is held by the one goroutine in a reader's
  section; the outer one by a writer or by the readers together.\<close>

definition mutexOk :: "mutex \<Rightarrow> bool" where
  "mutexOk m \<longleftrightarrow> mx_n m = int (total locks m)
     \<and> total inR m + total waiting m + total releasing m = (if mx_r m then 1 else 0)
     \<and> total writing m + (if 0 < mx_n m \<and> total waiting m = 0 \<or> 0 < total releasing m then 1 else 0) = (if mx_w m then 1 else 0)
     \<and> (0 < total waiting m \<longrightarrow> mx_n m = 1) \<and> (0 < total releasing m \<longrightarrow> mx_n m = 0)"

lemma mutexOk_new: "mutexOk (newMutex goroutines)"
  by (simp add: mutexOk_def newMutex_def total_def map_replicate_const sum_list_replicate)

lemma total_ge: "i < length (mx_at m) \<Longrightarrow> f (mx_at m ! i) \<le> total f m"
  unfolding total_def by (metis elem_le_sum_list length_map nth_map)

lemma mutexOk_step:
  assumes "mstep m m'" and "mutexOk m"
  shows "mutexOk m'"
  using assms
proof (induction rule: mstep.induct)
  case (RLock_r i m d)
  have t: "total f (move i p (m\<lparr>mx_r := True\<rparr>)) + f (Free d) = total f m + f p" for f p
    by (rule total_move [OF RLock_r.hyps(1,2)]) simp
  show ?case
    using RLock_r.prems RLock_r.hyps t [of locks "RInc d"] t [of inR "RInc d"] t [of waiting "RInc d"] t [of releasing "RInc d"] t [of writing "RInc d"]
    by (auto simp: mutexOk_def split: if_splits)
next
  case (RLock_n i m d)
  let ?p = "if mx_n m + 1 = 1 then RWait d else RDone d"
  have t: "total f (move i p (m\<lparr>mx_n := mx_n m + 1\<rparr>)) + f (RInc d) = total f m + f p" for f p
    by (rule total_move [OF RLock_n.hyps(1,2)]) simp
  have one: "1 \<le> total inR m" using total_ge [of i m inR] RLock_n.hyps by simp
  show ?case
    using RLock_n.prems RLock_n.hyps one t [of locks ?p] t [of inR ?p] t [of waiting ?p] t [of releasing ?p] t [of writing ?p]
    by (auto simp: mutexOk_def split: if_splits)
next
  case (RLock_w i m d)
  have t: "total f (move i p (m\<lparr>mx_w := True\<rparr>)) + f (RWait d) = total f m + f p" for f p
    by (rule total_move [OF RLock_w.hyps(1,2)]) simp
  have one: "1 \<le> total waiting m" using total_ge [of i m waiting] RLock_w.hyps by simp
  show ?case
    using RLock_w.prems RLock_w.hyps one t [of locks "RDone d"] t [of inR "RDone d"] t [of waiting "RDone d"] t [of releasing "RDone d"] t [of writing "RDone d"]
    by (auto simp: mutexOk_def split: if_splits)
next
  case (RLock_end i m d)
  have t: "total f (move i p (m\<lparr>mx_r := False\<rparr>)) + f (RDone d) = total f m + f p" for f p
    by (rule total_move [OF RLock_end.hyps(1,2)]) simp
  show ?case
    using RLock_end.prems RLock_end.hyps t [of locks "Free (Suc d)"] t [of inR "Free (Suc d)"] t [of waiting "Free (Suc d)"] t [of releasing "Free (Suc d)"] t [of writing "Free (Suc d)"]
    by (auto simp: mutexOk_def split: if_splits)
next
  case (RUnlock_r i m d)
  have t: "total f (move i p (m\<lparr>mx_r := True\<rparr>)) + f (Free (Suc d)) = total f m + f p" for f p
    by (rule total_move [OF RUnlock_r.hyps(1,2)]) simp
  show ?case
    using RUnlock_r.prems RUnlock_r.hyps t [of locks "UDec d"] t [of inR "UDec d"] t [of waiting "UDec d"] t [of releasing "UDec d"] t [of writing "UDec d"]
    by (auto simp: mutexOk_def split: if_splits)
next
  case (RUnlock_n i m d)
  let ?p = "if mx_n m - 1 = 0 then URelease d else UDone d"
  have t: "total f (move i p (m\<lparr>mx_n := mx_n m - 1\<rparr>)) + f (UDec d) = total f m + f p" for f p
    by (rule total_move [OF RUnlock_n.hyps(1,2)]) simp
  have one: "1 \<le> total inR m" "1 \<le> total locks m"
    using total_ge [of i m inR] total_ge [of i m locks] RUnlock_n.hyps by simp_all
  show ?case
    using RUnlock_n.prems RUnlock_n.hyps one t [of locks ?p] t [of inR ?p] t [of waiting ?p] t [of releasing ?p] t [of writing ?p]
    by (auto simp: mutexOk_def split: if_splits)
next
  case (RUnlock_w i m d)
  have t: "total f (move i p (m\<lparr>mx_w := False\<rparr>)) + f (URelease d) = total f m + f p" for f p
    by (rule total_move [OF RUnlock_w.hyps(1,2)]) simp
  have one: "1 \<le> total releasing m" using total_ge [of i m releasing] RUnlock_w.hyps by simp
  show ?case
    using RUnlock_w.prems RUnlock_w.hyps one t [of locks "UDone d"] t [of inR "UDone d"] t [of waiting "UDone d"] t [of releasing "UDone d"] t [of writing "UDone d"]
    by (auto simp: mutexOk_def split: if_splits)
next
  case (RUnlock_end i m d)
  have t: "total f (move i p (m\<lparr>mx_r := False\<rparr>)) + f (UDone d) = total f m + f p" for f p
    by (rule total_move [OF RUnlock_end.hyps(1,2)]) simp
  show ?case
    using RUnlock_end.prems RUnlock_end.hyps t [of locks "Free d"] t [of inR "Free d"] t [of waiting "Free d"] t [of releasing "Free d"] t [of writing "Free d"]
    by (auto simp: mutexOk_def split: if_splits)
next
  case (Lock i m)
  have t: "total f (move i p (m\<lparr>mx_w := True\<rparr>)) + f (Free 0) = total f m + f p" for f p
    by (rule total_move [OF Lock.hyps(1,2)]) simp
  show ?case
    using Lock.prems Lock.hyps t [of locks Writing] t [of inR Writing] t [of waiting Writing] t [of releasing Writing] t [of writing Writing]
    by (auto simp: mutexOk_def split: if_splits)
next
  case (Unlock i m)
  have t: "total f (move i p (m\<lparr>mx_w := False\<rparr>)) + f Writing = total f m + f p" for f p
    by (rule total_move [OF Unlock.hyps(1,2)]) simp
  have one: "1 \<le> total writing m" using total_ge [of i m writing] Unlock.hyps by simp
  show ?case
    using Unlock.prems Unlock.hyps one t [of locks "Free 0"] t [of inR "Free 0"] t [of waiting "Free 0"] t [of releasing "Free 0"] t [of writing "Free 0"]
    by (auto simp: mutexOk_def split: if_splits)
qed

lemma reachable_ok: "reachable goroutines m \<Longrightarrow> mutexOk m"
  by (induction rule: reachable.induct) (use mutexOk_new mutexOk_step in blast)+

lemma total_two:
  assumes "i < length (mx_at m)" and "j < length (mx_at m)" and "i \<noteq> j" and "f (Free 0) = 0"
  shows "f (mx_at m ! i) + f (mx_at m ! j) \<le> total f m"
proof -
  have "total f (move i (Free 0) m) + f (mx_at m ! i) = total f m + f (Free 0)"
    by (rule total_move [OF assms(1)]) simp_all
  moreover have "f (mx_at m ! j) \<le> total f (move i (Free 0) m)"
    using total_ge [of j "move i (Free 0) m" f] assms by simp
  ultimately show ?thesis using assms(4) by linarith
qed

section \<open>Mutual exclusion and progress\<close>

text \<open>A goroutine has the read lock once \<^verbatim>\<open>RLock\<close> is past \<^verbatim>\<open>m.w.Lock()\<close>, until \<^verbatim>\<open>RUnlock\<close> decrements.\<close>

fun reading :: "place \<Rightarrow> bool" where
  "reading (Free d) \<longleftrightarrow> 0 < d"
| "reading (RInc d) \<longleftrightarrow> 0 < d"
| "reading (RWait d) \<longleftrightarrow> 0 < d"
| "reading (RDone d) \<longleftrightarrow> True"
| "reading (UDec d) \<longleftrightarrow> True"
| "reading (URelease d) \<longleftrightarrow> 0 < d"
| "reading (UDone d) \<longleftrightarrow> 0 < d"
| "reading Writing \<longleftrightarrow> False"

lemma reading_locks: "reading p \<Longrightarrow> 1 + waiting p \<le> locks p"
  by (cases p) auto

lemma writing_alone:
  assumes ok: "mutexOk m" and i: "i < length (mx_at m)" "mx_at m ! i = Writing"
  shows "total writing m = 1" and "int (total locks m) = int (total waiting m)" and "total waiting m \<le> 1"
proof -
  have one: "1 \<le> total writing m" using total_ge [OF i(1), of writing] i(2) by simp
  have n: "mx_n m = int (total locks m)" using ok by (simp add: mutexOk_def)
  have w: "total writing m + (if 0 < mx_n m \<and> total waiting m = 0 \<or> 0 < total releasing m then 1 else 0) = (if mx_w m then 1 else 0)"
    and wn: "0 < total waiting m \<longrightarrow> mx_n m = 1"
    and inr: "total inR m + total waiting m + total releasing m = (if mx_r m then 1 else 0)"
    using ok unfolding mutexOk_def by blast+
  show "total writing m = 1" using w one by (simp split: if_splits)
  show le: "total waiting m \<le> 1" using inr by (simp split: if_splits)
  have "\<not> (0 < mx_n m \<and> total waiting m = 0)" using w one by (simp split: if_splits)
  then show "int (total locks m) = int (total waiting m)" using n wn le by (cases "total waiting m = 0") auto
qed

lemma sum_le_pointwise: "(\<And>x. x \<in> set xs \<Longrightarrow> f x \<le> (g x :: nat)) \<Longrightarrow> sum_list (map f xs) \<le> sum_list (map g xs)"
  by (induction xs) (auto intro!: add_mono)

lemma waiting_le_locks: "waiting p \<le> locks p"
  by (cases p) auto

lemma no_reader_while_writing:
  assumes "mutexOk m" and "i < length (mx_at m)" and "mx_at m ! i = Writing" and j: "j < length (mx_at m)"
  shows "\<not> reading (mx_at m ! j)"
proof
  assume r: "reading (mx_at m ! j)"
  have eq: "total locks m = total waiting m" using writing_alone(2) [OF assms(1-3)] by simp
  have "total locks m \<le> total waiting m + 0" using eq by simp
  have le: "total waiting (move j (Free 0) m) \<le> total locks (move j (Free 0) m)"
    unfolding total_def by (rule sum_le_pointwise) (rule waiting_le_locks)
  have "total waiting (move j (Free 0) m) + waiting (mx_at m ! j) = total waiting m + waiting (Free 0)"
       "total locks (move j (Free 0) m) + locks (mx_at m ! j) = total locks m + locks (Free 0)"
    by (rule total_move [OF j]; simp)+
  then show False using le eq reading_locks [OF r] by simp
qed

text \<open>C33. In every interleaving of any number of goroutines, a writer is alone: while one is between
  \<^verbatim>\<open>Lock\<close> and \<^verbatim>\<open>Unlock\<close>, no goroutine holds a read lock and no other writes.\<close>

theorem mutual_exclusion:
  "reachable goroutines m \<Longrightarrow> i < length (mx_at m) \<Longrightarrow> mx_at m ! i = Writing \<Longrightarrow>
   (\<forall>j<length (mx_at m). \<not> reading (mx_at m ! j) \<and> (j \<noteq> i \<longrightarrow> mx_at m ! j \<noteq> Writing))"
proof (intro allI impI conjI)
  fix j assume r: "reachable goroutines m" and i: "i < length (mx_at m)" "mx_at m ! i = Writing" and j: "j < length (mx_at m)"
  show "\<not> reading (mx_at m ! j)" by (rule no_reader_while_writing [OF reachable_ok [OF r] i j])
  assume "j \<noteq> i"
  show "mx_at m ! j \<noteq> Writing"
    using total_two [of i m j writing] i j \<open>j \<noteq> i\<close> writing_alone(1) [OF reachable_ok [OF r] i] by auto
qed

lemma reachable_trans: "mstep m m' \<Longrightarrow> reachable g m \<Longrightarrow> reachable g m'" by (rule next_step)

lemma writer_reachable: "reachable 2 (move 0 Writing ((newMutex 2)\<lparr>mx_w := True\<rparr>))"
  by (rule next_step [OF start]) (rule Lock, simp_all add: newMutex_def)

theorem mutual_exclusion_witness:
  "\<not> reading (mx_at (move 0 Writing ((newMutex 2)\<lparr>mx_w := True\<rparr>)) ! 1)
   \<and> mx_at (move 0 Writing ((newMutex 2)\<lparr>mx_w := True\<rparr>)) ! 1 \<noteq> Writing"
  using mutual_exclusion [OF writer_reachable, of 0] by (simp add: newMutex_def)

lemma total_pos:
  assumes "0 < total f m"
  obtains j where "j < length (mx_at m)" and "0 < f (mx_at m ! j)"
proof -
  have "\<exists>x\<in>set (mx_at m). 0 < f x"
  proof (rule ccontr)
    assume "\<not> ?thesis"
    then have "sum_list (map f (mx_at m)) = 0" by (auto simp: sum_list_eq_0_iff)
    then show False using assms unfolding total_def by linarith
  qed
  then show thesis using that by (auto simp: in_set_conv_nth)
qed

lemma writing_pos: "0 < writing p \<Longrightarrow> p = Writing"
  by (cases p) auto

lemma waits_for_writer:
  assumes ok: "mutexOk m" and i: "i < length (mx_at m)" "mx_at m ! i = RWait d" and "mx_w m"
  obtains j where "j < length (mx_at m)" and "mx_at m ! j = Writing"
proof -
  have "1 \<le> total waiting m" using total_ge [OF i(1), of waiting] i(2) by simp
  then have "total waiting m = 1" and "total releasing m = 0"
    using ok by (auto simp: mutexOk_def split: if_splits)
  then have "0 < total writing m" using ok \<open>mx_w m\<close> by (simp add: mutexOk_def)
  from total_pos [OF this] obtain j where "j < length (mx_at m)" and "0 < writing (mx_at m ! j)" .
  then show thesis using that writing_pos by blast
qed

lemma stepI:
  assumes "mstep m (move i p m0)" and "mx_at m0 = mx_at m" and "i < length (mx_at m)" and "mx_at m ! i = q"
    and "p \<noteq> q" and "\<forall>d. q \<noteq> Free d"
  shows "\<exists>j<length (mx_at m). (\<forall>d. mx_at m ! j \<noteq> Free d) \<and> (\<exists>m'. mstep m m' \<and> mx_at m' ! j \<noteq> mx_at m ! j)"
proof (rule exI [of _ i], intro conjI)
  show "\<exists>m'. mstep m m' \<and> mx_at m' ! i \<noteq> mx_at m ! i"
    by (rule exI [of _ "move i p m0"]) (use assms(1-5) in simp)
qed (use assms(3,4,6) in simp_all)

lemma inside_can_step:
  assumes ok: "mutexOk m" and i: "i < length (mx_at m)" and "\<forall>d. mx_at m ! i \<noteq> Free d"
  shows "\<exists>j<length (mx_at m). (\<forall>d. mx_at m ! j \<noteq> Free d) \<and> (\<exists>m'. mstep m m' \<and> mx_at m' ! j \<noteq> mx_at m ! j)"
proof (cases "mx_at m ! i")
  case (RInc d)
  show ?thesis by (rule stepI [OF RLock_n [OF i RInc] _ i RInc]) simp_all
next
  case (RWait d)
  show ?thesis
  proof (cases "mx_w m")
    case True
    from waits_for_writer [OF ok i RWait True] obtain j where j: "j < length (mx_at m)" "mx_at m ! j = Writing" .
    show ?thesis by (rule stepI [OF Unlock [OF j] _ j]) simp_all
  next
    case False
    show ?thesis by (rule stepI [OF RLock_w [OF i RWait False] _ i RWait]) simp_all
  qed
next
  case (RDone d)
  show ?thesis by (rule stepI [OF RLock_end [OF i RDone] _ i RDone]) simp_all
next
  case (UDec d)
  show ?thesis by (rule stepI [OF RUnlock_n [OF i UDec] _ i UDec]) simp_all
next
  case (URelease d)
  show ?thesis by (rule stepI [OF RUnlock_w [OF i URelease] _ i URelease]) simp_all
next
  case (UDone d)
  show ?thesis by (rule stepI [OF RUnlock_end [OF i UDone] _ i UDone]) simp_all
next
  case Writing
  show ?thesis by (rule stepI [OF Unlock [OF i Writing] _ i Writing]) simp_all
qed (use assms(3) in blast)

text \<open>C34. The lock never deadlocks: whenever a goroutine is inside an operation or writing, some such
  goroutine can make its next step without a new operation being started.\<close>

theorem no_deadlock:
  "reachable goroutines m \<Longrightarrow> i < length (mx_at m) \<Longrightarrow> \<forall>d. mx_at m ! i \<noteq> Free d \<Longrightarrow>
   \<exists>j<length (mx_at m). (\<forall>d. mx_at m ! j \<noteq> Free d) \<and> (\<exists>m'. mstep m m' \<and> mx_at m' ! j \<noteq> mx_at m ! j)"
  by (rule inside_can_step [OF reachable_ok])

theorem no_deadlock_witness:
  "\<exists>j<length (mx_at (move 0 Writing ((newMutex 2)\<lparr>mx_w := True\<rparr>))).
     (\<forall>d. mx_at (move 0 Writing ((newMutex 2)\<lparr>mx_w := True\<rparr>)) ! j \<noteq> Free d)
     \<and> (\<exists>m'. mstep (move 0 Writing ((newMutex 2)\<lparr>mx_w := True\<rparr>)) m'
           \<and> mx_at m' ! j \<noteq> mx_at (move 0 Writing ((newMutex 2)\<lparr>mx_w := True\<rparr>)) ! j)"
  by (rule no_deadlock [OF writer_reachable, of 0]) (simp_all add: newMutex_def)

lemma others_locks:
  assumes "i < length (mx_at m)" and "j < length (mx_at m)" and "i \<noteq> j"
  shows "locks (mx_at m ! i) + locks (mx_at m ! j) \<le> total locks m"
  by (rule total_two [OF assms]) simp

text \<open>Readers are preferred: a goroutine in \<^verbatim>\<open>RLock\<close> waits for a writer only when it is the first
  reader.  It then holds no read lock itself, and nobody else does, so a nested \<^verbatim>\<open>RLock\<close> never waits
  for a writer.\<close>

theorem only_first_reader_waits:
  "reachable goroutines m \<Longrightarrow> i < length (mx_at m) \<Longrightarrow> mx_at m ! i = RWait d \<Longrightarrow>
   d = 0 \<and> (\<forall>j<length (mx_at m). j \<noteq> i \<longrightarrow> \<not> reading (mx_at m ! j))"
proof
  assume r: "reachable goroutines m" and i: "i < length (mx_at m)" and w: "mx_at m ! i = RWait d"
  have ok: "mutexOk m" by (rule reachable_ok [OF r])
  have "1 \<le> total waiting m" using total_ge [OF i, of waiting] w by simp
  then have one: "total locks m = 1" using ok by (simp add: mutexOk_def)
  then show "d = 0" using total_ge [OF i, of locks] w by simp
  show "\<forall>j<length (mx_at m). j \<noteq> i \<longrightarrow> \<not> reading (mx_at m ! j)"
  proof (intro allI impI notI)
    fix j assume j: "j < length (mx_at m)" "j \<noteq> i" and "reading (mx_at m ! j)"
    then have "1 \<le> locks (mx_at m ! j)" using reading_locks [of "mx_at m ! j"] by linarith
    then show False using others_locks [OF i j(1)] j(2) one w by simp
  qed
qed

lemma first_reader_reachable:
  "reachable 2 (move 0 (RWait 0) ((move 0 (RInc 0) ((newMutex 2)\<lparr>mx_r := True\<rparr>))\<lparr>mx_n := 1\<rparr>))"
proof -
  have "reachable 2 (move 0 (RInc 0) ((newMutex 2)\<lparr>mx_r := True\<rparr>))"
    by (rule next_step [OF start]) (rule RLock_r, simp_all add: newMutex_def)
  from next_step [OF this RLock_n [of 0 _ 0]] show ?thesis by (simp add: newMutex_def)
qed

theorem only_first_reader_waits_witness:
  "\<not> reading (mx_at (move 0 (RWait 0) ((move 0 (RInc 0) ((newMutex 2)\<lparr>mx_r := True\<rparr>))\<lparr>mx_n := 1\<rparr>)) ! 1)"
  using only_first_reader_waits [OF first_reader_reachable, of 0 0] by (simp add: newMutex_def)

end
