(* ===== verification/GoStrings.thy ===== *)
theory GoStrings
  imports Prelude
begin

text \<open>
  Decimal numbers as \<^verbatim>\<open>strconv.Itoa\<close> writes them, and the ASCII part of \<^verbatim>\<open>strings.ToLower\<close> and
  \<^verbatim>\<open>strings.TrimSpace\<close>.  A Go string is its list of bytes, as characters.
\<close>

definition digit :: "nat \<Rightarrow> char" where
  "digit d = char_of (48 + d)"

function digits :: "nat \<Rightarrow> string" where
  "digits n = (if n < 10 then [digit n] else digits (n div 10) @ [digit (n mod 10)])"
  by pat_completeness auto
termination by (relation "measure id") auto

declare digits.simps [simp del]

definition Itoa :: "int \<Rightarrow> string" where
  "Itoa i = (if i < 0 then CHR ''-'' # digits (nat (- i)) else digits (nat i))"

text \<open>The value of a string of digits.\<close>

definition digitValue :: "char \<Rightarrow> nat" where
  "digitValue c = of_char c - 48"

definition valueOf :: "string \<Rightarrow> nat" where
  "valueOf s = foldl (\<lambda>v c. 10 * v + digitValue c) 0 s"

lemma digitValue_digit [simp]: "d < 10 \<Longrightarrow> digitValue (digit d) = d"
  by (simp add: digitValue_def digit_def of_char_of)

lemma valueOf_digits [simp]: "valueOf (digits n) = n"
proof (induction n rule: digits.induct)
  case (1 n)
  show ?case
  proof (cases "n < 10")
    case True
    then show ?thesis by (subst digits.simps) (simp add: valueOf_def)
  next
    case False
    then have "valueOf (digits (n div 10)) = n div 10" using "1.IH" by simp
    then have "valueOf (digits (n div 10) @ [digit (n mod 10)]) = 10 * (n div 10) + n mod 10"
      by (simp add: valueOf_def)
    then show ?thesis by (subst digits.simps) (simp add: False)
  qed
qed

lemma digits_inject [simp]: "digits m = digits n \<longleftrightarrow> m = n"
  using valueOf_digits by metis

lemma digits_not_Nil [simp]: "digits n \<noteq> []"
  by (subst digits.simps) simp

lemma isDigit_digits: "c \<in> set (digits n) \<Longrightarrow> \<exists>d<10. c = digit d"
proof (induction n rule: digits.induct)
  case (1 n)
  show ?case
  proof (cases "n < 10")
    case True
    then show ?thesis using "1.prems" by (subst (asm) digits.simps) auto
  next
    case False
    then have "digits n = digits (n div 10) @ [digit (n mod 10)]" by (subst digits.simps) simp
    then consider "c \<in> set (digits (n div 10))" | "c = digit (n mod 10)" using "1.prems" by auto
    then show ?thesis
    proof cases
      case 1
      then show ?thesis using "1.IH" [OF False] by blast
    next
      case 2
      then show ?thesis by (intro exI [of _ "n mod 10"]) simp
    qed
  qed
qed

section \<open>Letters and spaces\<close>

definition lowerChar :: "char \<Rightarrow> char" where
  "lowerChar c = (if 65 \<le> (of_char c :: nat) \<and> (of_char c :: nat) \<le> 90 then char_of ((of_char c :: nat) + 32) else c)"

definition ToLower :: "string \<Rightarrow> string" where
  "ToLower = map lowerChar"

definition isSpace :: "char \<Rightarrow> bool" where
  "isSpace c \<longleftrightarrow> (of_char c :: nat) \<in> {9, 10, 11, 12, 13, 32}"

definition TrimSpace :: "string \<Rightarrow> string" where
  "TrimSpace s = rev (dropWhile isSpace (rev (dropWhile isSpace s)))"

definition hasPrefix :: "string \<Rightarrow> string \<Rightarrow> bool" where
  "hasPrefix p s \<longleftrightarrow> take (length p) s = p"

definition TrimPrefix :: "string \<Rightarrow> string \<Rightarrow> string" where
  "TrimPrefix s p = (if hasPrefix p s then drop (length p) s else s)"

text \<open>\<^verbatim>\<open>strings.Fields\<close>: the maximal runs of characters other than spaces.\<close>

function Fields :: "string \<Rightarrow> string list" where
  "Fields s =
    (case dropWhile isSpace s of
       [] \<Rightarrow> []
     | c # cs \<Rightarrow> (c # takeWhile (\<lambda>x. \<not> isSpace x) cs) # Fields (dropWhile (\<lambda>x. \<not> isSpace x) cs))"
  by pat_completeness auto
termination
proof (relation "measure length", goal_cases)
  case (2 s c cs)
  have "length (c # cs) \<le> length s" using length_dropWhile_le [of isSpace s] 2 by simp
  then show ?case using length_dropWhile_le [of "\<lambda>x. \<not> isSpace x" cs] by simp
qed simp

declare Fields.simps [simp del]

section \<open>Parsing numbers\<close>

definition isDigit :: "char \<Rightarrow> bool" where
  "isDigit c \<longleftrightarrow> 48 \<le> (of_char c :: nat) \<and> (of_char c :: nat) \<le> 57"

text \<open>\<^verbatim>\<open>strconv.ParseUint(s, 10, bits)\<close> and \<^verbatim>\<open>ParseInt\<close>; \<open>None\<close> is any error.\<close>

definition ParseUint :: "nat \<Rightarrow> string \<Rightarrow> nat option" where
  "ParseUint bits s =
    (if s = [] \<or> (\<exists>c \<in> set s. \<not> isDigit c) then None
     else if valueOf s < 2 ^ bits then Some (valueOf s) else None)"

definition ParseInt :: "nat \<Rightarrow> string \<Rightarrow> int option" where
  "ParseInt bits s =
    (case s of
       [] \<Rightarrow> None
     | c # rest \<Rightarrow>
         let (neg, ds) = (if c = CHR ''-'' then (True, rest) else if c = CHR ''+'' then (False, rest) else (False, s))
         in if ds = [] \<or> (\<exists>c \<in> set ds. \<not> isDigit c) then None
            else
              let v = int (valueOf ds) in
              if \<not> neg \<and> v \<ge> 2 ^ (bits - 1) \<or> neg \<and> v > 2 ^ (bits - 1) then None
              else Some (if neg then - v else v))"

lemma isDigit_digit: "d < 10 \<Longrightarrow> isDigit (digit d)"
  by (simp add: isDigit_def digit_def of_char_of)

lemma ParseUint_digits: "n < 2 ^ bits \<Longrightarrow> ParseUint bits (digits n) = Some n"
  using isDigit_digits isDigit_digit by (fastforce simp: ParseUint_def)

text \<open>\<^verbatim>\<open>strings.EqualFold\<close>.\<close>

definition EqualFold :: "string \<Rightarrow> string \<Rightarrow> bool" where
  "EqualFold s t \<longleftrightarrow> ToLower s = ToLower t"

text \<open>\<^verbatim>\<open>strings.Join\<close>.\<close>

fun Join :: "string \<Rightarrow> string list \<Rightarrow> string" where
  "Join sep [] = []"
| "Join sep [s] = s"
| "Join sep (s # t # ts) = s @ sep @ Join sep (t # ts)"

end
