(* ===== verification/Pcm.thy ===== *)
theory Pcm
  imports Prelude
begin

text \<open>
  Sound samples as the audio paths handle them: saturating sums, the little-endian bytes of
  \<^verbatim>\<open>int16\<close> samples, and interleaved stereo.  Shared by playback and capture
  (\<^verbatim>\<open>gumble/gumbleopenal/stream.go\<close>), recording (\<^verbatim>\<open>recording/recorder.go\<close>) and file playback
  (\<^verbatim>\<open>fileplayback/player.go\<close>).
\<close>

type_synonym int32 = "32 word"

section \<open>Saturation\<close>

text \<open>A value as far as \<^verbatim>\<open>int16\<close> goes.\<close>

definition clamp16 :: "int \<Rightarrow> int" where
  "clamp16 x = max (-32768) (min 32767 x)"

lemma clamp16_range: "-32768 \<le> clamp16 x" "clamp16 x \<le> 32767"
  by (simp_all add: clamp16_def)

lemma clamp16_id: "-32768 \<le> x \<Longrightarrow> x \<le> 32767 \<Longrightarrow> clamp16 x = x"
  by (simp add: clamp16_def)

lemma sint16_range: "-32768 \<le> sint (s :: int16)" "sint (s :: int16) \<le> 32767"
  using sint_range_size [of s] by (simp_all add: word_size)

lemma sint32_of_int: "-2147483648 \<le> x \<Longrightarrow> x < 2147483648 \<Longrightarrow> sint (word_of_int x :: int32) = x"
  by (simp add: signed_of_int signed_take_bit_int_eq_self)

lemma sint16_of_int: "-32768 \<le> x \<Longrightarrow> x \<le> 32767 \<Longrightarrow> sint (word_of_int x :: int16) = x"
  by (simp add: signed_of_int signed_take_bit_int_eq_self)

lemma scast_of_sint: "(scast x :: 'b::len word) = word_of_int (sint x)"
  by simp

text \<open>The comparisons and the conversion at the end of every sum.\<close>

definition saturate :: "int32 \<Rightarrow> int16" where
  "saturate s = (if 32767 <s s then 32767 else if s <s -32768 then -32768 else scast s)"

lemma sint_saturate: "sint (saturate s) = clamp16 (sint s)"
proof -
  have c: "(32767 <s s) = (32767 < sint s)" "(s <s -32768) = (sint s < -32768)"
    by (simp_all add: word_sless_alt)
  show ?thesis
    using sint16_of_int [of "sint s"] by (simp add: saturate_def c clamp16_def)
qed

text \<open>The body of the loop of \<^verbatim>\<open>mix\<close>.\<close>

definition mixSample :: "int16 \<Rightarrow> int16 \<Rightarrow> int16" where
  "mixSample a b = saturate (scast a + scast b)"

lemma sint_mixSample: "sint (mixSample a b) = clamp16 (sint a + sint b)"
proof -
  have "scast a + scast b = (word_of_int (sint a + sint b) :: int32)"
    by (simp only: scast_of_sint wi_hom_add)
  moreover have "sint (word_of_int (sint a + sint b) :: int32) = sint a + sint b"
    using sint16_range [of a] sint16_range [of b] by (intro sint32_of_int) simp_all
  ultimately show ?thesis by (simp only: mixSample_def sint_saturate)
qed

section \<open>Bytes of samples\<close>

definition PutUint16LE :: "int16 \<Rightarrow> bytes" where
  "PutUint16LE v = [ucast v, ucast (drop_bit 8 v)]"

definition Uint16LE :: "byte \<Rightarrow> byte \<Rightarrow> int16" where
  "Uint16LE lo hi = ucast lo OR push_bit 8 (ucast hi)"

lemma Uint16LE_Put [simp]: "Uint16LE (ucast v) (ucast (drop_bit 8 v)) = v"
  unfolding Uint16LE_def
  by (rule bit_word_eqI) (auto simp: bit_simps)

definition samplesToBytes :: "int16 list \<Rightarrow> bytes" where
  "samplesToBytes xs = concat (map PutUint16LE xs)"

fun bytesToSamples :: "bytes \<Rightarrow> int16 list" where
  "bytesToSamples (lo # hi # bs) = Uint16LE lo hi # bytesToSamples bs"
| "bytesToSamples bs = []"

lemma samplesToBytes_simps [simp]:
  "samplesToBytes [] = []" "samplesToBytes (x # xs) = PutUint16LE x @ samplesToBytes xs"
  by (simp_all add: samplesToBytes_def)

lemma length_samplesToBytes [simp]: "length (samplesToBytes xs) = 2 * length xs"
  by (induction xs) (simp_all add: PutUint16LE_def)

lemma bytesToSamples_inverse [simp]: "bytesToSamples (samplesToBytes xs) = xs"
  by (induction xs) (simp_all add: PutUint16LE_def)

lemma length_bytesToSamples [simp]: "length (bytesToSamples bs) = length bs div 2"
  by (induction bs rule: bytesToSamples.induct) simp_all

section \<open>Interleaved stereo\<close>

fun evens :: "'a list \<Rightarrow> 'a list" where
  "evens (x # y # xs) = x # evens xs"
| "evens xs = []"

fun odds :: "'a list \<Rightarrow> 'a list" where
  "odds (x # y # xs) = y # odds xs"
| "odds xs = []"

definition interleave :: "'a list \<Rightarrow> 'a list \<Rightarrow> 'a list" where
  "interleave ls rs = concat (map (\<lambda>(l, r). [l, r]) (zip ls rs))"

lemma interleave_simps [simp]: "interleave [] rs = []" "interleave ls [] = []" "interleave (l # ls) (r # rs) = l # r # interleave ls rs"
  by (simp_all add: interleave_def)

lemma length_channels [simp]: "length (evens xs) = length xs div 2" "length (odds xs) = length xs div 2"
  by (induction xs rule: evens.induct) simp_all

lemma length_interleave [simp]: "length (interleave ls rs) = 2 * min (length ls) (length rs)"
  by (induction ls rs rule: list_induct2') simp_all

lemma interleave_channels: "even (length xs) \<Longrightarrow> interleave (evens xs) (odds xs) = xs"
  by (induction xs rule: evens.induct) simp_all

lemma channels_interleave:
  "length ls = length rs \<Longrightarrow> evens (interleave ls rs) = ls" "length ls = length rs \<Longrightarrow> odds (interleave ls rs) = rs"
  by (induction ls rs rule: list_induct2) simp_all

end
