(* ===== verification/Jitter.thy ===== *)
theory Jitter
  imports AudioStreams Config
begin

text \<open>
  The jitter buffer of a user's audio stream: the closures of \<^verbatim>\<open>(*Stream).OnAudioStream\<close> and its
  packet loop (\<^verbatim>\<open>gumble/gumbleopenal/stream.go\<close>), from the packets of the channel to the packets
  that reach \<^verbatim>\<open>processAudioPacket\<close>.  The loop's variables are the fields of \<open>jitter\<close>; whether the user is
  muted locally is read for each packet, so it is part of the input.  \<open>None\<close> is a panic.
\<close>

section \<open>The buffer\<close>

definition jitterMaxPackets :: nat where
  "jitterMaxPackets = 50"

definition jitterLateResync :: int where
  "jitterLateResync = 5"

definition jitterResyncJump :: int64 where
  "jitterResyncJump = 100"

definition jitterShouldResync :: "int \<Rightarrow> int64 \<Rightarrow> bool" where
  "jitterShouldResync lateRun backJump = (lateRun \<ge> jitterLateResync \<and> jitterResyncJump \<le>s backJump)"

definition jitterPlaybackReady :: "bool \<Rightarrow> int \<Rightarrow> int \<Rightarrow> bool" where
  "jitterPlaybackReady started buffered target = (started \<or> buffered \<ge> target)"

definition audioPacketDuration :: "audioPacket \<Rightarrow> int" where
  "audioPacketDuration p =
    (if ap_AudioBuffer p = [] then 0
     else let frames = goQuot (int (length (ap_AudioBuffer p))) AudioChannels
          in goQuot (frames * (1000 * Millisecond)) AudioSampleRate)"

record jitter =
  jb_buf :: "audioPacket list"
  jb_duration :: int
  jb_nextSeq :: int64
  jb_init :: bool
  jb_started :: bool
  jb_lateRun :: int

definition resetJitter :: jitter where
  "resetJitter = \<lparr>jb_buf = [], jb_duration = 0, jb_nextSeq = 0, jb_init = False, jb_started = False, jb_lateRun = 0\<rparr>"

definition insertSorted :: "audioPacket \<Rightarrow> jitter \<Rightarrow> jitter" where
  "insertSorted p j =
    (if length (jb_buf j) \<ge> jitterMaxPackets then j
     else
       let i = length (takeWhile (\<lambda>q. ap_Sequence q <s ap_Sequence p) (jb_buf j)) in
       if i < length (jb_buf j) \<and> ap_Sequence (jb_buf j ! i) = ap_Sequence p then j
       else j\<lparr>jb_buf := take i (jb_buf j) @ p # drop i (jb_buf j),
              jb_duration := jb_duration j + audioPacketDuration p\<rparr>)"

text \<open>The number of 10 ms units that a packet of that many samples covers.\<close>

definition sequenceStep :: "nat \<Rightarrow> int64" where
  "sequenceStep samples =
    (if int samples > AudioDefaultFrameSize \<and> samples mod 2 = 0 then
       let step = word_of_int (goQuot (goQuot (int samples) 2) AudioDefaultFrameSize) :: int64
       in if 1 \<le>s step then step else 1
     else
       let step = word_of_int (goQuot (int samples) AudioDefaultFrameSize) :: int64
       in if 1 \<le>s step then step else 1)"

definition popNext :: "jitter \<Rightarrow> audioPacket option \<times> jitter" where
  "popNext j =
    (case jb_buf j of
       [] \<Rightarrow> (None, j)
     | p # rest \<Rightarrow>
         if ap_Sequence p \<noteq> jb_nextSeq j then (None, j)
         else (Some p, j\<lparr>jb_buf := rest, jb_duration := jb_duration j - audioPacketDuration p,
                jb_nextSeq := ap_Sequence p + sequenceStep (length (ap_AudioBuffer p))\<rparr>))"

section \<open>The loop\<close>

text \<open>The drain loop, with the packets it plays.  Every turn drops a packet or makes the expected number
  that of the first packet, which the next turn then pops.\<close>

function drain :: "jitter \<Rightarrow> audioPacket list \<times> jitter" where
  "drain j =
    (case popNext j of
       (Some p, j) \<Rightarrow> (case drain (j\<lparr>jb_lateRun := 0\<rparr>) of (out, j) \<Rightarrow> (p # out, j))
     | (None, _) \<Rightarrow>
         (case jb_buf j of
            [] \<Rightarrow> ([], j)
          | p # rest \<Rightarrow>
              if ap_Sequence p <s jb_nextSeq j then
                let lateRun = jb_lateRun j + 1 in
                if jitterShouldResync lateRun (jb_nextSeq j - ap_Sequence p)
                then drain (j\<lparr>jb_nextSeq := ap_Sequence p, jb_lateRun := 0\<rparr>)
                else drain (j\<lparr>jb_lateRun := lateRun, jb_duration := jb_duration j - audioPacketDuration p,
                       jb_buf := rest\<rparr>)
              else if jb_nextSeq j <s ap_Sequence p then drain (j\<lparr>jb_nextSeq := ap_Sequence p\<rparr>)
              else ([], j)))"
  by pat_completeness auto
termination
proof (relation "measure (\<lambda>j. 2 * length (jb_buf j) +
    (if jb_buf j \<noteq> [] \<and> ap_Sequence (hd (jb_buf j)) \<noteq> jb_nextSeq j then 1 else 0))", goal_cases)
  case 1
  show ?case by (rule wf_measure)
qed (auto simp: popNext_def split: list.splits if_splits)

declare drain.simps [simp del]

text \<open>One packet: what is played, and the new state.\<close>

definition receivePacket :: "int \<Rightarrow> bool \<Rightarrow> audioPacket \<Rightarrow> jitter \<Rightarrow> (audioPacket list \<times> jitter) option" where
  "receivePacket target muted packet j =
    (if ap_Terminator packet then Some ([], resetJitter)
     else if muted then Some ([], j)
     else
       let j = insertSorted packet j;
           started = (if jb_init j then Some j
                      else case jb_buf j of
                        [] \<Rightarrow> None
                      | q # _ \<Rightarrow> Some (j\<lparr>jb_nextSeq := ap_Sequence q, jb_init := True\<rparr>))
       in case started of
         None \<Rightarrow> None
       | Some j \<Rightarrow>
           if \<not> jitterPlaybackReady (jb_started j) (jb_duration j) target then Some ([], j)
           else Some (drain (j\<lparr>jb_started := True\<rparr>)))"

text \<open>The end of the stream plays what is left, in order.\<close>

function flush :: "jitter \<Rightarrow> audioPacket list" where
  "flush j =
    (case jb_buf j of
       [] \<Rightarrow> []
     | q # _ \<Rightarrow>
         (case popNext j of
            (Some p, j) \<Rightarrow> p # flush j
          | (None, _) \<Rightarrow>
              (case popNext (j\<lparr>jb_nextSeq := ap_Sequence q\<rparr>) of
                 (Some p, j) \<Rightarrow> p # flush j
               | (None, j) \<Rightarrow> [])))"
  by pat_completeness auto
termination
  by (relation "measure (\<lambda>j. length (jb_buf j))") (auto simp: popNext_def split: list.splits if_splits)

declare flush.simps [simp del]

text \<open>The whole stream: the packets of the channel with the mute flag at each, and its end.\<close>

fun playStream :: "int \<Rightarrow> (bool \<times> audioPacket) list \<Rightarrow> jitter \<Rightarrow> audioPacket list option" where
  "playStream target [] j = Some (flush j)"
| "playStream target ((muted, p) # ps) j =
    (case receivePacket target muted p j of
       None \<Rightarrow> None
     | Some (out, j) \<Rightarrow> map_option ((@) out) (playStream target ps j))"

section \<open>The drain loop handles the packets one by one\<close>

text \<open>A packet that is not behind the expected number is played; one that is behind is dropped, unless it
  is at least the fifth in a row and a second or more behind.  The state is the expected number and
  the length of the run of late packets.\<close>

fun direct :: "int64 \<Rightarrow> int \<Rightarrow> audioPacket list \<Rightarrow> audioPacket list \<times> int64 \<times> int" where
  "direct nextSeq late [] = ([], nextSeq, late)"
| "direct nextSeq late (p # ps) =
    (if ap_Sequence p <s nextSeq \<and> \<not> jitterShouldResync (late + 1) (nextSeq - ap_Sequence p)
     then direct nextSeq (late + 1) ps
     else case direct (ap_Sequence p + sequenceStep (length (ap_AudioBuffer p))) 0 ps of (out, r) \<Rightarrow> (p # out, r))"

definition durations :: "audioPacket list \<Rightarrow> int" where
  "durations ps = sum_list (map audioPacketDuration ps)"

lemma durations_simps [simp]:
  "durations [] = 0" "durations (p # ps) = audioPacketDuration p + durations ps"
  "durations (ps @ qs) = durations ps + durations qs"
  by (simp_all add: durations_def)

lemma audioPacketDuration_nonneg: "0 \<le> audioPacketDuration p"
  by (simp add: audioPacketDuration_def Let_def audio_constants goQuot_nonneg pos_imp_zdiv_nonneg_iff)

lemma durations_nonneg: "0 \<le> durations ps"
  by (induction ps) (simp_all add: audioPacketDuration_nonneg add_nonneg_nonneg)

text \<open>The state after the drain loop, from its result.\<close>

definition drained :: "jitter \<Rightarrow> int64 \<times> int \<Rightarrow> jitter" where
  "drained j r = j\<lparr>jb_buf := [], jb_duration := jb_duration j - durations (jb_buf j),
     jb_nextSeq := fst r, jb_lateRun := snd r\<rparr>"

lemma drain_play:
  assumes "jb_buf j = p # rest" and "ap_Sequence p = jb_nextSeq j"
  shows "drain j = (case drain (j\<lparr>jb_buf := rest, jb_duration := jb_duration j - audioPacketDuration p,
      jb_nextSeq := ap_Sequence p + sequenceStep (length (ap_AudioBuffer p)), jb_lateRun := 0\<rparr>) of (out, j) \<Rightarrow> (p # out, j))"
  using assms by (subst drain.simps) (simp add: popNext_def)

lemma drain_direct: "drain j = (fst (direct (jb_nextSeq j) (jb_lateRun j) (jb_buf j)),
    drained j (snd (direct (jb_nextSeq j) (jb_lateRun j) (jb_buf j))))"
proof (induction "length (jb_buf j)" arbitrary: j)
  case 0
  then show ?case by (subst drain.simps) (simp add: popNext_def drained_def)
next
  case (Suc n)
  then obtain p rest where buf: "jb_buf j = p # rest" and n: "length rest = n"
    by (metis length_Suc_conv)
  let ?next = "ap_Sequence p + sequenceStep (length (ap_AudioBuffer p))"
  have hit: "drain (j'\<lparr>jb_nextSeq := ap_Sequence p, jb_lateRun := l\<rparr>) =
      (p # fst (direct ?next 0 rest), drained j (snd (direct ?next 0 rest)))"
    if "\<exists>a b. j' = j\<lparr>jb_nextSeq := a, jb_lateRun := b\<rparr>" for j' l
  proof -
    have "drain (j\<lparr>jb_buf := rest, jb_duration := jb_duration j - audioPacketDuration p,
        jb_nextSeq := ?next, jb_lateRun := 0\<rparr>) = (fst (direct ?next 0 rest), drained j (snd (direct ?next 0 rest)))"
      using Suc(1) [of "j\<lparr>jb_buf := rest, jb_duration := jb_duration j - audioPacketDuration p,
        jb_nextSeq := ?next, jb_lateRun := 0\<rparr>"] n buf by (simp add: drained_def)
    then show ?thesis using that buf by (auto simp: drain_play)
  qed
  have same: "\<exists>a b. j = j\<lparr>jb_nextSeq := a, jb_lateRun := b\<rparr>"
    by (intro exI [of _ "jb_nextSeq j"] exI [of _ "jb_lateRun j"]) simp
  consider (late) "ap_Sequence p <s jb_nextSeq j" | (hit) "ap_Sequence p = jb_nextSeq j" | (ahead) "jb_nextSeq j <s ap_Sequence p"
    by (metis signed.linorder_cases)
  then show ?case
  proof cases
    case late
    then have ne: "ap_Sequence p \<noteq> jb_nextSeq j" by auto
    show ?thesis
    proof (cases "jitterShouldResync (jb_lateRun j + 1) (jb_nextSeq j - ap_Sequence p)")
      case True
      have "drain j = drain (j\<lparr>jb_nextSeq := ap_Sequence p, jb_lateRun := 0\<rparr>)"
        by (subst drain.simps) (simp add: popNext_def buf ne late True)
      then show ?thesis using hit [OF same, of 0] by (simp add: buf late True split: prod.split)
    next
      case False
      have "drain j = drain (j\<lparr>jb_lateRun := jb_lateRun j + 1, jb_duration := jb_duration j - audioPacketDuration p, jb_buf := rest\<rparr>)"
        by (subst drain.simps) (simp add: popNext_def buf ne late False)
      then show ?thesis
        using Suc(1) [of "j\<lparr>jb_lateRun := jb_lateRun j + 1, jb_duration := jb_duration j - audioPacketDuration p, jb_buf := rest\<rparr>"] n
        by (simp add: buf late False drained_def)
    qed
  next
    case hit': hit
    have "drain j = drain (j\<lparr>jb_nextSeq := ap_Sequence p, jb_lateRun := jb_lateRun j\<rparr>)"
      by (simp add: hit')
    then show ?thesis using hit [OF same, of "jb_lateRun j"] by (simp add: buf hit' split: prod.split)
  next
    case ahead
    then have ne: "ap_Sequence p \<noteq> jb_nextSeq j" and nl: "\<not> ap_Sequence p <s jb_nextSeq j" by auto
    have "drain j = drain (j\<lparr>jb_nextSeq := ap_Sequence p\<rparr>)"
      by (subst drain.simps) (simp add: popNext_def buf ne nl ahead)
    also have "\<dots> = drain (j\<lparr>jb_nextSeq := ap_Sequence p, jb_lateRun := jb_lateRun j\<rparr>)" by simp
    finally show ?thesis using hit [OF same, of "jb_lateRun j"] by (simp add: buf nl split: prod.split)
  qed
qed

section \<open>The invariant\<close>

definition ascending :: "audioPacket list \<Rightarrow> bool" where
  "ascending ps \<longleftrightarrow> sorted_wrt (\<lambda>p q. ap_Sequence p <s ap_Sequence q) ps"

definition jitterOk :: "jitter \<Rightarrow> bool" where
  "jitterOk j \<longleftrightarrow> ascending (jb_buf j) \<and> length (jb_buf j) \<le> jitterMaxPackets
     \<and> jb_duration j = durations (jb_buf j) \<and> (jb_init j \<or> jb_buf j = [] \<and> \<not> jb_started j)
     \<and> (jb_started j \<longrightarrow> jb_buf j = [])"

lemma jitterOk_reset [simp]: "jitterOk resetJitter"
  by (simp add: jitterOk_def resetJitter_def ascending_def)

lemma insert_position:
  assumes "ascending ps"
    and i_def: "i = length (takeWhile (\<lambda>q. ap_Sequence q <s s) ps)"
  shows "\<And>q. q \<in> set (take i ps) \<Longrightarrow> ap_Sequence q <s s" and "\<And>q. q \<in> set (drop i ps) \<Longrightarrow> \<not> ap_Sequence q <s s"
    and "i < length ps \<and> ap_Sequence (ps ! i) = s \<or> (\<forall>q \<in> set (drop i ps). s <s ap_Sequence q)"
proof -
  show "\<And>q. q \<in> set (take i ps) \<Longrightarrow> ap_Sequence q <s s"
    unfolding i_def takeWhile_eq_take [symmetric] by (auto dest: set_takeWhileD)
  have drop: "drop i ps = dropWhile (\<lambda>q. ap_Sequence q <s s) ps"
    unfolding i_def by (simp add: dropWhile_eq_drop)
  have ge: "\<not> ap_Sequence q <s s" if "q \<in> set (drop i ps)" for q
  proof (cases "drop i ps")
    case (Cons x xs)
    have "\<not> ap_Sequence x <s s" using Cons drop by (metis hd_dropWhile list.discI list.sel(1))
    moreover have "sorted_wrt (\<lambda>p q. ap_Sequence p <s ap_Sequence q) (x # xs)"
      using assms(1) Cons unfolding ascending_def by (metis append_take_drop_id sorted_wrt_append)
    ultimately show ?thesis using that Cons by (auto dest: signed.less_trans)
  qed (use that in simp)
  show "\<And>q. q \<in> set (drop i ps) \<Longrightarrow> \<not> ap_Sequence q <s s" by (rule ge)
  show "i < length ps \<and> ap_Sequence (ps ! i) = s \<or> (\<forall>q \<in> set (drop i ps). s <s ap_Sequence q)"
  proof (cases "drop i ps")
    case (Cons x xs)
    have i: "i < length ps" using Cons by (metis drop_eq_Nil list.discI not_less)
    then have x: "ps ! i = x" using Cons by (metis Cons_nth_drop_Suc list.inject)
    have lt: "\<forall>q\<in>set xs. ap_Sequence x <s ap_Sequence q"
      using assms(1) Cons unfolding ascending_def by (metis append_take_drop_id sorted_wrt.simps(2) sorted_wrt_append)
    have "\<not> ap_Sequence x <s s" by (rule ge) (simp add: Cons)
    then show ?thesis using i x lt Cons by (metis set_ConsD signed.less_trans signed.linorder_cases)
  qed simp
qed

lemma ascending_insert:
  assumes "ascending (take i ps @ drop i ps)" and "\<forall>q \<in> set (take i ps). ap_Sequence q <s ap_Sequence p"
    and "\<forall>q \<in> set (drop i ps). ap_Sequence p <s ap_Sequence q"
  shows "ascending (take i ps @ p # drop i ps)"
  using assms unfolding ascending_def sorted_wrt_append by (simp only: sorted_wrt.simps list.set ball_simps) blast

text \<open>The ways of an insertion: nothing happens, or the packet gets its place.\<close>

lemma insertSorted_cases:
  assumes "ascending (jb_buf j)"
  obtains (same) "insertSorted p j = j" and "jb_buf j \<noteq> []"
  | (new) i where "length (jb_buf j) < jitterMaxPackets"
      and "insertSorted p j = j\<lparr>jb_buf := take i (jb_buf j) @ p # drop i (jb_buf j), jb_duration := jb_duration j + audioPacketDuration p\<rparr>"
      and "ascending (take i (jb_buf j) @ p # drop i (jb_buf j))"
proof -
  obtain i where i: "i = length (takeWhile (\<lambda>q. ap_Sequence q <s ap_Sequence p) (jb_buf j))" by blast
  note pos = insert_position [OF assms i]
  have def: "insertSorted p j =
      (if length (jb_buf j) \<ge> jitterMaxPackets then j
       else if i < length (jb_buf j) \<and> ap_Sequence (jb_buf j ! i) = ap_Sequence p then j
       else j\<lparr>jb_buf := take i (jb_buf j) @ p # drop i (jb_buf j), jb_duration := jb_duration j + audioPacketDuration p\<rparr>)"
    by (simp add: insertSorted_def i Let_def)
  show thesis
  proof (cases "length (jb_buf j) \<ge> jitterMaxPackets \<or> i < length (jb_buf j) \<and> ap_Sequence (jb_buf j ! i) = ap_Sequence p")
    case True
    show thesis by (rule same) (use True def in \<open>auto simp: jitterMaxPackets_def\<close>)
  next
    case False
    then have above: "\<forall>q \<in> set (drop i (jb_buf j)). ap_Sequence p <s ap_Sequence q" using pos(3) by blast
    show thesis
    proof (rule new)
      show "ascending (take i (jb_buf j) @ p # drop i (jb_buf j))"
        by (rule ascending_insert) (use assms pos(1) above in \<open>simp_all only: append_take_drop_id, blast+\<close>)
    qed (use False def in auto)
  qed
qed

lemma insertSorted_ok:
  assumes "ascending (jb_buf j)" and "length (jb_buf j) \<le> jitterMaxPackets" and "jb_duration j = durations (jb_buf j)"
  shows "ascending (jb_buf (insertSorted p j)) \<and> length (jb_buf (insertSorted p j)) \<le> jitterMaxPackets
    \<and> jb_duration (insertSorted p j) = durations (jb_buf (insertSorted p j)) \<and> jb_buf (insertSorted p j) \<noteq> []"
  using assms(1)
proof (cases rule: insertSorted_cases [where p = p])
  case same
  then show ?thesis using assms by simp
next
  case (new i)
  have "durations (take i (jb_buf j)) + durations (drop i (jb_buf j)) = durations (jb_buf j)"
    by (metis append_take_drop_id durations_simps(3))
  then show ?thesis using new assms by simp
qed

lemma insertSorted_flags [simp]:
  "jb_init (insertSorted p j) = jb_init j" "jb_started (insertSorted p j) = jb_started j"
  "jb_nextSeq (insertSorted p j) = jb_nextSeq j" "jb_lateRun (insertSorted p j) = jb_lateRun j"
  by (simp_all add: insertSorted_def Let_def)

lemma receivePacket_ok:
  assumes "jitterOk j"
  obtains out j' where "receivePacket target muted p j = Some (out, j')" and "jitterOk j'"
proof -
  let ?k = "insertSorted p j"
  note k = insertSorted_ok [of j p] assms [unfolded jitterOk_def]
  consider "ap_Terminator p \<or> muted" | (ins) "\<not> ap_Terminator p" "\<not> muted" by blast
  then show thesis
  proof cases
    case 1
    then show thesis using that assms by (cases "ap_Terminator p") (auto simp: receivePacket_def)
  next
    case ins
    define k' where "k' = (if jb_init ?k then ?k else ?k\<lparr>jb_nextSeq := ap_Sequence (hd (jb_buf ?k)), jb_init := True\<rparr>)"
    have r: "receivePacket target muted p j =
        (if jitterPlaybackReady (jb_started k') (jb_duration k') target then Some (drain (k'\<lparr>jb_started := True\<rparr>)) else Some ([], k'))"
      using ins k by (auto simp: receivePacket_def k'_def Let_def split: list.splits)
    have started: "\<not> jitterPlaybackReady (jb_started k') (jb_duration k') target \<Longrightarrow> \<not> jb_started k'"
      by (simp add: jitterPlaybackReady_def)
    have k': "ascending (jb_buf k')" "length (jb_buf k') \<le> jitterMaxPackets" "jb_duration k' = durations (jb_buf k')" "jb_init k'"
      using k by (auto simp: k'_def)
    show thesis
    proof (cases "jitterPlaybackReady (jb_started k') (jb_duration k') target")
      case True
      show thesis by (rule that) (use r True k' in \<open>auto simp: drain_direct drained_def jitterOk_def ascending_def\<close>)
    next
      case False
      show thesis by (rule that) (use r False k' started in \<open>auto simp: jitterOk_def\<close>)
    qed
  qed
qed

lemma flush_buffer: "flush j = jb_buf j"
proof (induction "length (jb_buf j)" arbitrary: j)
  case 0
  then show ?case by (subst flush.simps) simp
next
  case (Suc n)
  then obtain p rest where buf: "jb_buf j = p # rest" and n: "length rest = n" by (metis length_Suc_conv)
  have "flush j = p # rest"
    by (subst flush.simps, use Suc(1) n in \<open>simp add: buf popNext_def\<close>)
  then show ?case by (simp add: buf)
qed

text \<open>C22. In every stream, whatever the order, number and lengths of its packets and however the user is
  muted in between, the loop never panics; the buffer never holds more than 50 packets, in ascending
  order without duplicates, its total duration is tracked exactly, and once playback has started it
  is empty between the packets.\<close>

theorem jitter_invariant:
  "\<exists>j. foldM (\<lambda>(muted, p) j. map_option snd (receivePacket target muted p j)) events resetJitter = Some j \<and> jitterOk j"
proof -
  have "\<exists>j'. foldM (\<lambda>(muted, p) j. map_option snd (receivePacket target muted p j)) events j = Some j' \<and> jitterOk j'"
    if "jitterOk j" for j
    using that
  proof (induction events arbitrary: j)
    case (Cons e events)
    obtain muted p where e: "e = (muted, p)" by (cases e)
    obtain out j' where "receivePacket target muted p j = Some (out, j')" and "jitterOk j'"
      using receivePacket_ok [OF Cons.prems] .
    then show ?case using Cons.IH [of j'] by (simp add: e)
  qed simp
  then show ?thesis by simp
qed

section \<open>What is played\<close>

definition speech :: "audioPacket list \<Rightarrow> bool" where
  "speech ps \<longleftrightarrow> (\<forall>p \<in> set ps. \<not> ap_Terminator p)"

lemma speech_simps [simp]: "speech []" "speech (p # ps) \<longleftrightarrow> \<not> ap_Terminator p \<and> speech ps"
  by (simp_all add: speech_def)

lemma receive_started:
  assumes "jitterOk j" and "jb_started j" and "\<not> ap_Terminator p"
  shows "receivePacket target False p j = Some (drain (j\<lparr>jb_buf := [p], jb_duration := audioPacketDuration p, jb_started := True\<rparr>))"
proof -
  have j: "jb_buf j = []" "jb_init j" "jb_duration j = 0" using assms by (auto simp: jitterOk_def)
  have "insertSorted p j = j\<lparr>jb_buf := [p], jb_duration := audioPacketDuration p\<rparr>"
    using j by (simp add: insertSorted_def jitterMaxPackets_def)
  then show ?thesis using assms j by (simp add: receivePacket_def jitterPlaybackReady_def)
qed

lemma play_started:
  assumes "jitterOk j" and "jb_started j" and "speech ps"
  shows "playStream target (map (Pair False) ps) j = Some (fst (direct (jb_nextSeq j) (jb_lateRun j) ps))"
  using assms
proof (induction ps arbitrary: j)
  case Nil
  then show ?case by (simp add: flush_buffer jitterOk_def)
next
  case (Cons p ps)
  define d where "d = direct (jb_nextSeq j) (jb_lateRun j) [p]"
  define j' where "j' = j\<lparr>jb_buf := [], jb_duration := 0, jb_nextSeq := fst (snd d), jb_lateRun := snd (snd d)\<rparr>"
  have r: "receivePacket target False p j = Some (fst d, j')"
    using Cons.prems by (simp add: receive_started drain_direct d_def j'_def drained_def)
  have ok: "jitterOk j'" "jb_started j'" using Cons.prems by (auto simp: j'_def jitterOk_def ascending_def)
  have "direct (jb_nextSeq j) (jb_lateRun j) (p # ps) = (case direct (fst (snd d)) (snd (snd d)) ps of (out, r) \<Rightarrow> (fst d @ out, r))"
    by (simp add: d_def split: prod.split)
  then show ?case
    using r Cons.IH [OF ok] Cons.prems by (simp add: j'_def split: prod.split)
qed

definition spaced :: "audioPacket \<Rightarrow> audioPacket \<Rightarrow> bool" where
  "spaced p q \<longleftrightarrow> ap_Sequence p <s ap_Sequence q \<and> ap_Sequence p + sequenceStep (length (ap_AudioBuffer p)) \<le>s ap_Sequence q"

lemma direct_all:
  assumes "successively spaced ps" and "ps \<noteq> []" and "nextSeq \<le>s ap_Sequence (hd ps)"
  shows "direct nextSeq late ps = (ps, ap_Sequence (last ps) + sequenceStep (length (ap_AudioBuffer (last ps))), 0)"
  using assms
proof (induction ps arbitrary: nextSeq late)
  case (Cons p ps)
  have np: "\<not> ap_Sequence p <s nextSeq" using Cons.prems(3) by (simp add: signed.not_less)
  show ?case
  proof (cases ps)
    case (Cons q qs)
    then show ?thesis using Cons.IH [of "ap_Sequence p + sequenceStep (length (ap_AudioBuffer p))" 0] Cons.prems np
      by (simp add: spaced_def)
  qed (use np in simp)
qed simp

lemma successively_ascending: "successively spaced ps \<Longrightarrow> ascending ps"
proof -
  assume "successively spaced ps"
  then have "successively (\<lambda>p q. ap_Sequence p <s ap_Sequence q) ps"
    by (rule successively_mono) (simp_all add: spaced_def)
  moreover have "transp (\<lambda>p q :: audioPacket. ap_Sequence p <s ap_Sequence q)"
    by (rule transpI) (rule signed.less_trans)
  ultimately show "ascending ps" by (simp add: ascending_def successively_conv_sorted_wrt)
qed

text \<open>Once playback has started the jitter buffer is equivalent to the packet-by-packet rule
  \<open>direct\<close>: a packet is played at once or never.\<close>

theorem started_direct:
  assumes "jitterOk j" and "jb_started j" and "speech ps"
  shows "playStream target (map (Pair False) ps) j = Some (fst (direct (jb_nextSeq j) (jb_lateRun j) ps))"
  by (rule play_started [OF assms])

definition voice :: "int64 \<Rightarrow> nat \<Rightarrow> audioPacket" where
  "voice seq samples = \<lparr>ap_Sender = 0, ap_Target = None, ap_Sequence = seq, ap_AudioBuffer = replicate samples 0,
     ap_Terminator = False, ap_Position = None, ap_VolumeAdjustment = 0\<rparr>"

definition terminator :: audioPacket where
  "terminator = voice 0 0\<lparr>ap_Terminator := True\<rparr>"

lemma voice_fields [simp]:
  "ap_Sequence (voice s n) = s" "length (ap_AudioBuffer (voice s n)) = n" "\<not> ap_Terminator (voice s n)"
  "audioPacketDuration (voice s n) = (if n = 0 then 0 else goQuot (goQuot (int n) 2 * (1000 * Millisecond)) 48000)"
  by (simp_all add: voice_def audioPacketDuration_def audio_constants)

theorem started_direct_witness:
  "playStream 0 [(False, voice 3 960), (False, voice 2 960), (False, voice 7 960)]
     (resetJitter\<lparr>jb_init := True, jb_started := True, jb_nextSeq := 3\<rparr>) = Some [voice 3 960, voice 7 960]"
proof -
  let ?j = "resetJitter\<lparr>jb_init := True, jb_started := True, jb_nextSeq := 3\<rparr>"
  have "jitterOk ?j" by (simp add: jitterOk_def resetJitter_def ascending_def)
  from started_direct [OF this, of "[voice 3 960, voice 2 960, voice 7 960]" 0] show ?thesis
    by (simp add: resetJitter_def sequenceStep_def audio_constants goQuot_def jitterShouldResync_def
        jitterLateResync_def word_sless_alt word_sle_eq)
qed

section \<open>Streams without loss of order\<close>

lemma ascending_append_one:
  assumes "ascending (qs @ [p])"
  shows "takeWhile (\<lambda>q. ap_Sequence q <s ap_Sequence p) qs = qs"
  using assms by (simp add: ascending_def sorted_wrt_append takeWhile_eq_all_conv)

lemma insert_last:
  assumes "ascending (jb_buf j @ [p])" and "length (jb_buf j) < jitterMaxPackets"
  shows "insertSorted p j = j\<lparr>jb_buf := jb_buf j @ [p], jb_duration := jb_duration j + audioPacketDuration p\<rparr>"
  unfolding insertSorted_def ascending_append_one [OF assms(1)] using assms(2) by (simp add: Let_def)

lemma unstarted_played:
  assumes "successively spaced (jb_buf j @ ps)" and "speech ps" and "\<not> jb_started j"
    and "jb_init j \<longleftrightarrow> jb_buf j \<noteq> []" and "jb_buf j \<noteq> [] \<Longrightarrow> jb_nextSeq j = ap_Sequence (hd (jb_buf j))"
    and "jb_duration j = durations (jb_buf j)" and "jb_buf j = [] \<or> durations (jb_buf j) < target"
    and "\<forall>p \<in> set (jb_buf j @ ps). 10 * Millisecond \<le> audioPacketDuration p" and "target \<le> 500 * Millisecond"
  shows "playStream target (map (Pair False) ps) j = Some (jb_buf j @ ps)"
  using assms
proof (induction ps arbitrary: j)
  case Nil
  then show ?case by (simp add: flush_buffer)
next
  case (Cons p ps)
  have len: "int (length qs) * (10 * Millisecond) \<le> durations qs" if "\<forall>q \<in> set qs. 10 * Millisecond \<le> audioPacketDuration q" for qs
    using that by (induction qs) (auto simp: algebra_simps)
  have "length (jb_buf j) < jitterMaxPackets"
    using len [of "jb_buf j"] Cons.prems(7-9) by (auto simp: jitterMaxPackets_def audio_constants)
  moreover have sp: "successively spaced (jb_buf j @ [p])"
    using Cons.prems(1) by (auto simp: successively_append_iff)
  ultimately have ins: "insertSorted p j = j\<lparr>jb_buf := jb_buf j @ [p], jb_duration := jb_duration j + audioPacketDuration p\<rparr>"
    using successively_ascending insert_last by blast
  define k where "k = j\<lparr>jb_buf := jb_buf j @ [p], jb_duration := jb_duration j + audioPacketDuration p,
      jb_nextSeq := ap_Sequence (hd (jb_buf j @ [p])), jb_init := True\<rparr>"
  have r: "receivePacket target False p j =
      Some (if target \<le> jb_duration k then drain (k\<lparr>jb_started := True\<rparr>) else ([], k))"
  proof (cases "jb_init j")
    case True
    then have "insertSorted p j = k"
      using Cons.prems(4,5) by (intro jitter.equality) (simp_all add: ins k_def)
    then show ?thesis using True Cons.prems(2,3) ins by (simp add: receivePacket_def jitterPlaybackReady_def k_def)
  next
    case False
    then show ?thesis using Cons.prems(2-4) ins by (simp add: receivePacket_def jitterPlaybackReady_def k_def)
  qed
  show ?case
  proof (cases "target \<le> jb_duration k")
    case True
    define d where "d = direct (jb_nextSeq k) (jb_lateRun k) (jb_buf k)"
    have d: "d = (jb_buf k, ap_Sequence p + sequenceStep (length (ap_AudioBuffer p)), 0)"
      unfolding d_def by (subst direct_all) (use sp in \<open>simp_all add: k_def\<close>)
    define k' where "k' = drained (k\<lparr>jb_started := True\<rparr>) (snd d)"
    have "receivePacket target False p j = Some (jb_buf k, k')"
      using r True d by (simp add: drain_direct k'_def d_def)
    moreover have "jitterOk k'" "jb_started k'" "jb_nextSeq k' = ap_Sequence p + sequenceStep (length (ap_AudioBuffer p))"
      using Cons.prems(6) by (simp_all add: k'_def drained_def jitterOk_def ascending_def k_def d)
    moreover have "fst (direct (ap_Sequence p + sequenceStep (length (ap_AudioBuffer p))) l ps) = ps" for l
    proof (cases "ps = []")
      case False
      have sps: "successively spaced ps" "spaced p (hd ps)"
        using Cons.prems(1) False by (auto simp: successively_append_iff successively_Cons)
      show ?thesis using direct_all [OF sps(1) False, of _ l] sps(2) by (simp add: spaced_def)
    qed simp
    ultimately show ?thesis
      using play_started [of k' ps target] Cons.prems(2) by (simp add: k_def)
  next
    case False
    have "playStream target (map (Pair False) ps) k = Some (jb_buf k @ ps)"
    proof (rule Cons.IH)
      show "jb_buf k = [] \<or> durations (jb_buf k) < target" using False Cons.prems(6) by (simp add: k_def)
    qed (use Cons.prems in \<open>simp_all add: k_def\<close>)
    then show ?thesis using r False by (simp add: k_def)
  qed
qed



section \<open>Losses of the buffer\<close>

lemma durations_insert: "durations (jb_buf (insertSorted p j)) \<le> durations (jb_buf j) + audioPacketDuration p"
proof -
  have "durations (take i ps) + durations (drop i ps) = durations ps" for i ps
    by (metis append_take_drop_id durations_simps(3))
  then show ?thesis using audioPacketDuration_nonneg [of p] by (simp add: insertSorted_def Let_def algebra_simps)
qed

lemma map_option_append_Nil [simp]: "map_option ((@) []) x = x"
  by (cases x) simp_all

lemma unstarted_waits:
  assumes "jitterOk j" and "\<not> jb_started j" and "speech ps" and "jb_duration j + durations ps < target"
  shows "\<exists>j'. playStream target (map (Pair False) ps @ qs) j = playStream target qs j'"
  using assms
proof (induction ps arbitrary: j)
  case Nil
  show ?case by (rule exI [of _ j]) simp
next
  case (Cons p ps)
  obtain out j' where r: "receivePacket target False p j = Some (out, j')" and ok: "jitterOk j'"
    using receivePacket_ok [OF Cons.prems(1)] .
  have ins: "jb_duration (insertSorted p j) = durations (jb_buf (insertSorted p j))" "jb_buf (insertSorted p j) \<noteq> []"
    using insertSorted_ok [of j p] Cons.prems(1) by (simp_all add: jitterOk_def)
  have "jb_duration (insertSorted p j) \<le> jb_duration j + audioPacketDuration p"
    using ins durations_insert [of p j] Cons.prems(1) by (simp add: jitterOk_def)
  moreover have "0 \<le> durations ps" by (rule durations_nonneg)
  ultimately have less: "jb_duration (insertSorted p j) + durations ps < target" "jb_duration (insertSorted p j) < target"
    using Cons.prems(4) by simp_all
  have "out = []" "jb_duration j' = jb_duration (insertSorted p j)" "\<not> jb_started j'"
    using r less(2) ins(2) Cons.prems(2,3)
    by (auto simp: receivePacket_def jitterPlaybackReady_def Let_def split: if_splits list.splits)
  then show ?case using r Cons.IH [OF ok] less(1) Cons.prems(3) by simp
qed

text \<open>A talk burst that is shorter than the playout delay is never heard: its terminator empties the
  buffer, and the packets that were waiting in it are dropped.\<close>

theorem short_burst_lost:
  assumes "speech ps" and "durations ps < target" and "ap_Terminator t"
  shows "playStream target (map (Pair False) ps @ [(False, t)]) resetJitter = Some []"
proof -
  obtain j' where "playStream target (map (Pair False) ps @ [(False, t)]) resetJitter = playStream target [(False, t)] j'"
    using unstarted_waits [of resetJitter ps target "[(False, t)]"] assms(1,2) by (auto simp: resetJitter_def jitterOk_def ascending_def)
  then show ?thesis using assms(3) by (simp add: receivePacket_def flush_buffer) (simp add: resetJitter_def)
qed

theorem short_burst_lost_witness:
  "playStream (40 * Millisecond) [(False, voice 0 960), (False, voice 1 960), (False, voice 2 960), (False, terminator)] resetJitter = Some []"
  using short_burst_lost [of "[voice 0 960, voice 1 960, voice 2 960]" "40 * Millisecond" terminator]
  by (simp add: terminator_def audio_constants goQuot_def)

lemma direct_late:
  assumes "\<forall>p \<in> set ps. ap_Sequence p <s nextSeq" and "late + int (length ps) < jitterLateResync"
  shows "direct nextSeq late (ps @ qs) = direct nextSeq (late + int (length ps)) qs"
  using assms by (induction ps arbitrary: late) (auto simp: jitterShouldResync_def algebra_simps)

text \<open>The buffer does not put packets in order: of the first two packets of a burst, when the second
  was sent before the first, it is dropped, even while both are still waiting in the buffer.\<close>

theorem reordered_dropped:
  assumes "speech [q, p]" and "ap_Sequence p <s ap_Sequence q" and "target \<le> durations [q, p]"
    and "ap_Sequence q <s ap_Sequence q + sequenceStep (length (ap_AudioBuffer q))"
  shows "playStream target [(False, q), (False, p)] resetJitter = Some [q]"
proof -
  let ?next = "ap_Sequence q + sequenceStep (length (ap_AudioBuffer q))"
  let ?j = "resetJitter\<lparr>jb_buf := [q], jb_duration := audioPacketDuration q, jb_nextSeq := ap_Sequence q, jb_init := True\<rparr>"
  have ins: "insertSorted q resetJitter = resetJitter\<lparr>jb_buf := [q], jb_duration := audioPacketDuration q\<rparr>"
    by (simp add: insertSorted_def resetJitter_def jitterMaxPackets_def)
  have late: "direct n 0 (p # ps) = direct n 1 ps" if "ap_Sequence p <s n" for n ps
    using that by (simp add: jitterShouldResync_def jitterLateResync_def)
  have first: "receivePacket target False q resetJitter =
      Some (if target \<le> audioPacketDuration q then drain (?j\<lparr>jb_started := True\<rparr>) else ([], ?j))"
    using assms(1) ins by (simp add: receivePacket_def jitterPlaybackReady_def) (simp add: resetJitter_def)
  show ?thesis
  proof (cases "target \<le> audioPacketDuration q")
    case True
    define k where "k = resetJitter\<lparr>jb_nextSeq := ?next, jb_init := True, jb_started := True\<rparr>"
    have "drain (?j\<lparr>jb_started := True\<rparr>) = ([q], k)"
      by (simp add: drain_direct drained_def k_def resetJitter_def)
    moreover have "playStream target [(False, p)] k = Some []"
      using play_started [of k "[p]" target] assms(1) late [of ?next "[]"] signed.less_trans [OF assms(2,4)]
      by (simp add: k_def jitterOk_def ascending_def resetJitter_def)
    ultimately show ?thesis using first True by simp
  next
    case False
    have ins2: "insertSorted p ?j = ?j\<lparr>jb_buf := [p, q], jb_duration := audioPacketDuration q + audioPacketDuration p\<rparr>"
      using assms(2) by (auto simp: insertSorted_def jitterMaxPackets_def Let_def)
    have "direct (ap_Sequence q) 0 [p, q] = ([q], ?next, 0)" using late [OF assms(2)] by simp
    then have "receivePacket target False p ?j = Some ([q], resetJitter\<lparr>jb_nextSeq := ?next, jb_init := True, jb_started := True\<rparr>)"
      using assms(1,3) ins2 by (simp add: receivePacket_def jitterPlaybackReady_def drain_direct drained_def resetJitter_def)
    then show ?thesis using first False by (simp add: flush_buffer) (simp add: resetJitter_def)
  qed
qed

theorem reordered_dropped_witness:
  "playStream (40 * Millisecond) [(False, voice 2 1920), (False, voice 0 1920)] resetJitter = Some [voice 2 1920]"
  by (rule reordered_dropped) (simp_all add: sequenceStep_def audio_constants goQuot_def word_sless_alt word_sle_eq)

section \<open>A sender that starts again\<close>

definition behind :: "int64 \<Rightarrow> audioPacket \<Rightarrow> bool" where
  "behind nextSeq p \<longleftrightarrow> ap_Sequence p <s nextSeq \<and> jitterResyncJump \<le>s nextSeq - ap_Sequence p"

text \<open>A sender that starts its frame numbers again, a second or more behind, without a terminator,
  loses four packets: the fifth is played, and from there its stream is played completely.\<close>

theorem sender_restart:
  assumes "jitterOk j" and "jb_started j" and "jb_lateRun j = 0" and "length lost = 4"
    and "\<forall>p \<in> set lost. behind (jb_nextSeq j) p" and "ps \<noteq> []" and "behind (jb_nextSeq j) (hd ps)"
    and "successively spaced ps" and "speech (lost @ ps)"
  shows "playStream target (map (Pair False) (lost @ ps)) j = Some ps"
proof -
  have "direct (jb_nextSeq j) 0 (lost @ ps) = direct (jb_nextSeq j) 4 ps"
    using direct_late [of lost "jb_nextSeq j" 0 ps] assms(4,5) by (simp add: behind_def jitterLateResync_def)
  also have "\<dots> = direct (ap_Sequence (hd ps)) 0 ps"
    using assms(6,7) by (cases ps) (simp_all add: behind_def jitterShouldResync_def jitterLateResync_def)
  also have "fst \<dots> = ps" using direct_all [OF assms(8,6), of "ap_Sequence (hd ps)"] by simp
  finally show ?thesis using play_started [OF assms(1,2,9), of target] assms(3) by simp
qed

theorem sender_restart_witness:
  "playStream 0 (map (Pair False) ([voice 0 960, voice 1 960, voice 2 960, voice 3 960] @ [voice 4 960, voice 5 960]))
     (resetJitter\<lparr>jb_init := True, jb_started := True, jb_nextSeq := 500\<rparr>) = Some [voice 4 960, voice 5 960]"
  by (rule sender_restart)
    (simp_all add: jitterOk_def resetJitter_def ascending_def behind_def jitterResyncJump_def spaced_def sequenceStep_def
      audio_constants goQuot_def word_sless_alt word_sle_eq)

end
