(* ===== verification/Playback.thy ===== *)
theory Playback
  imports Pcm AudioStreams Config
begin

text \<open>
  What \<^verbatim>\<open>gumble/gumbleopenal/stream.go\<close> does with samples: \<^verbatim>\<open>processAudioPacket\<close> from a received
  packet to the playback buffer and the recorder, and one tick of \<^verbatim>\<open>sourceRoutine\<close> from the captured
  bytes and the playing file to the frame that is sent.  Operations on \<^verbatim>\<open>float32\<close> are parameters
  (\<open>floats\<close>), and so are the noise suppression and gain control of a channel; OpenAL is reduced to the
  buffers taken, filled and queued.
\<close>

record floats =
  fl_ofInt :: "int \<Rightarrow> float32"
  fl_mul :: "float32 \<Rightarrow> float32 \<Rightarrow> float32"
  fl_add :: "float32 \<Rightarrow> float32 \<Rightarrow> float32"
  fl_eq :: "float32 \<Rightarrow> float32 \<Rightarrow> bool"
  fl_less :: "float32 \<Rightarrow> float32 \<Rightarrow> bool"
  fl_toInt16 :: "float32 \<Rightarrow> int16"
  fl_toInt32 :: "float32 \<Rightarrow> int32"

section \<open>Received packets\<close>

definition maxBufferSize :: nat where
  "maxBufferSize = 11520"

definition applyVolumeAdjustment :: "floats \<Rightarrow> int16 \<Rightarrow> float32 \<Rightarrow> int16" where
  "applyVolumeAdjustment F sample adjustment =
    (if fl_eq F adjustment (fl_ofInt F 0) \<or> fl_eq F adjustment (fl_ofInt F 1) then sample
     else
       let adjusted = fl_mul F (fl_ofInt F (sint sample)) adjustment in
       if fl_less F (fl_ofInt F 32767) adjusted then 32767
       else if fl_less F adjusted (fl_ofInt F (-32768)) then -32768
       else fl_toInt16 F adjusted)"

definition boostSample :: "uint16 \<Rightarrow> int16 \<Rightarrow> int16" where
  "boostSample boost sample =
    (if boost > 1 then
       let boosted = scast sample * ucast boost :: int32 in
       if 32767 <s boosted then 32767
       else if boosted <s -32767 then -32767
       else scast boosted
     else sample)"

definition scaleForRecording :: "floats \<Rightarrow> int16 \<Rightarrow> float32 \<Rightarrow> int16" where
  "scaleForRecording F sample volume = saturate (fl_toInt32 F (fl_mul F (fl_ofInt F (sint sample)) volume))"

record listener =
  ls_Session :: uint32
  ls_boost :: uint16
  ls_volume :: float32

record queued =
  q_buffer :: nat
  q_stereo :: bool
  q_data :: bytes

definition isStereo :: "nat \<Rightarrow> bool" where
  "isStereo samples \<longleftrightarrow> int samples > AudioDefaultFrameSize \<and> samples mod 2 = 0"

definition playedSamples :: "floats \<Rightarrow> listener \<Rightarrow> audioPacket \<Rightarrow> int16 list" where
  "playedSamples F user packet =
    map (\<lambda>s. boostSample (ls_boost user) (applyVolumeAdjustment F s (ap_VolumeAdjustment packet))) (ap_AudioBuffer packet)"

text \<open>What the recorder gets is always stereo.\<close>

definition recordedSamples :: "floats \<Rightarrow> listener \<Rightarrow> audioPacket \<Rightarrow> int16 list" where
  "recordedSamples F user packet =
    (let scaled = map (\<lambda>s. scaleForRecording F s (ls_volume user)) (playedSamples F user packet)
     in if isStereo (length (ap_AudioBuffer packet)) then scaled
        else concat (map (\<lambda>s. [s, s]) scaled))"

text \<open>The empty buffers, what is queued and what is recorded.\<close>

definition processAudioPacket ::
  "floats \<Rightarrow> listener \<Rightarrow> bool \<Rightarrow> audioPacket \<Rightarrow> nat list \<Rightarrow> nat list \<times> queued option \<times> (uint32 \<times> int16 list) option" where
  "processAudioPacket F user recording packet emptyBufs =
    (let samples = length (ap_AudioBuffer packet) in
     if samples > maxBufferSize div 2 then (emptyBufs, None, None)
     else
       let recorded = (if recording \<and> samples > 0 then Some (ls_Session user, recordedSamples F user packet) else None)
       in if emptyBufs = [] then (emptyBufs, None, recorded)
          else (butlast emptyBufs,
                Some \<lparr>q_buffer = last emptyBufs, q_stereo = isStereo samples,
                      q_data = samplesToBytes (playedSamples F user packet)\<rparr>, recorded))"

section \<open>The microphone\<close>

text \<open>\<^verbatim>\<open>processChannel\<close> of a channel, left or right, works in place.\<close>

record processors =
  pr_left :: "int16 list \<Rightarrow> int16 list"
  pr_right :: "int16 list \<Rightarrow> int16 list"

definition processStereoSamples :: "processors \<Rightarrow> int16 list \<Rightarrow> nat \<Rightarrow> int16 list" where
  "processStereoSamples P samples frameSize =
    (if frameSize = 0 \<or> length samples < frameSize * 2 then samples
     else interleave (pr_left P (evens (take (frameSize * 2) samples)))
            (pr_right P (odds (take (frameSize * 2) samples))) @ drop (frameSize * 2) samples)"

text \<open>The captured frame, if there is one: at the microphone's volume and processed.\<close>

definition captured :: "floats \<Rightarrow> processors \<Rightarrow> nat \<Rightarrow> nat \<Rightarrow> float32 \<Rightarrow> nat \<Rightarrow> bytes \<Rightarrow> int16 list option" where
  "captured F P channels frameSize vol available buff =
    (let sampleCount = frameSize * channels;
         buff = (if available \<ge> frameSize then buff else [])
     in if length buff = sampleCount * 2 then
          let samples = map (\<lambda>s. if \<not> fl_eq F vol (fl_ofInt F 1) then fl_toInt16 F (fl_mul F (fl_ofInt F (sint s)) vol) else s)
                 (bytesToSamples buff)
          in Some (if channels = 1 then pr_left P samples else processStereoSamples P samples frameSize)
        else None)"

text \<open>One place of the mix of the microphone and a stereo file.\<close>

definition mixedPair :: "nat \<Rightarrow> int16 list \<Rightarrow> int16 list \<Rightarrow> nat \<Rightarrow> int16 list" where
  "mixedPair channels mic file i =
    (let idx = i * 2 in
     if idx + 1 < length file then
       (if channels = 2 then [mixSample (mic ! idx) (file ! idx), mixSample (mic ! (idx + 1)) (file ! (idx + 1))]
        else [mixSample (mic ! i) (file ! idx), mixSample (mic ! i) (file ! (idx + 1))])
     else [0, 0])"

text \<open>The slice \<^verbatim>\<open>fileAudio[:frameSize*2]\<close> panics when the frame of the file is shorter.\<close>

definition withFile :: "nat \<Rightarrow> nat \<Rightarrow> int16 list option \<Rightarrow> int16 list \<Rightarrow> int16 list option" where
  "withFile channels frameSize mic file =
    (case mic of
       Some mic \<Rightarrow> Some (concat (map (mixedPair channels mic file) [0..<frameSize]))
     | None \<Rightarrow> if length file < frameSize * 2 then None else Some (take (frameSize * 2) file))"

definition averaged :: "int16 \<Rightarrow> int16 \<Rightarrow> int16" where
  "averaged l r = word_of_int (goQuot (sint (scast l + scast r :: int32)) 2)"

definition downmix :: "nat \<Rightarrow> int16 list \<Rightarrow> int16 list" where
  "downmix frameSize mic = map (\<lambda>i. averaged (mic ! (i * 2)) (mic ! (i * 2 + 1))) [0..<frameSize]"

text \<open>A tick: whether the microphone is failing, what the error callback gets, and the frame sent with
  its being stereo; the recorder gets the same.  \<open>None\<close> is a panic.\<close>

datatype mic_report = MicRecovered | MicFailed

definition sourceTick ::
  "floats \<Rightarrow> processors \<Rightarrow> nat \<Rightarrow> nat \<Rightarrow> float32 \<Rightarrow> nat \<Rightarrow> bytes \<Rightarrow> int16 list option \<Rightarrow> bool
    \<Rightarrow> (bool \<times> mic_report list \<times> (int16 list \<times> bool) option) option" where
  "sourceTick F P channels frameSize vol available buff fileFrame micFailed =
    (let mic = captured F P channels frameSize vol available buff;
         (micFailed, reports) =
           (if mic \<noteq> None then (False, if micFailed then [MicRecovered] else [])
            else if available \<ge> frameSize \<and> \<not> micFailed then (True, [MicFailed])
            else (micFailed, []))
     in case fileFrame of
          Some file \<Rightarrow>
            if file \<noteq> [] then map_option (\<lambda>out. (micFailed, reports, Some (out, True))) (withFile channels frameSize mic file)
            else Some (micFailed, reports, map_option (\<lambda>m. (if channels = 2 then downmix frameSize m else m, False)) mic)
        | None \<Rightarrow> Some (micFailed, reports, map_option (\<lambda>m. (if channels = 2 then downmix frameSize m else m, False)) mic))"

section \<open>Boosting\<close>

text \<open>Boosting multiplies exactly, without overflow for every sample and every factor, and saturates at
  plus and minus 32767.\<close>

theorem boost_saturates:
  assumes "1 < boost"
  shows "sint (boostSample boost s) = max (-32767) (min 32767 (sint s * uint boost))"
proof -
  have u: "0 \<le> uint boost" "uint boost \<le> 65535" using unsigned_less [where 'a = int, of boost] by simp_all
  have prod: "\<bar>sint s * uint boost\<bar> \<le> 32768 * 65535"
    unfolding abs_mult by (rule mult_mono) (use u sint16_range [of s] in auto)
  have "scast s * ucast boost = (word_of_int (sint s * uint boost) :: int32)"
    by (simp only: scast_of_sint ucast_eq wi_hom_mult)
  then have b: "sint (scast s * ucast boost :: int32) = sint s * uint boost"
    using prod by (simp only:) (rule sint32_of_int, linarith+)
  have c: "(32767 <s (scast s * ucast boost :: int32)) = (32767 < sint s * uint boost)"
      "((scast s * ucast boost :: int32) <s -32767) = (sint s * uint boost < -32767)"
    by (simp_all only: word_sless_alt b) simp_all
  show ?thesis
  proof (cases "32767 < sint s * uint boost \<or> sint s * uint boost < -32767")
    case True
    then show ?thesis by (auto simp: boostSample_def assms Let_def c)
  next
    case False
    then have "boostSample boost s = scast (scast s * ucast boost :: int32)"
      by (simp add: boostSample_def assms Let_def c)
    also have "\<dots> = word_of_int (sint s * uint boost)" unfolding scast_of_sint [where x = "scast s * ucast boost"] b ..
    finally have eq: "boostSample boost s = word_of_int (sint s * uint boost)" .
    show ?thesis unfolding eq using False sint16_of_int [of "sint s * uint boost"] by simp
  qed
qed

theorem boost_saturates_witness: "sint (boostSample 3 (-20000)) = -32767"
  using boost_saturates [of 3 "-20000"] by simp

section \<open>What is queued and recorded\<close>

lemma length_playedSamples [simp]: "length (playedSamples F user packet) = length (ap_AudioBuffer packet)"
  by (simp add: playedSamples_def)

lemma length_recordedSamples:
  "length (recordedSamples F user packet) =
    (if isStereo (length (ap_AudioBuffer packet)) then length (ap_AudioBuffer packet) else 2 * length (ap_AudioBuffer packet))"
  by (simp add: recordedSamples_def Let_def length_concat comp_def sum_list_triv)

text \<open>A received packet is either played whole or not at all: the bytes queued are exactly its samples,
  adjusted and boosted, within the fixed array; one empty buffer is used, and the recorder gets as
  many stereo frames as are played, whether or not a buffer was left.\<close>

theorem packet_played_whole:
  assumes "processAudioPacket F user recording packet emptyBufs = (left, Some q, recorded)"
  shows "bytesToSamples (q_data q) = playedSamples F user packet \<and> length (q_data q) \<le> maxBufferSize
    \<and> emptyBufs = left @ [q_buffer q]
    \<and> map_option (length \<circ> snd) recorded =
        (if recording \<and> ap_AudioBuffer packet \<noteq> []
         then Some (length (playedSamples F user packet) * (if q_stereo q then 1 else 2)) else None)"
proof -
  have le: "length (ap_AudioBuffer packet) \<le> maxBufferSize div 2" and ne: "emptyBufs \<noteq> []"
    using assms by (auto simp: processAudioPacket_def Let_def split: if_splits)
  then have "left = butlast emptyBufs" "q_buffer q = last emptyBufs" "q_stereo q = isStereo (length (ap_AudioBuffer packet))"
      "q_data q = samplesToBytes (playedSamples F user packet)"
      "recorded = (if recording \<and> ap_AudioBuffer packet \<noteq> [] then Some (ls_Session user, recordedSamples F user packet) else None)"
    using assms by (auto simp: processAudioPacket_def)
  then show ?thesis using le ne by (simp add: length_recordedSamples maxBufferSize_def)
qed

definition nullFloats :: floats where
  "nullFloats = \<lparr>fl_ofInt = word_of_int, fl_mul = (*), fl_add = (+), fl_eq = (=), fl_less = (<s), fl_toInt16 = ucast, fl_toInt32 = id\<rparr>"

theorem packet_played_whole_witness:
  "let p = \<lparr>ap_Sender = 0, ap_Target = None, ap_Sequence = 0, ap_AudioBuffer = [5, 300], ap_Terminator = False,
        ap_Position = None, ap_VolumeAdjustment = 0\<rparr>;
       r = processAudioPacket nullFloats \<lparr>ls_Session = 7, ls_boost = 2, ls_volume = 1\<rparr> True p [1, 2]
   in bytesToSamples (q_data (the (fst (snd r)))) = [10, 600] \<and> fst r = [1]"
  using packet_played_whole [of nullFloats "\<lparr>ls_Session = 7, ls_boost = 2, ls_volume = 1\<rparr>" True
      "\<lparr>ap_Sender = 0, ap_Target = None, ap_Sequence = 0, ap_AudioBuffer = [5, 300], ap_Terminator = False,
        ap_Position = None, ap_VolumeAdjustment = 0\<rparr>" "[1, 2]" "[1]"]
  by (simp add: processAudioPacket_def maxBufferSize_def playedSamples_def nullFloats_def applyVolumeAdjustment_def boostSample_def
      word_sless_alt)

section \<open>Mixing and downmixing\<close>

lemma length_pairs: "(\<And>i. i < n \<Longrightarrow> length (f i) = 2) \<Longrightarrow> length (concat (map f [0..<n])) = 2 * n"
  by (induction n) simp_all

lemma pairs_nth:
  assumes "\<And>i. i < n \<Longrightarrow> length (f i) = 2" and "k < 2 * n"
  shows "concat (map f [0..<n]) ! k = f (k div 2) ! (k mod 2)"
  using assms
proof (induction n)
  case (Suc n)
  have len: "length (concat (map f [0..<n])) = 2 * n"
    by (rule length_pairs) (use Suc.prems(1) in simp)
  show ?case
  proof (cases "k < 2 * n")
    case True
    then show ?thesis using Suc.IH Suc.prems(1) len by (simp add: nth_append)
  next
    case False
    then have "k = 2 * n \<or> k = 2 * n + 1" using Suc.prems(2) by arith
    then show ?thesis using len by (auto simp: nth_append)
  qed
qed simp

lemma length_mixedPair [simp]: "length (mixedPair channels mic file i) = 2"
  by (simp add: mixedPair_def Let_def)

text \<open>While a file plays over the microphone, every sample that is sent is the sum of the two, saturated
  to 16 bits; a mono microphone is on both channels.\<close>

theorem mix_exact:
  assumes "length file = frameSize * 2" and "k < frameSize * 2"
  shows "\<exists>out. withFile channels frameSize (Some mic) file = Some out \<and> length out = frameSize * 2
    \<and> sint (out ! k) = clamp16 (sint (mic ! (if channels = 2 then k else k div 2)) + sint (file ! k))"
proof -
  let ?out = "concat (map (mixedPair channels mic file) [0..<frameSize])"
  have idx: "k div 2 * 2 + 1 < length file" unfolding assms(1) using assms(2) by presburger
  have "?out ! k = mixedPair channels mic file (k div 2) ! (k mod 2)"
    by (rule pairs_nth) (use assms in simp_all)
  moreover have "k = k div 2 * 2 \<and> k mod 2 = 0 \<or> k = k div 2 * 2 + 1 \<and> k mod 2 = 1" by presburger
  ultimately have "sint (?out ! k) = clamp16 (sint (mic ! (if channels = 2 then k else k div 2)) + sint (file ! k))"
    using idx by (auto simp: mixedPair_def Let_def sint_mixSample)
  moreover have "length ?out = frameSize * 2" using length_pairs [of frameSize "mixedPair channels mic file"] by simp
  ultimately show ?thesis by (simp add: withFile_def)
qed

theorem mix_exact_witness:
  "\<exists>out. withFile 1 1 (Some [30000]) [5000, -1] = Some out \<and> length out = 2 \<and> sint (out ! 0) = 32767"
  using mix_exact [of "[5000, -1]" 1 0 1 "[30000]"] by (simp add: clamp16_def)

section \<open>The frame that is sent\<close>

lemma length_captured:
  assumes "captured F P channels frameSize vol available buff = Some m" and "channels = 1 \<or> channels = 2"
    and "\<And>xs. length (pr_left P xs) = length xs" and "\<And>xs. length (pr_right P xs) = length xs"
  shows "length m = frameSize * channels"
  using assms by (auto simp: captured_def processStereoSamples_def Let_def min_def split: if_splits)

lemma length_withFile:
  "withFile channels frameSize mic file = Some out \<Longrightarrow> length out = frameSize * 2"
  using length_pairs [of frameSize "mixedPair channels (the mic) file"] by (auto simp: withFile_def split: option.splits if_splits)

definition sentSize :: "nat \<Rightarrow> (int16 list \<times> bool) option \<Rightarrow> bool" where
  "sentSize frameSize sent = (case sent of None \<Rightarrow> True | Some (out, stereo) \<Rightarrow> length out = frameSize * (if stereo then 2 else 1))"

text \<open>A tick never panics as long as the file player delivers frames of the configured size, and what
  it sends is always one frame of that size: stereo while a file plays, mono otherwise, also from a
  stereo microphone.\<close>

theorem tick_frame_size:
  assumes "channels = 1 \<or> channels = 2" and "\<And>xs. length (pr_left P xs) = length xs" and "\<And>xs. length (pr_right P xs) = length xs"
    and "fileFrame = None \<or> map_option length fileFrame = Some (frameSize * 2)"
  shows "\<exists>failing reports sent. sourceTick F P channels frameSize vol available buff fileFrame micFailed = Some (failing, reports, sent)
    \<and> sentSize frameSize sent"
proof -
  define mic where "mic = captured F P channels frameSize vol available buff"
  have micSize: "sentSize frameSize (map_option (\<lambda>m. (if channels = 2 then downmix frameSize m else m, False)) mic)"
    using length_captured [of F P channels frameSize vol available buff] assms(1-3)
    by (auto simp: mic_def sentSize_def downmix_def split: option.splits)
  have fileSize: "\<exists>out. withFile channels frameSize mic f = Some out" if "length f = frameSize * 2" for f
    using that by (cases mic) (simp_all add: withFile_def)
  show ?thesis
  proof (cases fileFrame)
    case None
    then show ?thesis using micSize by (auto simp: sourceTick_def mic_def [symmetric] Let_def split: prod.split)
  next
    case (Some f)
    then have "length f = frameSize * 2" using assms(4) by simp
    from fileSize [OF this] obtain out where out: "withFile channels frameSize mic f = Some out" by blast
    then have "sentSize frameSize (Some (out, True))" using length_withFile by (simp add: sentSize_def)
    then show ?thesis using micSize out
      by (cases "f = []") (auto simp: Some sourceTick_def mic_def [symmetric] Let_def split: prod.split)
  qed
qed

theorem tick_frame_size_witness:
  "\<exists>failing reports sent. sourceTick nullFloats \<lparr>pr_left = id, pr_right = id\<rparr> 2 1 1 1 [1, 0, 3, 0] None True = Some (failing, reports, sent)
    \<and> sentSize 1 sent"
  by (rule tick_frame_size) simp_all

end
