(* ===== verification/Recorder.thy ===== *)
theory Recorder
  imports Pcm Config GoStrings "HOL-Library.AList"
begin

text \<open>
  The recorder (\<^verbatim>\<open>recording/recorder.go\<close>): frames of the sources come in over a channel of 512 places,
  wait in one queue per source, and every tick mixes a chunk of each queue into what is written to
  the encoder.  Go's iteration order over the map of queues is arbitrary: it is a parameter of each
  tick.  The encoder process is reduced to the chunks written to it and the outcome of each write.
\<close>

section \<open>Frames and mixing\<close>

definition maxQueuedSamples :: nat where
  "maxQueuedSamples = nat (5 * AudioSampleRate * AudioChannels)"

definition NormalizeStereoFrame :: "int16 list \<Rightarrow> bool \<Rightarrow> int16 list" where
  "NormalizeStereoFrame samples stereo = (if stereo then samples else concat (map (\<lambda>s. [s, s]) samples))"

definition mix :: "int16 list \<Rightarrow> int16 list \<Rightarrow> int16 list" where
  "mix dst src =
    (let limit = min (length dst) (length src)
     in map (\<lambda>i. mixSample (dst ! i) (src ! i)) [0..<limit] @ drop limit dst)"

definition appendCapped :: "int16 list \<Rightarrow> int16 list \<Rightarrow> int16 list" where
  "appendCapped queue incoming =
    (let queue = queue @ incoming in
     if length queue > maxQueuedSamples then drop (length queue - maxQueuedSamples) queue else queue)"

definition writePCM :: "int16 list \<Rightarrow> bytes" where
  "writePCM samples = samplesToBytes samples"

section \<open>The recorder\<close>

type_synonym queues = "(uint32 \<times> int16 list) list"

record recorder =
  rc_input :: "(uint32 \<times> int16 list) list"
  rc_queues :: queues
  rc_written :: "bytes list"
  rc_err :: bool
  rc_done :: bool

definition newRecorder :: recorder where
  "newRecorder = \<lparr>rc_input = [], rc_queues = [], rc_written = [], rc_err = False, rc_done = False\<rparr>"

definition inputCapacity :: nat where
  "inputCapacity = 512"

definition RecordAudioFrame :: "uint32 \<Rightarrow> int16 list \<Rightarrow> bool \<Rightarrow> recorder \<Rightarrow> recorder" where
  "RecordAudioFrame source samples stereo r =
    (if length samples = 0 \<or> length (rc_input r) \<ge> inputCapacity then r
     else r\<lparr>rc_input := rc_input r @ [(source, NormalizeStereoFrame samples stereo)]\<rparr>)"

definition queueOf :: "queues \<Rightarrow> uint32 \<Rightarrow> int16 list" where
  "queueOf q source = (case map_of q source of None \<Rightarrow> [] | Some buffer \<Rightarrow> buffer)"

text \<open>\<^verbatim>\<open>case item := <-r.input\<close>.\<close>

definition takeInput :: "recorder \<Rightarrow> recorder" where
  "takeInput r =
    (case rc_input r of
       [] \<Rightarrow> r
     | (source, samples) # rest \<Rightarrow>
         r\<lparr>rc_input := rest, rc_queues := AList.update source (appendCapped (queueOf (rc_queues r) source) samples) (rc_queues r)\<rparr>)"

text \<open>One source in the loop over the queues.\<close>

definition mixSource :: "nat \<Rightarrow> uint32 \<Rightarrow> int16 list \<times> queues \<Rightarrow> int16 list \<times> queues" where
  "mixSource chunkSize source = (\<lambda>(chunk, q).
    (case map_of q source of
       None \<Rightarrow> (chunk, q)
     | Some buffer \<Rightarrow>
         if length buffer = 0 then (chunk, AList.delete source q)
         else if length buffer \<le> chunkSize then (mix chunk buffer, AList.delete source q)
         else (mix chunk (take chunkSize buffer), AList.update source (drop chunkSize buffer) q)))"

text \<open>\<^verbatim>\<open>case <-ticker.C\<close>; \<open>order\<close> is the order of the iteration, and \<open>ok\<close> whether the write succeeds.\<close>

definition tick :: "nat \<Rightarrow> uint32 list \<Rightarrow> bool \<Rightarrow> recorder \<Rightarrow> recorder" where
  "tick chunkSize order ok r =
    (let (chunk, q) = fold (mixSource chunkSize) order (replicate chunkSize 0, rc_queues r);
         r = r\<lparr>rc_queues := q\<rparr>
     in if ok then r\<lparr>rc_written := rc_written r @ [writePCM chunk]\<rparr>
        else r\<lparr>rc_err := True, rc_done := True\<rparr>)"

text \<open>The select of \<^verbatim>\<open>run\<close>: what happens next.  After the end nothing does, except that frames still come
  into the channel.\<close>

datatype recordEvent = Frame uint32 "int16 list" bool | TakeInput | Tick "uint32 list" bool | StopRun

fun recordStep :: "nat \<Rightarrow> recordEvent \<Rightarrow> recorder \<Rightarrow> recorder" where
  "recordStep chunkSize (Frame source samples stereo) r = RecordAudioFrame source samples stereo r"
| "recordStep chunkSize TakeInput r = (if rc_done r then r else takeInput r)"
| "recordStep chunkSize (Tick order ok) r = (if rc_done r then r else tick chunkSize order ok r)"
| "recordStep chunkSize StopRun r = r\<lparr>rc_done := True\<rparr>"

section \<open>Queues by source\<close>

lemma queueOf_update [simp]: "queueOf (AList.update s x q) t = (if t = s then x else queueOf q t)"
  by (simp add: queueOf_def update_conv')

lemma queueOf_delete [simp]: "queueOf (AList.delete s q) t = (if t = s then [] else queueOf q t)"
  by (simp add: queueOf_def delete_conv')

lemma queueOf_Nil [simp]: "queueOf [] t = []"
  by (simp add: queueOf_def)

lemma length_mix [simp]: "length (mix dst src) = length dst"
  by (simp add: mix_def Let_def)

lemma mix_Nil [simp]: "mix dst [] = dst"
  by (simp add: mix_def)

lemma mixSource_queue:
  "queueOf (snd (mixSource chunkSize s cq)) t = (if t = s then drop chunkSize (queueOf (snd cq) t) else queueOf (snd cq) t)"
  "fst (mixSource chunkSize s cq) = mix (fst cq) (take chunkSize (queueOf (snd cq) s))"
proof -
  obtain chunk q where cq: "cq = (chunk, q)" by (cases cq)
  have "queueOf (snd (mixSource chunkSize s cq)) t = (if t = s then drop chunkSize (queueOf q t) else queueOf q t)
      \<and> fst (mixSource chunkSize s cq) = mix chunk (take chunkSize (queueOf q s))"
  proof (cases "map_of q s")
    case None
    then have "queueOf q s = []" by (simp add: queueOf_def)
    then show ?thesis by (simp add: cq mixSource_def None)
  next
    case (Some buffer)
    then have "queueOf q s = buffer" by (simp add: queueOf_def)
    then show ?thesis by (simp add: cq mixSource_def Some)
  qed
  then show "queueOf (snd (mixSource chunkSize s cq)) t = (if t = s then drop chunkSize (queueOf (snd cq) t) else queueOf (snd cq) t)"
    and "fst (mixSource chunkSize s cq) = mix (fst cq) (take chunkSize (queueOf (snd cq) s))"
    by (simp_all add: cq)
qed

lemma mixAll_queue:
  "distinct order \<Longrightarrow> queueOf (snd (fold (mixSource chunkSize) order cq)) t =
     (if t \<in> set order then drop chunkSize (queueOf (snd cq) t) else queueOf (snd cq) t)"
  by (induction order arbitrary: cq) (auto simp: mixSource_queue)

lemma mixAll_chunk:
  "distinct order \<Longrightarrow> fst (fold (mixSource chunkSize) order cq) =
     fold (\<lambda>s chunk. mix chunk (take chunkSize (queueOf (snd cq) s))) order (fst cq)"
proof (induction order arbitrary: cq)
  case (Cons s order)
  let ?r = "mixSource chunkSize s cq"
  have "fold (\<lambda>s' chunk. mix chunk (take chunkSize (queueOf (snd ?r) s'))) order c =
      fold (\<lambda>s' chunk. mix chunk (take chunkSize (queueOf (snd cq) s'))) order c" for c
    by (rule fold_cong) (use Cons.prems in \<open>auto simp: mixSource_queue\<close>)
  then show ?case using Cons.prems Cons.IH [of ?r] by (simp add: mixSource_queue)
qed simp

section \<open>Bounds\<close>

definition recorderOk :: "nat \<Rightarrow> recorder \<Rightarrow> bool" where
  "recorderOk chunkSize r \<longleftrightarrow> length (rc_input r) \<le> inputCapacity \<and> distinct (map fst (rc_queues r))
     \<and> (\<forall>s. length (queueOf (rc_queues r) s) \<le> maxQueuedSamples)
     \<and> (\<forall>c \<in> set (rc_written r). length c = 2 * chunkSize) \<and> (rc_err r \<longrightarrow> rc_done r)"

lemma length_appendCapped: "length (appendCapped q xs) \<le> maxQueuedSamples"
  by (auto simp: appendCapped_def Let_def)

lemma mixSource_distinct: "distinct (map fst (snd cq)) \<Longrightarrow> distinct (map fst (snd (mixSource chunkSize s cq)))"
  by (auto simp: mixSource_def distinct_update distinct_delete split: option.split prod.split)

lemma mixAll_ok:
  "distinct (map fst (snd cq)) \<Longrightarrow> \<forall>s. length (queueOf (snd cq) s) \<le> n \<Longrightarrow>
   distinct (map fst (snd (fold (mixSource chunkSize) order cq)))
   \<and> (\<forall>s. length (queueOf (snd (fold (mixSource chunkSize) order cq)) s) \<le> n)
   \<and> length (fst (fold (mixSource chunkSize) order cq)) = length (fst cq)"
proof (induction order arbitrary: cq)
  case (Cons s order)
  have "distinct (map fst (snd (mixSource chunkSize s cq)))" using mixSource_distinct Cons.prems(1) .
  moreover have "\<forall>t. length (queueOf (snd (mixSource chunkSize s cq)) t) \<le> n"
    using Cons.prems(2) by (auto simp: mixSource_queue intro: le_trans [OF diff_le_self])
  moreover have "length (fst (mixSource chunkSize s cq)) = length (fst cq)" by (simp add: mixSource_queue)
  ultimately show ?case using Cons.IH [of "mixSource chunkSize s cq"] by simp
qed simp

lemma recorderOk_step: "recorderOk chunkSize r \<Longrightarrow> recorderOk chunkSize (recordStep chunkSize e r)"
proof (induction e)
  case (Frame source samples stereo)
  then show ?case by (auto simp: recorderOk_def RecordAudioFrame_def)
next
  case TakeInput
  then show ?case
    by (auto simp: recorderOk_def takeInput_def distinct_update length_appendCapped split: list.split)
next
  case (Tick order ok)
  define cq where "cq = fold (mixSource chunkSize) order (replicate chunkSize 0, rc_queues r)"
  have cq: "distinct (map fst (snd cq)) \<and> (\<forall>s. length (queueOf (snd cq) s) \<le> maxQueuedSamples) \<and> length (fst cq) = chunkSize"
    using mixAll_ok [of "(replicate chunkSize 0, rc_queues r)" maxQueuedSamples chunkSize order] Tick
    by (simp add: cq_def recorderOk_def)
  show ?case
    using Tick cq by (auto simp: recorderOk_def tick_def Let_def cq_def [symmetric] writePCM_def split: prod.split)
next
  case StopRun
  then show ?case by (auto simp: recorderOk_def)
qed

text \<open>However frames, ticks and the stop interleave, the recorder's memory is bounded: at most 512 frames
  wait in the channel and five seconds of stereo sound per source in the queues, every chunk
  written has the configured size, and after a failed write the recorder is done.\<close>

theorem recorder_bounded: "recorderOk chunkSize (fold (recordStep chunkSize) events newRecorder)"
proof -
  have "recorderOk chunkSize (fold (recordStep chunkSize) events r)" if "recorderOk chunkSize r" for r
    using that by (induction events arbitrary: r) (simp_all add: recorderOk_step)
  moreover have "recorderOk chunkSize newRecorder" by (simp add: recorderOk_def newRecorder_def)
  ultimately show ?thesis .
qed

section \<open>Every sample is mixed once and in order\<close>

text \<open>What of a source's queue the ticks of a run mix, and what is put into it.\<close>

fun mixedPart :: "nat \<Rightarrow> uint32 \<Rightarrow> recordEvent \<Rightarrow> recorder \<Rightarrow> int16 list" where
  "mixedPart chunkSize s (Tick order ok) r =
    (if \<not> rc_done r \<and> s \<in> set order then take chunkSize (queueOf (rc_queues r) s) else [])"
| "mixedPart chunkSize s e r = []"

fun queuedPart :: "uint32 \<Rightarrow> recordEvent \<Rightarrow> recorder \<Rightarrow> int16 list" where
  "queuedPart s TakeInput r =
    (case rc_input r of (source, samples) # rest \<Rightarrow> if \<not> rc_done r \<and> source = s then samples else [] | [] \<Rightarrow> [])"
| "queuedPart s e r = []"

fun traceOf :: "nat \<Rightarrow> (recordEvent \<Rightarrow> recorder \<Rightarrow> int16 list) \<Rightarrow> recordEvent list \<Rightarrow> recorder \<Rightarrow> int16 list" where
  "traceOf chunkSize f [] r = []"
| "traceOf chunkSize f (e # es) r = f e r @ traceOf chunkSize f es (recordStep chunkSize e r)"

text \<open>An iteration visits no queue twice, and no queue overflows.\<close>

fun smooth :: "recordEvent \<Rightarrow> recorder \<Rightarrow> bool" where
  "smooth (Tick order ok) r \<longleftrightarrow> distinct order"
| "smooth TakeInput r \<longleftrightarrow> (case rc_input r of (source, samples) # rest \<Rightarrow>
     length (queueOf (rc_queues r) source) + length samples \<le> maxQueuedSamples | [] \<Rightarrow> True)"
| "smooth e r \<longleftrightarrow> True"

fun smoothRun :: "nat \<Rightarrow> recordEvent list \<Rightarrow> recorder \<Rightarrow> bool" where
  "smoothRun chunkSize [] r \<longleftrightarrow> True"
| "smoothRun chunkSize (e # es) r \<longleftrightarrow> smooth e r \<and> smoothRun chunkSize es (recordStep chunkSize e r)"

lemma step_conserves:
  assumes "smooth e r"
  shows "mixedPart chunkSize s e r @ queueOf (rc_queues (recordStep chunkSize e r)) s = queueOf (rc_queues r) s @ queuedPart s e r"
proof (cases e)
  case TakeInput
  then show ?thesis using assms
    by (cases "rc_input r") (auto simp: takeInput_def appendCapped_def)
next
  case (Tick order ok)
  then show ?thesis
    using assms mixAll_queue [of order chunkSize "(replicate chunkSize 0, rc_queues r)" s]
    by (auto simp: tick_def Let_def split: prod.split)
qed (simp_all add: RecordAudioFrame_def)

lemma run_conserves:
  "smoothRun chunkSize es r \<Longrightarrow>
   traceOf chunkSize (mixedPart chunkSize s) es r @ queueOf (rc_queues (fold (recordStep chunkSize) es r)) s
     = queueOf (rc_queues r) s @ traceOf chunkSize (queuedPart s) es r"
proof (induction es arbitrary: r)
  case (Cons e es)
  then show ?case using step_conserves [of e r chunkSize s] by (simp add: append_assoc [symmetric] del: append_assoc) (simp)
qed simp



lemma mix_nth:
  assumes "k < length dst"
  shows "mix dst src ! k = (if k < length src then mixSample (dst ! k) (src ! k) else dst ! k)"
  using assms by (auto simp: mix_def Let_def nth_append)

definition sampleAt :: "queues \<Rightarrow> nat \<Rightarrow> uint32 \<Rightarrow> int" where
  "sampleAt q k s = (if k < length (queueOf q s) then sint (queueOf q s ! k) else 0)"

lemma mixed_sum:
  assumes "distinct order" and "k < chunkSize" and "length chunk = chunkSize"
    and "\<bar>sint (chunk ! k)\<bar> + (\<Sum>s\<leftarrow>order. \<bar>sampleAt q k s\<bar>) \<le> 32767"
  shows "sint (fold (\<lambda>s chunk. mix chunk (take chunkSize (queueOf q s))) order chunk ! k) = sint (chunk ! k) + (\<Sum>s\<leftarrow>order. sampleAt q k s)"
  using assms
proof (induction order arbitrary: chunk)
  case (Cons s order)
  let ?chunk = "mix chunk (take chunkSize (queueOf q s))"
  have nonneg: "0 \<le> (\<Sum>s\<leftarrow>order. \<bar>sampleAt q k s\<bar>)" by (rule sum_list_nonneg) auto
  have here: "sint (?chunk ! k) = sint (chunk ! k) + sampleAt q k s"
    using Cons.prems(2-4) nonneg by (auto simp: mix_nth sampleAt_def sint_mixSample clamp16_def)
  then show ?case using Cons.IH [of ?chunk] Cons.prems by simp
qed simp

text \<open>As long as the sources together do not exceed 16 bits, a chunk is their sum, sample by sample,
  whatever order the map of queues is visited in.\<close>

theorem mix_is_sum:
  assumes "distinct order" and "k < chunkSize" and "(\<Sum>s\<leftarrow>order. \<bar>sampleAt (rc_queues r) k s\<bar>) \<le> 32767"
  shows "\<exists>chunk. rc_written (tick chunkSize order True r) = rc_written r @ [writePCM chunk] \<and> length chunk = chunkSize
    \<and> sint (chunk ! k) = (\<Sum>s\<in>set order. sampleAt (rc_queues r) k s)"
proof -
  let ?chunk = "fst (fold (mixSource chunkSize) order (replicate chunkSize 0, rc_queues r))"
  have len: "length (fold (\<lambda>s chunk. mix chunk (take chunkSize (queueOf (rc_queues r) s))) order c) = length c" for c
    by (induction order arbitrary: c) simp_all
  have "sint (?chunk ! k) = (\<Sum>s\<leftarrow>order. sampleAt (rc_queues r) k s)"
    using mixed_sum [OF assms(1,2), of "replicate chunkSize 0" "rc_queues r"] assms(2,3)
    by (simp add: mixAll_chunk [OF assms(1)])
  then have "sint (?chunk ! k) = (\<Sum>s\<in>set order. sampleAt (rc_queues r) k s)"
    using assms(1) by (simp add: sum_list_distinct_conv_sum_set)
  moreover have "length ?chunk = chunkSize" by (simp add: mixAll_chunk [OF assms(1)] len)
  moreover have "rc_written (tick chunkSize order True r) = rc_written r @ [writePCM ?chunk]"
    by (simp add: tick_def Let_def split: prod.split)
  ultimately show ?thesis by blast
qed

theorem mix_is_sum_witness:
  "\<exists>chunk. rc_written (tick 1 [2, 1] True (newRecorder\<lparr>rc_queues := [(1, [20000]), (2, [-10000])]\<rparr>)) = [writePCM chunk]
    \<and> length chunk = 1 \<and> sint (chunk ! 0) = 10000"
  using mix_is_sum [of "[2, 1]" 0 1 "newRecorder\<lparr>rc_queues := [(1, [20000]), (2, [-10000])]\<rparr>"]
  by (simp add: sampleAt_def queueOf_def newRecorder_def)

section \<open>File names\<close>

definition NormalizeFormat :: "string \<Rightarrow> string" where
  "NormalizeFormat format =
    (let format = TrimPrefix (ToLower (TrimSpace format)) ''.''
     in if format = [] then ''flac'' else format)"

text \<open>\<^verbatim>\<open>UniquePath\<close> on the files that exist; \<open>base\<close> is the directory with the time stamp.\<close>

definition numberedPath :: "string \<Rightarrow> string \<Rightarrow> nat \<Rightarrow> string" where
  "numberedPath base format i = base @ ''-'' @ digits i @ ''.'' @ format"

lemma numberedPath_inject: "numberedPath base format i = numberedPath base format j \<longleftrightarrow> i = j"
  by (simp add: numberedPath_def)

lemma finite_numbered: "finite {j. numberedPath base format j \<in> set files}"
proof (rule inj_on_finite)
  show "inj_on (numberedPath base format) {j. numberedPath base format j \<in> set files}"
    by (rule inj_onI) (simp add: numberedPath_inject)
  show "numberedPath base format ` {j. numberedPath base format j \<in> set files} \<subseteq> set files" by auto
qed simp

function searchPath :: "string list \<Rightarrow> string \<Rightarrow> string \<Rightarrow> nat \<Rightarrow> string" where
  "searchPath files base format i =
    (if numberedPath base format i \<in> set files then searchPath files base format (Suc i) else numberedPath base format i)"
  by pat_completeness auto
termination
proof (relation "measure (\<lambda>(files, base, format, i). card {j. i \<le> j \<and> numberedPath base format j \<in> set files})", goal_cases)
  case (2 files base format i)
  have "{j. Suc i \<le> j \<and> numberedPath base format j \<in> set files} \<subset> {j. i \<le> j \<and> numberedPath base format j \<in> set files}"
  proof (rule psubsetI)
    show "{j. Suc i \<le> j \<and> numberedPath base format j \<in> set files} \<noteq> {j. i \<le> j \<and> numberedPath base format j \<in> set files}"
    proof
      assume "{j. Suc i \<le> j \<and> numberedPath base format j \<in> set files} = {j. i \<le> j \<and> numberedPath base format j \<in> set files}"
      then have "i \<in> {j. Suc i \<le> j \<and> numberedPath base format j \<in> set files}" using 2 by blast
      then show False by simp
    qed
  qed auto
  moreover have "finite {j. i \<le> j \<and> numberedPath base format j \<in> set files}"
    by (rule finite_subset [OF _ finite_numbered [of base format files]]) auto
  ultimately show ?case using psubset_card_mono by simp
qed simp

declare searchPath.simps [simp del]

definition UniquePath :: "string list \<Rightarrow> string \<Rightarrow> string \<Rightarrow> string" where
  "UniquePath files base format =
    (let path = base @ ''.'' @ format in if path \<notin> set files then path else searchPath files base format 2)"

text \<open>The search for a file name ends whatever files exist, with the first name of its series that is
  free.\<close>

theorem unique_path_free:
  "UniquePath files base format \<notin> set files
   \<and> (UniquePath files base format = base @ ''.'' @ format
      \<or> (\<exists>i. UniquePath files base format = numberedPath base format i \<and> {numberedPath base format j | j. 2 \<le> j \<and> j < i} \<subseteq> set files))"
proof -
  have "\<exists>k. searchPath files base format i = numberedPath base format k \<and> numberedPath base format k \<notin> set files
      \<and> (\<forall>j. i \<le> j \<and> j < k \<longrightarrow> numberedPath base format j \<in> set files)" for i
  proof (induction files base format i rule: searchPath.induct)
    case (1 files base format i)
    show ?case
    proof (cases "numberedPath base format i \<in> set files")
      case True
      from "1.IH" [OF this] obtain k where k: "searchPath files base format (Suc i) = numberedPath base format k"
        "numberedPath base format k \<notin> set files" "\<forall>j. Suc i \<le> j \<and> j < k \<longrightarrow> numberedPath base format j \<in> set files" by blast
      then have "\<forall>j. i \<le> j \<and> j < k \<longrightarrow> numberedPath base format j \<in> set files"
        using True by (metis le_antisym not_less_eq_eq)
      then show ?thesis using k True by (subst searchPath.simps) auto
    next
      case False
      then show ?thesis by (subst searchPath.simps) (auto intro!: exI [of _ i])
    qed
  qed
  from this [of 2] obtain k where "searchPath files base format 2 = numberedPath base format k"
      "numberedPath base format k \<notin> set files" "\<forall>j. 2 \<le> j \<and> j < k \<longrightarrow> numberedPath base format j \<in> set files" by blast
  then show ?thesis by (auto simp: UniquePath_def Let_def)
qed

end
