(* ===== verification/Requests.thy ===== *)
theory Requests
  imports UserHandlers ChannelHandlers InfoHandlers Conn GoStrings
begin

text \<open>
  What the application asks of the server: the methods of \<^verbatim>\<open>User\<close>, \<^verbatim>\<open>Channel\<close>, \<^verbatim>\<open>ContextAction\<close> and
  \<^verbatim>\<open>Client\<close> that send a message, and the \<^verbatim>\<open>writeMessage\<close> methods of the types that implement
  \<^verbatim>\<open>Message\<close> (\<^verbatim>\<open>user.go\<close>, \<^verbatim>\<open>channel.go\<close>, \<^verbatim>\<open>contextaction.go\<close>, \<^verbatim>\<open>acl.go\<close>, \<^verbatim>\<open>bans.go\<close>, \<^verbatim>\<open>userlist.go\<close>,
  \<^verbatim>\<open>voicetarget.go\<close>, \<^verbatim>\<open>textmessage.go\<close>, \<^verbatim>\<open>accesstokens.go\<close> of \<^verbatim>\<open>gumble/gumble\<close>).  A definition gives the
  message handed to \<^verbatim>\<open>Conn.WriteProto\<close>; \<open>None\<close> is the nil dereference of a user or channel that the
  client has already removed (its \<^verbatim>\<open>client\<close> field is nil then).
\<close>

section \<open>Messages to the server\<close>

record voiceTargetEntry =
  vt_Session :: "uint32 list"
  vt_ChannelId :: "uint32 option"
  vt_Group :: "string option"
  vt_Links :: "bool option"
  vt_Children :: "bool option"

record contextActionMsg =
  m_cx_Session :: "uint32 option"
  m_cx_ChannelId :: "uint32 option"
  m_cx_Action :: string

record requestBlobMsg =
  m_rb_SessionTexture :: "uint32 list"
  m_rb_SessionComment :: "uint32 list"
  m_rb_ChannelDescription :: "uint32 list"

datatype request =
    SendUserState userStateMsg
  | SendUserRemove userRemoveMsg
  | SendChannelState channelStateMsg
  | SendChannelRemove channelRemoveMsg
  | SendTextMessage textMessageMsg
  | SendPermissionQuery permissionQueryMsg
  | SendUserStats uint32
  | SendRequestBlob requestBlobMsg
  | SendACL aclMsg bool
  | SendBanList "banEntryMsg list" bool
  | SendUserList "userListUserMsg list"
  | SendVoiceTarget uint32 "voiceTargetEntry list"
  | SendContextAction contextActionMsg
  | SendAuthenticate "string list"

definition emptyUserState :: userStateMsg where
  "emptyUserState = \<lparr>m_us_Session = None, m_us_Actor = None, m_us_Name = None, m_us_UserId = None, m_us_ChannelId = None,
     m_us_Mute = None, m_us_Deaf = None, m_us_Suppress = None, m_us_SelfMute = None, m_us_SelfDeaf = None,
     m_us_Texture = None, m_us_Comment = None, m_us_Hash = None, m_us_CommentHash = None, m_us_TextureHash = None,
     m_us_PrioritySpeaker = None, m_us_Recording = None, m_us_PluginContext = None, m_us_PluginIdentity = None\<rparr>"

definition emptyChannelState :: channelStateMsg where
  "emptyChannelState = \<lparr>m_cs_ChannelId = None, m_cs_Parent = None, m_cs_Name = None, m_cs_Links = [], m_cs_Description = None,
     m_cs_LinksAdd = [], m_cs_LinksRemove = [], m_cs_Temporary = None, m_cs_Position = None, m_cs_DescriptionHash = None,
     m_cs_MaxUsers = None\<rparr>"

definition emptyBlob :: requestBlobMsg where
  "emptyBlob = \<lparr>m_rb_SessionTexture = [], m_rb_SessionComment = [], m_rb_ChannelDescription = []\<rparr>"

section \<open>Users\<close>

definition userRequest :: "user \<Rightarrow> (uint32 \<Rightarrow> request) \<Rightarrow> request option" where
  "userRequest u f = (if u_client u then Some (f (u_Session u)) else None)"

definition userStateFor :: "(userStateMsg \<Rightarrow> userStateMsg) \<Rightarrow> user \<Rightarrow> request option" where
  "userStateFor f u = userRequest u (\<lambda>s. SendUserState (f (emptyUserState\<lparr>m_us_Session := Some s\<rparr>)))"

definition SetTexture :: "bytes option \<Rightarrow> user \<Rightarrow> request option" where
  "SetTexture texture = userStateFor (\<lambda>m. m\<lparr>m_us_Texture := texture\<rparr>)"

definition SetPrioritySpeaker :: "bool \<Rightarrow> user \<Rightarrow> request option" where
  "SetPrioritySpeaker b = userStateFor (\<lambda>m. m\<lparr>m_us_PrioritySpeaker := Some b\<rparr>)"

definition SetRecording :: "bool \<Rightarrow> user \<Rightarrow> request option" where
  "SetRecording b = userStateFor (\<lambda>m. m\<lparr>m_us_Recording := Some b\<rparr>)"

definition IsRegistered :: "user \<Rightarrow> bool" where
  "IsRegistered u \<longleftrightarrow> u_UserID u > 0"

definition Register :: "user \<Rightarrow> request option" where
  "Register = userStateFor (\<lambda>m. m\<lparr>m_us_UserId := Some 0\<rparr>)"

definition SetComment :: "string \<Rightarrow> user \<Rightarrow> request option" where
  "SetComment comment = userStateFor (\<lambda>m. m\<lparr>m_us_Comment := Some comment\<rparr>)"

definition Move :: "channel \<Rightarrow> user \<Rightarrow> request option" where
  "Move channel = userStateFor (\<lambda>m. m\<lparr>m_us_ChannelId := Some (ch_ID channel)\<rparr>)"

definition Kick :: "string \<Rightarrow> user \<Rightarrow> request option" where
  "Kick reason u = userRequest u (\<lambda>s. SendUserRemove
     \<lparr>m_ur_Session = Some s, m_ur_Actor = None, m_ur_Reason = Some reason, m_ur_Ban = None\<rparr>)"

definition Ban :: "string \<Rightarrow> user \<Rightarrow> request option" where
  "Ban reason u = userRequest u (\<lambda>s. SendUserRemove
     \<lparr>m_ur_Session = Some s, m_ur_Actor = None, m_ur_Reason = Some reason, m_ur_Ban = Some True\<rparr>)"

definition SetMuted :: "bool \<Rightarrow> user \<Rightarrow> request option" where
  "SetMuted b = userStateFor (\<lambda>m. m\<lparr>m_us_Mute := Some b\<rparr>)"

definition SetSuppressed :: "bool \<Rightarrow> user \<Rightarrow> request option" where
  "SetSuppressed b = userStateFor (\<lambda>m. m\<lparr>m_us_Suppress := Some b\<rparr>)"

definition SetDeafened :: "bool \<Rightarrow> user \<Rightarrow> request option" where
  "SetDeafened b = userStateFor (\<lambda>m. m\<lparr>m_us_Deaf := Some b\<rparr>)"

definition SetSelfMuted :: "bool \<Rightarrow> user \<Rightarrow> request option" where
  "SetSelfMuted b = userStateFor (\<lambda>m. m\<lparr>m_us_SelfMute := Some b\<rparr>)"

definition SetSelfDeafened :: "bool \<Rightarrow> user \<Rightarrow> request option" where
  "SetSelfDeafened b = userStateFor (\<lambda>m. m\<lparr>m_us_SelfDeaf := Some b\<rparr>)"

definition SetPlugin :: "bytes option \<Rightarrow> string \<Rightarrow> user \<Rightarrow> request option" where
  "SetPlugin context identity = userStateFor (\<lambda>m. m\<lparr>m_us_PluginContext := context, m_us_PluginIdentity := Some identity\<rparr>)"

definition RequestStats :: "user \<Rightarrow> request option" where
  "RequestStats u = userRequest u SendUserStats"

definition RequestTexture :: "user \<Rightarrow> request option" where
  "RequestTexture u = userRequest u (\<lambda>s. SendRequestBlob (emptyBlob\<lparr>m_rb_SessionTexture := [s]\<rparr>))"

definition RequestComment :: "user \<Rightarrow> request option" where
  "RequestComment u = userRequest u (\<lambda>s. SendRequestBlob (emptyBlob\<lparr>m_rb_SessionComment := [s]\<rparr>))"

definition IsMuted :: "user \<Rightarrow> bool" where
  "IsMuted u \<longleftrightarrow> u_Muted u \<or> u_locallyMuted u"

section \<open>Text messages\<close>

text \<open>A nil list and an empty one give the same message.\<close>

definition writeTextMessage :: "textMessage \<Rightarrow> client \<Rightarrow> textMessageMsg" where
  "writeTextMessage t c =
    \<lparr>m_tm_Actor = None, m_tm_Session = map (\<lambda>u. u_Session (c_user c u)) (tm_Users t),
     m_tm_ChannelId = map (\<lambda>ch. ch_ID (c_channel c ch)) (tm_Channels t),
     m_tm_TreeId = map (\<lambda>ch. ch_ID (c_channel c ch)) (tm_Trees t), m_tm_Message = Some (tm_Message t)\<rparr>"

definition UserSend :: "string \<Rightarrow> user_ref \<Rightarrow> client \<Rightarrow> request option" where
  "UserSend message u c = userRequest (c_user c u) (\<lambda>_. SendTextMessage (writeTextMessage
     \<lparr>tm_Sender = None, tm_Users = [u], tm_Channels = [], tm_Trees = [], tm_Message = message\<rparr> c))"

section \<open>Channels\<close>

definition channelRequest :: "channel \<Rightarrow> (uint32 \<Rightarrow> request) \<Rightarrow> request option" where
  "channelRequest ch f = (if ch_client ch then Some (f (ch_ID ch)) else None)"

definition channelStateFor :: "(channelStateMsg \<Rightarrow> channelStateMsg) \<Rightarrow> channel \<Rightarrow> request option" where
  "channelStateFor f ch = channelRequest ch (\<lambda>i. SendChannelState (f (emptyChannelState\<lparr>m_cs_ChannelId := Some i\<rparr>)))"

definition ChannelAdd :: "string \<Rightarrow> bool \<Rightarrow> channel \<Rightarrow> request option" where
  "ChannelAdd name temporary ch = channelRequest ch (\<lambda>i. SendChannelState
     (emptyChannelState\<lparr>m_cs_Parent := Some i, m_cs_Name := Some name, m_cs_Temporary := Some temporary\<rparr>))"

definition ChannelRemove :: "channel \<Rightarrow> request option" where
  "ChannelRemove ch = channelRequest ch (\<lambda>i. SendChannelRemove \<lparr>m_cr_ChannelId = Some i\<rparr>)"

definition SetName :: "string \<Rightarrow> channel \<Rightarrow> request option" where
  "SetName name = channelStateFor (\<lambda>m. m\<lparr>m_cs_Name := Some name\<rparr>)"

definition SetDescription :: "string \<Rightarrow> channel \<Rightarrow> request option" where
  "SetDescription description = channelStateFor (\<lambda>m. m\<lparr>m_cs_Description := Some description\<rparr>)"

definition SetPosition :: "int32 \<Rightarrow> channel \<Rightarrow> request option" where
  "SetPosition position = channelStateFor (\<lambda>m. m\<lparr>m_cs_Position := Some position\<rparr>)"

definition SetMaxUsers :: "uint32 \<Rightarrow> channel \<Rightarrow> request option" where
  "SetMaxUsers n = channelStateFor (\<lambda>m. m\<lparr>m_cs_MaxUsers := Some n\<rparr>)"

definition RequestDescription :: "channel \<Rightarrow> request option" where
  "RequestDescription ch = channelRequest ch (\<lambda>i. SendRequestBlob (emptyBlob\<lparr>m_rb_ChannelDescription := [i]\<rparr>))"

definition RequestACL :: "channel \<Rightarrow> request option" where
  "RequestACL ch = channelRequest ch (\<lambda>i. SendACL
     \<lparr>m_acl_ChannelId = Some i, m_acl_InheritAcls = None, m_acl_Groups = [], m_acl_Acls = []\<rparr> True)"

definition RequestPermission :: "channel \<Rightarrow> request option" where
  "RequestPermission ch = channelRequest ch (\<lambda>i. SendPermissionQuery
     \<lparr>m_pq_ChannelId = Some i, m_pq_Permissions = None, m_pq_Flush = None\<rparr>)"

definition ChannelSend :: "string \<Rightarrow> bool \<Rightarrow> chan_ref \<Rightarrow> client \<Rightarrow> request option" where
  "ChannelSend message recursive ch c = channelRequest (c_channel c ch) (\<lambda>_. SendTextMessage (writeTextMessage
     \<lparr>tm_Sender = None, tm_Users = [], tm_Channels = (if recursive then [] else [ch]),
      tm_Trees = (if recursive then [ch] else []), tm_Message = message\<rparr> c))"

definition ChannelPermission :: "channel \<Rightarrow> client \<Rightarrow> permission option option" where
  "ChannelPermission ch c = (if ch_client ch then Some (map_of (c_permissions c) (ch_ID ch)) else None)"

definition ChannelLink :: "chan_ref list \<Rightarrow> chan_ref \<Rightarrow> client \<Rightarrow> request option" where
  "ChannelLink channels ch c =
    channelStateFor (\<lambda>m. m\<lparr>m_cs_LinksAdd := map (\<lambda>x. ch_ID (c_channel c x)) channels\<rparr>) (c_channel c ch)"

definition ChannelUnlink :: "chan_ref list \<Rightarrow> chan_ref \<Rightarrow> client \<Rightarrow> request option" where
  "ChannelUnlink channels ch c =
    channelStateFor (\<lambda>m. m\<lparr>m_cs_LinksRemove := (if channels = [] then map fst (ch_Links (c_channel c ch))
      else map (\<lambda>x. ch_ID (c_channel c x)) channels)\<rparr>) (c_channel c ch)"

section \<open>Context actions\<close>

definition Trigger :: "contextAction \<Rightarrow> request" where
  "Trigger a = SendContextAction \<lparr>m_cx_Session = None, m_cx_ChannelId = None, m_cx_Action = ca_Name a\<rparr>"

definition TriggerUser :: "user \<Rightarrow> contextAction \<Rightarrow> request" where
  "TriggerUser u a = SendContextAction \<lparr>m_cx_Session = Some (u_Session u), m_cx_ChannelId = None, m_cx_Action = ca_Name a\<rparr>"

definition TriggerChannel :: "channel \<Rightarrow> contextAction \<Rightarrow> request" where
  "TriggerChannel ch a = SendContextAction \<lparr>m_cx_Session = None, m_cx_ChannelId = Some (ch_ID ch), m_cx_Action = ca_Name a\<rparr>"

section \<open>Access control lists\<close>

definition aclGroupMsg :: "aclGroup \<Rightarrow> chanGroupMsg" where
  "aclGroupMsg g = \<lparr>m_cg_Name = Some (ag_Name g), m_cg_Inherited = None, m_cg_Inherit = Some (ag_InheritUsers g),
     m_cg_Inheritable = Some (ag_Inheritable g), m_cg_Add = map (\<lambda>(_, u). au_UserID u) (ag_UsersAdd g),
     m_cg_Remove = map (\<lambda>(_, u). au_UserID u) (ag_UsersRemove g), m_cg_InheritedMembers = []\<rparr>"

definition aclRuleMsg :: "aclRule \<Rightarrow> chanACLMsg" where
  "aclRuleMsg r = \<lparr>m_ca_ApplyHere = Some (ar_AppliesCurrent r), m_ca_ApplySubs = Some (ar_AppliesChildren r),
     m_ca_Inherited = None, m_ca_UserId = map_option au_UserID (ar_User r), m_ca_Group = ar_Group r,
     m_ca_Grant = Some (ucast (ar_Granted r)), m_ca_Deny = Some (ucast (ar_Denied r))\<rparr>"

definition writeACL :: "acl \<Rightarrow> client \<Rightarrow> request" where
  "writeACL a c = SendACL \<lparr>m_acl_ChannelId = Some (ch_ID (c_channel c (acl_Channel a))), m_acl_InheritAcls = Some (acl_Inherits a),
     m_acl_Groups = map aclGroupMsg (acl_Groups a), m_acl_Acls = map aclRuleMsg (acl_Rules a)\<rparr> False"

section \<open>Bans\<close>

definition notNegative :: "int64 \<Rightarrow> int64" where
  "notNegative d = (if d <s 0 then 0 else d)"

definition BanListAdd :: "bytes \<Rightarrow> bytes option \<Rightarrow> string \<Rightarrow> int64 \<Rightarrow> ban list \<Rightarrow> ban list" where
  "BanListAdd address ipmask reason duration bans =
    bans @ [\<lparr>b_Address = address, b_Mask = ipmask, b_Name = [], b_Hash = [], b_Reason = reason, b_Start = 0,
       b_Duration = notNegative duration, b_unban = False\<rparr>]"

definition SetAddress :: "bytes \<Rightarrow> ban \<Rightarrow> ban" where
  "SetAddress address b = b\<lparr>b_Address := address\<rparr>"

definition SetMask :: "bytes option \<Rightarrow> ban \<Rightarrow> ban" where
  "SetMask ipmask b = b\<lparr>b_Mask := ipmask\<rparr>"

definition SetReason :: "string \<Rightarrow> ban \<Rightarrow> ban" where
  "SetReason reason b = b\<lparr>b_Reason := reason\<rparr>"

definition SetDuration :: "int64 \<Rightarrow> ban \<Rightarrow> ban" where
  "SetDuration duration b = b\<lparr>b_Duration := notNegative duration\<rparr>"

definition Unban :: "ban \<Rightarrow> ban" where
  "Unban b = b\<lparr>b_unban := True\<rparr>"

definition BanAgain :: "ban \<Rightarrow> ban" where
  "BanAgain b = b\<lparr>b_unban := False\<rparr>"

text \<open>\<^verbatim>\<open>net.IPMask.Size\<close>: the leading one bits of a mask, 0 when others follow a zero bit; a nil mask has
  size 0.\<close>

fun leadingOnes :: "nat \<Rightarrow> byte \<Rightarrow> nat \<times> byte" where
  "leadingOnes 0 v = (0, v)"
| "leadingOnes (Suc k) v =
    (if v AND 0x80 \<noteq> 0 then (case leadingOnes k (push_bit 1 v) of (n, w) \<Rightarrow> (Suc n, w)) else (0, v))"

fun simpleMaskLength :: "bytes \<Rightarrow> nat option" where
  "simpleMaskLength [] = Some 0"
| "simpleMaskLength (v # vs) =
    (if v = 0xFF then map_option ((+) 8) (simpleMaskLength vs)
     else case leadingOnes 8 v of
       (n, rest) \<Rightarrow> if rest \<noteq> 0 \<or> (\<exists>w \<in> set vs. w \<noteq> 0) then None else Some n)"

definition maskSize :: "bytes option \<Rightarrow> nat" where
  "maskSize ipmask = (case ipmask of None \<Rightarrow> 0 | Some m \<Rightarrow> (case simpleMaskLength m of None \<Rightarrow> 0 | Some n \<Rightarrow> n))"

definition banEntryOf :: "ban \<Rightarrow> banEntryMsg" where
  "banEntryOf b = \<lparr>m_be_Address = b_Address b, m_be_Mask = Some (of_nat (maskSize (b_Mask b))), m_be_Name = None,
     m_be_Hash = None, m_be_Reason = Some (b_Reason b), m_be_Start = None,
     m_be_Duration = Some (ucast (quot64 (b_Duration b) 1000000000))\<rparr>"

definition writeBanList :: "ban list \<Rightarrow> request" where
  "writeBanList bans = SendBanList (map banEntryOf (filter (\<lambda>b. \<not> b_unban b) bans)) False"

definition RequestBanList :: request where
  "RequestBanList = SendBanList [] True"

section \<open>Registered users\<close>

definition RegisteredSetName :: "string \<Rightarrow> registeredUser \<Rightarrow> registeredUser" where
  "RegisteredSetName name r = r\<lparr>ru_Name := name, ru_changed := True\<rparr>"

definition Deregister :: "registeredUser \<Rightarrow> registeredUser" where
  "Deregister r = r\<lparr>ru_deregister := True\<rparr>"

definition RegisterAgain :: "registeredUser \<Rightarrow> registeredUser" where
  "RegisterAgain r = r\<lparr>ru_deregister := False\<rparr>"

definition ACLUserOf :: "registeredUser \<Rightarrow> aclUser" where
  "ACLUserOf r = \<lparr>au_UserID = ru_UserID r, au_Name = ru_Name r\<rparr>"

definition userListEntry :: "registeredUser \<Rightarrow> userListUserMsg" where
  "userListEntry r = \<lparr>m_ul_UserId = Some (ru_UserID r), m_ul_Name = (if ru_deregister r then None else Some (ru_Name r)),
     m_ul_LastSeen = None, m_ul_LastChannel = None\<rparr>"

text \<open>Nothing is sent when nothing changed.\<close>

definition writeUserList :: "registeredUser list \<Rightarrow> request option" where
  "writeUserList users =
    (case filter (\<lambda>r. ru_deregister r \<or> ru_changed r) users of
       [] \<Rightarrow> None
     | rs \<Rightarrow> Some (SendUserList (map userListEntry rs)))"

definition RequestUserList :: request where
  "RequestUserList = SendUserList []"

section \<open>Voice targets and access tokens\<close>

record voiceTargetChannel =
  vc_channel :: chan_ref
  vc_links :: bool
  vc_recursive :: bool
  vc_group :: string

record voiceTarget =
  vo_ID :: uint32
  vo_users :: "user_ref list"
  vo_channels :: "voiceTargetChannel list"

definition VoiceTargetLoopback :: voiceTarget where
  "VoiceTargetLoopback = \<lparr>vo_ID = 31, vo_users = [], vo_channels = []\<rparr>"

definition Clear :: "voiceTarget \<Rightarrow> voiceTarget" where
  "Clear v = v\<lparr>vo_users := [], vo_channels := []\<rparr>"

definition AddUser :: "user_ref \<Rightarrow> voiceTarget \<Rightarrow> voiceTarget" where
  "AddUser u v = v\<lparr>vo_users := vo_users v @ [u]\<rparr>"

definition AddChannel :: "chan_ref \<Rightarrow> bool \<Rightarrow> bool \<Rightarrow> string \<Rightarrow> voiceTarget \<Rightarrow> voiceTarget" where
  "AddChannel channel recursive links grp v = v\<lparr>vo_channels := vo_channels v @
     [\<lparr>vc_channel = channel, vc_links = links, vc_recursive = recursive, vc_group = grp\<rparr>]\<rparr>"

definition writeVoiceTarget :: "voiceTarget \<Rightarrow> client \<Rightarrow> request" where
  "writeVoiceTarget v c = SendVoiceTarget (vo_ID v)
    (map (\<lambda>u. \<lparr>vt_Session = [u_Session (c_user c u)], vt_ChannelId = None, vt_Group = None, vt_Links = None, vt_Children = None\<rparr>) (vo_users v)
     @ map (\<lambda>t. \<lparr>vt_Session = [], vt_ChannelId = Some (ch_ID (c_channel c (vc_channel t))),
          vt_Group = (if vc_group t \<noteq> [] then Some (vc_group t) else None),
          vt_Links = Some (vc_links t), vt_Children = Some (vc_recursive t)\<rparr>) (vo_channels v))"

definition writeAccessTokens :: "string list \<Rightarrow> request" where
  "writeAccessTokens tokens = SendAuthenticate tokens"

text \<open>The dynamic type \<^verbatim>\<open>WriteProto\<close> sees.\<close>

fun kindOf :: "request \<Rightarrow> messageKind" where
  "kindOf (SendUserState _) = KUserState"
| "kindOf (SendUserRemove _) = KUserRemove"
| "kindOf (SendChannelState _) = KChannelState"
| "kindOf (SendChannelRemove _) = KChannelRemove"
| "kindOf (SendTextMessage _) = KTextMessage"
| "kindOf (SendPermissionQuery _) = KPermissionQuery"
| "kindOf (SendUserStats _) = KUserStats"
| "kindOf (SendRequestBlob _) = KRequestBlob"
| "kindOf (SendACL _ _) = KACL"
| "kindOf (SendBanList _ _) = KBanList"
| "kindOf (SendUserList _) = KUserList"
| "kindOf (SendVoiceTarget _ _) = KVoiceTarget"
| "kindOf (SendContextAction _) = KContextAction"
| "kindOf (SendAuthenticate _) = KAuthenticate"

section \<open>Permissions, versions, rejections\<close>

definition PermissionHas :: "permission \<Rightarrow> permission \<Rightarrow> bool" where
  "PermissionHas p o' \<longleftrightarrow> p AND o' = o'"

definition SemanticVersion :: "version \<Rightarrow> uint16 \<times> byte \<times> byte" where
  "SemanticVersion v =
    (ucast (drop_bit 16 (v_Version v)) AND 0xFFFF, ucast (drop_bit 8 (v_Version v)) AND 0xFF, ucast (v_Version v) AND 0xFF)"

text \<open>\<^verbatim>\<open>RejectType\<close> by its protobuf number.\<close>

definition RejectErrorText :: "rejectError \<Rightarrow> string" where
  "RejectErrorText e =
    (let msg =
       (if re_Type e = 0 then ''none''
        else if re_Type e = 1 then ''wrong client version''
        else if re_Type e = 2 then ''invalid username''
        else if re_Type e = 3 then ''incorrect user credentials''
        else if re_Type e = 4 then ''incorrect server password''
        else if re_Type e = 5 then ''username in use''
        else if re_Type e = 6 then ''server full''
        else if re_Type e = 7 then ''no certificate''
        else if re_Type e = 8 then ''authenticator fail''
        else ''unknown type '' @ Itoa (re_Type e))
     in if re_Reason e \<noteq> [] then msg @ '': '' @ re_Reason e else msg)"

section \<open>What the server's echo does\<close>

text \<open>The message of a request, sent back by the server, makes exactly the change asked for.\<close>

definition echoes :: "client \<Rightarrow> user_ref \<Rightarrow> request option \<Rightarrow> (user \<Rightarrow> user) \<Rightarrow> bool" where
  "echoes c r req f \<longleftrightarrow> (\<exists>m c'. req = Some (SendUserState m) \<and> userState m c = Ok c' \<and> c_user c' r = f (c_user c r)
     \<and> (\<forall>r'. r' \<noteq> r \<longrightarrow> c_user c' r' = c_user c r') \<and> c_channel c' = c_channel c \<and> c_Users c' = c_Users c)"

lemma emitIfSynced_cells [simp]:
  "c_user (emitIfSynced e c) = c_user c" "c_channel (emitIfSynced e c) = c_channel c" "c_Users (emitIfSynced e c) = c_Users c"
  by (simp_all add: emitIfSynced_def emit_def)

lemma setUser_cells [simp]:
  "c_channel (setUser r f c) = c_channel c" "c_Users (setUser r f c) = c_Users c"
  by (simp_all add: setUser_def)

lemma echo_of:
  assumes "map_of (c_Users c) s = Some r" and "m_us_Session m = Some s" and "m_us_Actor m = None" and "m_us_ChannelId m = None"
    and "\<And>ty c'. (ty, c') = updateUser m r (whenSome (m_us_UserId m) (setUserID r) (whenSome (m_us_Name m) (setFlagged u_Name u_Name_update UserChangeName r) (0, c)))
      \<Longrightarrow> c_user c' r = f (c_user c r) \<and> (\<forall>r'. r' \<noteq> r \<longrightarrow> c_user c' r' = c_user c r') \<and> c_channel c' = c_channel c \<and> c_Users c' = c_Users c"
  shows "echoes c r (Some (SendUserState m)) f"
proof -
  obtain ty c' where u: "updateUser m r (whenSome (m_us_UserId m) (setUserID r) (whenSome (m_us_Name m) (setFlagged u_Name u_Name_update UserChangeName r) (0, c))) = (ty, c')"
    by (cases "updateUser m r (whenSome (m_us_UserId m) (setUserID r) (whenSome (m_us_Name m) (setFlagged u_Name u_Name_update UserChangeName r) (0, c)))")
  have "userState m c = Ok (emitIfSynced (UserChangeEvent \<lparr>uc_Type = ty, uc_User = Some r, uc_Actor = None, uc_String = []\<rparr>) c')"
    using assms(1-4) u by (simp add: userState_def findOrCreateUser_def findActor_def)
  then show ?thesis using assms(5) [OF u [symmetric]] by (simp add: echoes_def)
qed

lemma echo_userState:
  assumes "map_of (c_Users c) (u_Session (c_user c r)) = Some r" and "u_client (c_user c r)"
    and "\<And>m. m_us_Session (g m) = m_us_Session m \<and> m_us_Actor (g m) = m_us_Actor m \<and> m_us_ChannelId (g m) = m_us_ChannelId m"
    and "\<And>m ty c'. m = g (emptyUserState\<lparr>m_us_Session := Some (u_Session (c_user c r))\<rparr>) \<Longrightarrow>
      (ty, c') = updateUser m r (whenSome (m_us_UserId m) (setUserID r) (whenSome (m_us_Name m) (setFlagged u_Name u_Name_update UserChangeName r) (0, c)))
      \<Longrightarrow> c_user c' r = f (c_user c r) \<and> (\<forall>r'. r' \<noteq> r \<longrightarrow> c_user c' r' = c_user c r') \<and> c_channel c' = c_channel c \<and> c_Users c' = c_Users c"
  shows "echoes c r (userStateFor g (c_user c r)) f"
proof -
  define m where "m = g (emptyUserState\<lparr>m_us_Session := Some (u_Session (c_user c r))\<rparr>)"
  have fields: "m_us_Session m = Some (u_Session (c_user c r))" "m_us_Actor m = None" "m_us_ChannelId m = None"
    using assms(3) [of "emptyUserState\<lparr>m_us_Session := Some (u_Session (c_user c r))\<rparr>"]
    by (simp_all add: m_def emptyUserState_def)
  have "echoes c r (Some (SendUserState m)) f"
    by (rule echo_of [OF assms(1) fields]) (rule assms(4) [OF m_def])
  then show ?thesis using assms(2) by (simp add: userStateFor_def userRequest_def m_def)
qed

lemmas echo_eval = updateUser_def setFlagged_def setUser_heap emptyUserState_def Let_def

text \<open>C32. Every setter of a user does what it says once the server echoes it: handling the message that a
  setter sends, for a user the client knows, changes exactly that field of exactly that user (a new
  comment or texture also drops its outdated hash), and nothing else of users or channels.\<close>

theorem user_setters_echo:
  assumes "map_of (c_Users c) (u_Session (c_user c r)) = Some r" and "u_client (c_user c r)"
  shows "echoes c r (SetMuted b (c_user c r)) (\<lambda>u. u\<lparr>u_Muted := b\<rparr>)
    \<and> echoes c r (SetDeafened b (c_user c r)) (\<lambda>u. u\<lparr>u_Deafened := b\<rparr>)
    \<and> echoes c r (SetSuppressed b (c_user c r)) (\<lambda>u. u\<lparr>u_Suppressed := b\<rparr>)
    \<and> echoes c r (SetSelfMuted b (c_user c r)) (\<lambda>u. u\<lparr>u_SelfMuted := b\<rparr>)
    \<and> echoes c r (SetSelfDeafened b (c_user c r)) (\<lambda>u. u\<lparr>u_SelfDeafened := b\<rparr>)
    \<and> echoes c r (SetPrioritySpeaker b (c_user c r)) (\<lambda>u. u\<lparr>u_PrioritySpeaker := b\<rparr>)
    \<and> echoes c r (SetRecording b (c_user c r)) (\<lambda>u. u\<lparr>u_Recording := b\<rparr>)
    \<and> echoes c r (SetComment comment (c_user c r)) (\<lambda>u. u\<lparr>u_Comment := comment, u_CommentHash := None\<rparr>)
    \<and> echoes c r (SetTexture (Some texture) (c_user c r)) (\<lambda>u. u\<lparr>u_Texture := Some texture, u_TextureHash := None\<rparr>)"
proof (intro conjI)
  note rule = echo_userState [OF assms]
  show "echoes c r (SetMuted b (c_user c r)) (\<lambda>u. u\<lparr>u_Muted := b\<rparr>)"
    unfolding SetMuted_def by (rule rule) (simp, simp add: echo_eval)
  show "echoes c r (SetDeafened b (c_user c r)) (\<lambda>u. u\<lparr>u_Deafened := b\<rparr>)"
    unfolding SetDeafened_def by (rule rule) (simp, simp add: echo_eval)
  show "echoes c r (SetSuppressed b (c_user c r)) (\<lambda>u. u\<lparr>u_Suppressed := b\<rparr>)"
    unfolding SetSuppressed_def by (rule rule) (simp, simp add: echo_eval)
  show "echoes c r (SetSelfMuted b (c_user c r)) (\<lambda>u. u\<lparr>u_SelfMuted := b\<rparr>)"
    unfolding SetSelfMuted_def by (rule rule) (simp, simp add: echo_eval)
  show "echoes c r (SetSelfDeafened b (c_user c r)) (\<lambda>u. u\<lparr>u_SelfDeafened := b\<rparr>)"
    unfolding SetSelfDeafened_def by (rule rule) (simp, simp add: echo_eval)
  show "echoes c r (SetPrioritySpeaker b (c_user c r)) (\<lambda>u. u\<lparr>u_PrioritySpeaker := b\<rparr>)"
    unfolding SetPrioritySpeaker_def by (rule rule) (simp, simp add: echo_eval)
  show "echoes c r (SetRecording b (c_user c r)) (\<lambda>u. u\<lparr>u_Recording := b\<rparr>)"
    unfolding SetRecording_def by (rule rule) (simp, simp add: echo_eval)
  show "echoes c r (SetComment comment (c_user c r)) (\<lambda>u. u\<lparr>u_Comment := comment, u_CommentHash := None\<rparr>)"
    unfolding SetComment_def by (rule rule) (simp, simp add: echo_eval)
  show "echoes c r (SetTexture (Some texture) (c_user c r)) (\<lambda>u. u\<lparr>u_Texture := Some texture, u_TextureHash := None\<rparr>)"
    unfolding SetTexture_def by (rule rule) (simp, simp add: echo_eval)
qed

definition oneUser :: client where
  "oneUser = (newClient NewConfig)\<lparr>c_Users := [(4, 0)], c_user := (\<lambda>_. (newUser 4)\<lparr>u_client := True\<rparr>)\<rparr>"

theorem user_setters_echo_witness:
  "echoes oneUser 0 (SetMuted True (c_user oneUser 0)) (\<lambda>u. u\<lparr>u_Muted := True\<rparr>)"
  using user_setters_echo [of oneUser 0 True "[]" "[]"] by (simp add: oneUser_def newUser_def)

section \<open>Messages there and back\<close>

text \<open>A text message that is written for users and channels the receiver knows is received with the
  same recipients in the same order and the same text.\<close>

theorem text_message_roundtrip:
  assumes "\<forall>u \<in> set (tm_Users t). map_of (c_Users c) (u_Session (c_user c u)) = Some u"
    and "\<forall>ch \<in> set (tm_Channels t @ tm_Trees t). map_of (c_Channels c) (ch_ID (c_channel c ch)) = Some ch"
  shows "textMessageEvent (writeTextMessage t c) c = Ok (emit (TextMessageEvent (t\<lparr>tm_Sender := None\<rparr>)) c)"
proof -
  have f: "List.map_filter g (map h xs) = xs" if "\<forall>x \<in> set xs. g (h x) = Some x" for g h and xs :: "nat list"
    using that by (induction xs) (simp_all add: List.map_filter_simps)
  show ?thesis
    using assms by (cases t) (simp add: textMessageEvent_def writeTextMessage_def f)
qed

theorem text_message_roundtrip_witness:
  "textMessageEvent (writeTextMessage \<lparr>tm_Sender = None, tm_Users = [0], tm_Channels = [], tm_Trees = [], tm_Message = ''hi''\<rparr> oneUser) oneUser
    = Ok (emit (TextMessageEvent \<lparr>tm_Sender = None, tm_Users = [0], tm_Channels = [], tm_Trees = [], tm_Message = ''hi''\<rparr>) oneUser)"
  using text_message_roundtrip [of "\<lparr>tm_Sender = None, tm_Users = [0], tm_Channels = [], tm_Trees = [], tm_Message = ''hi''\<rparr>" oneUser]
  by (simp add: oneUser_def newUser_def)

section \<open>Ban lists there and back\<close>

definition maskByte :: "nat \<Rightarrow> byte" where
  "maskByte n = (if 8 \<le> n then 0xFF else NOT (drop_bit n 0xFF))"

lemma CIDRMask_bytes: "0 \<le> ones \<Longrightarrow> ones \<le> int bits \<Longrightarrow>
    CIDRMask ones bits = Some (map (\<lambda>i. maskByte (nat ones - 8 * i)) [0..<bits div 8])"
  by (simp add: CIDRMask_def maskByte_def Let_def)

lemma maskByte_lead: "n < 8 \<Longrightarrow> maskByte n \<noteq> 0xFF \<and> leadingOnes 8 (maskByte n) = (n, 0)"
proof -
  have "maskByte 0 \<noteq> 0xFF \<and> leadingOnes 8 (maskByte 0) = (0, 0)" by code_simp
  moreover have "maskByte 1 \<noteq> 0xFF \<and> leadingOnes 8 (maskByte 1) = (1, 0)" by code_simp
  moreover have "maskByte 2 \<noteq> 0xFF \<and> leadingOnes 8 (maskByte 2) = (2, 0)" by code_simp
  moreover have "maskByte 3 \<noteq> 0xFF \<and> leadingOnes 8 (maskByte 3) = (3, 0)" by code_simp
  moreover have "maskByte 4 \<noteq> 0xFF \<and> leadingOnes 8 (maskByte 4) = (4, 0)" by code_simp
  moreover have "maskByte 5 \<noteq> 0xFF \<and> leadingOnes 8 (maskByte 5) = (5, 0)" by code_simp
  moreover have "maskByte 6 \<noteq> 0xFF \<and> leadingOnes 8 (maskByte 6) = (6, 0)" by code_simp
  moreover have "maskByte 7 \<noteq> 0xFF \<and> leadingOnes 8 (maskByte 7) = (7, 0)" by code_simp
  moreover assume "n < 8"
  then have "n = 0 \<or> n = 1 \<or> n = 2 \<or> n = 3 \<or> n = 4 \<or> n = 5 \<or> n = 6 \<or> n = 7" by arith
  ultimately show ?thesis by metis
qed

lemma maskByte_0: "maskByte 0 = 0"
  by code_simp

lemma maskLength_mask: "n \<le> 8 * k \<Longrightarrow> simpleMaskLength (map (\<lambda>i. maskByte (n - 8 * i)) [0..<k]) = Some n"
proof (induction k arbitrary: n)
  case (Suc k)
  have split: "map (\<lambda>i. maskByte (n - 8 * i)) [0..<Suc k] = maskByte n # map (\<lambda>i. maskByte (n - 8 - 8 * i)) [0..<k]"
    unfolding upt_conv_Cons [OF zero_less_Suc] map_Suc_upt [symmetric] by simp
  show ?case
  proof (cases "8 \<le> n")
    case True
    then have "maskByte n = 0xFF" by (simp add: maskByte_def)
    then show ?thesis unfolding split using Suc.IH [of "n - 8"] Suc.prems True by simp
  next
    case False
    then have "maskByte n \<noteq> 0xFF" "leadingOnes 8 (maskByte n) = (n, 0)" using maskByte_lead by simp_all
    moreover have "\<forall>w \<in> set (map (\<lambda>i. maskByte (n - 8 - 8 * i)) [0..<k]). w = 0"
      using False by (auto simp: maskByte_0)
    ultimately show ?thesis unfolding split by simp
  qed
qed simp

lemma duration_roundtrip: "ucast (quot64 (ucast (d :: uint32) * 1000000000) 1000000000) = d"
proof -
  have u: "0 \<le> uint d" "uint d < 2 ^ 32" using unsigned_less [where 'a = int, of d] by simp_all
  have "(ucast d * 1000000000 :: int64) = word_of_int (uint d * 1000000000)"
    by (simp only: ucast_eq wi_hom_mult [symmetric]) simp
  have fits: "sint (word_of_int x :: int64) = x" if "0 \<le> x" "x < 2 ^ 63" for x
    using that by (simp add: signed_of_int signed_take_bit_int_eq_self)
  moreover have "sint (word_of_int (uint d * 1000000000) :: int64) = uint d * 1000000000"
    by (rule fits) (use u in simp_all)
  ultimately have "quot64 (ucast d * 1000000000) 1000000000 = word_of_int (uint d)"
    using u by (simp add: quot64_def goQuot_nonneg)
  then show ?thesis by (simp add: unsigned_ucast_eq ucast_eq [symmetric]) 
qed

lemma maskSize_CIDR:
  "uint m \<le> int bits \<Longrightarrow> bits mod 8 = 0 \<Longrightarrow> maskSize (CIDRMask (uint m) bits) = unat m"
proof -
  assume le: "uint m \<le> int bits" and mod8: "bits mod 8 = 0"
  have u: "nat (uint m) = unat m" by (rule unat_eq_nat_uint [symmetric])
  have b: "8 * (bits div 8) = bits" using mod8 by presburger
  have "unat m \<le> bits" using le by (simp only: u [symmetric] nat_le_iff)
  then have "unat m \<le> 8 * (bits div 8)" unfolding b .
  from maskLength_mask [OF this]
  have "simpleMaskLength (map (\<lambda>i. maskByte (nat (uint m) - 8 * i)) [0..<bits div 8]) = Some (unat m)" unfolding u .
  moreover have "CIDRMask (uint m) bits = Some (map (\<lambda>i. maskByte (nat (uint m) - 8 * i)) [0..<bits div 8])"
    by (rule CIDRMask_bytes) (use le in simp_all)
  ultimately show ?thesis unfolding maskSize_def by (simp only: option.case)
qed

text \<open>Reading a ban list and sending it back keeps the address, mask, reason and duration of each
  entry, and loses the banned user's name, the certificate hash and the start of the ban.\<close>

theorem ban_list_loses_identity:
  assumes "m_be_Mask p = Some m" and "uint m \<le> (if length (m_be_Address p) = 16 then 128 else 32)"
  shows "writeBanList [banEntry E p] = SendBanList [p\<lparr>m_be_Name := None, m_be_Hash := None, m_be_Start := None,
      m_be_Reason := Some (case m_be_Reason p of None \<Rightarrow> [] | Some s \<Rightarrow> s),
      m_be_Duration := Some (case m_be_Duration p of None \<Rightarrow> 0 | Some d \<Rightarrow> d)\<rparr>] False"
proof -
  have size: "maskSize (b_Mask (banEntry E p)) = unat m"
    using assms maskSize_CIDR [of m "16 * 8"] maskSize_CIDR [of m "4 * 8"] by (auto simp: banEntry_def)
  have "ucast (quot64 (b_Duration (banEntry E p)) 1000000000) = (case m_be_Duration p of None \<Rightarrow> 0 | Some d \<Rightarrow> d)"
    by (cases "m_be_Duration p") (simp_all add: banEntry_def duration_roundtrip, simp add: quot64_def goQuot_def)
  then have "banEntryOf (banEntry E p) = p\<lparr>m_be_Name := None, m_be_Hash := None, m_be_Start := None,
      m_be_Reason := Some (case m_be_Reason p of None \<Rightarrow> [] | Some s \<Rightarrow> s),
      m_be_Duration := Some (case m_be_Duration p of None \<Rightarrow> 0 | Some d \<Rightarrow> d)\<rparr>"
    using size assms(1) by (cases p) (simp add: banEntryOf_def, simp add: banEntry_def)
  then show ?thesis by (simp add: writeBanList_def) (simp add: banEntry_def)
qed

theorem ban_list_loses_identity_witness:
  "writeBanList [banEntry nullEnv \<lparr>m_be_Address = [10, 0, 0, 0], m_be_Mask = Some 8, m_be_Name = Some ''eve'', m_be_Hash = Some ''ab'',
      m_be_Reason = None, m_be_Start = Some ''t'', m_be_Duration = Some 60\<rparr>]
    = SendBanList [\<lparr>m_be_Address = [10, 0, 0, 0], m_be_Mask = Some 8, m_be_Name = None, m_be_Hash = None,
      m_be_Reason = Some [], m_be_Start = None, m_be_Duration = Some 60\<rparr>] False"
  using ban_list_loses_identity [of "\<lparr>m_be_Address = [10, 0, 0, 0], m_be_Mask = Some 8, m_be_Name = Some ''eve'', m_be_Hash = Some ''ab'',
      m_be_Reason = None, m_be_Start = Some ''t'', m_be_Duration = Some 60\<rparr>" 8 nullEnv] by simp

end
