(* ===== verification/NetIP.thy ===== *)
theory NetIP
  imports InfoHandlers GoStrings
begin

text \<open>
  The text forms of network addresses that the administration commands use: \<^verbatim>\<open>net.ParseCIDR\<close> on
  IPv4 and IPv6 addresses and \<^verbatim>\<open>net.IP.String\<close>.  An address is the \<^verbatim>\<open>net.IP\<close> byte slice, of 4 or 16
  bytes; \<^verbatim>\<open>ParseCIDR\<close> always gives 16, an IPv4 address in the \<^verbatim>\<open>::ffff:0:0/96\<close> block, but a mask of 4 bytes
  for an IPv4 text.
\<close>

section \<open>Parsing\<close>

text \<open>\<^verbatim>\<open>strings.Split\<close> on one character.\<close>

fun splitOn :: "char \<Rightarrow> string \<Rightarrow> string list" where
  "splitOn sep [] = [[]]"
| "splitOn sep (c # cs) =
    (if c = sep then [] # splitOn sep cs
     else case splitOn sep cs of [] \<Rightarrow> [[c]] | w # ws \<Rightarrow> (c # w) # ws)"

definition octet :: "string \<Rightarrow> byte option" where
  "octet s =
    (if s = [] \<or> (\<exists>c \<in> set s. \<not> isDigit c) \<or> length s > 1 \<and> hd s = CHR ''0'' \<or> valueOf s > 255 then None
     else Some (of_nat (valueOf s)))"

definition parseIPv4 :: "string \<Rightarrow> bytes option" where
  "parseIPv4 s = (let fields = splitOn CHR ''.'' s in if length fields = 4 then traverse octet fields else None)"

definition isHex :: "char \<Rightarrow> bool" where
  "isHex c \<longleftrightarrow> isDigit c \<or> 65 \<le> (of_char c :: nat) \<and> (of_char c :: nat) \<le> 70
     \<or> 97 \<le> (of_char c :: nat) \<and> (of_char c :: nat) \<le> 102"

definition hexValue :: "char \<Rightarrow> nat" where
  "hexValue c = (if isDigit c then of_char c - 48 else if (of_char c :: nat) \<le> 70 then of_char c - 55 else of_char c - 87)"

definition hexNumber :: "string \<Rightarrow> nat" where
  "hexNumber s = foldl (\<lambda>v c. 16 * v + hexValue c) 0 s"

text \<open>The groups of an IPv6 address from byte \<open>length acc\<close> on: the bytes read and the place of the
  ellipsis.\<close>

function groupsV6 :: "nat option \<Rightarrow> bytes \<Rightarrow> string \<Rightarrow> (nat option \<times> bytes) option" where
  "groupsV6 e acc s =
    (if 16 \<le> length acc then (if s = [] then Some (e, acc) else None)
     else let run = takeWhile isHex s; n = hexNumber run; acc' = acc @ [of_nat (n div 256), of_nat n] in
       if run = [] \<or> length run > 4 then None
       else case dropWhile isHex s of
         [] \<Rightarrow> Some (e, acc')
       | c # cs \<Rightarrow>
           if c = CHR ''.'' then
             (if e = None \<and> length acc \<noteq> 12 \<or> length acc + 4 > 16 then None
              else map_option (\<lambda>v. (e, acc @ v)) (parseIPv4 s))
           else if c \<noteq> CHR '':'' then None
           else (case cs of
               [] \<Rightarrow> None
             | d # ds \<Rightarrow>
                 if d = CHR '':'' then
                   (if e \<noteq> None then None
                    else if ds = [] then Some (Some (length acc'), acc')
                    else groupsV6 (Some (length acc')) acc' ds)
                 else groupsV6 e acc' cs))"
  by pat_completeness auto
termination
proof (relation "measure (\<lambda>(e, acc, s). length s)", goal_cases)
  case 1
  then show ?case by simp
next
  case (2 e acc s run n acc' c cs d ds)
  then show ?case using length_dropWhile_le [of isHex s] by simp
next
  case (3 e acc s run n acc' c cs d ds)
  then show ?case using length_dropWhile_le [of isHex s] by simp
qed

declare groupsV6.simps [simp del]

definition expandV6 :: "nat option \<times> bytes \<Rightarrow> bytes option" where
  "expandV6 r = (case r of (e, acc) \<Rightarrow>
     if length acc < 16 then map_option (\<lambda>k. take k acc @ replicate (16 - length acc) 0 @ drop k acc) e
     else if e \<noteq> None then None else Some acc)"

definition parseIPv6 :: "string \<Rightarrow> bytes option" where
  "parseIPv6 s =
    (if take 2 s = ''::'' then
       (if drop 2 s = [] then Some (replicate 16 0) else Option.bind (groupsV6 (Some 0) [] (drop 2 s)) expandV6)
     else Option.bind (groupsV6 None [] s) expandV6)"

definition mapped :: "bytes \<Rightarrow> bytes" where
  "mapped v = replicate 10 0 @ [0xFF, 0xFF] @ v"

text \<open>\<^verbatim>\<open>netip.ParseAddr\<close> without a zone, as 16 bytes with the length in bits of its own kind.\<close>

definition ParseAddr :: "string \<Rightarrow> (bytes \<times> nat) option" where
  "ParseAddr s =
    (case find (\<lambda>c. c = CHR ''.'' \<or> c = CHR '':'' \<or> c = CHR ''%'') s of
       None \<Rightarrow> None
     | Some c \<Rightarrow>
         if c = CHR ''.'' then map_option (\<lambda>v. (mapped v, 32)) (parseIPv4 s)
         else if c = CHR '':'' then map_option (\<lambda>v. (v, 128)) (parseIPv6 s)
         else None)"

definition ParseCIDR :: "string \<Rightarrow> (bytes \<times> bytes option) option" where
  "ParseCIDR s =
    (let addr = takeWhile (\<lambda>c. c \<noteq> CHR ''/'') s in
     case dropWhile (\<lambda>c. c \<noteq> CHR ''/'') s of
       [] \<Rightarrow> None
     | _ # m \<Rightarrow> (case ParseAddr addr of
         None \<Rightarrow> None
       | Some (ip, bits) \<Rightarrow>
           if m = [] \<or> (\<exists>c \<in> set m. \<not> isDigit c) \<or> valueOf m > bits then None
           else Some (ip, CIDRMask (int (valueOf m)) bits)))"

section \<open>Printing\<close>

definition To4 :: "bytes \<Rightarrow> bytes option" where
  "To4 ip = (if length ip = 4 then Some ip
     else if length ip = 16 \<and> take 12 ip = replicate 10 0 @ [0xFF, 0xFF] then Some (drop 12 ip) else None)"

definition dotted :: "bytes \<Rightarrow> string" where
  "dotted v = Join ''.'' (map (\<lambda>b. digits (unat b)) v)"

definition hexDigit :: "nat \<Rightarrow> char" where
  "hexDigit d = (if d < 10 then digit d else char_of (87 + d))"

fun hexDigits :: "nat \<Rightarrow> nat \<Rightarrow> string" where
  "hexDigits 0 n = []"
| "hexDigits (Suc k) n = hexDigits k (n div 16) @ [hexDigit (n mod 16)]"

definition hexGroup :: "nat \<Rightarrow> string" where
  "hexGroup n = hexDigits (if n < 16 then 1 else if n < 256 then 2 else if n < 4096 then 3 else 4) n"

text \<open>The first longest run of at least two zero groups, as its start and end.\<close>

definition zeroRun :: "nat list \<Rightarrow> nat \<times> nat" where
  "zeroRun gs = fold (\<lambda>i (a, z). let j = i + length (takeWhile (\<lambda>g. g = 0) (drop i gs)) in
      if j - i \<ge> 2 \<and> j - i > z - a then (i, j) else (a, z)) [0..<8] (8, 8)"

definition colons :: "bytes \<Rightarrow> string" where
  "colons ip =
    (let gs = map (\<lambda>i. 256 * unat (ip ! (2 * i)) + unat (ip ! (2 * i + 1))) [0..<8];
         (a, z) = zeroRun gs
     in if a = z then Join '':'' (map hexGroup gs)
        else Join '':'' (map hexGroup (take a gs)) @ ''::'' @ Join '':'' (map hexGroup (drop z gs)))"

definition ipString :: "bytes \<Rightarrow> string" where
  "ipString ip =
    (if ip = [] then ''<nil>''
     else if length ip \<noteq> 4 \<and> length ip \<noteq> 16 then ''?'' @ concat (map (\<lambda>b. hexDigits 2 (unat b)) ip)
     else case To4 ip of Some v \<Rightarrow> dotted v | None \<Rightarrow> colons ip)"

section \<open>Dotted addresses there and back\<close>

lemma splitOn_word: "sep \<notin> set w \<Longrightarrow> splitOn sep w = [w]"
  by (induction w) auto

lemma splitOn_word_Cons: "sep \<notin> set w \<Longrightarrow> splitOn sep (w @ sep # cs) = w # splitOn sep cs"
  by (induction w) auto

lemma all_digits: "c \<in> set (digits n) \<Longrightarrow> isDigit c"
  using isDigit_digits isDigit_digit by blast

lemma digits_free: "\<not> isDigit c \<Longrightarrow> c \<notin> set (digits n)"
  using all_digits by blast

lemma separators [simp]: "\<not> isDigit CHR ''.''" "\<not> isDigit CHR ''/''" "\<not> isDigit CHR '':''" "\<not> isDigit CHR ''%''"
  by (simp_all add: isDigit_def)

lemma ParseInt_digits: "int n < 2 ^ (bits - 1) \<Longrightarrow> ParseInt bits (digits n) = Some (int n)"
proof -
  assume small: "int n < 2 ^ (bits - 1)"
  obtain c cs where d: "digits n = c # cs" by (cases "digits n") simp_all
  have all: "\<forall>x \<in> set (c # cs). isDigit x" using all_digits unfolding d [symmetric] by blast
  then have "c \<noteq> CHR ''-''" "c \<noteq> CHR ''+''" by (auto simp: isDigit_def)
  moreover have "valueOf (c # cs) = n" unfolding d [symmetric] by simp
  ultimately show ?thesis using all small unfolding d by (auto simp: ParseInt_def Let_def)
qed

lemma digit_chars:
  "digit 0 = CHR ''0''" "digit (Suc 0) = CHR ''1''" "digit 1 = CHR ''1''" "digit 2 = CHR ''2''" "digit 3 = CHR ''3''" "digit 4 = CHR ''4''"
  "digit 5 = CHR ''5''" "digit 6 = CHR ''6''" "digit 7 = CHR ''7''" "digit 8 = CHR ''8''" "digit 9 = CHR ''9''"
  by code_simp+

lemma digit_0: "digit d = CHR ''0'' \<Longrightarrow> d < 10 \<Longrightarrow> d = 0"
  using digitValue_digit [of d] by (simp add: digitValue_def del: digitValue_digit)

lemma hd_digits: "0 < n \<Longrightarrow> hd (digits n) \<noteq> CHR ''0''"
proof (induction n rule: digits.induct)
  case (1 n)
  show ?case
  proof (cases "n < 10")
    case True
    then show ?thesis using 1 digit_0 [of n] by (subst digits.simps) auto
  next
    case False
    then show ?thesis using 1 by (subst digits.simps) simp
  qed
qed

lemma length_digits_0: "length (digits 0) = 1"
  by (subst digits.simps) simp

lemma octet_digits: "octet (digits (unat b)) = Some b"
proof -
  have "unat b \<le> 255" using unsigned_less [where 'a = nat, of b] by simp
  moreover have "\<not> (length (digits (unat b)) > 1 \<and> hd (digits (unat b)) = CHR ''0'')"
    using hd_digits [of "unat b"] length_digits_0 by (cases "unat b = 0") auto
  ultimately show ?thesis using all_digits by (auto simp: octet_def)
qed

lemma parseIPv4_dotted: "parseIPv4 (dotted [a, b, c, d]) = Some [a, b, c, d]"
proof -
  have "splitOn CHR ''.'' (dotted [a, b, c, d]) = map (\<lambda>b. digits (unat b)) [a, b, c, d]"
    by (simp add: dotted_def splitOn_word splitOn_word_Cons digits_free)
  then show ?thesis by (simp add: parseIPv4_def octet_digits)
qed

lemma find_append: "(\<And>x. x \<in> set xs \<Longrightarrow> \<not> P x) \<Longrightarrow> find P (xs @ ys) = find P ys"
  by (induction xs) auto

lemma ParseAddr_dotted: "ParseAddr (dotted [a, b, c, d]) = Some (mapped [a, b, c, d], 32)"
proof -
  have "find (\<lambda>c. c = CHR ''.'' \<or> c = CHR '':'' \<or> c = CHR ''%'') (dotted [a, b, c, d]) = Some CHR ''.''"
    unfolding dotted_def using digits_free by (simp, subst find_append) (auto simp: digits_free)
  then show ?thesis by (simp add: ParseAddr_def parseIPv4_dotted)
qed

lemma takeWhile_sep: "x \<notin> set xs \<Longrightarrow> takeWhile (\<lambda>c. c \<noteq> x) (xs @ x # ys) = xs"
  "x \<notin> set xs \<Longrightarrow> dropWhile (\<lambda>c. c \<noteq> x) (xs @ x # ys) = x # ys"
  by (induction xs) auto

text \<open>The text of an IPv4 network is parsed to the address in its 16-byte form and a mask of 4 bytes.\<close>

lemma ParseCIDR_dotted:
  assumes "n \<le> 32"
  shows "ParseCIDR (dotted [a, b, c, d] @ CHR ''/'' # digits n) = Some (mapped [a, b, c, d], CIDRMask (int n) 32)"
proof -
  have "CHR ''/'' \<notin> set (dotted [a, b, c, d])" by (simp add: dotted_def digits_free)
  then show ?thesis using assms all_digits
    by (auto simp: ParseCIDR_def takeWhile_sep ParseAddr_dotted)
qed

lemma ipString_mapped: "ipString (mapped [a, b, c, d]) = dotted [a, b, c, d]"
  by (simp add: ipString_def mapped_def To4_def)

end
