(* ===== verification/HostPort.thy ===== *)
theory HostPort
  imports NetIP
begin

text \<open>
  Server addresses: \<^verbatim>\<open>net.SplitHostPort\<close> and \<^verbatim>\<open>net.JoinHostPort\<close>, the address the command line is turned
  into (\<^verbatim>\<open>serverAddress\<close> in \<^verbatim>\<open>main.go\<close>) and the host and port under which settings are kept
  (\<^verbatim>\<open>makeHostPort\<close> in \<^verbatim>\<open>config/user_config.go\<close>); and the two durations of the command line.
\<close>

section \<open>Hosts and ports\<close>

text \<open>The text before and after the last colon.\<close>

definition lastColon :: "string \<Rightarrow> (string \<times> string) option" where
  "lastColon s =
    (case dropWhile (\<lambda>c. c \<noteq> CHR '':'') (rev s) of
       [] \<Rightarrow> None
     | _ # before \<Rightarrow> Some (rev before, rev (takeWhile (\<lambda>c. c \<noteq> CHR '':'') (rev s))))"

definition bracketFree :: "string \<Rightarrow> bool" where
  "bracketFree s \<longleftrightarrow> CHR ''['' \<notin> set s \<and> CHR '']'' \<notin> set s"

text \<open>\<open>None\<close> is any \<^verbatim>\<open>AddrError\<close>.  A bracketed host ends at the first closing bracket, which must be
  right before the last colon.\<close>

definition SplitHostPort :: "string \<Rightarrow> (string \<times> string) option" where
  "SplitHostPort s =
    (case lastColon s of
       None \<Rightarrow> None
     | Some (before, port) \<Rightarrow>
         (if take 1 s = ''['' then
            (let host = takeWhile (\<lambda>c. c \<noteq> CHR '']'') (drop 1 s) in
             if before = CHR ''['' # host @ '']'' \<and> CHR ''['' \<notin> set host \<and> bracketFree port
             then Some (host, port) else None)
          else if CHR '':'' \<in> set before \<or> \<not> bracketFree s then None else Some (before, port)))"

definition JoinHostPort :: "string \<Rightarrow> string \<Rightarrow> string" where
  "JoinHostPort host port =
    (if CHR '':'' \<in> set host then CHR ''['' # host @ '']:'' @ port else host @ CHR '':'' # port)"

definition trimBrackets :: "string \<Rightarrow> string" where
  "trimBrackets s =
    (let f = dropWhile (\<lambda>c. c = CHR ''['' \<or> c = CHR '']'') in rev (f (rev (f s))))"

definition serverAddress :: "string \<Rightarrow> string" where
  "serverAddress address =
    (case SplitHostPort address of
       Some (host, port) \<Rightarrow> if port \<noteq> [] then address else JoinHostPort (trimBrackets address) ''64738''
     | None \<Rightarrow> JoinHostPort (trimBrackets address) ''64738'')"

definition makeHostPort :: "string \<Rightarrow> string \<times> int" where
  "makeHostPort addr =
    (case SplitHostPort addr of
       None \<Rightarrow> (trimBrackets addr, 64738)
     | Some (host, portText) \<Rightarrow>
         (case ParseInt 64 portText of
            None \<Rightarrow> (host, 64738)
          | Some port \<Rightarrow> if port < 1 \<or> port > 65535 then (host, 64738) else (host, port)))"

section \<open>Durations of the command line\<close>

text \<open>Milliseconds to nanoseconds, in 64-bit arithmetic.\<close>

definition milliseconds :: "int64 \<Rightarrow> int64" where
  "milliseconds n = n * 1000000"

definition audioIntervalDuration :: "int64 \<Rightarrow> int64 option" where
  "audioIntervalDuration n =
    (let interval = milliseconds n in
     if interval \<in> {milliseconds 10, milliseconds 20, milliseconds 40, milliseconds 60} then Some interval else None)"

definition jitterBufferDuration :: "int64 \<Rightarrow> int64 option" where
  "jitterBufferDuration n =
    (let interval = milliseconds n in
     if interval \<in> {0, milliseconds 20, milliseconds 40, milliseconds 60} then Some interval else None)"

section \<open>Joining and splitting\<close>

lemma takeWhile_rev_free: "x \<notin> set ys \<Longrightarrow> takeWhile (\<lambda>c. c \<noteq> x) (rev ys @ x # zs) = rev ys"
  "x \<notin> set ys \<Longrightarrow> dropWhile (\<lambda>c. c \<noteq> x) (rev ys @ x # zs) = x # zs"
  using takeWhile_sep [of x "rev ys" zs] by simp_all

lemma lastColon_app: "CHR '':'' \<notin> set port \<Longrightarrow> lastColon (before @ CHR '':'' # port) = Some (before, port)"
  by (simp add: lastColon_def takeWhile_rev_free)

text \<open>A host without brackets and a port without colons or brackets survive joining and splitting.\<close>

lemma Split_Join:
  assumes "bracketFree host" and "bracketFree port" and "CHR '':'' \<notin> set port"
  shows "SplitHostPort (JoinHostPort host port) = Some (host, port)"
proof (cases "CHR '':'' \<in> set host")
  case True
  have "lastColon ((CHR ''['' # host @ '']'') @ CHR '':'' # port) = Some (CHR ''['' # host @ '']'', port)"
    by (rule lastColon_app [OF assms(3)])
  moreover have "takeWhile (\<lambda>c. c \<noteq> CHR '']'') (host @ CHR '']'' # CHR '':'' # port) = host"
    by (rule takeWhile_sep(1)) (use assms(1) in \<open>simp add: bracketFree_def\<close>)
  ultimately show ?thesis
    using True assms by (simp add: JoinHostPort_def SplitHostPort_def bracketFree_def)
next
  case False
  then have "SplitHostPort (host @ CHR '':'' # port) = Some (host, port)"
    using assms lastColon_app [OF assms(3), of host]
    by (cases host) (auto simp: SplitHostPort_def bracketFree_def)
  then show ?thesis using False by (simp add: JoinHostPort_def)
qed

lemma digits_bracketFree: "bracketFree (digits n)" "CHR '':'' \<notin> set (digits n)"
  by (auto simp: bracketFree_def isDigit_def dest: all_digits)

lemma drop_free: "bracketFree host \<Longrightarrow> set xs \<subseteq> set host \<Longrightarrow> dropWhile (\<lambda>c. c = CHR ''['' \<or> c = CHR '']'') xs = xs"
  by (cases xs) (auto simp: bracketFree_def)

lemma trim_free: "bracketFree host \<Longrightarrow> trimBrackets host = host"
  by (simp add: trimBrackets_def drop_free)

lemma trim_bracketed:
  assumes "bracketFree host"
  shows "trimBrackets (CHR ''['' # host @ '']'') = host"
proof (cases host)
  case (Cons c cs)
  then have "dropWhile (\<lambda>c. c = CHR ''['' \<or> c = CHR '']'') (host @ '']'') = host @ '']''"
    using assms by (auto simp: bracketFree_def)
  then show ?thesis using drop_free [OF assms, of "rev host"] by (simp add: trimBrackets_def)
qed (simp add: trimBrackets_def)

lemma port_ok:
  assumes "1 \<le> n" and "n \<le> 65535" and "bracketFree host"
  shows "serverAddress (JoinHostPort host (digits n)) = JoinHostPort host (digits n)"
    "makeHostPort (JoinHostPort host (digits n)) = (host, int n)"
proof -
  have s: "SplitHostPort (JoinHostPort host (digits n)) = Some (host, digits n)"
    by (rule Split_Join [OF assms(3) digits_bracketFree])
  show "serverAddress (JoinHostPort host (digits n)) = JoinHostPort host (digits n)" by (simp add: serverAddress_def s)
  have "ParseInt 64 (digits n) = Some (int n)" by (rule ParseInt_digits) (use assms(2) in simp)
  then show "makeHostPort (JoinHostPort host (digits n)) = (host, int n)" using assms(1,2) by (simp add: makeHostPort_def s)
qed

lemma digits_default: "digits 64738 = ''64738''"
  by (simp add: digits.simps digit_chars)

text \<open>The address a user gives is understood: for every host without brackets, an IPv6 literal
  included, a host and port joined are the same server to the connection and to the settings, and a
  host alone, or in brackets, gets the default port without changing the host.\<close>

theorem server_address_roundtrip:
  assumes "bracketFree host" and "1 \<le> n" and "n \<le> 65535"
  shows "serverAddress (JoinHostPort host (digits n)) = JoinHostPort host (digits n)
    \<and> makeHostPort (JoinHostPort host (digits n)) = (host, int n)
    \<and> makeHostPort (serverAddress (CHR ''['' # host @ '']'')) = (host, 64738)
    \<and> (if CHR '':'' \<in> set host then True else makeHostPort (serverAddress host) = (host, 64738))"
proof -
  have d: "makeHostPort (JoinHostPort host ''64738'') = (host, 64738)"
    using port_ok(2) [of 64738 host] assms(1) by (simp add: digits_default)
  have "SplitHostPort (CHR ''['' # host @ '']'') = None"
  proof (cases "lastColon (CHR ''['' # host @ '']'')")
    case (Some bp)
    then obtain before port where bp: "lastColon (CHR ''['' # host @ '']'') = Some (before, port)" by (cases bp) simp
    then have "CHR '']'' \<in> set port"
      by (auto simp: lastColon_def split: list.splits if_splits)
    then show ?thesis using bp by (simp add: SplitHostPort_def bracketFree_def)
  qed (simp add: SplitHostPort_def)
  then have br: "makeHostPort (serverAddress (CHR ''['' # host @ '']'')) = (host, 64738)"
    using trim_bracketed [OF assms(1)] d by (simp add: serverAddress_def)
  have "SplitHostPort host = None" if "CHR '':'' \<notin> set host"
  proof -
    have "dropWhile (\<lambda>c. c \<noteq> CHR '':'') (rev host) = []" using that by auto
    then have "lastColon host = None" by (simp only: lastColon_def list.case)
    then show ?thesis by (simp add: SplitHostPort_def)
  qed
  then have "CHR '':'' \<notin> set host \<Longrightarrow> makeHostPort (serverAddress host) = (host, 64738)"
    using trim_free [OF assms(1)] d by (simp add: serverAddress_def)
  then show ?thesis using port_ok [OF assms(2,3,1)] br by simp
qed

theorem server_address_roundtrip_witness:
  "makeHostPort (serverAddress ''[::1]'') = (''::1'', 64738)"
  using server_address_roundtrip [of "''::1''" 1] by (simp add: bracketFree_def)

end
