(* ===== verification/UserConfig.thy ===== *)
theory UserConfig
  imports ClientState HostPort
begin

text \<open>
  The saved settings (\<^verbatim>\<open>config/user_config.go\<close>, \<^verbatim>\<open>config/hotkey_config.go\<close>): their defaults, the
  settings kept per server and user, and the replacement of the file.  The TOML library is the
  parameters \<open>unmarshal\<close> and \<open>marshal\<close>.  A \<^verbatim>\<open>float32\<close> is its bit pattern.
\<close>

section \<open>Keys\<close>

text \<open>The keys the application names, of \<^verbatim>\<open>uiterm/keys.go\<close>.\<close>

type_synonym keyCode = uint32

abbreviation "KeyF1 \<equiv> (0xFFFF :: keyCode)"
abbreviation "KeyF3 \<equiv> (0xFFFD :: keyCode)"
abbreviation "KeyF5 \<equiv> (0xFFFB :: keyCode)"
abbreviation "KeyF6 \<equiv> (0xFFFA :: keyCode)"
abbreviation "KeyF7 \<equiv> (0xFFF9 :: keyCode)"
abbreviation "KeyF8 \<equiv> (0xFFF8 :: keyCode)"
abbreviation "KeyF9 \<equiv> (0xFFF7 :: keyCode)"
abbreviation "KeyF10 \<equiv> (0xFFF6 :: keyCode)"
abbreviation "KeyF11 \<equiv> (0xFFF5 :: keyCode)"
abbreviation "KeyF12 \<equiv> (0xFFF4 :: keyCode)"
abbreviation "KeyHome \<equiv> (0xFFF1 :: keyCode)"
abbreviation "KeyEnd \<equiv> (0xFFF0 :: keyCode)"
abbreviation "KeyPgup \<equiv> (0xFFEF :: keyCode)"
abbreviation "KeyPgdn \<equiv> (0xFFEE :: keyCode)"
abbreviation "KeyArrowUp \<equiv> (0xFFED :: keyCode)"
abbreviation "KeyArrowDown \<equiv> (0xFFEC :: keyCode)"
abbreviation "KeyTab \<equiv> (0x09 :: keyCode)"
abbreviation "KeyCtrlL \<equiv> (0x0C :: keyCode)"
abbreviation "KeyEnter \<equiv> (0x0D :: keyCode)"
abbreviation "KeyCtrlR \<equiv> (0x12 :: keyCode)"
abbreviation "KeyEsc \<equiv> (0x1B :: keyCode)"
abbreviation "KeyAltEsc \<equiv> (0x1001B :: keyCode)"
abbreviation "KeyAltArrowUp \<equiv> (0x1FFED :: keyCode)"
abbreviation "KeyAltArrowDown \<equiv> (0x1FFEC :: keyCode)"

section \<open>Data\<close>

record eUser =
  eu_Username :: string
  eu_Boost :: uint16
  eu_Volume :: float32
  eu_LocallyMuted :: bool

record server =
  sv_Host :: string
  sv_Port :: int
  sv_Users :: "eUser list"

record hotkeys =
  hk_Talk :: "keyCode option"
  hk_VolumeDown :: "keyCode option"
  hk_VolumeUp :: "keyCode option"
  hk_VolumeReset :: "keyCode option"
  hk_MuteToggle :: "keyCode option"
  hk_RecordToggle :: "keyCode option"
  hk_Exit :: "keyCode option"
  hk_ToggleTimestamps :: "keyCode option"
  hk_SwitchViews :: "keyCode option"
  hk_ClearOutput :: "keyCode option"
  hk_ScrollUp :: "keyCode option"
  hk_ScrollDown :: "keyCode option"
  hk_ScrollToTop :: "keyCode option"
  hk_ScrollToBottom :: "keyCode option"
  hk_AdminMenu :: "keyCode option"
  hk_NoiseSuppressionToggle :: "keyCode option"
  hk_AGCToggle :: "keyCode option"

record exportableConfig =
  ec_Hotkeys :: "hotkeys option"
  ec_AudioDriver :: "string option"
  ec_MicVolume :: "float32 option"
  ec_InputDevice :: "string option"
  ec_OutputDevice :: "string option"
  ec_Servers :: "server list"
  ec_DefaultServer :: "string option"
  ec_Username :: "string option"
  ec_NotifyCommand :: "string option"
  ec_NoiseSuppressionEnabled :: "bool option"
  ec_AGCEnabled :: "bool option"
  ec_Certificate :: "string option"
  ec_RecordingFormat :: "string option"
  ec_RecordingDirectory :: "string option"

abbreviation "one32 \<equiv> (0x3F800000 :: float32)"

section \<open>Defaults\<close>

definition defaultHotkeys :: hotkeys where
  "defaultHotkeys = \<lparr>hk_Talk = Some KeyF1, hk_VolumeDown = Some KeyF5, hk_VolumeUp = Some KeyF6, hk_VolumeReset = Some KeyF8,
     hk_MuteToggle = Some KeyF7, hk_RecordToggle = Some KeyCtrlR, hk_Exit = Some KeyF10, hk_ToggleTimestamps = Some KeyF3,
     hk_SwitchViews = Some KeyTab, hk_ClearOutput = Some KeyCtrlL, hk_ScrollUp = Some KeyPgup, hk_ScrollDown = Some KeyPgdn,
     hk_ScrollToTop = Some KeyHome, hk_ScrollToBottom = Some KeyEnd, hk_AdminMenu = Some KeyF11,
     hk_NoiseSuppressionToggle = Some KeyF9, hk_AGCToggle = Some KeyF12\<rparr>"

definition emptyHotkeys :: hotkeys where
  "emptyHotkeys = \<lparr>hk_Talk = None, hk_VolumeDown = None, hk_VolumeUp = None, hk_VolumeReset = None, hk_MuteToggle = None,
     hk_RecordToggle = None, hk_Exit = None, hk_ToggleTimestamps = None, hk_SwitchViews = None, hk_ClearOutput = None,
     hk_ScrollUp = None, hk_ScrollDown = None, hk_ScrollToTop = None, hk_ScrollToBottom = None, hk_AdminMenu = None,
     hk_NoiseSuppressionToggle = None, hk_AGCToggle = None\<rparr>"

definition emptyConfig :: exportableConfig where
  "emptyConfig = \<lparr>ec_Hotkeys = None, ec_AudioDriver = None, ec_MicVolume = None, ec_InputDevice = None, ec_OutputDevice = None,
     ec_Servers = [], ec_DefaultServer = None, ec_Username = None, ec_NotifyCommand = None, ec_NoiseSuppressionEnabled = None,
     ec_AGCEnabled = None, ec_Certificate = None, ec_RecordingFormat = None, ec_RecordingDirectory = None\<rparr>"

text \<open>\<^verbatim>\<open>if x == nil { x = &default }\<close>.\<close>

definition orElse :: "'a option \<Rightarrow> 'a option \<Rightarrow> 'a option" where
  "orElse x d = (case x of None \<Rightarrow> d | Some v \<Rightarrow> Some v)"

definition fillHotkeys :: "hotkeys \<Rightarrow> hotkeys" where
  "fillHotkeys h = \<lparr>hk_Talk = orElse (hk_Talk h) (hk_Talk defaultHotkeys),
     hk_VolumeDown = orElse (hk_VolumeDown h) (hk_VolumeDown defaultHotkeys),
     hk_VolumeUp = orElse (hk_VolumeUp h) (hk_VolumeUp defaultHotkeys),
     hk_VolumeReset = orElse (hk_VolumeReset h) (hk_VolumeReset defaultHotkeys),
     hk_MuteToggle = orElse (hk_MuteToggle h) (hk_MuteToggle defaultHotkeys),
     hk_RecordToggle = orElse (hk_RecordToggle h) (hk_RecordToggle defaultHotkeys),
     hk_Exit = orElse (hk_Exit h) (hk_Exit defaultHotkeys),
     hk_ToggleTimestamps = orElse (hk_ToggleTimestamps h) (hk_ToggleTimestamps defaultHotkeys),
     hk_SwitchViews = orElse (hk_SwitchViews h) (hk_SwitchViews defaultHotkeys),
     hk_ClearOutput = orElse (hk_ClearOutput h) (hk_ClearOutput defaultHotkeys),
     hk_ScrollUp = orElse (hk_ScrollUp h) (hk_ScrollUp defaultHotkeys),
     hk_ScrollDown = orElse (hk_ScrollDown h) (hk_ScrollDown defaultHotkeys),
     hk_ScrollToTop = orElse (hk_ScrollToTop h) (hk_ScrollToTop defaultHotkeys),
     hk_ScrollToBottom = orElse (hk_ScrollToBottom h) (hk_ScrollToBottom defaultHotkeys),
     hk_AdminMenu = orElse (hk_AdminMenu h) (hk_AdminMenu defaultHotkeys),
     hk_NoiseSuppressionToggle = orElse (hk_NoiseSuppressionToggle h) (hk_NoiseSuppressionToggle defaultHotkeys),
     hk_AGCToggle = orElse (hk_AGCToggle h) (hk_AGCToggle defaultHotkeys)\<rparr>"

definition ensureHotkeys :: "exportableConfig \<Rightarrow> exportableConfig" where
  "ensureHotkeys c = c\<lparr>ec_Hotkeys := Some (fillHotkeys (case ec_Hotkeys c of None \<Rightarrow> emptyHotkeys | Some h \<Rightarrow> h))\<rparr>"

definition fillDefaults :: "string \<Rightarrow> exportableConfig \<Rightarrow> exportableConfig" where
  "fillDefaults notifyCommand c = c\<lparr>
     ec_MicVolume := orElse (ec_MicVolume c) (Some one32),
     ec_AudioDriver := orElse (ec_AudioDriver c) (Some []),
     ec_InputDevice := orElse (ec_InputDevice c) (Some []),
     ec_OutputDevice := orElse (ec_OutputDevice c) (Some []),
     ec_DefaultServer := orElse (ec_DefaultServer c) (Some ''localhost:64738''),
     ec_Username := orElse (ec_Username c) (Some []),
     ec_NotifyCommand := orElse (ec_NotifyCommand c) (Some notifyCommand),
     ec_NoiseSuppressionEnabled := orElse (ec_NoiseSuppressionEnabled c) (Some False),
     ec_AGCEnabled := orElse (ec_AGCEnabled c) (Some True),
     ec_Certificate := orElse (ec_Certificate c) (Some []),
     ec_RecordingFormat := orElse (ec_RecordingFormat c) (Some ''flac''),
     ec_RecordingDirectory := orElse (ec_RecordingDirectory c) (Some ''~/Audio'')\<rparr>"

text \<open>\<open>file\<close> is what could be read; \<open>None\<close> is the exit after a parse error.\<close>

definition LoadConfig ::
    "(bytes \<Rightarrow> exportableConfig \<Rightarrow> exportableConfig option) \<Rightarrow> string \<Rightarrow> bytes option \<Rightarrow> exportableConfig option" where
  "LoadConfig unmarshal notifyCommand file =
    map_option (fillDefaults notifyCommand \<circ> ensureHotkeys)
      (case file of
         None \<Rightarrow> Some (emptyConfig\<lparr>ec_Hotkeys := Some defaultHotkeys\<rparr>)
       | Some data \<Rightarrow> unmarshal data (emptyConfig\<lparr>ec_Hotkeys := Some defaultHotkeys\<rparr>))"

section \<open>Getters and setters\<close>

definition GetMicVolume :: "exportableConfig \<Rightarrow> float32" where
  "GetMicVolume c = (case ec_MicVolume c of None \<Rightarrow> one32 | Some v \<Rightarrow> v)"

definition SetMicVolume :: "float32 \<Rightarrow> exportableConfig \<Rightarrow> exportableConfig" where
  "SetMicVolume v c = c\<lparr>ec_MicVolume := Some v\<rparr>"

definition GetAudioDriver :: "exportableConfig \<Rightarrow> string" where
  "GetAudioDriver c = (case ec_AudioDriver c of None \<Rightarrow> [] | Some d \<Rightarrow> d)"

definition GetNoiseSuppressionEnabled :: "exportableConfig \<Rightarrow> bool" where
  "GetNoiseSuppressionEnabled c = (case ec_NoiseSuppressionEnabled c of None \<Rightarrow> False | Some v \<Rightarrow> v)"

definition GetAGCEnabled :: "exportableConfig \<Rightarrow> bool" where
  "GetAGCEnabled c = (case ec_AGCEnabled c of None \<Rightarrow> True | Some v \<Rightarrow> v)"

definition GetRecordingFormat :: "exportableConfig \<Rightarrow> string" where
  "GetRecordingFormat c = (case ec_RecordingFormat c of None \<Rightarrow> ''flac'' | Some f \<Rightarrow> ToLower (TrimSpace f))"

text \<open>\<^verbatim>\<open>strings.Replace(path, old, new, 1)\<close>, and \<^verbatim>\<open>resolvePath\<close> for a home directory that is known.\<close>

fun replaceFirst :: "string \<Rightarrow> string \<Rightarrow> string \<Rightarrow> string" where
  "replaceFirst old new [] = (if old = [] then new else [])"
| "replaceFirst old new (c # cs) =
    (if hasPrefix old (c # cs) then new @ drop (length old) (c # cs) else c # replaceFirst old new cs)"

fun contains :: "string \<Rightarrow> string \<Rightarrow> bool" where
  "contains p [] = (p = [])"
| "contains p (c # cs) = (hasPrefix p (c # cs) \<or> contains p cs)"

definition resolvePath :: "string \<Rightarrow> string \<Rightarrow> string" where
  "resolvePath home path =
    (if contains ''$HOME'' path then replaceFirst ''$HOME'' home path
     else if hasPrefix ''~/'' path then replaceFirst ''~'' home path
     else path)"

definition GetRecordingDirectory :: "string \<Rightarrow> exportableConfig \<Rightarrow> string" where
  "GetRecordingDirectory home c =
    resolvePath home (case ec_RecordingDirectory c of None \<Rightarrow> ''~/Audio'' | Some d \<Rightarrow> d)"

section \<open>Settings of a user\<close>

definition newEUser :: "string \<Rightarrow> eUser" where
  "newEUser username = \<lparr>eu_Username = username, eu_Boost = 1, eu_Volume = one32, eu_LocallyMuted = False\<rparr>"

definition newServer :: "string \<times> int \<Rightarrow> server" where
  "newServer hp = \<lparr>sv_Host = fst hp, sv_Port = snd hp, sv_Users = []\<rparr>"

text \<open>The first entry that matches, or a new one at the end, is updated in place.\<close>

fun updateFirst :: "('a \<Rightarrow> bool) \<Rightarrow> 'a \<Rightarrow> ('a \<Rightarrow> 'a) \<Rightarrow> 'a list \<Rightarrow> 'a list" where
  "updateFirst P d f [] = [f d]"
| "updateFirst P d f (x # xs) = (if P x then f x # xs else x # updateFirst P d f xs)"

definition firstOr :: "('a \<Rightarrow> bool) \<Rightarrow> 'a \<Rightarrow> 'a list \<Rightarrow> 'a" where
  "firstOr P d xs = (case find P xs of None \<Rightarrow> d | Some x \<Rightarrow> x)"

definition isServer :: "string \<times> int \<Rightarrow> server \<Rightarrow> bool" where
  "isServer hp s \<longleftrightarrow> sv_Port s = snd hp \<and> sv_Host s = fst hp"

definition findServer :: "string \<Rightarrow> exportableConfig \<Rightarrow> server" where
  "findServer address c = firstOr (isServer (makeHostPort address)) (newServer (makeHostPort address)) (ec_Servers c)"

definition updateServer :: "string \<Rightarrow> (server \<Rightarrow> server) \<Rightarrow> exportableConfig \<Rightarrow> exportableConfig" where
  "updateServer address f c =
    c\<lparr>ec_Servers := updateFirst (isServer (makeHostPort address)) (newServer (makeHostPort address)) f (ec_Servers c)\<rparr>"

definition findEUser :: "string \<Rightarrow> string \<Rightarrow> exportableConfig \<Rightarrow> eUser" where
  "findEUser address username c =
    firstOr (\<lambda>u. eu_Username u = username) (newEUser username) (sv_Users (findServer address c))"

definition updateEUser :: "string \<Rightarrow> string \<Rightarrow> (eUser \<Rightarrow> eUser) \<Rightarrow> exportableConfig \<Rightarrow> exportableConfig" where
  "updateEUser address username f =
    updateServer address (\<lambda>s. s\<lparr>sv_Users := updateFirst (\<lambda>u. eu_Username u = username) (newEUser username) f (sv_Users s)\<rparr>)"

text \<open>The methods on a user; a user whose client is nil is a nil dereference in all but \<^verbatim>\<open>UpdateUser\<close>.
  Whether the file could be written only shows in the error returned.\<close>

definition settingsKey :: "user_ref \<Rightarrow> client \<Rightarrow> string \<times> string" where
  "settingsKey r c = (cfg_Address (c_Config c), u_Name (c_user c r))"

definition ToggleMute :: "user_ref \<Rightarrow> exportableConfig \<times> client \<Rightarrow> (exportableConfig \<times> client) option" where
  "ToggleMute r s = (case s of (cfg, c) \<Rightarrow>
     if \<not> u_client (c_user c r) then None
     else case settingsKey r c of (address, name) \<Rightarrow>
       let cfg = updateEUser address name (\<lambda>j. j\<lparr>eu_LocallyMuted := \<not> eu_LocallyMuted j\<rparr>) cfg in
       Some (cfg, setUser r (\<lambda>u. u\<lparr>u_locallyMuted := eu_LocallyMuted (findEUser address name cfg)\<rparr>) c))"

definition UpdateUser :: "user_ref \<Rightarrow> exportableConfig \<times> client \<Rightarrow> exportableConfig \<times> client" where
  "UpdateUser r s = (case s of (cfg, c) \<Rightarrow>
     if \<not> u_client (c_user c r) then s
     else case settingsKey r c of (address, name) \<Rightarrow>
       let j = findEUser address name cfg in
       (updateEUser address name (\<lambda>j. j) cfg,
        setUser r (\<lambda>u. u\<lparr>u_boost := (if eu_Boost j < 1 then 1 else eu_Boost j), u_volume := eu_Volume j,
          u_locallyMuted := eu_LocallyMuted j\<rparr>) c))"

definition UpdateConfig :: "user_ref \<Rightarrow> exportableConfig \<times> client \<Rightarrow> (exportableConfig \<times> client) option" where
  "UpdateConfig r s = (case s of (cfg, c) \<Rightarrow>
     if \<not> u_client (c_user c r) then None
     else case settingsKey r c of (address, name) \<Rightarrow>
       let u = c_user c r in
       Some (updateEUser address name (\<lambda>j. j\<lparr>eu_Boost := u_boost u, eu_Volume := u_volume u,
         eu_LocallyMuted := u_locallyMuted u\<rparr>) cfg, c))"

section \<open>Saving\<close>

datatype saveCall = MkdirAll | CreateTemp | Chmod | WriteTemp | CloseTemp | Rename

record disk =
  dk_file :: "bytes option"
  dk_temp :: "bytes option"

text \<open>The disk after each system call, \<open>fails\<close> saying which calls fail and \<open>partial\<close> what a failing
  write leaves behind; and whether \<^verbatim>\<open>nil\<close> is returned.\<close>

definition saveConfigLocked ::
    "(exportableConfig \<Rightarrow> bytes option) \<Rightarrow> (saveCall \<Rightarrow> bool) \<Rightarrow> bytes \<Rightarrow> exportableConfig \<Rightarrow> disk \<Rightarrow> disk list \<times> bool" where
  "saveConfigLocked marshal fails partial cfg d =
    (if fails MkdirAll then ([d], False)
     else case marshal cfg of
       None \<Rightarrow> ([d], False)
     | Some data \<Rightarrow>
         if fails CreateTemp then ([d], False)
         else
           let created = d\<lparr>dk_temp := Some []\<rparr>; removed = d\<lparr>dk_temp := None\<rparr> in
           if fails Chmod then ([d, created, removed], False)
           else if fails WriteTemp then ([d, created, d\<lparr>dk_temp := Some partial\<rparr>, removed], False)
           else
             let written = d\<lparr>dk_temp := Some data\<rparr> in
             if fails CloseTemp then ([d, created, written, removed], False)
             else if fails Rename then ([d, created, written, removed], False)
             else ([d, created, written, \<lparr>dk_file = Some data, dk_temp = None\<rparr>], True))"

section \<open>What is guaranteed\<close>

lemma orElse_Some [simp]: "orElse x (Some d) = Some (case x of None \<Rightarrow> d | Some v \<Rightarrow> v)"
  by (simp add: orElse_def split: option.splits)

definition hotkeyList :: "hotkeys \<Rightarrow> keyCode option list" where
  "hotkeyList h = [hk_Talk h, hk_VolumeDown h, hk_VolumeUp h, hk_VolumeReset h, hk_MuteToggle h, hk_RecordToggle h, hk_Exit h,
     hk_ToggleTimestamps h, hk_SwitchViews h, hk_ClearOutput h, hk_ScrollUp h, hk_ScrollDown h, hk_ScrollToTop h,
     hk_ScrollToBottom h, hk_AdminMenu h, hk_NoiseSuppressionToggle h, hk_AGCToggle h]"

lemma fillHotkeys_full: "None \<notin> set (hotkeyList (fillHotkeys h))"
  by (simp add: hotkeyList_def fillHotkeys_def defaultHotkeys_def)

text \<open>Whatever the file contains, a configuration that loads has every setting that the program
  dereferences.\<close>

theorem config_complete:
  assumes "LoadConfig unmarshal notifyCommand file = Some cfg"
  shows "\<exists>h. ec_Hotkeys cfg = Some h \<and> None \<notin> set (hotkeyList h) \<and> ec_MicVolume cfg \<noteq> None \<and> ec_AudioDriver cfg \<noteq> None
    \<and> ec_InputDevice cfg \<noteq> None \<and> ec_OutputDevice cfg \<noteq> None \<and> ec_DefaultServer cfg \<noteq> None \<and> ec_Username cfg \<noteq> None
    \<and> ec_NotifyCommand cfg \<noteq> None \<and> ec_NoiseSuppressionEnabled cfg \<noteq> None \<and> ec_AGCEnabled cfg \<noteq> None
    \<and> ec_Certificate cfg \<noteq> None \<and> ec_RecordingFormat cfg \<noteq> None \<and> ec_RecordingDirectory cfg \<noteq> None"
proof -
  obtain c where "cfg = fillDefaults notifyCommand (ensureHotkeys c)"
    using assms by (auto simp: LoadConfig_def)
  then show ?thesis using fillHotkeys_full by (simp add: fillDefaults_def ensureHotkeys_def)
qed

theorem config_complete_witness:
  "\<exists>cfg h. LoadConfig (\<lambda>_ c. Some (c\<lparr>ec_Hotkeys := None, ec_MicVolume := Some 0\<rparr>)) [] (Some []) = Some cfg
    \<and> ec_Hotkeys cfg = Some h \<and> None \<notin> set (hotkeyList h) \<and> ec_RecordingFormat cfg \<noteq> None"
proof -
  let ?u = "\<lambda>_ c. Some (c\<lparr>ec_Hotkeys := None, ec_MicVolume := Some 0\<rparr>)"
  obtain cfg where "LoadConfig ?u [] (Some []) = Some cfg" by (simp add: LoadConfig_def)
  then show ?thesis using config_complete [of ?u "[]" "Some []" cfg] by blast
qed

text \<open>Saving is atomic: after every system call, so also if the program dies there, the
  file holds its old contents or the whole new ones; it holds the new ones exactly when no error is
  returned; and no temporary file stays behind.\<close>

theorem config_save_atomic:
  assumes "saveConfigLocked marshal fails partial cfg d = (trace, ok)" and "dk_temp d = None"
  shows "(\<forall>x \<in> set trace. dk_file x = dk_file d \<or> dk_file x = marshal cfg)
    \<and> (if ok then marshal cfg \<noteq> None \<and> dk_file (last trace) = marshal cfg else dk_file (last trace) = dk_file d)
    \<and> dk_temp (last trace) = None"
  using assms by (cases "marshal cfg") (auto simp: saveConfigLocked_def Let_def split: if_splits)

theorem config_save_atomic_witness:
  "\<exists>trace. saveConfigLocked (\<lambda>_. Some [1, 2]) (\<lambda>x. x = Rename) [] emptyConfig \<lparr>dk_file = Some [9], dk_temp = None\<rparr> = (trace, False)
    \<and> dk_file (last trace) = Some [9]"
proof -
  obtain trace where "saveConfigLocked (\<lambda>_. Some [1, 2]) (\<lambda>x. x = Rename) [] emptyConfig \<lparr>dk_file = Some [9], dk_temp = None\<rparr> = (trace, False)"
    by (simp add: saveConfigLocked_def)
  then show ?thesis
    using config_save_atomic [of "\<lambda>_. Some [1, 2]" "\<lambda>x. x = Rename" "[]" emptyConfig "\<lparr>dk_file = Some [9], dk_temp = None\<rparr>" trace False] by simp
qed

lemma firstOr_update: "P d \<Longrightarrow> (\<And>x. P (f x) = P x) \<Longrightarrow> firstOr P d (updateFirst P d f xs) = f (firstOr P d xs)"
  by (induction xs) (simp_all add: firstOr_def)

lemma firstOr_other:
  assumes "\<And>x. P x \<Longrightarrow> \<not> Q x" and "P d" and "\<And>x. P (f x) = P x"
  shows "firstOr Q e (updateFirst P d f xs) = firstOr Q e xs"
proof -
  have "P x \<Longrightarrow> \<not> Q (f x)" for x using assms(1) [of "f x"] assms(3) by simp
  then show ?thesis using assms(1,2) by (induction xs) (auto simp: firstOr_def)
qed

lemma isServer_new [simp]: "isServer hp (newServer hp)"
  by (simp add: isServer_def newServer_def)

lemma findServer_update:
  assumes "\<And>s hp. isServer hp (f s) = isServer hp s"
  shows "findServer a (updateServer address f c)
    = (if makeHostPort a = makeHostPort address then f (findServer a c) else findServer a c)"
proof (cases "makeHostPort a = makeHostPort address")
  case True
  then show ?thesis
    using firstOr_update [of "isServer (makeHostPort address)" "newServer (makeHostPort address)" f "ec_Servers c"] assms
    by (simp add: findServer_def updateServer_def)
next
  case False
  then have "\<And>s. isServer (makeHostPort address) s \<Longrightarrow> \<not> isServer (makeHostPort a) s"
    by (auto simp: isServer_def prod_eq_iff)
  then show ?thesis
    using firstOr_other [of "isServer (makeHostPort address)" "isServer (makeHostPort a)" "newServer (makeHostPort address)" f
        "newServer (makeHostPort a)" "ec_Servers c"] assms False
    by (simp add: findServer_def updateServer_def)
qed

lemma findEUser_update:
  assumes "\<And>u. eu_Username (f u) = eu_Username u"
  shows "findEUser a n (updateEUser address name f c)
    = (if makeHostPort a = makeHostPort address \<and> n = name then f (findEUser a n c) else findEUser a n c)"
proof -
  let ?g = "\<lambda>s. s\<lparr>sv_Users := updateFirst (\<lambda>u. eu_Username u = name) (newEUser name) f (sv_Users s)\<rparr>"
  have s: "findServer a (updateEUser address name f c)
      = (if makeHostPort a = makeHostPort address then ?g (findServer a c) else findServer a c)"
    unfolding updateEUser_def by (rule findServer_update) (simp add: isServer_def)
  have same: "firstOr (\<lambda>u. eu_Username u = name) (newEUser name) (updateFirst (\<lambda>u. eu_Username u = name) (newEUser name) f us)
      = f (firstOr (\<lambda>u. eu_Username u = name) (newEUser name) us)" for us
    by (rule firstOr_update) (simp_all add: newEUser_def assms)
  have other: "n \<noteq> name \<Longrightarrow> firstOr (\<lambda>u. eu_Username u = n) (newEUser n) (updateFirst (\<lambda>u. eu_Username u = name) (newEUser name) f us)
      = firstOr (\<lambda>u. eu_Username u = n) (newEUser n) us" for us
    by (rule firstOr_other) (auto simp: newEUser_def assms)
  show ?thesis using s same other by (auto simp: findEUser_def)
qed

text \<open>C37. The gain settings of a user that are stored come back for every later user of that
  name on that server, in this connection or another, with a boost of at least one; and nobody
  else's settings change.\<close>

theorem user_settings_persist:
  assumes "UpdateConfig r (cfg, c) = Some (cfg', c1)" and "settingsKey r' c' = settingsKey r c" and "u_client (c_user c' r')"
  shows "\<exists>cfg'' c''. UpdateUser r' (cfg', c') = (cfg'', c'')
    \<and> u_boost (c_user c'' r') = (if u_boost (c_user c r) = 0 then 1 else u_boost (c_user c r)) \<and> u_volume (c_user c'' r') = u_volume (c_user c r)
    \<and> u_locallyMuted (c_user c'' r') = u_locallyMuted (c_user c r)
    \<and> (\<forall>address name. (makeHostPort address, name) \<noteq> (makeHostPort (cfg_Address (c_Config c)), u_Name (c_user c r))
        \<longrightarrow> findEUser address name cfg'' = findEUser address name cfg)"
proof -
  let ?f = "\<lambda>j. j\<lparr>eu_Boost := u_boost (c_user c r), eu_Volume := u_volume (c_user c r), eu_LocallyMuted := u_locallyMuted (c_user c r)\<rparr>"
  obtain address name where k: "settingsKey r c = (address, name)" by fastforce
  then have kk: "address = cfg_Address (c_Config c)" "name = u_Name (c_user c r)" by (simp_all add: settingsKey_def)
  have cfg': "cfg' = updateEUser address name ?f cfg"
    using assms(1) k by (auto simp: UpdateConfig_def Let_def split: if_splits)
  have find: "findEUser a n cfg' = (if makeHostPort a = makeHostPort address \<and> n = name then ?f (findEUser a n cfg) else findEUser a n cfg)" for a n
    unfolding cfg' by (rule findEUser_update) simp
  have id: "findEUser a n (updateEUser address name (\<lambda>j. j) cfg') = findEUser a n cfg'" for a n
    using findEUser_update [of "\<lambda>j. j" a n address name cfg'] by simp
  show ?thesis
    using assms(2,3) k find [of address name] find id kk
    by (simp add: UpdateUser_def Let_def setUser_heap)
qed

definition settingsClient :: client where
  "settingsClient = (newClient NewConfig)\<lparr>c_user := (\<lambda>_. (newUser 4)\<lparr>u_client := True, u_boost := 3\<rparr>)\<rparr>"

theorem user_settings_persist_witness:
  "\<exists>cfg' cfg'' c''. UpdateConfig 0 (emptyConfig, settingsClient) = Some (cfg', settingsClient)
    \<and> UpdateUser 0 (cfg', settingsClient) = (cfg'', c'') \<and> u_boost (c_user c'' 0) = 3"
proof -
  obtain cfg' where u: "UpdateConfig 0 (emptyConfig, settingsClient) = Some (cfg', settingsClient)"
    by (simp add: UpdateConfig_def settingsClient_def settingsKey_def)
  show ?thesis
    using u user_settings_persist [OF u, of 0 settingsClient] by (auto simp: settingsClient_def)
qed

end
