(* ===== verification/App.thy ===== *)
theory App
  imports Requests UserConfig "HOL-Library.Monad_Syntax"
begin

text \<open>
  The state of the application (\<^verbatim>\<open>Barnard\<close> in \<^verbatim>\<open>barnard.go\<close>) as far as the administration commands and
  the notices of \<^verbatim>\<open>client.go\<close> use it, and the primitive operations on it (\<^verbatim>\<open>ui.go\<close>).  Users and channels
  are references into the client's heap; a registered user is a reference into \<open>ba_registered\<close>, since
  menu entries and prompts keep pointers into lists that are later replaced.  The lines written,
  notifications queued and messages sent are kept in order; a line is kept without its time stamp, and
  what \<^verbatim>\<open>Ui.Post\<close> queues is applied at once.  The running recorder is its path, the OpenAL stream what is
  attached to it (\<open>ba_Stream\<close> says whether there is one), the file player whether it is playing.  An operation gives \<open>None\<close> when the code panics.
\<close>

section \<open>State\<close>

type_synonym reg_ref = nat

datatype uiView = uiViewInput | uiViewTree | uiViewAdmin

record treeItem =
  ti_User :: "user_ref option"
  ti_Channel :: "chan_ref option"

text \<open>A pending prompt, by what its \<^verbatim>\<open>action\<close> closure does and the objects it has captured.\<close>

datatype adminPrompt =
    PromptKick user_ref
  | PromptBan user_ref
  | PromptAddChannel chan_ref bool
  | PromptRename chan_ref
  | PromptDescribe chan_ref
  | PromptMaxUsers chan_ref
  | PromptDelete chan_ref
  | PromptManualBan
  | PromptRenameUser reg_ref
  | PromptDeregister reg_ref
  | PromptRawACL

record barnard =
  ba_Client :: "client option"
  ba_sent :: "request list"
  ba_output :: "string list"
  ba_notified :: "(string \<times> string \<times> string) list"
  ba_notifyRoom :: nat
  ba_inputStatus :: string
  ba_inputText :: string
  ba_active :: uiView
  ba_activeItem :: "treeItem option"
  ba_selectedUser :: "user_ref option"
  ba_adminTargetUser :: "user_ref option"
  ba_adminTargetChan :: "chan_ref option"
  ba_adminReturnItem :: "treeItem option"
  ba_pendingAdminPrompt :: "adminPrompt option"
  ba_adminBanList :: "ban list"
  ba_registered :: "reg_ref \<Rightarrow> registeredUser"
  ba_nextRegistered :: reg_ref
  ba_adminUserList :: "reg_ref list"
  ba_adminACL :: "acl option"
  ba_MutedChannels :: "(uint32 \<times> bool) list"
  ba_userChannels :: "(uint32 \<times> chan_ref) list"
  ba_Recorder :: "string option"
  ba_recordingStarting :: bool
  ba_recordingAllowed :: "bool option"
  ba_Stream :: bool
  ba_streamRecorder :: "string option"
  ba_streamSource :: bool
  ba_FilePlaying :: "bool option"
  ba_Tx :: bool
  ba_Connected :: bool
  ba_AutoTransmit :: bool
  ba_ToneTest :: bool
  ba_toneRunning :: bool
  ba_statusText :: string
  ba_statusNotice :: bool
  ba_statusLabel :: string
  ba_UserConfig :: exportableConfig
  ba_noiseEnabled :: bool
  ba_agcEnabled :: bool
  ba_exitMessage :: "string option"
  ba_gainUpdates :: "user_ref list"
  ba_treeRebuilds :: nat
  ba_uiClosed :: bool
  ba_toneSaver :: bool
  ba_toneSaverAttached :: bool
  ba_reconnecting :: bool
  ba_reconnectStopped :: bool

text \<open>What the code outside answers: the recorder library, the HTML sanitiser, the sound device, the file
  player and the operating system.  An error of the capture device comes with whether it is one of the
  device errors that end the program.\<close>

record floatOps =
  fo_add :: "float32 \<Rightarrow> float32 \<Rightarrow> float32"
  fo_mul :: "float32 \<Rightarrow> float32 \<Rightarrow> float32"
  fo_div :: "float32 \<Rightarrow> float32 \<Rightarrow> float32"
  fo_less :: "float32 \<Rightarrow> float32 \<Rightarrow> bool"
  fo_ofUint16 :: "uint16 \<Rightarrow> float32"
  fo_toUint16 :: "float32 \<Rightarrow> uint16"

record appEnv =
  ae_float :: floatOps
  ae_percent :: "float32 \<Rightarrow> string"
  ae_recordingNew :: "string + string"
  ae_recorderStop :: "string option"
  ae_sanitizeHTML :: "string \<Rightarrow> string"
  ae_StartSource :: "(string \<times> bool) option"
  ae_fileExists :: "string \<Rightarrow> bool"
  ae_HOME :: string
  ae_openalNew :: "string option"
  ae_stereoEncoder :: encoder
  ae_saverNew :: "string option"
  ae_saveError :: "string option"
  ae_RemoteAddr :: string
  ae_sinceSeconds :: "int \<Rightarrow> string"
  ae_seconds :: "int64 \<Rightarrow> string"
  ae_fixed1 :: "float32 \<Rightarrow> string"
  ae_IP :: "bytes \<Rightarrow> string"

text \<open>The floating point arithmetic of the machine is part of it, on bit patterns; \<open>ae_percent\<close> is \<^verbatim>\<open>%.0f\<close>.\<close>

definition newBarnard :: barnard where
  "newBarnard = \<lparr>ba_Client = None, ba_sent = [], ba_output = [], ba_notified = [], ba_notifyRoom = 0, ba_inputStatus = ''[root]'',
     ba_inputText = [], ba_active = uiViewInput, ba_activeItem = None, ba_selectedUser = None, ba_adminTargetUser = None,
     ba_adminTargetChan = None, ba_adminReturnItem = None, ba_pendingAdminPrompt = None, ba_adminBanList = [],
     ba_registered = (\<lambda>_. \<lparr>ru_UserID = 0, ru_Name = [], ru_LastSeen = 0, ru_LastChannel = None, ru_changed = False, ru_deregister = False\<rparr>),
     ba_nextRegistered = 0, ba_adminUserList = [], ba_adminACL = None, ba_MutedChannels = [], ba_userChannels = [],
     ba_Recorder = None, ba_recordingStarting = False, ba_recordingAllowed = None, ba_Stream = False, ba_streamRecorder = None,
     ba_streamSource = False, ba_FilePlaying = None, ba_Tx = False, ba_Connected = False, ba_AutoTransmit = False,
     ba_ToneTest = False, ba_toneRunning = False, ba_statusText = '' Idle '', ba_statusNotice = False, ba_statusLabel = '' Idle '', ba_UserConfig = emptyConfig,
     ba_noiseEnabled = False, ba_agcEnabled = False, ba_exitMessage = None, ba_gainUpdates = [],
     ba_treeRebuilds = 0, ba_uiClosed = False, ba_toneSaver = False, ba_toneSaverAttached = False, ba_reconnecting = False, ba_reconnectStopped = False\<rparr>"

section \<open>Output\<close>

definition AddOutputLine :: "string \<Rightarrow> barnard \<Rightarrow> barnard" where
  "AddOutputLine s b = b\<lparr>ba_output := ba_output b @ [s]\<rparr>"

text \<open>\<open>ba_notifyRoom\<close> is what the bounded channel still takes; a full one drops the notification.\<close>

definition Notify :: "string \<Rightarrow> string \<Rightarrow> string \<Rightarrow> barnard \<Rightarrow> barnard" where
  "Notify ev who what b =
    (case ba_notifyRoom b of
       0 \<Rightarrow> b
     | Suc n \<Rightarrow> b\<lparr>ba_notified := ba_notified b @ [(ev, who, what)], ba_notifyRoom := n\<rparr>)"

definition truncateInputStatus :: "string \<Rightarrow> string" where
  "truncateInputStatus status = (if length status > 20 then take 17 status @ ''...'' @ '']'' else status)"

definition UpdateInputStatus :: "string \<Rightarrow> barnard \<Rightarrow> barnard" where
  "UpdateInputStatus status b = b\<lparr>ba_inputStatus := truncateInputStatus status\<rparr>"

definition bracketed :: "string \<Rightarrow> string" where
  "bracketed s = CHR ''['' # s @ '']''"

definition SetActive :: "uiView \<Rightarrow> barnard \<Rightarrow> barnard" where
  "SetActive v b = b\<lparr>ba_active := v\<rparr>"

section \<open>Sending\<close>

text \<open>A method that sends, followed by a line.\<close>

definition send :: "request option \<Rightarrow> barnard \<Rightarrow> barnard option" where
  "send req b = map_option (\<lambda>r. b\<lparr>ba_sent := ba_sent b @ [r]\<rparr>) req"

definition sendLine :: "request option \<Rightarrow> string \<Rightarrow> barnard \<Rightarrow> barnard option" where
  "sendLine req s b = map_option (AddOutputLine s) (send req b)"

text \<open>\<^verbatim>\<open>b.Client.Self\<close> and its channel, which are dereferenced.\<close>

definition selfUser :: "barnard \<Rightarrow> user option" where
  "selfUser b = do { c \<leftarrow> ba_Client b; u \<leftarrow> c_Self c; Some (c_user c u) }"

definition selfChannel :: "barnard \<Rightarrow> chan_ref option" where
  "selfChannel b = Option.bind (selfUser b) u_Channel"

definition channelOf :: "barnard \<Rightarrow> chan_ref \<Rightarrow> channel option" where
  "channelOf b ch = map_option (\<lambda>c. c_channel c ch) (ba_Client b)"

definition userOf :: "barnard \<Rightarrow> user_ref \<Rightarrow> user option" where
  "userOf b u = map_option (\<lambda>c. c_user c u) (ba_Client b)"

definition restoreStatus :: "barnard \<Rightarrow> barnard option" where
  "restoreStatus b = do { ch \<leftarrow> selfChannel b; c \<leftarrow> channelOf b ch; Some (UpdateInputStatus (bracketed (ch_Name c)) b) }"

lemma output_fields [simp]:
  "ba_Client (AddOutputLine s b) = ba_Client b" "ba_sent (AddOutputLine s b) = ba_sent b"
  "ba_output (AddOutputLine s b) = ba_output b @ [s]" "ba_adminACL (AddOutputLine s b) = ba_adminACL b"
  "ba_adminBanList (AddOutputLine s b) = ba_adminBanList b" "ba_registered (AddOutputLine s b) = ba_registered b"
  "ba_adminUserList (AddOutputLine s b) = ba_adminUserList b"
  "ba_adminTargetUser (AddOutputLine s b) = ba_adminTargetUser b" "ba_adminTargetChan (AddOutputLine s b) = ba_adminTargetChan b"
  "ba_pendingAdminPrompt (AddOutputLine s b) = ba_pendingAdminPrompt b"
  by (simp_all add: AddOutputLine_def)

lemma send_None [simp]: "send None b = None" "sendLine None s b = None"
  by (simp_all add: send_def sendLine_def)

lemma send_Some [simp]:
  "send (Some r) b = Some (b\<lparr>ba_sent := ba_sent b @ [r]\<rparr>)"
  "sendLine (Some r) s b = Some (AddOutputLine s (b\<lparr>ba_sent := ba_sent b @ [r]\<rparr>))"
  by (simp_all add: send_def sendLine_def)

lemma send_not_None [simp]: "send req b = None \<longleftrightarrow> req = None" "sendLine req s b = None \<longleftrightarrow> req = None"
  by (cases req; simp)+

text \<open>The input status never takes more than 21 cells.\<close>

lemma truncateInputStatus_bound: "length (truncateInputStatus s) \<le> 21"
  by (simp add: truncateInputStatus_def)

text \<open>An environment in which every call outside succeeds.\<close>

definition recEnv :: appEnv where
  "recEnv = \<lparr>ae_float = \<lparr>fo_add = (+), fo_mul = (*), fo_div = (div), fo_less = (<), fo_ofUint16 = ucast, fo_toUint16 = ucast\<rparr>,
     ae_percent = (\<lambda>_. []), ae_recordingNew = Inr ''a.flac'', ae_recorderStop = None, ae_sanitizeHTML = (\<lambda>s. s), ae_StartSource = None,
     ae_fileExists = (\<lambda>_. False), ae_HOME = [], ae_openalNew = None, ae_stereoEncoder = [], ae_saverNew = None,
     ae_saveError = None, ae_RemoteAddr = [], ae_sinceSeconds = (\<lambda>_. []), ae_seconds = (\<lambda>_. []), ae_fixed1 = (\<lambda>_. []),
     ae_IP = (\<lambda>_. [])\<rparr>"

end
