(* ===== verification/AdminText.thy ===== *)
theory AdminText
  imports App NetIP
begin

text \<open>
  The words of the administration commands (\<^verbatim>\<open>admin.go\<close>): toggles, permission names, ban durations, and
  the text of rules; and the edits of the access control list that is loaded.
\<close>

section \<open>Toggles\<close>

definition onOff :: "bool \<Rightarrow> string" where
  "onOff v = (if v then ''on'' else ''off'')"

text \<open>The state asked for, or nothing when the word is none of the known ones.\<close>

definition parseToggleState :: "string \<Rightarrow> bool \<Rightarrow> bool option" where
  "parseToggleState s current =
    (let w = ToLower (TrimSpace s) in
     if w = [] \<or> w = ''toggle'' then Some (\<not> current)
     else if w \<in> {''on'', ''true'', ''yes'', ''1''} then Some True
     else if w \<in> {''off'', ''false'', ''no'', ''0''} then Some False
     else None)"

section \<open>Permissions\<close>

abbreviation "PermissionWrite \<equiv> (0x1 :: permission)"
abbreviation "PermissionTraverse \<equiv> (0x2 :: permission)"
abbreviation "PermissionEnter \<equiv> (0x4 :: permission)"
abbreviation "PermissionSpeak \<equiv> (0x8 :: permission)"
abbreviation "PermissionMuteDeafen \<equiv> (0x10 :: permission)"
abbreviation "PermissionMove \<equiv> (0x20 :: permission)"
abbreviation "PermissionMakeChannel \<equiv> (0x40 :: permission)"
abbreviation "PermissionLinkChannel \<equiv> (0x80 :: permission)"
abbreviation "PermissionWhisper \<equiv> (0x100 :: permission)"
abbreviation "PermissionTextMessage \<equiv> (0x200 :: permission)"
abbreviation "PermissionMakeTemporaryChannel \<equiv> (0x400 :: permission)"
abbreviation "PermissionKick \<equiv> (0x10000 :: permission)"
abbreviation "PermissionBan \<equiv> (0x20000 :: permission)"
abbreviation "PermissionRegister \<equiv> (0x40000 :: permission)"
abbreviation "PermissionRegisterSelf \<equiv> (0x80000 :: permission)"

definition commonAdminPermissions :: "(string \<times> permission) list" where
  "commonAdminPermissions =
    [(''write'', PermissionWrite), (''enter'', PermissionEnter), (''speak'', PermissionSpeak),
     (''mute_deafen'', PermissionMuteDeafen), (''move'', PermissionMove), (''kick'', PermissionKick), (''ban'', PermissionBan)]"

definition otherPermissions :: "(string \<times> permission) list" where
  "otherPermissions =
    [(''traverse'', PermissionTraverse), (''make_channel'', PermissionMakeChannel), (''link_channel'', PermissionLinkChannel),
     (''whisper'', PermissionWhisper), (''text_message'', PermissionTextMessage),
     (''make_temp_channel'', PermissionMakeTemporaryChannel), (''register'', PermissionRegister),
     (''register_self'', PermissionRegisterSelf)]"

definition parsePermission :: "string \<Rightarrow> permission option" where
  "parsePermission s =
    (case map_of commonAdminPermissions s of Some p \<Rightarrow> Some p | None \<Rightarrow> map_of otherPermissions s)"

definition permissionNames :: "permission \<Rightarrow> string list" where
  "permissionNames p = map fst (filter (\<lambda>(_, o'). PermissionHas p o') (commonAdminPermissions @ otherPermissions))"

definition permissionList :: "permission \<Rightarrow> string" where
  "permissionList p = (if p = 0 then ''none'' else Join '','' (permissionNames p))"

definition aclSubject :: "aclRule \<Rightarrow> string" where
  "aclSubject r =
    (case ar_User r of
       Some u \<Rightarrow> if au_Name u \<noteq> [] then ''user '' @ au_Name u else ''user '' @ Itoa (uint (au_UserID u))
     | None \<Rightarrow> (case ar_Group r of Some g \<Rightarrow> ''group '' @ g | None \<Rightarrow> ''all''))"

section \<open>Ban durations\<close>

abbreviation Minute :: int where
  "Minute \<equiv> 60000000000"

datatype banDurationError = MinutesNotANumber | MinutesNegative | DurationTooLong

definition manualBanDuration :: "string \<Rightarrow> banDurationError + int64" where
  "manualBanDuration s =
    (case ParseInt 64 s of
       None \<Rightarrow> Inl MinutesNotANumber
     | Some minutes \<Rightarrow>
         if minutes < 0 then Inl MinutesNegative
         else if minutes > (2 ^ 63 - 1) div Minute then Inl DurationTooLong
         else Inr (word_of_int minutes * word_of_int Minute))"

fun durationErrorText :: "banDurationError \<Rightarrow> string" where
  "durationErrorText MinutesNotANumber = ''ban minutes must be a number''"
| "durationErrorText MinutesNegative = ''ban minutes must not be negative''"
| "durationErrorText DurationTooLong = ''ban duration is too long''"

section \<open>Rules of an access control list\<close>

datatype aclSubjectOf = SubjectUser uint32 | SubjectGroup string

definition ruleIs :: "aclSubjectOf \<Rightarrow> aclRule \<Rightarrow> bool" where
  "ruleIs s r = (case s of
     SubjectUser i \<Rightarrow> (\<exists>u. ar_User r = Some u \<and> au_UserID u = i)
   | SubjectGroup g \<Rightarrow> ar_Group r = Some g)"

definition newRule :: "aclSubjectOf \<Rightarrow> aclRule" where
  "newRule s = \<lparr>ar_AppliesCurrent = True, ar_AppliesChildren = False, ar_Inherited = False, ar_Granted = 0, ar_Denied = 0,
     ar_User = (case s of SubjectUser i \<Rightarrow> Some (newACLUser i) | SubjectGroup _ \<Rightarrow> None),
     ar_Group = (case s of SubjectUser _ \<Rightarrow> None | SubjectGroup g \<Rightarrow> Some g)\<rparr>"

text \<open>\<^verbatim>\<open>findOrCreateACLRule\<close> gives a pointer into the list; editing through it is an update of the first
  matching rule, or of a new one at the end.\<close>

fun editRule :: "aclSubjectOf \<Rightarrow> (aclRule \<Rightarrow> aclRule) \<Rightarrow> aclRule list \<Rightarrow> aclRule list" where
  "editRule s f [] = [f (newRule s)]"
| "editRule s f (r # rs) = (if ruleIs s r then f r # rs else r # editRule s f rs)"

definition grantRule :: "permission \<Rightarrow> aclRule \<Rightarrow> aclRule" where
  "grantRule p r = r\<lparr>ar_Granted := ar_Granted r XOR p, ar_Denied := ar_Denied r AND NOT p\<rparr>"

definition denyRule :: "permission \<Rightarrow> aclRule \<Rightarrow> aclRule" where
  "denyRule p r = r\<lparr>ar_Denied := ar_Denied r XOR p, ar_Granted := ar_Granted r AND NOT p\<rparr>"

datatype subjectError = UserNotNumeric | SubjectUnknown

definition parseSubject :: "string \<Rightarrow> string \<Rightarrow> subjectError + aclSubjectOf" where
  "parseSubject subjectType subject =
    (if subjectType = ''user'' then
       (case ParseUint 32 subject of None \<Rightarrow> Inl UserNotNumeric | Some i \<Rightarrow> Inr (SubjectUser (of_nat i)))
     else if subjectType = ''group'' then Inr (SubjectGroup subject)
     else Inl SubjectUnknown)"

fun subjectErrorText :: "subjectError \<Rightarrow> string" where
  "subjectErrorText UserNotNumeric = ''Admin: ACL user id must be numeric''"
| "subjectErrorText SubjectUnknown = ''Admin: ACL subject must be user or group''"

end
