(* ===== verification/Admin.thy ===== *)
theory Admin
  imports AdminText
begin

text \<open>
  The administration commands of \<^verbatim>\<open>admin.go\<close>: \<^verbatim>\<open>/admin\<close> and its sub-commands, the edits of the ban,
  user and access control lists, and the look-ups by number or name.  Every branch of the code is a
  branch here; \<open>None\<close> is a nil dereference.
\<close>

section \<open>Look-ups\<close>

text \<open>A map is walked in the order of its association list, any order of the Go map.\<close>

definition findUser :: "string \<Rightarrow> barnard \<Rightarrow> user_ref option" where
  "findUser token b =
    (case ba_Client b of
       None \<Rightarrow> None
     | Some c \<Rightarrow>
         (case Option.bind (ParseUint 32 token) (\<lambda>n. map_of (c_Users c) (of_nat n)) of
            Some u \<Rightarrow> Some u
          | None \<Rightarrow> find (\<lambda>u. EqualFold (u_Name (c_user c u)) token) (map snd (c_Users c))))"

definition findChannel :: "string \<Rightarrow> barnard \<Rightarrow> chan_ref option" where
  "findChannel token b =
    (case ba_Client b of
       None \<Rightarrow> None
     | Some c \<Rightarrow>
         let token = TrimSpace token in
         (case Option.bind (ParseUint 32 token) (\<lambda>n. map_of (c_Channels c) (of_nat n)) of
            Some ch \<Rightarrow> Some ch
          | None \<Rightarrow> find (\<lambda>ch. EqualFold (ch_Name (c_channel c ch)) token) (map snd (c_Channels c))))"

definition findRegisteredUser :: "string \<Rightarrow> barnard \<Rightarrow> reg_ref option" where
  "findRegisteredUser token b =
    (case Option.bind (ParseUint 32 token)
        (\<lambda>n. find (\<lambda>r. ru_UserID (ba_registered b r) = of_nat n) (ba_adminUserList b)) of
       Some r \<Rightarrow> Some r
     | None \<Rightarrow> find (\<lambda>r. EqualFold (ru_Name (ba_registered b r)) token) (ba_adminUserList b))"

section \<open>Lists that are edited and sent back\<close>

text \<open>\<^verbatim>\<open>b.Client.Send\<close> of the three lists; an unchanged user list sends nothing.\<close>

definition sendBans :: "barnard \<Rightarrow> barnard" where
  "sendBans b = b\<lparr>ba_sent := ba_sent b @ [writeBanList (ba_adminBanList b)]\<rparr>"

definition sendUsers :: "barnard \<Rightarrow> barnard" where
  "sendUsers b = (case writeUserList (map (ba_registered b) (ba_adminUserList b)) of
     None \<Rightarrow> b
   | Some r \<Rightarrow> b\<lparr>ba_sent := ba_sent b @ [r]\<rparr>)"

definition sendACL :: "barnard \<Rightarrow> barnard option" where
  "sendACL b = do { a \<leftarrow> ba_adminACL b; c \<leftarrow> ba_Client b; send (Some (writeACL a c)) b }"

definition addManualBan :: "string \<Rightarrow> barnard \<Rightarrow> barnard" where
  "addManualBan s b =
    (case Fields s of
       address # minutes # reason # reasons \<Rightarrow>
         (case ParseCIDR address of
            None \<Rightarrow> AddOutputLine ''Admin: ban address must be CIDR, for example 192.0.2.1/32'' b
          | Some (ip, ipmask) \<Rightarrow>
              (case manualBanDuration minutes of
                 Inl e \<Rightarrow> AddOutputLine (''Admin: '' @ durationErrorText e) b
               | Inr duration \<Rightarrow>
                   AddOutputLine ''Admin: manual ban sent''
                     (sendBans (b\<lparr>ba_adminBanList :=
                        BanListAdd ip ipmask (Join '' '' (reason # reasons)) duration (ba_adminBanList b)\<rparr>))))
     | _ \<Rightarrow> AddOutputLine ''Admin: usage ip/mask minutes reason'' b)"

definition unbanIndex :: "int \<Rightarrow> barnard \<Rightarrow> barnard" where
  "unbanIndex index b =
    (if index < 0 \<or> index \<ge> int (length (ba_adminBanList b)) then AddOutputLine ''Admin: ban index out of range'' b
     else
       let i = nat index in
       AddOutputLine (''Admin: unban sent for entry '' @ Itoa (index + 1))
         (sendBans (b\<lparr>ba_adminBanList := (ba_adminBanList b)[i := Unban (ba_adminBanList b ! i)]\<rparr>)))"

definition updateRegistered :: "reg_ref \<Rightarrow> (registeredUser \<Rightarrow> registeredUser) \<Rightarrow> barnard \<Rightarrow> barnard" where
  "updateRegistered r f b = b\<lparr>ba_registered := (ba_registered b)(r := f (ba_registered b r))\<rparr>"

definition renameRegistered :: "string \<Rightarrow> reg_ref \<Rightarrow> barnard \<Rightarrow> barnard" where
  "renameRegistered name r b =
    AddOutputLine (''Admin: rename registered user sent for '' @ Itoa (uint (ru_UserID (ba_registered b r))))
      (sendUsers (updateRegistered r (RegisteredSetName name) b))"

definition deregisterRegistered :: "reg_ref \<Rightarrow> barnard \<Rightarrow> barnard" where
  "deregisterRegistered r b =
    AddOutputLine (''Admin: deregister sent for '' @ ru_Name (ba_registered b r))
      (sendUsers (updateRegistered r Deregister b))"

text \<open>Rules are edited through \<^verbatim>\<open>b.adminACL\<close>; a nil list is dereferenced.\<close>

definition editACL :: "aclSubjectOf \<Rightarrow> (aclRule \<Rightarrow> aclRule) \<Rightarrow> barnard \<Rightarrow> barnard option" where
  "editACL s f b = do {
     a \<leftarrow> ba_adminACL b;
     sendACL (b\<lparr>ba_adminACL := Some (a\<lparr>acl_Rules := editRule s f (acl_Rules a)\<rparr>)\<rparr>)
   }"

definition toggleACLUserGrant :: "user_ref option \<Rightarrow> permission \<Rightarrow> barnard \<Rightarrow> barnard option" where
  "toggleACLUserGrant u permission b = do {
     r \<leftarrow> u;
     user \<leftarrow> userOf b r;
     b \<leftarrow> editACL (SubjectUser (u_UserID user)) (grantRule permission) b;
     Some (AddOutputLine (''Admin: ACL grant toggled for '' @ u_Name user) b)
   }"

section \<open>Sub-commands\<close>

definition notFound :: "string \<Rightarrow> barnard \<Rightarrow> barnard option" where
  "notFound s b = Some (AddOutputLine s b)"

definition adminCommandUserAndReason ::
    "(string \<Rightarrow> user \<Rightarrow> request option) \<Rightarrow> string \<Rightarrow> string list \<Rightarrow> barnard \<Rightarrow> barnard option" where
  "adminCommandUserAndReason act done args b =
    (case args of
       [] \<Rightarrow> notFound ''Admin: user required'' b
     | token # reason \<Rightarrow>
         (case findUser token b of
            None \<Rightarrow> notFound (''Admin: user not found: '' @ token) b
          | Some r \<Rightarrow> do {
              user \<leftarrow> userOf b r;
              sendLine (act (Join '' '' reason) user) (done @ u_Name user) b
            }))"

definition toggleOf :: "string \<Rightarrow> (user \<Rightarrow> bool) \<times> (bool \<Rightarrow> user \<Rightarrow> request option)" where
  "toggleOf word =
    (if word = ''mute'' then (u_Muted, SetMuted)
     else if word = ''deafen'' then (u_Deafened, SetDeafened)
     else if word = ''suppress'' then (u_Suppressed, SetSuppressed)
     else (u_PrioritySpeaker, SetPrioritySpeaker))"

definition executeUserToggle :: "string \<Rightarrow> string list \<Rightarrow> barnard \<Rightarrow> barnard option" where
  "executeUserToggle word args b =
    (case args of
       [] \<Rightarrow> notFound (''Admin: usage /admin '' @ word @ '' <user> [on|off|toggle]'') b
     | token # rest \<Rightarrow>
         (case findUser token b of
            None \<Rightarrow> notFound (''Admin: user not found: '' @ token) b
          | Some r \<Rightarrow> do {
              user \<leftarrow> userOf b r;
              case parseToggleState (case rest of [] \<Rightarrow> ''toggle'' | s # _ \<Rightarrow> s) (fst (toggleOf word) user) of
                None \<Rightarrow> notFound ''Admin: state must be on, off, or toggle'' b
              | Some state \<Rightarrow> sendLine (snd (toggleOf word) state user)
                  (''Admin: '' @ word @ '' set to '' @ onOff state @ '' for '' @ u_Name user) b
            }))"

definition executeMoveCommand :: "string list \<Rightarrow> barnard \<Rightarrow> barnard option" where
  "executeMoveCommand args b =
    (case args of
       token # target # targets \<Rightarrow>
         (case findUser token b of
            None \<Rightarrow> notFound (''Admin: user not found: '' @ token) b
          | Some r \<Rightarrow>
              (case findChannel (Join '' '' (target # targets)) b of
                 None \<Rightarrow> notFound ''Admin: channel not found'' b
               | Some ch \<Rightarrow> do {
                   user \<leftarrow> userOf b r;
                   channel \<leftarrow> channelOf b ch;
                   sendLine (Move channel user) (''Admin: move sent for '' @ u_Name user @ '' to '' @ ch_Name channel) b
                 }))
     | _ \<Rightarrow> notFound ''Admin: usage /admin move <user> <channel-id-or-name>'' b)"

text \<open>The channel of a channel command, looked up before its kind is known.\<close>

definition onChannel :: "string \<Rightarrow> (channel \<Rightarrow> barnard \<Rightarrow> barnard option) \<Rightarrow> chan_ref option \<Rightarrow> barnard \<Rightarrow> barnard option" where
  "onChannel missing f ch b =
    (case ch of None \<Rightarrow> notFound missing b | Some r \<Rightarrow> do { channel \<leftarrow> channelOf b r; f channel b })"

definition IsRoot :: "channel \<Rightarrow> bool" where
  "IsRoot c \<longleftrightarrow> ch_ID c = 0"

definition executeChannelCommand :: "string list \<Rightarrow> barnard \<Rightarrow> barnard option" where
  "executeChannelCommand args b =
    (case args of
       kind # target # rest \<Rightarrow>
         (let channel = findChannel target b in
          if kind = ''add'' \<or> kind = ''temp'' then
            (if rest = [] then notFound ''Admin: child channel name required'' b
             else onChannel ''Admin: parent channel not found''
               (\<lambda>ch. sendLine (ChannelAdd (Join '' '' rest) (kind = ''temp'') ch)
                  (''Admin: create channel sent for '' @ Join '' '' rest)) channel b)
          else if kind = ''rename'' then
            (if rest = [] then notFound ''Admin: new channel name required'' b
             else onChannel ''Admin: channel not found''
               (\<lambda>ch. sendLine (SetName (Join '' '' rest) ch) ''Admin: rename channel sent'') channel b)
          else if kind = ''describe'' then
            onChannel ''Admin: channel not found''
              (\<lambda>ch. sendLine (SetDescription (Join '' '' rest) ch) ''Admin: channel description sent'') channel b
          else if kind = ''delete'' then
            onChannel ''Admin: channel not found''
              (\<lambda>ch b. if IsRoot ch then notFound ''Admin: cannot delete the root channel'' b
                 else sendLine (ChannelRemove ch) ''Admin: delete channel sent'' b) channel b
          else if kind = ''maxusers'' then
            (case rest of
               [] \<Rightarrow> notFound ''Admin: max users value required'' b
             | n # _ \<Rightarrow> onChannel ''Admin: channel not found''
                 (\<lambda>ch b. case ParseUint 32 n of
                    None \<Rightarrow> notFound ''Admin: max users must be a number'' b
                  | Some k \<Rightarrow> sendLine (SetMaxUsers (of_nat k) ch) ''Admin: max users sent'' b) channel b)
          else notFound (''Admin: unknown channel command '' @ kind) b)
     | _ \<Rightarrow> notFound ''Admin: usage /admin channel <add|temp|rename|describe|delete|maxusers> ...'' b)"

definition executeRenameRegisteredUser :: "string list \<Rightarrow> barnard \<Rightarrow> barnard option" where
  "executeRenameRegisteredUser args b =
    (case args of
       token # name # names \<Rightarrow>
         (case findRegisteredUser token b of
            None \<Rightarrow> notFound ''Admin: registered user not found'' b
          | Some r \<Rightarrow> Some (renameRegistered (Join '' '' (name # names)) r b))
     | _ \<Rightarrow> notFound ''Admin: usage /admin renameuser <id-or-name> <new-name>'' b)"

definition executeDeregisterRegisteredUser :: "string list \<Rightarrow> barnard \<Rightarrow> barnard option" where
  "executeDeregisterRegisteredUser args b =
    (case args of
       [] \<Rightarrow> notFound ''Admin: usage /admin deregister <id-or-name>'' b
     | token # _ \<Rightarrow>
         (case findRegisteredUser token b of
            None \<Rightarrow> notFound ''Admin: registered user not found'' b
          | Some r \<Rightarrow> Some (deregisterRegistered r b)))"

definition requestACL :: "chan_ref option \<Rightarrow> barnard \<Rightarrow> barnard option" where
  "requestACL = onChannel ''Admin: channel not found''
     (\<lambda>ch. sendLine (RequestACL ch) (''Admin: requested ACLs for '' @ ch_Name ch))"

definition editACLCommand :: "string \<Rightarrow> string list \<Rightarrow> barnard \<Rightarrow> barnard option" where
  "editACLCommand verb args b =
    (case args of
       name # subjectType # subject # subjects \<Rightarrow>
         (case parsePermission name of
            None \<Rightarrow> notFound (''Admin: unknown permission '' @ name) b
          | Some permission \<Rightarrow>
              if verb \<noteq> ''grant'' \<and> verb \<noteq> ''deny'' then notFound ''Admin: ACL command must be grant or deny'' b
              else (case parseSubject subjectType (Join '' '' (subject # subjects)) of
                 Inl e \<Rightarrow> notFound (subjectErrorText e) b
               | Inr s \<Rightarrow> map_option (AddOutputLine ''Admin: ACL update sent'')
                   (editACL s (if verb = ''grant'' then grantRule permission else denyRule permission) b)))
     | _ \<Rightarrow> notFound ''Admin: usage /admin acl grant|deny <permission> user <id> | group <name>'' b)"

definition executeACLCommand :: "string list \<Rightarrow> barnard \<Rightarrow> barnard option" where
  "executeACLCommand args b =
    (case args of
       [] \<Rightarrow> requestACL (ba_adminTargetChan b) b
     | verb # rest \<Rightarrow>
         if verb = ''request'' then
           requestACL (if rest = [] then ba_adminTargetChan b else findChannel (Join '' '' rest) b) b
         else if ba_adminACL b = None then notFound ''Admin: request ACLs before editing'' b
         else editACLCommand verb rest b)"

definition triggered :: "contextAction \<Rightarrow> request \<Rightarrow> barnard \<Rightarrow> barnard option" where
  "triggered a req = sendLine (Some req) (''Admin: context action sent: '' @ ca_Name a)"

definition contextScope :: "contextAction \<Rightarrow> string list \<Rightarrow> barnard \<Rightarrow> barnard option" where
  "contextScope a args b =
    (let scope = (case args of [] \<Rightarrow> ''server'' | s # _ \<Rightarrow> s) in
     if scope = ''server'' then triggered a (Trigger a) b
     else if scope = ''user'' then
       (case args of
          _ # token # _ \<Rightarrow>
            (case findUser token b of
               None \<Rightarrow> notFound ''Admin: user not found'' b
             | Some r \<Rightarrow> do { user \<leftarrow> userOf b r; triggered a (TriggerUser user a) b })
        | _ \<Rightarrow> notFound ''Admin: context user target required'' b)
     else if scope = ''channel'' then
       (case args of
          _ # target # targets \<Rightarrow>
            onChannel ''Admin: channel not found'' (\<lambda>ch. triggered a (TriggerChannel ch a))
              (findChannel (Join '' '' (target # targets)) b) b
        | _ \<Rightarrow> notFound ''Admin: context channel target required'' b)
     else notFound ''Admin: context scope must be server, user, or channel'' b)"

definition executeContextCommand :: "string list \<Rightarrow> barnard \<Rightarrow> barnard option" where
  "executeContextCommand args b =
    (case args of
       [] \<Rightarrow> notFound ''Admin: usage /admin context <action> [server|user|channel] [target]'' b
     | name # rest \<Rightarrow> do {
         c \<leftarrow> ba_Client b;
         case map_of (c_ContextActions c) name of
           None \<Rightarrow> notFound ''Admin: context action not found'' b
         | Some a \<Rightarrow> contextScope a rest b
       })"

section \<open>Opening the menu\<close>

definition connected :: "barnard \<Rightarrow> bool" where
  "connected b = (selfUser b \<noteq> None)"

definition menuTargets :: "barnard \<Rightarrow> client \<Rightarrow> barnard" where
  "menuTargets b c =
    (let self = Option.bind (map_option (c_user c) (c_Self c)) u_Channel;
         b = b\<lparr>ba_adminReturnItem := ba_activeItem b, ba_adminTargetUser := ba_selectedUser b, ba_adminTargetChan := self\<rparr>
     in if ba_active b = uiViewTree then
          (case ba_activeItem b of
             None \<Rightarrow> b
           | Some item \<Rightarrow>
               let b = whenSome (ti_User item) (\<lambda>u b. b\<lparr>ba_adminTargetUser := Some u, ba_adminTargetChan := u_Channel (c_user c u)\<rparr>) b
               in whenSome (ti_Channel item) (\<lambda>ch b. b\<lparr>ba_adminTargetChan := Some ch, ba_adminTargetUser := None\<rparr>) b)
        else b)"

definition menuOpened :: "barnard \<Rightarrow> client \<Rightarrow> string" where
  "menuOpened b c =
    (case (ba_adminTargetUser b, ba_adminTargetChan b) of
       (Some u, _) \<Rightarrow> ''Admin: opened for user '' @ u_Name (c_user c u)
     | (None, Some ch) \<Rightarrow> ''Admin: opened for channel '' @ ch_Name (c_channel c ch)
     | (None, None) \<Rightarrow> ''Admin: opened'')"

definition sendPermission :: "client \<Rightarrow> chan_ref option \<Rightarrow> barnard \<Rightarrow> barnard option" where
  "sendPermission c ch b = (case ch of None \<Rightarrow> Some b | Some r \<Rightarrow> send (RequestPermission (c_channel c r)) b)"

definition OpenAdminMenu :: "barnard \<Rightarrow> barnard option" where
  "OpenAdminMenu b =
    (if \<not> connected b then notFound ''Admin: not connected'' b
     else do {
       c \<leftarrow> ba_Client b;
       let b = menuTargets b c;
       let root = map_of (c_Channels c) 0;
       b \<leftarrow> sendPermission c (ba_adminTargetChan b) b;
       b \<leftarrow> (if root = ba_adminTargetChan b then Some b else sendPermission c root b);
       Some (AddOutputLine (menuOpened b c) (SetActive uiViewAdmin b))
     })"

section \<open>The command\<close>

definition executeAdminCommand :: "string \<Rightarrow> barnard \<Rightarrow> barnard option" where
  "executeAdminCommand cmd b =
    (case Fields cmd of
       [] \<Rightarrow> OpenAdminMenu b
     | word # args \<Rightarrow>
         if word = ''menu'' then OpenAdminMenu b
         else if \<not> connected b then notFound ''Admin: not connected'' b
         else if word = ''kick'' then adminCommandUserAndReason Kick ''Admin: kick sent for '' args b
         else if word = ''ban'' then adminCommandUserAndReason Ban ''Admin: ban sent for '' args b
         else if word \<in> {''mute'', ''deafen'', ''suppress'', ''priority''} then executeUserToggle word args b
         else if word = ''move'' then executeMoveCommand args b
         else if word = ''channel'' then executeChannelCommand args b
         else if word = ''banlist'' then sendLine (Some RequestBanList) ''Admin: requested ban list'' b
         else if word = ''unban'' then
           (case args of
              [] \<Rightarrow> notFound ''Admin: usage /admin unban <index>'' b
            | n # _ \<Rightarrow> (case ParseInt 64 n of
                None \<Rightarrow> notFound ''Admin: unban index must be a number'' b
              | Some i \<Rightarrow> Some (unbanIndex (sint (word_of_int i - 1 :: int64)) b)))
         else if word = ''users'' then sendLine (Some RequestUserList) ''Admin: requested registered user list'' b
         else if word = ''renameuser'' then executeRenameRegisteredUser args b
         else if word = ''deregister'' then executeDeregisterRegisteredUser args b
         else if word = ''acl'' then executeACLCommand args b
         else if word = ''context'' then executeContextCommand args b
         else notFound (''Admin: unknown command '' @ word) b)"

end
