(* ===== verification/AdminMenu.thy ===== *)
theory AdminMenu
  imports Admin
begin

text \<open>
  The actions menu of \<^verbatim>\<open>admin.go\<close>: the items built for the current targets, what choosing an item does,
  and the prompts it opens in the input line.  A menu or prompt closure is a constructor with the objects
  it captured.
\<close>

section \<open>Actions\<close>

datatype adminAction =
    ActRequestStats user_ref
  | ActRequestComment user_ref
  | ActMoveSelf chan_ref
  | ActRequestDescription chan_ref
  | ActRequestPermission chan_ref
  | ActPrompt string adminPrompt
  | ActToggle string user_ref
  | ActMoveHere user_ref
  | ActRegister user_ref
  | ActDeleteChannel chan_ref
  | ActUnlinkAll chan_ref
  | ActRequestBanList
  | ActUnban nat
  | ActRequestUserList
  | ActRequestACL chan_ref
  | ActToggleGrant permission
  | ActToggleInherit
  | ActTrigger contextAction
  | ActTriggerUser contextAction
  | ActTriggerChannel contextAction
  | ActClose

datatype adminItem = AdminItem (itemLabel: string) (itemChildren: "adminItem list") (itemAction: "adminAction option")

abbreviation "plainItem s \<equiv> AdminItem s [] None"
abbreviation "actionItem s a \<equiv> AdminItem s [] (Some a)"

section \<open>Permissions known to be missing\<close>

definition adminCanChannel :: "chan_ref option \<Rightarrow> permission \<Rightarrow> client \<Rightarrow> bool option" where
  "adminCanChannel ch p c =
    (case ch of
       None \<Rightarrow> Some True
     | Some r \<Rightarrow> map_option (\<lambda>current. case current of None \<Rightarrow> True | Some q \<Rightarrow> PermissionHas q p)
         (ChannelPermission (c_channel c r) c))"

definition adminCanRoot :: "permission \<Rightarrow> barnard \<Rightarrow> bool option" where
  "adminCanRoot p b =
    (case ba_Client b of None \<Rightarrow> Some True | Some c \<Rightarrow> adminCanChannel (map_of (c_Channels c) 0) p c)"

definition guarded :: "bool \<Rightarrow> adminItem list \<Rightarrow> adminItem list" where
  "guarded allowed items = (if allowed then items else [])"

section \<open>Items\<close>

definition informationItems :: "barnard \<Rightarrow> adminItem list option" where
  "informationItems b = do {
     us \<leftarrow> (case ba_adminTargetUser b of
        None \<Rightarrow> Some []
      | Some u \<Rightarrow> do {
          user \<leftarrow> userOf b u;
          Some [actionItem (''Request user stats for '' @ u_Name user) (ActRequestStats u),
                actionItem (''Request user comment for '' @ u_Name user) (ActRequestComment u)] });
     chs \<leftarrow> (case ba_adminTargetChan b of
        None \<Rightarrow> Some []
      | Some ch \<Rightarrow> do {
          channel \<leftarrow> channelOf b ch;
          Some [actionItem (''Move self to '' @ ch_Name channel) (ActMoveSelf ch),
                actionItem (''Request channel description for '' @ ch_Name channel) (ActRequestDescription ch),
                actionItem (''Request channel permissions for '' @ ch_Name channel) (ActRequestPermission ch)] });
     Some (if us @ chs = [] then [plainItem ''No information actions available''] else us @ chs)
   }"

definition adminUserItems :: "barnard \<Rightarrow> adminItem list option" where
  "adminUserItems b =
    (case ba_adminTargetUser b of
       None \<Rightarrow> Some []
     | Some u \<Rightarrow> do {
         c \<leftarrow> ba_Client b;
         user \<leftarrow> userOf b u;
         kick \<leftarrow> adminCanRoot PermissionKick b;
         ban \<leftarrow> adminCanRoot PermissionBan b;
         mute \<leftarrow> adminCanChannel (u_Channel user) PermissionMuteDeafen c;
         self \<leftarrow> selfUser b;
         move \<leftarrow> adminCanChannel (u_Channel self) PermissionMove c;
         reg \<leftarrow> adminCanRoot PermissionRegister b;
         Some (guarded kick [actionItem (''Kick '' @ u_Name user) (ActPrompt (''Kick reason for '' @ u_Name user) (PromptKick u))]
           @ guarded ban [actionItem (''Ban '' @ u_Name user) (ActPrompt (''Ban reason for '' @ u_Name user) (PromptBan u))]
           @ guarded mute
               [actionItem (''Server mute: '' @ onOff (u_Muted user)) (ActToggle ''mute'' u),
                actionItem (''Server deafen: '' @ onOff (u_Deafened user)) (ActToggle ''deafen'' u),
                actionItem (''Suppress in channel: '' @ onOff (u_Suppressed user)) (ActToggle ''suppress'' u),
                actionItem (''Priority speaker: '' @ onOff (u_PrioritySpeaker user)) (ActToggle ''priority'' u)]
           @ guarded move [actionItem ''Move user to current channel'' (ActMoveHere u)]
           @ guarded reg [actionItem ''Register user'' (ActRegister u)])
       })"

definition adminChannelItems :: "barnard \<Rightarrow> adminItem list option" where
  "adminChannelItems b =
    (case ba_adminTargetChan b of
       None \<Rightarrow> Some []
     | Some ch \<Rightarrow> do {
         c \<leftarrow> ba_Client b;
         channel \<leftarrow> channelOf b ch;
         make \<leftarrow> adminCanChannel (Some ch) PermissionMakeChannel c;
         temp \<leftarrow> adminCanChannel (Some ch) PermissionMakeTemporaryChannel c;
         write \<leftarrow> adminCanChannel (Some ch) PermissionWrite c;
         link \<leftarrow> (if ch_Links channel = [] then Some False else adminCanChannel (Some ch) PermissionLinkChannel c);
         let nm = ch_Name channel;
         Some (guarded make [actionItem ''Create child channel'' (ActPrompt (''New channel name under '' @ nm) (PromptAddChannel ch False))]
           @ guarded temp [actionItem ''Create temporary child channel''
               (ActPrompt (''Temporary channel name under '' @ nm) (PromptAddChannel ch True))]
           @ guarded write
               [actionItem ''Rename channel'' (ActPrompt (''New name for '' @ nm) (PromptRename ch)),
                actionItem ''Set channel description'' (ActPrompt (''Description for '' @ nm) (PromptDescribe ch)),
                actionItem ''Set max users'' (ActPrompt (''Max users for '' @ nm @ '' (0 for server default)'') (PromptMaxUsers ch)),
                actionItem ''Delete channel'' (ActDeleteChannel ch)]
           @ guarded link [actionItem ''Unlink all channels'' (ActUnlinkAll ch)])
       })"

definition banItem :: "nat \<times> ban \<Rightarrow> adminItem" where
  "banItem e = (case e of (i, b) \<Rightarrow>
     AdminItem (''Ban '' @ digits (i + 1) @ '': '' @ ipString (b_Address b) @ '' '' @ b_Reason b)
       [actionItem ''Unban this entry'' (ActUnban i)] None)"

definition adminBanItems :: "barnard \<Rightarrow> adminItem list option" where
  "adminBanItems b = do {
     allowed \<leftarrow> adminCanRoot PermissionBan b;
     Some (guarded allowed
       ([actionItem ''Request ban list'' ActRequestBanList,
         actionItem ''Add manual ban'' (ActPrompt ''Ban as ip/mask minutes reason'' PromptManualBan)]
        @ map banItem (zip [0..<length (ba_adminBanList b)] (ba_adminBanList b))))
   }"

definition registeredItem :: "barnard \<Rightarrow> reg_ref \<Rightarrow> adminItem" where
  "registeredItem b r =
    (let nm = ru_Name (ba_registered b r) in
     AdminItem (''Registered user '' @ Itoa (uint (ru_UserID (ba_registered b r))) @ '': '' @ nm)
       [actionItem (''Rename '' @ nm) (ActPrompt (''New name for '' @ nm) (PromptRenameUser r)),
        actionItem (''Deregister '' @ nm) (ActPrompt (''Type deregister to remove '' @ nm) (PromptDeregister r))] None)"

definition adminRegisteredUserItems :: "barnard \<Rightarrow> adminItem list option" where
  "adminRegisteredUserItems b = do {
     allowed \<leftarrow> adminCanRoot PermissionRegister b;
     Some (guarded allowed (actionItem ''Request registered user list'' ActRequestUserList
       # map (registeredItem b) (ba_adminUserList b)))
   }"

definition ruleItem :: "nat \<times> aclRule \<Rightarrow> adminItem" where
  "ruleItem e = (case e of (i, r) \<Rightarrow>
     plainItem (''Rule '' @ digits (i + 1) @ '': '' @ aclSubject r @ '' grant='' @ permissionList (ar_Granted r)
       @ '' deny='' @ permissionList (ar_Denied r)))"

definition grantItems :: "barnard \<Rightarrow> adminItem list option" where
  "grantItems b =
    (case ba_adminTargetUser b of
       None \<Rightarrow> Some []
     | Some u \<Rightarrow> do {
         user \<leftarrow> userOf b u;
         Some (if IsRegistered user
           then map (\<lambda>(name, p). actionItem (''Toggle user grant '' @ name) (ActToggleGrant p)) commonAdminPermissions
           else [plainItem ''Selected user is not registered; user ACL toggles unavailable''])
       })"

definition adminACLItems :: "barnard \<Rightarrow> adminItem list option" where
  "adminACLItems b =
    (case ba_adminTargetChan b of
       None \<Rightarrow> Some []
     | Some ch \<Rightarrow> do {
         c \<leftarrow> ba_Client b;
         channel \<leftarrow> channelOf b ch;
         write \<leftarrow> adminCanChannel (Some ch) PermissionWrite c;
         if \<not> write then Some []
         else do {
           let request = actionItem (''Request ACLs for '' @ ch_Name channel) (ActRequestACL ch);
           case ba_adminACL b of
             None \<Rightarrow> Some [request, plainItem ''No ACL loaded for this channel'']
           | Some a \<Rightarrow>
               if acl_Channel a \<noteq> ch then Some [request, plainItem ''No ACL loaded for this channel'']
               else do {
                 toggles \<leftarrow> grantItems b;
                 Some ([request] @ toggles @ [actionItem (''Inherit ACLs: '' @ onOff (acl_Inherits a)) ActToggleInherit]
                   @ map ruleItem (zip [0..<length (acl_Rules a)] (acl_Rules a))
                   @ [actionItem ''Advanced raw ACL command''
                       (ActPrompt ''acl grant|deny permission user ID or group NAME'' PromptRawACL)])
               }
         }
       })"

definition contextItem :: "barnard \<Rightarrow> contextAction \<Rightarrow> adminItem option" where
  "contextItem b a = do {
     us \<leftarrow> (case ba_adminTargetUser b of
        Some u \<Rightarrow> if ca_Type a AND 4 \<noteq> 0
          then do { user \<leftarrow> userOf b u; Some [actionItem (''Trigger on user '' @ u_Name user) (ActTriggerUser a)] } else Some []
      | None \<Rightarrow> Some []);
     chs \<leftarrow> (case ba_adminTargetChan b of
        Some ch \<Rightarrow> if ca_Type a AND 2 \<noteq> 0
          then do { channel \<leftarrow> channelOf b ch; Some [actionItem (''Trigger on channel '' @ ch_Name channel) (ActTriggerChannel a)] }
          else Some []
      | None \<Rightarrow> Some []);
     Some (AdminItem (if ca_Label a = [] then ca_Name a else ca_Label a)
       (guarded (ca_Type a AND 1 \<noteq> 0) [actionItem ''Trigger on server'' (ActTrigger a)] @ us @ chs) None)
   }"

definition adminContextActionItems :: "barnard \<Rightarrow> adminItem list option" where
  "adminContextActionItems b =
    (case ba_Client b of
       None \<Rightarrow> Some [plainItem ''No context actions available'']
     | Some c \<Rightarrow>
         if c_ContextActions c = [] then Some [plainItem ''No context actions available'']
         else traverse (contextItem b) (map snd (c_ContextActions c)))"

definition submenu :: "string \<Rightarrow> adminItem list \<Rightarrow> adminItem list" where
  "submenu label children = (if children = [] then [] else [AdminItem label children None])"

definition targetText :: "barnard \<Rightarrow> string option" where
  "targetText b =
    (case (ba_adminTargetUser b, ba_adminTargetChan b) of
       (Some u, _) \<Rightarrow> map_option (\<lambda>user. ''user '' @ u_Name user) (userOf b u)
     | (None, Some ch) \<Rightarrow> map_option (\<lambda>channel. ''channel '' @ ch_Name channel) (channelOf b ch)
     | (None, None) \<Rightarrow> Some ''server'')"

definition AdminItemBuild :: "barnard \<Rightarrow> adminItem list option" where
  "AdminItemBuild b = do {
     target \<leftarrow> targetText b;
     info \<leftarrow> informationItems b;
     users \<leftarrow> adminUserItems b;
     channels \<leftarrow> adminChannelItems b;
     bans \<leftarrow> adminBanItems b;
     registered \<leftarrow> adminRegisteredUserItems b;
     acls \<leftarrow> adminACLItems b;
     contexts \<leftarrow> adminContextActionItems b;
     Some ([plainItem (''Action target: '' @ target), AdminItem ''Information actions'' info None]
       @ submenu ''Selected user admin actions'' users @ submenu ''Channel admin actions'' channels
       @ submenu ''Ban list admin actions'' bans @ submenu ''Registered user admin actions'' registered
       @ submenu ''ACL admin actions'' acls @ submenu ''Context actions'' contexts
       @ [actionItem ''Close actions menu'' ActClose])
   }"

section \<open>Prompts\<close>

definition promptAdmin :: "string \<Rightarrow> adminPrompt \<Rightarrow> barnard \<Rightarrow> barnard" where
  "promptAdmin label p b =
    AddOutputLine (''Admin: '' @ label)
      (SetActive uiViewInput (UpdateInputStatus ''[admin]'' (b\<lparr>ba_pendingAdminPrompt := Some p\<rparr>)))"

definition onUser :: "user_ref \<Rightarrow> (user \<Rightarrow> request option) \<Rightarrow> string \<Rightarrow> barnard \<Rightarrow> barnard option" where
  "onUser u act done b = do { user \<leftarrow> userOf b u; sendLine (act user) (done @ u_Name user) b }"

definition onChan :: "chan_ref \<Rightarrow> (channel \<Rightarrow> request option) \<Rightarrow> string \<Rightarrow> barnard \<Rightarrow> barnard option" where
  "onChan ch act done b = do { channel \<leftarrow> channelOf b ch; sendLine (act channel) (done @ ch_Name channel) b }"

text \<open>What a prompt does with the answer.\<close>

fun runPrompt :: "adminPrompt \<Rightarrow> string \<Rightarrow> barnard \<Rightarrow> barnard option" where
  "runPrompt (PromptKick u) s b = onUser u (Kick s) ''Admin: kick sent for '' b"
| "runPrompt (PromptBan u) s b = onUser u (Ban s) ''Admin: ban sent for '' b"
| "runPrompt (PromptAddChannel ch temporary) s b =
    (let name = TrimSpace s in
     if name = [] then notFound ''Admin: channel name required'' b
     else do {
       channel \<leftarrow> channelOf b ch;
       sendLine (ChannelAdd name temporary channel)
         ((if temporary then ''Admin: create temporary channel sent for '' else ''Admin: create channel sent for '') @ name) b
     })"
| "runPrompt (PromptRename ch) s b =
    (let name = TrimSpace s in
     if name = [] then notFound ''Admin: channel name required'' b
     else onChan ch (SetName name) ''Admin: rename channel sent for '' b)"
| "runPrompt (PromptDescribe ch) s b = onChan ch (SetDescription s) ''Admin: channel description sent for '' b"
| "runPrompt (PromptMaxUsers ch) s b =
    (case ParseUint 32 (TrimSpace s) of
       None \<Rightarrow> notFound ''Admin: max users must be a number'' b
     | Some n \<Rightarrow> onChan ch (SetMaxUsers (of_nat n)) ''Admin: max users sent for '' b)"
| "runPrompt (PromptDelete ch) s b =
    (if TrimSpace (ToLower s) \<noteq> ''delete'' then notFound ''Admin: delete channel canceled'' b
     else onChan ch ChannelRemove ''Admin: delete channel sent for '' b)"
| "runPrompt PromptManualBan s b = Some (addManualBan s b)"
| "runPrompt (PromptRenameUser r) s b =
    (let name = TrimSpace s in
     if name = [] then notFound ''Admin: registered user name required'' b else Some (renameRegistered name r b))"
| "runPrompt (PromptDeregister r) s b =
    (if TrimSpace (ToLower s) \<noteq> ''deregister'' then notFound ''Admin: deregister canceled'' b
     else Some (deregisterRegistered r b))"
| "runPrompt PromptRawACL s b = executeAdminCommand (''acl '' @ s) b"

text \<open>The targets are the ones of the menu now, not the ones the closure captured.\<close>

definition targetsValid :: "client \<Rightarrow> barnard \<Rightarrow> bool" where
  "targetsValid c b \<longleftrightarrow>
    (case ba_adminTargetUser b of None \<Rightarrow> True | Some u \<Rightarrow> map_of (c_Users c) (u_Session (c_user c u)) = Some u)
    \<and> (case ba_adminTargetChan b of None \<Rightarrow> True | Some ch \<Rightarrow> map_of (c_Channels c) (ch_ID (c_channel c ch)) = Some ch)"

definition withValidAdminTargets :: "(barnard \<Rightarrow> barnard option) \<Rightarrow> barnard \<Rightarrow> barnard option" where
  "withValidAdminTargets act b =
    (case ba_Client b of
       None \<Rightarrow> notFound ''Admin: action target is no longer available'' b
     | Some c \<Rightarrow> if targetsValid c b then act b else notFound ''Admin: action target is no longer available'' b)"

definition handleAdminPrompt :: "string \<Rightarrow> barnard \<Rightarrow> (barnard \<times> bool) option" where
  "handleAdminPrompt s b =
    (case ba_pendingAdminPrompt b of
       None \<Rightarrow> Some (b, False)
     | Some p \<Rightarrow> do {
         b \<leftarrow> withValidAdminTargets (runPrompt p (TrimSpace s)) (b\<lparr>ba_pendingAdminPrompt := None\<rparr>);
         b \<leftarrow> (if connected b then restoreStatus b else Some b);
         Some (b, True)
       })"

section \<open>Closing\<close>

definition CloseAdminMenu :: "barnard \<Rightarrow> barnard" where
  "CloseAdminMenu b = b\<lparr>ba_active := uiViewTree, ba_activeItem := ba_adminReturnItem b, ba_adminReturnItem := None\<rparr>"

definition OnAdminEscape :: "barnard \<Rightarrow> barnard option" where
  "OnAdminEscape b =
    (if ba_pendingAdminPrompt b \<noteq> None then
       restoreStatus (AddOutputLine ''Admin: prompt canceled'' (b\<lparr>ba_pendingAdminPrompt := None, ba_inputText := []\<rparr>))
     else if ba_active b = uiViewAdmin then notFound ''Admin: closed'' (CloseAdminMenu b)
     else Some b)"

section \<open>Choosing an item\<close>

definition showOutputAfterInfoRequest :: "barnard \<Rightarrow> barnard" where
  "showOutputAfterInfoRequest b = SetActive uiViewInput b"

fun runAction :: "adminAction \<Rightarrow> barnard \<Rightarrow> barnard option" where
  "runAction (ActRequestStats u) b =
    map_option showOutputAfterInfoRequest (onUser u RequestStats ''Actions: requested stats for '' b)"
| "runAction (ActRequestComment u) b =
    map_option showOutputAfterInfoRequest (onUser u RequestComment ''Actions: requested comment for '' b)"
| "runAction (ActMoveSelf ch) b = do {
     self \<leftarrow> selfUser b;
     onChan ch (\<lambda>channel. Move channel self) ''Actions: moving to '' b
   }"
| "runAction (ActRequestDescription ch) b =
    map_option showOutputAfterInfoRequest (onChan ch RequestDescription ''Actions: requested description for '' b)"
| "runAction (ActRequestPermission ch) b =
    map_option showOutputAfterInfoRequest (onChan ch RequestPermission ''Actions: requested permissions for '' b)"
| "runAction (ActPrompt label p) b = Some (promptAdmin label p b)"
| "runAction (ActToggle word u) b =
    onUser u (\<lambda>user. snd (toggleOf word) (\<not> fst (toggleOf word) user) user)
      (if word = ''mute'' then ''Admin: server mute toggled for ''
       else if word = ''deafen'' then ''Admin: server deafen toggled for ''
       else if word = ''suppress'' then ''Admin: suppress toggled for ''
       else ''Admin: priority speaker toggled for '') b"
| "runAction (ActMoveHere u) b = do {
     user \<leftarrow> userOf b u;
     ch \<leftarrow> selfChannel b;
     channel \<leftarrow> channelOf b ch;
     sendLine (Move channel user) (''Admin: move sent for '' @ u_Name user @ '' to '' @ ch_Name channel) b
   }"
| "runAction (ActRegister u) b = onUser u Register ''Admin: register sent for '' b"
| "runAction (ActDeleteChannel ch) b = do {
     channel \<leftarrow> channelOf b ch;
     if IsRoot channel then notFound ''Admin: cannot delete the root channel'' b
     else Some (promptAdmin (''Type delete to remove channel '' @ ch_Name channel) (PromptDelete ch) b)
   }"
| "runAction (ActUnlinkAll ch) b = do {
     c \<leftarrow> ba_Client b;
     onChan ch (\<lambda>_. ChannelUnlink [] ch c) ''Admin: unlink all sent for '' b
   }"
| "runAction ActRequestBanList b = sendLine (Some RequestBanList) ''Admin: requested ban list'' b"
| "runAction (ActUnban i) b = Some (unbanIndex (int i) b)"
| "runAction ActRequestUserList b = sendLine (Some RequestUserList) ''Admin: requested registered user list'' b"
| "runAction (ActRequestACL ch) b = onChan ch RequestACL ''Admin: requested ACLs for '' b"
| "runAction (ActToggleGrant p) b = toggleACLUserGrant (ba_adminTargetUser b) p b"
| "runAction ActToggleInherit b = do {
     a \<leftarrow> ba_adminACL b;
     channel \<leftarrow> channelOf b (acl_Channel a);
     b \<leftarrow> sendACL (b\<lparr>ba_adminACL := Some (a\<lparr>acl_Inherits := \<not> acl_Inherits a\<rparr>)\<rparr>);
     Some (AddOutputLine (''Admin: ACL inheritance toggled for '' @ ch_Name channel) b)
   }"
| "runAction (ActTrigger a) b = triggered a (Trigger a) b"
| "runAction (ActTriggerUser a) b = do {
     u \<leftarrow> ba_adminTargetUser b;
     user \<leftarrow> userOf b u;
     triggered a (TriggerUser user a) b
   }"
| "runAction (ActTriggerChannel a) b = do {
     ch \<leftarrow> ba_adminTargetChan b;
     channel \<leftarrow> channelOf b ch;
     triggered a (TriggerChannel channel a) b
   }"
| "runAction ActClose b = OnAdminEscape b"

definition chooseItem :: "adminItem \<Rightarrow> barnard \<Rightarrow> barnard option" where
  "chooseItem item b = (case itemAction item of None \<Rightarrow> Some b | Some a \<Rightarrow> withValidAdminTargets (runAction a) b)"

definition isAdminEscapeKey :: "keyCode \<Rightarrow> bool" where
  "isAdminEscapeKey k \<longleftrightarrow> k \<in> {KeyEsc, KeyAltEsc, KeyAltArrowUp, KeyAltArrowDown}"

definition AdminItemKeyPress :: "adminItem \<Rightarrow> keyCode \<Rightarrow> barnard \<Rightarrow> barnard option" where
  "AdminItemKeyPress item k b =
    (if isAdminEscapeKey k then OnAdminEscape b
     else if k \<noteq> KeyEnter then Some b
     else chooseItem item b)"

end
