(* ===== verification/AdminFacts.thy ===== *)
theory AdminFacts
  imports AdminMenu
begin

text \<open>
  What the administration commands and the actions menu guarantee, and where they do not.
\<close>

section \<open>Commands do not panic\<close>

text \<open>Whatever is registered belongs to the connection.\<close>

definition wired :: "client \<Rightarrow> bool" where
  "wired c \<longleftrightarrow> (\<forall>u \<in> snd ` set (c_Users c). u_client (c_user c u)) \<and> (\<forall>ch \<in> snd ` set (c_Channels c). ch_client (c_channel c ch))"

lemma wired_user: "wired c \<Longrightarrow> (k, u) \<in> set (c_Users c) \<Longrightarrow> u_client (c_user c u)"
  unfolding wired_def by force

lemma wired_channel: "wired c \<Longrightarrow> (k, ch) \<in> set (c_Channels c) \<Longrightarrow> ch_client (c_channel c ch)"
  unfolding wired_def by force

lemma find_Some: "find P xs = Some x \<Longrightarrow> x \<in> set xs"
  by (induction xs) (auto split: if_splits)

lemma findUser_in: "ba_Client b = Some c \<Longrightarrow> findUser token b = Some u \<Longrightarrow> u \<in> snd ` set (c_Users c)"
  unfolding findUser_def
  by (cases "Option.bind (ParseUint 32 token) (\<lambda>n. map_of (c_Users c) (of_nat n))")
    (auto simp: bind_eq_Some_conv dest: find_Some map_of_SomeD intro: rev_image_eqI)

lemma findChannel_in: "ba_Client b = Some c \<Longrightarrow> findChannel token b = Some ch \<Longrightarrow> ch \<in> snd ` set (c_Channels c)"
  unfolding findChannel_def Let_def
  by (cases "Option.bind (ParseUint 32 (TrimSpace token)) (\<lambda>n. map_of (c_Channels c) (of_nat n))")
    (auto simp: bind_eq_Some_conv dest: find_Some map_of_SomeD intro: rev_image_eqI)

lemma findUser_wired: "ba_Client b = Some c \<Longrightarrow> wired c \<Longrightarrow> findUser token b = Some u \<Longrightarrow> u_client (c_user c u)"
  using findUser_in [of b c token u] by (auto simp: wired_def)

lemma findChannel_wired: "ba_Client b = Some c \<Longrightarrow> wired c \<Longrightarrow> findChannel token b = Some ch \<Longrightarrow> ch_client (c_channel c ch)"
  using findChannel_in [of b c token ch] by (auto simp: wired_def)

lemma users_client [simp]:
  "userOf b u = None \<longleftrightarrow> ba_Client b = None" "channelOf b ch = None \<longleftrightarrow> ba_Client b = None"
  by (simp_all add: userOf_def channelOf_def)

lemmas user_requests = SetTexture_def SetPrioritySpeaker_def SetRecording_def Register_def SetComment_def Move_def Kick_def
  Ban_def SetMuted_def SetSuppressed_def SetDeafened_def RequestStats_def RequestComment_def userStateFor_def userRequest_def

lemmas channel_requests = ChannelAdd_def ChannelRemove_def SetName_def SetDescription_def SetMaxUsers_def RequestDescription_def
  RequestACL_def RequestPermission_def ChannelUnlink_def channelStateFor_def channelRequest_def

lemma requests_None [simp]:
  "Kick s u = None \<longleftrightarrow> \<not> u_client u" "Ban s u = None \<longleftrightarrow> \<not> u_client u" "Move channel u = None \<longleftrightarrow> \<not> u_client u"
  "Register u = None \<longleftrightarrow> \<not> u_client u" "RequestStats u = None \<longleftrightarrow> \<not> u_client u" "RequestComment u = None \<longleftrightarrow> \<not> u_client u"
  "snd (toggleOf word) v u = None \<longleftrightarrow> \<not> u_client u"
  "ChannelAdd s t ch = None \<longleftrightarrow> \<not> ch_client ch" "ChannelRemove ch = None \<longleftrightarrow> \<not> ch_client ch" "SetName s ch = None \<longleftrightarrow> \<not> ch_client ch"
  "SetDescription s ch = None \<longleftrightarrow> \<not> ch_client ch" "SetMaxUsers n ch = None \<longleftrightarrow> \<not> ch_client ch"
  "RequestDescription ch = None \<longleftrightarrow> \<not> ch_client ch" "RequestACL ch = None \<longleftrightarrow> \<not> ch_client ch" "RequestPermission ch = None \<longleftrightarrow> \<not> ch_client ch"
  "ChannelUnlink chs r c = None \<longleftrightarrow> \<not> ch_client (c_channel c r)"
  by (simp_all add: user_requests channel_requests toggleOf_def)

lemma userOf_c: "ba_Client b = Some c \<Longrightarrow> userOf b u = Some (c_user c u)" "ba_Client b = Some c \<Longrightarrow> channelOf b ch = Some (c_channel c ch)"
  by (simp_all add: userOf_def channelOf_def)

lemma editACL_None: "ba_Client b = Some c \<Longrightarrow> editACL s f b = None \<longleftrightarrow> ba_adminACL b = None"
  by (cases "ba_adminACL b") (simp_all add: editACL_def sendACL_def)

text \<open>A computation returns; the rules take its branches apart without looking at their conditions.\<close>

definition returns :: "'a option \<Rightarrow> bool" where
  "returns x = (x \<noteq> None)"

named_theorems returns_rules "introduction rules for returning"

lemma returns_split [returns_rules]:
  "\<lbrakk>returns x; returns y\<rbrakk> \<Longrightarrow> returns (if P then x else y)"
  "\<lbrakk>xs = [] \<Longrightarrow> returns x; \<And>v vs. xs = v # vs \<Longrightarrow> returns (f v vs)\<rbrakk> \<Longrightarrow> returns (case xs of [] \<Rightarrow> x | v # vs \<Rightarrow> f v vs)"
  "\<lbrakk>m = None \<Longrightarrow> returns x; \<And>v. m = Some v \<Longrightarrow> returns (g v)\<rbrakk> \<Longrightarrow> returns (case m of None \<Rightarrow> x | Some v \<Rightarrow> g v)"
  "\<lbrakk>\<And>e. s = Inl e \<Longrightarrow> returns (h e); \<And>v. s = Inr v \<Longrightarrow> returns (k v)\<rbrakk> \<Longrightarrow> returns (case s of Inl e \<Rightarrow> h e | Inr v \<Rightarrow> k v)"
  subgoal by simp
  subgoal by (cases xs) simp_all
  subgoal by (cases m) simp_all
  subgoal by (cases s) simp_all
  done

lemma returns_Some [simp]: "returns (Some x)" "returns (notFound s b)" "returns (triggered a req b)" "\<not> returns None"
  by (simp_all add: returns_def notFound_def triggered_def)

lemma returns_send [simp]:
  "returns (send req b) = returns req" "returns (sendLine req s b) = returns req" "returns (map_option f m) = returns m"
  by (simp_all add: returns_def)

lemma returns_requests [simp]:
  "returns (Kick s u) = u_client u" "returns (Ban s u) = u_client u" "returns (Move channel u) = u_client u"
  "returns (Register u) = u_client u" "returns (RequestStats u) = u_client u" "returns (RequestComment u) = u_client u"
  "returns (snd (toggleOf word) v u) = u_client u"
  "returns (ChannelAdd s t ch) = ch_client ch" "returns (ChannelRemove ch) = ch_client ch" "returns (SetName s ch) = ch_client ch"
  "returns (SetDescription s ch) = ch_client ch" "returns (SetMaxUsers n ch) = ch_client ch"
  "returns (RequestDescription ch) = ch_client ch" "returns (RequestACL ch) = ch_client ch" "returns (RequestPermission ch) = ch_client ch"
  "returns (ChannelUnlink chs r c) = ch_client (c_channel c r)"
  by (simp_all add: returns_def user_requests channel_requests toggleOf_def)

lemma onChannel_returns:
  assumes "ba_Client b = Some c"
  shows "returns (onChannel missing f ch b) \<longleftrightarrow> (\<forall>r. ch = Some r \<longrightarrow> returns (f (c_channel c r) b))"
  by (cases ch) (simp_all add: onChannel_def userOf_c [OF assms])

lemma returns_onChannel:
  "\<lbrakk>ba_Client b = Some c; \<And>r. ch = Some r \<Longrightarrow> returns (f (c_channel c r) b)\<rbrakk> \<Longrightarrow> returns (onChannel missing f ch b)"
  by (simp add: onChannel_returns)

lemma reason_ok:
  assumes "ba_Client b = Some c" and "wired c" and "\<And>s u. returns (act s u) = u_client u"
  shows "returns (adminCommandUserAndReason act done args b)"
  unfolding adminCommandUserAndReason_def
  by (intro returns_rules) (simp_all add: userOf_c [OF assms(1)] assms(3) findUser_wired [OF assms(1,2)])

lemma toggle_ok:
  assumes "ba_Client b = Some c" and "wired c"
  shows "returns (executeUserToggle word args b)"
  unfolding executeUserToggle_def userOf_c [OF assms(1)] Option.bind.simps
  by (intro returns_rules) (simp_all add: findUser_wired [OF assms])

lemma move_ok:
  assumes "ba_Client b = Some c" and "wired c"
  shows "returns (executeMoveCommand args b)"
  unfolding executeMoveCommand_def userOf_c [OF assms(1)] Option.bind.simps
  by (intro returns_rules) (simp_all add: findUser_wired [OF assms])

lemma channel_ok:
  assumes "ba_Client b = Some c" and "wired c"
  shows "returns (executeChannelCommand args b)"
  unfolding executeChannelCommand_def Let_def
  by (intro returns_rules returns_onChannel [OF assms(1)]) (simp_all add: findChannel_wired [OF assms])

lemma context_ok:
  assumes "ba_Client b = Some c" and "wired c"
  shows "returns (executeContextCommand args b)"
  unfolding executeContextCommand_def contextScope_def Let_def assms(1) Option.bind.simps userOf_c [OF assms(1)]
  by (intro returns_rules returns_onChannel [OF assms(1)]) simp_all

lemma editACL_ok: "ba_Client b = Some c \<Longrightarrow> ba_adminACL b \<noteq> None \<Longrightarrow> returns (editACL s f b)"
  by (simp add: returns_def editACL_None)

lemma editACLCommand_ok: "ba_Client b = Some c \<Longrightarrow> ba_adminACL b \<noteq> None \<Longrightarrow> returns (editACLCommand verb rest b)"
  unfolding editACLCommand_def by (intro returns_rules) (simp_all add: editACL_ok)

lemma acl_exact:
  assumes "ba_Client b = Some c" and "wired c"
  shows "returns (executeACLCommand args b) \<longleftrightarrow>
    \<not> ((args = [] \<or> args = [''request'']) \<and> (\<exists>r. ba_adminTargetChan b = Some r \<and> \<not> ch_client (c_channel c r)))"
proof (cases args)
  case (Cons verb rest)
  have req: "returns (requestACL ch b) \<longleftrightarrow> (\<forall>r. ch = Some r \<longrightarrow> ch_client (c_channel c r))" for ch
    by (simp add: requestACL_def onChannel_returns [OF assms(1)])
  show ?thesis
  proof (cases "verb = ''request''")
    case True
    then show ?thesis using findChannel_wired [OF assms, of "Join '' '' rest"] by (auto simp: Cons executeACLCommand_def req)
  next
    case False
    then show ?thesis using editACLCommand_ok [OF assms(1), of verb rest] by (simp add: Cons executeACLCommand_def)
  qed
qed (simp add: executeACLCommand_def requestACL_def onChannel_returns [OF assms(1)])

text \<open>The channel that a request would go to has been removed.\<close>

definition removedTarget :: "client \<Rightarrow> barnard \<Rightarrow> bool" where
  "removedTarget c b \<longleftrightarrow> (\<exists>r. ba_adminTargetChan b = Some r \<and> \<not> ch_client (c_channel c r))"

definition commandFails :: "client \<Rightarrow> string \<Rightarrow> barnard \<Rightarrow> bool" where
  "commandFails c cmd b \<longleftrightarrow> connected b \<and>
    (case Fields cmd of
       [] \<Rightarrow> removedTarget c (menuTargets b c)
     | word # args \<Rightarrow> word = ''menu'' \<and> removedTarget c (menuTargets b c)
         \<or> word = ''acl'' \<and> (args = [] \<or> args = [''request'']) \<and> removedTarget c b)"

lemma menu_exact:
  assumes "ba_Client b = Some c" and "wired c"
  shows "returns (OpenAdminMenu b) \<longleftrightarrow> \<not> (connected b \<and> removedTarget c (menuTargets b c))"
proof -
  have root: "map_of (c_Channels c) 0 = Some r \<Longrightarrow> ch_client (c_channel c r)" for r
    using wired_channel [OF assms(2)] by (blast dest: map_of_SomeD)
  have ch: "returns (sendPermission c ch b') \<longleftrightarrow> (\<forall>r. ch = Some r \<longrightarrow> ch_client (c_channel c r))" for ch b'
    by (cases ch) (simp_all add: sendPermission_def)
  let ?m = "menuTargets b c"
  have "returns (do { b \<leftarrow> sendPermission c (ba_adminTargetChan ?m) ?m;
      b \<leftarrow> (if map_of (c_Channels c) 0 = ba_adminTargetChan b then Some b else sendPermission c (map_of (c_Channels c) 0) b);
      Some (AddOutputLine (menuOpened b c) (SetActive uiViewAdmin b)) }) \<longleftrightarrow> \<not> removedTarget c ?m"
  proof (cases "sendPermission c (ba_adminTargetChan ?m) ?m")
    case None
    then have "removedTarget c ?m" using ch [of "ba_adminTargetChan ?m" ?m] by (auto simp: returns_def removedTarget_def)
    then show ?thesis by (simp add: None)
  next
    case (Some b1)
    then have stay: "\<not> removedTarget c ?m" using ch [of "ba_adminTargetChan ?m" ?m] by (auto simp: returns_def removedTarget_def)
    obtain b2 where "sendPermission c (map_of (c_Channels c) 0) b1 = Some b2"
      using ch [of "map_of (c_Channels c) 0" b1] root by (auto simp: returns_def)
    then show ?thesis using stay by (simp add: Some)
  qed
  then show ?thesis by (simp add: OpenAdminMenu_def assms(1) Let_def)
qed

lemma returns_if: "(P \<Longrightarrow> returns x) \<Longrightarrow> (\<not> P \<Longrightarrow> returns y) \<Longrightarrow> returns (if P then x else y)"
  by simp

lemma command_exact:
  assumes "ba_Client b = Some c" and "wired c"
  shows "returns (executeAdminCommand cmd b) \<longleftrightarrow> \<not> commandFails c cmd b"
proof (cases "Fields cmd")
  case Nil
  then show ?thesis by (simp add: executeAdminCommand_def commandFails_def menu_exact [OF assms])
next
  case (Cons word args)
  consider "word = ''menu''" | "word \<noteq> ''menu''" "\<not> connected b" | "word = ''acl''" "connected b"
    | "word \<noteq> ''menu''" "word \<noteq> ''acl''" "connected b" by blast
  then show ?thesis
  proof cases
    case 1
    then show ?thesis by (simp add: executeAdminCommand_def commandFails_def menu_exact [OF assms] Cons)
  next
    case 2
    then show ?thesis by (simp add: executeAdminCommand_def commandFails_def Cons)
  next
    case 3
    then show ?thesis
      by (simp add: executeAdminCommand_def commandFails_def acl_exact [OF assms] removedTarget_def Cons)
  next
    case 4
    have "returns (executeAdminCommand cmd b)"
      unfolding executeAdminCommand_def Cons list.case
      by (intro returns_if returns_split(2,3) reason_ok [OF assms] toggle_ok [OF assms] move_ok [OF assms] channel_ok [OF assms]
            context_ok [OF assms])
        (use 4 in \<open>simp_all add: executeRenameRegisteredUser_def executeDeregisterRegisteredUser_def split: list.splits option.splits\<close>)
    then show ?thesis using 4 by (simp add: commandFails_def Cons)
  qed
qed


text \<open>One channel, one user (ourselves), connected.\<close>

definition demoClient :: client where
  "demoClient = (newClient NewConfig)\<lparr>c_Self := Some 0, c_Users := [(4, 0)], c_Channels := [(0, 0)],
     c_user := (\<lambda>_. (newUser 4)\<lparr>u_client := True, u_Name := ''ann'', u_Channel := Some 0\<rparr>),
     c_channel := (\<lambda>_. (newChannel 0)\<lparr>ch_client := True, ch_Name := ''Root''\<rparr>)\<rparr>"

definition demoBarnard :: barnard where
  "demoBarnard = newBarnard\<lparr>ba_Client := Some demoClient\<rparr>"

lemma demo_simps [simp]:
  "ba_Client demoBarnard = Some demoClient" "wired demoClient" "connected demoBarnard"
  by (simp_all add: demoBarnard_def newBarnard_def demoClient_def wired_def connected_def selfUser_def)


end
