(* ===== verification/AdminEdits.thy ===== *)
theory AdminEdits
  imports AdminFacts
begin

text \<open>
  The lists an administrator edits and sends back: access control rules, bans and registered users.
\<close>

section \<open>Access control rules\<close>

lemma rule_bits:
  fixes g p :: permission
  shows "(g XOR p) AND p = NOT g AND p" "(g AND NOT p) AND p = 0" "(g XOR p) AND NOT p = g AND NOT p" "(g AND NOT p) AND NOT p = g AND NOT p"
  by (auto simp: bit_eq_iff bit_simps)

text \<open>The rule of a subject: the first that matches, or the one that would be added.\<close>

definition ruleFor :: "aclSubjectOf \<Rightarrow> aclRule list \<Rightarrow> aclRule" where
  "ruleFor s rs = (case find (ruleIs s) rs of Some r \<Rightarrow> r | None \<Rightarrow> newRule s)"

definition keepsSubject :: "(aclRule \<Rightarrow> aclRule) \<Rightarrow> bool" where
  "keepsSubject f \<longleftrightarrow> (\<forall>r. ar_User (f r) = ar_User r \<and> ar_Group (f r) = ar_Group r)"

lemma keepsSubject_edits [simp]: "keepsSubject (grantRule p)" "keepsSubject (denyRule p)"
  by (simp_all add: keepsSubject_def grantRule_def denyRule_def)

lemma ruleIs_edit [simp]: "keepsSubject f \<Longrightarrow> ruleIs s (f r) = ruleIs s r"
  by (simp add: keepsSubject_def ruleIs_def split: aclSubjectOf.splits)

lemma ruleIs_new [simp]: "ruleIs s (newRule s)"
  by (simp add: ruleIs_def newRule_def newACLUser_def split: aclSubjectOf.splits)

lemma ruleFor_edit: "keepsSubject f \<Longrightarrow> ruleFor s (editRule s f rs) = f (ruleFor s rs)"
  by (induction rs) (simp_all add: ruleFor_def)

lemma editRule_others: "keepsSubject f \<Longrightarrow> filter (\<lambda>r. \<not> ruleIs s r) (editRule s f rs) = filter (\<lambda>r. \<not> ruleIs s r) rs"
  by (induction rs) simp_all

definition flipped :: "permission \<Rightarrow> permission \<Rightarrow> permission \<Rightarrow> bool" where
  "flipped p old new \<longleftrightarrow> new AND p = NOT old AND p \<and> new AND NOT p = old AND NOT p"

definition cleared :: "permission \<Rightarrow> permission \<Rightarrow> permission \<Rightarrow> bool" where
  "cleared p old new \<longleftrightarrow> new AND p = 0 \<and> new AND NOT p = old AND NOT p"

lemma edit_bits:
  "flipped p (ar_Granted r) (ar_Granted (grantRule p r)) \<and> cleared p (ar_Denied r) (ar_Denied (grantRule p r))"
  "flipped p (ar_Denied r) (ar_Denied (denyRule p r)) \<and> cleared p (ar_Granted r) (ar_Granted (denyRule p r))"
  by (simp_all add: flipped_def cleared_def grantRule_def denyRule_def rule_bits)

text \<open>C15. An \<^verbatim>\<open>acl\<close> command on a loaded list sends the edited list, in which the rules of all other
  subjects are as they were, the named permission is flipped on its side and cleared on the other, and no
  other permission of the subject has changed.  So granting what is granted already revokes it.\<close>

theorem acl_edit:
  assumes "ba_Client b = Some c" and "ba_adminACL b = Some a" and "parsePermission name = Some p"
    and "parseSubject ty (Join '' '' (subject # subjects)) = Inr s" and "verb \<in> {''grant'', ''deny''}"
  shows "\<exists>b' rs. executeACLCommand (verb # name # ty # subject # subjects) b = Some b'
    \<and> ba_adminACL b' = Some (a\<lparr>acl_Rules := rs\<rparr>) \<and> ba_sent b' = ba_sent b @ [writeACL (a\<lparr>acl_Rules := rs\<rparr>) c]
    \<and> filter (\<lambda>r. \<not> ruleIs s r) rs = filter (\<lambda>r. \<not> ruleIs s r) (acl_Rules a)
    \<and> (let r = ruleFor s (acl_Rules a); r' = ruleFor s rs in
       if verb = ''grant'' then flipped p (ar_Granted r) (ar_Granted r') \<and> cleared p (ar_Denied r) (ar_Denied r')
       else flipped p (ar_Denied r) (ar_Denied r') \<and> cleared p (ar_Granted r) (ar_Granted r'))"
proof -
  let ?f = "if verb = ''grant'' then grantRule p else denyRule p"
  let ?rs = "editRule s ?f (acl_Rules a)"
  have k: "keepsSubject ?f" by simp
  have v: "verb \<noteq> ''request''" "verb = ''grant'' \<or> verb = ''deny''" using assms(5) by auto
  have "executeACLCommand (verb # name # ty # subject # subjects) b
      = map_option (AddOutputLine ''Admin: ACL update sent'') (editACL s ?f b)"
    using v by (auto simp: executeACLCommand_def editACLCommand_def assms(2-4))
  moreover have "editACL s ?f b = Some (b\<lparr>ba_adminACL := Some (a\<lparr>acl_Rules := ?rs\<rparr>),
      ba_sent := ba_sent b @ [writeACL (a\<lparr>acl_Rules := ?rs\<rparr>) c]\<rparr>)"
    by (simp add: editACL_def sendACL_def assms(1,2))
  ultimately show ?thesis
    using ruleFor_edit [OF k, of s "acl_Rules a"] editRule_others [OF k, of s "acl_Rules a"] edit_bits
    by (intro exI conjI) (assumption | simp add: Let_def)+
qed

definition demoACL :: acl where
  "demoACL = \<lparr>acl_Channel = 0, acl_Groups = [], acl_Rules = [], acl_Inherits = True\<rparr>"

theorem acl_edit_witness:
  "\<exists>b' rs. executeACLCommand [''grant'', ''speak'', ''user'', ''5''] (demoBarnard\<lparr>ba_adminACL := Some demoACL\<rparr>) = Some b'
    \<and> ba_adminACL b' = Some (demoACL\<lparr>acl_Rules := rs\<rparr>)"
  using acl_edit [of "demoBarnard\<lparr>ba_adminACL := Some demoACL\<rparr>" demoClient demoACL "''speak''" PermissionSpeak "''user''" "''5''" "[]"
      "SubjectUser 5" "''grant''"]
  by (simp add: parsePermission_def commonAdminPermissions_def parseSubject_def ParseUint_def isDigit_def valueOf_def digitValue_def)
    blast

section \<open>Bans\<close>

lemma sint_of_small: "0 \<le> x \<Longrightarrow> x < 2 ^ 63 \<Longrightarrow> sint (word_of_int x :: int64) = x"
  by (simp add: signed_of_int signed_take_bit_int_eq_self)

definition nanoseconds :: "nat \<Rightarrow> int64" where
  "nanoseconds minutes = word_of_int (int minutes * Minute)"

lemma minutes_ok:
  assumes "int m \<le> (2 ^ 63 - 1) div Minute"
  shows "manualBanDuration (digits m) = Inr (nanoseconds m)" "notNegative (nanoseconds m) = nanoseconds m"
    "ucast (quot64 (nanoseconds m) 1000000000) = (of_nat (60 * m) :: uint32)"
proof -
  have small: "int m * Minute < 2 ^ 63" using assms by simp
  have "int m < 2 ^ (64 - 1)" using assms by simp
  from ParseInt_digits [OF this] show "manualBanDuration (digits m) = Inr (nanoseconds m)"
    using assms by (simp add: manualBanDuration_def nanoseconds_def wi_hom_mult)
  have s: "sint (nanoseconds m) = int m * Minute"
    unfolding nanoseconds_def by (rule sint_of_small) (use small in simp_all)
  then show "notNegative (nanoseconds m) = nanoseconds m" by (simp add: notNegative_def word_sless_alt)
  have b: "sint (1000000000 :: int64) = 1000000000" by code_simp
  have "quot64 (nanoseconds m) 1000000000 = word_of_int (int m * 60)"
    unfolding quot64_def s b by (simp add: goQuot_nonneg)
  moreover have "ucast (word_of_int (int m * 60) :: int64) = (word_of_int (int m * 60) :: uint32)"
  proof -
    have "take_bit 64 (int m * 60) = int m * 60" by (rule take_bit_int_eq_self) (use small in simp_all)
    then have "uint (word_of_int (int m * 60) :: int64) = int m * 60" by (simp only: unsigned_of_int) simp
    then show ?thesis by (simp only: ucast_eq)
  qed
  ultimately show "ucast (quot64 (nanoseconds m) 1000000000) = (of_nat (60 * m) :: uint32)"
    by (simp add: ac_simps)
qed

lemma mask4_size: "n \<le> 32 \<Longrightarrow> maskSize (CIDRMask (int n) 32) = n"
  using maskLength_mask [of n 4] by (simp add: CIDRMask_bytes maskSize_def)

text \<open>The entry a manual ban of an IPv4 network puts at the end of the list it sends.\<close>

definition manualEntry :: "bytes \<Rightarrow> nat \<Rightarrow> nat \<Rightarrow> string \<Rightarrow> banEntryMsg" where
  "manualEntry v n minutes reason = \<lparr>m_be_Address = mapped v, m_be_Mask = Some (of_nat n), m_be_Name = None, m_be_Hash = None,
     m_be_Reason = Some reason, m_be_Start = None, m_be_Duration = Some (of_nat (60 * minutes))\<rparr>"

lemma manual_ban_entry:
  assumes "Fields s = (dotted [x, y, z, w] @ CHR ''/'' # digits n) # digits m # reason # reasons" and "n \<le> 32"
    and "int m \<le> (2 ^ 63 - 1) div Minute"
  shows "ba_sent (addManualBan s b) = ba_sent b @ [SendBanList
      (map banEntryOf (filter (\<lambda>e. \<not> b_unban e) (ba_adminBanList b)) @ [manualEntry [x, y, z, w] n m (Join '' '' (reason # reasons))]) False]"
proof -
  have "addManualBan s b = AddOutputLine ''Admin: manual ban sent'' (sendBans (b\<lparr>ba_adminBanList :=
      BanListAdd (mapped [x, y, z, w]) (CIDRMask (int n) 32) (Join '' '' (reason # reasons)) (nanoseconds m) (ba_adminBanList b)\<rparr>))"
    unfolding addManualBan_def assms(1) list.case ParseCIDR_dotted [OF assms(2)] option.case prod.case minutes_ok(1) [OF assms(3)] sum.case ..
  then show ?thesis
    unfolding manualEntry_def minutes_ok(3) [OF assms(3), symmetric]
    by (simp add: sendBans_def writeBanList_def BanListAdd_def banEntryOf_def minutes_ok(2) [OF assms(3)] mask4_size [OF assms(2)])
qed

text \<open>An address is covered by a ban when it agrees with the ban's address under the mask.\<close>

definition masked :: "bytes \<Rightarrow> bytes \<Rightarrow> bytes" where
  "masked ipmask ip = map2 (\<lambda>m v. m AND v) ipmask ip"

definition banCovers :: "ban \<Rightarrow> bytes \<Rightarrow> bool" where
  "banCovers b ip = (case b_Mask b of None \<Rightarrow> False | Some m \<Rightarrow> length ip = length m \<and> masked m ip = masked m (b_Address b))"

lemma short_mask_zero:
  assumes "n \<le> 32" and "length v = 4"
  shows "masked (map (\<lambda>i. maskByte (n - 8 * i)) [0..<16]) (mapped v) = replicate 16 0"
proof (rule nth_equalityI)
  fix i assume "i < length (masked (map (\<lambda>i. maskByte (n - 8 * i)) [0..<16]) (mapped v))"
  then have i: "i < 16" by (simp add: masked_def)
  have "maskByte (n - 8 * i) = 0 \<or> mapped v ! i = 0"
  proof (cases "i < 10")
    case True
    then show ?thesis by (simp add: mapped_def nth_append)
  next
    case False
    then have "n - 8 * i = 0" using assms(1) by linarith
    then show ?thesis by (simp only: maskByte_0 simp_thms)
  qed
  then show "masked (map (\<lambda>i. maskByte (n - 8 * i)) [0..<16]) (mapped v) ! i = replicate 16 0 ! i"
    using i assms(2) by (auto simp: masked_def mapped_def)
qed (simp add: masked_def mapped_def assms(2))

lemma manualEntry_covers:
  assumes "n \<le> 32" and "length v = 4" and "length ip = 4"
  shows "banCovers (banEntry E (manualEntry v n m reason)) (mapped ip)"
proof -
  have u: "uint (of_nat n :: uint32) = int n"
    using assms(1) by (simp add: uint_nat unat_of_nat take_bit_nat_eq_self)
  have "b_Mask (banEntry E (manualEntry v n m reason)) = Some (map (\<lambda>i. maskByte (n - 8 * i)) [0..<16])"
    using assms(1,2) CIDRMask_bytes [of "int n" 128] by (simp add: banEntry_def manualEntry_def mapped_def u)
  moreover have "b_Address (banEntry E (manualEntry v n m reason)) = mapped v" by (simp add: banEntry_def manualEntry_def)
  ultimately show ?thesis
    using short_mask_zero [OF assms(1,2)] short_mask_zero [OF assms(1,3)] by (simp add: banCovers_def) (simp add: mapped_def assms(3))
qed

text \<open>A manual ban of an IPv4 network, read back as \<^verbatim>\<open>handleBanList\<close> reads it, covers every IPv4
  address: the prefix length is of a 4-byte mask but goes out with the 16-byte address.  The list sent
  has only the entries loaded before, and the duration is cut to 32 bits.\<close>

theorem manual_ban_covers_all:
  assumes "Fields s = (dotted [x, y, z, w] @ CHR ''/'' # digits n) # digits m # reason # reasons" and "n \<le> 32"
    and "int m \<le> (2 ^ 63 - 1) div Minute"
  shows "\<exists>bans. ba_sent (addManualBan s b) = ba_sent b @ [SendBanList bans False]
    \<and> length bans = Suc (length (filter (\<lambda>e. \<not> b_unban e) (ba_adminBanList b)))
    \<and> (\<forall>p q r t. banCovers (banEntry E (last bans)) (mapped [p, q, r, t]))
    \<and> m_be_Duration (last bans) = Some (of_nat (60 * m))"
  unfolding manual_ban_entry [OF assms]
  by (intro exI conjI, rule refl) (simp_all add: manualEntry_covers assms(2), simp add: manualEntry_def)

theorem manual_ban_covers_all_witness:
  "\<exists>bans. ba_sent (addManualBan ''192.0.2.1/32 71582789 spam'' demoBarnard) = [SendBanList bans False]
    \<and> banCovers (banEntry nullEnv (last bans)) (mapped [8, 8, 8, 8]) \<and> m_be_Duration (last bans) = Some 44"
proof -
  have d: "digits 32 = ''32''" "digits 71582789 = ''71582789''" by (simp_all add: digits.simps digit_chars)
  have a: "dotted [192, 0, 2, 1] = ''192.0.2.1''" by (simp add: dotted_def digits.simps digit_chars)
  have f: "Fields ''192.0.2.1/32 71582789 spam'' = [''192.0.2.1/32'', ''71582789'', ''spam'']" by (simp add: Fields.simps isSpace_def)
  have wrap: "(4294967340 :: uint32) = 44" by simp
  have "ba_sent demoBarnard = []" by (simp add: demoBarnard_def newBarnard_def)
  then show ?thesis
    using manual_ban_covers_all [of "''192.0.2.1/32 71582789 spam''" 192 0 2 1 32 71582789 "''spam''" "[]" demoBarnard nullEnv]
    by (simp add: f d a wrap) blast
qed

section \<open>Registered users\<close>

text \<open>Renaming a registered user through a prompt that was opened before the list was requested again
  reports that the rename was sent, but sends nothing: the change is made to the old entry.\<close>

theorem rename_after_refresh_lost:
  assumes "r \<notin> set (ba_adminUserList b)" and "\<forall>x \<in> set (ba_adminUserList b). \<not> ru_changed (ba_registered b x) \<and> \<not> ru_deregister (ba_registered b x)"
    and "TrimSpace name \<noteq> []"
  shows "\<exists>b'. runPrompt (PromptRenameUser r) name b = Some b' \<and> ba_sent b' = ba_sent b
    \<and> ba_output b' = ba_output b @ [''Admin: rename registered user sent for '' @ Itoa (uint (ru_UserID (ba_registered b r)))]"
proof -
  have "map (ba_registered (updateRegistered r (RegisteredSetName (TrimSpace name)) b)) (ba_adminUserList b)
      = map (ba_registered b) (ba_adminUserList b)"
    using assms(1) by (simp add: updateRegistered_def)
  moreover have "filter (\<lambda>u. ru_deregister u \<or> ru_changed u) (map (ba_registered b) (ba_adminUserList b)) = []"
    using assms(2) by (simp add: filter_empty_conv)
  ultimately have "writeUserList (map (ba_registered (updateRegistered r (RegisteredSetName (TrimSpace name)) b)) (ba_adminUserList b)) = None"
    by (simp only: writeUserList_def list.case)
  then show ?thesis
    using assms(3) by (simp add: Let_def renameRegistered_def sendUsers_def) (simp add: updateRegistered_def RegisteredSetName_def)
qed

definition refreshed :: barnard where
  "refreshed = demoBarnard\<lparr>ba_registered := (\<lambda>r. \<lparr>ru_UserID = 7, ru_Name = ''bob'', ru_LastSeen = 0, ru_LastChannel = None,
     ru_changed = False, ru_deregister = False\<rparr>), ba_adminUserList := [1]\<rparr>"

theorem rename_after_refresh_lost_witness:
  "\<exists>b'. runPrompt (PromptRenameUser 0) ''rob'' refreshed = Some b' \<and> ba_sent b' = ba_sent refreshed"
  using rename_after_refresh_lost [of 0 refreshed "''rob''"]
  by (simp add: refreshed_def TrimSpace_def isSpace_def)

end
