(* ===== verification/AdminTargets.thy ===== *)
theory AdminTargets
  imports AdminEdits
begin

text \<open>
  What the actions menu offers: nothing the client knows it may not do, and nothing that panics while
  the targets it was built for are still registered.  A prompt is different: it keeps the objects it
  was opened for, while only the present targets of the menu are checked.
\<close>

section \<open>The actions of a menu\<close>

fun actionsOf :: "adminItem \<Rightarrow> adminAction list" where
  "actionsOf (AdminItem _ children act) = (case act of None \<Rightarrow> [] | Some a \<Rightarrow> [a]) @ concat (map actionsOf children)"

definition offers :: "(adminAction \<Rightarrow> bool) \<Rightarrow> adminItem list \<Rightarrow> bool" where
  "offers P items \<longleftrightarrow> (\<forall>i \<in> set items. \<forall>a \<in> set (actionsOf i). P a)"

lemma offers_simps [simp]:
  "offers P []" "offers P (x # xs) \<longleftrightarrow> offers P [x] \<and> offers P xs" "offers P (xs @ ys) \<longleftrightarrow> offers P xs \<and> offers P ys"
  "offers P [AdminItem s cs None] \<longleftrightarrow> offers P cs" "offers P [AdminItem s cs (Some a)] \<longleftrightarrow> P a \<and> offers P cs"
  by (auto simp: offers_def)

declare offers_simps(2) [simp del]

lemma offers_Cons [simp]: "offers P (AdminItem s cs None # xs) \<longleftrightarrow> offers P cs \<and> offers P xs"
  "offers P (AdminItem s cs (Some a) # xs) \<longleftrightarrow> P a \<and> offers P cs \<and> offers P xs"
  by (auto simp: offers_def)

lemma offers_guarded [simp]: "offers P (guarded g xs) \<longleftrightarrow> (g \<longrightarrow> offers P xs)" "offers P (submenu s xs) \<longleftrightarrow> offers P xs"
  by (auto simp: guarded_def submenu_def offers_def)

lemma offers_map: "(\<And>x. x \<in> set xs \<Longrightarrow> offers P [f x]) \<Longrightarrow> offers P (map f xs)"
  by (auto simp: offers_def)

section \<open>What an action needs\<close>

fun neededPrompt :: "barnard \<Rightarrow> client \<Rightarrow> adminPrompt \<Rightarrow> (chan_ref option \<times> permission)" where
  "neededPrompt b c (PromptKick u) = (map_of (c_Channels c) 0, PermissionKick)"
| "neededPrompt b c (PromptBan u) = (map_of (c_Channels c) 0, PermissionBan)"
| "neededPrompt b c (PromptAddChannel ch temporary) =
    (Some ch, if temporary then PermissionMakeTemporaryChannel else PermissionMakeChannel)"
| "neededPrompt b c (PromptRename ch) = (Some ch, PermissionWrite)"
| "neededPrompt b c (PromptDescribe ch) = (Some ch, PermissionWrite)"
| "neededPrompt b c (PromptMaxUsers ch) = (Some ch, PermissionWrite)"
| "neededPrompt b c (PromptDelete ch) = (Some ch, PermissionWrite)"
| "neededPrompt b c PromptManualBan = (map_of (c_Channels c) 0, PermissionBan)"
| "neededPrompt b c (PromptRenameUser r) = (map_of (c_Channels c) 0, PermissionRegister)"
| "neededPrompt b c (PromptDeregister r) = (map_of (c_Channels c) 0, PermissionRegister)"
| "neededPrompt b c PromptRawACL = (ba_adminTargetChan b, PermissionWrite)"

fun needed :: "barnard \<Rightarrow> client \<Rightarrow> adminAction \<Rightarrow> (chan_ref option \<times> permission) option" where
  "needed b c (ActPrompt s p) = Some (neededPrompt b c p)"
| "needed b c (ActToggle w u) = Some (u_Channel (c_user c u), PermissionMuteDeafen)"
| "needed b c (ActMoveHere u) = Some (selfChannel b, PermissionMove)"
| "needed b c (ActRegister u) = Some (map_of (c_Channels c) 0, PermissionRegister)"
| "needed b c (ActDeleteChannel ch) = Some (Some ch, PermissionWrite)"
| "needed b c (ActUnlinkAll ch) = Some (Some ch, PermissionLinkChannel)"
| "needed b c ActRequestBanList = Some (map_of (c_Channels c) 0, PermissionBan)"
| "needed b c (ActUnban i) = Some (map_of (c_Channels c) 0, PermissionBan)"
| "needed b c ActRequestUserList = Some (map_of (c_Channels c) 0, PermissionRegister)"
| "needed b c (ActRequestACL ch) = Some (Some ch, PermissionWrite)"
| "needed b c (ActToggleGrant p) = Some (ba_adminTargetChan b, PermissionWrite)"
| "needed b c ActToggleInherit = Some (ba_adminTargetChan b, PermissionWrite)"
| "needed b c _ = None"

definition knownDenied :: "client \<Rightarrow> chan_ref option \<times> permission \<Rightarrow> bool" where
  "knownDenied c d \<longleftrightarrow> (case d of (ch, p) \<Rightarrow>
     \<exists>r q. ch = Some r \<and> map_of (c_permissions c) (ch_ID (c_channel c r)) = Some q \<and> \<not> PermissionHas q p)"

definition permitted :: "barnard \<Rightarrow> client \<Rightarrow> adminAction \<Rightarrow> bool" where
  "permitted b c a \<longleftrightarrow> (case needed b c a of None \<Rightarrow> True | Some d \<Rightarrow> \<not> knownDenied c d)"

text \<open>What an action dereferences.\<close>

fun live :: "barnard \<Rightarrow> client \<Rightarrow> adminAction \<Rightarrow> bool" where
  "live b c (ActRequestStats u) = u_client (c_user c u)"
| "live b c (ActRequestComment u) = u_client (c_user c u)"
| "live b c (ActToggle w u) = u_client (c_user c u)"
| "live b c (ActMoveHere u) = u_client (c_user c u)"
| "live b c (ActRegister u) = u_client (c_user c u)"
| "live b c (ActRequestDescription ch) = ch_client (c_channel c ch)"
| "live b c (ActRequestPermission ch) = ch_client (c_channel c ch)"
| "live b c (ActUnlinkAll ch) = ch_client (c_channel c ch)"
| "live b c (ActRequestACL ch) = ch_client (c_channel c ch)"
| "live b c (ActToggleGrant p) = (ba_adminACL b \<noteq> None \<and> ba_adminTargetUser b \<noteq> None)"
| "live b c ActToggleInherit = (ba_adminACL b \<noteq> None)"
| "live b c (ActTriggerUser a) = (ba_adminTargetUser b \<noteq> None)"
| "live b c (ActTriggerChannel a) = (ba_adminTargetChan b \<noteq> None)"
| "live b c _ = True"

lemma can_permitted:
  assumes "adminCanChannel ch p c = Some True"
  shows "\<not> knownDenied c (ch, p)"
  using assms by (auto simp: adminCanChannel_def knownDenied_def ChannelPermission_def split: option.splits if_splits)

lemma canRoot_permitted: "ba_Client b = Some c \<Longrightarrow> adminCanRoot p b = Some True \<Longrightarrow> \<not> knownDenied c (map_of (c_Channels c) 0, p)"
  using can_permitted by (simp add: adminCanRoot_def)

lemma can_cases: "adminCanChannel ch p c = Some g \<Longrightarrow> g \<longrightarrow> \<not> knownDenied c (ch, p)"
  "ba_Client b = Some c \<Longrightarrow> adminCanRoot p b = Some g \<Longrightarrow> g \<longrightarrow> \<not> knownDenied c (map_of (c_Channels c) 0, p)"
  using can_permitted canRoot_permitted by (cases g; simp)+

definition offered :: "barnard \<Rightarrow> client \<Rightarrow> adminAction \<Rightarrow> bool" where
  "offered b c a \<longleftrightarrow> permitted b c a \<and> live b c a"

definition targetsLive :: "barnard \<Rightarrow> client \<Rightarrow> bool" where
  "targetsLive b c \<longleftrightarrow> (\<forall>u. ba_adminTargetUser b = Some u \<longrightarrow> u_client (c_user c u))
     \<and> (\<forall>ch. ba_adminTargetChan b = Some ch \<longrightarrow> ch_client (c_channel c ch))"

lemma targetsLiveI: "wired c \<Longrightarrow> targetsValid c b \<Longrightarrow> targetsLive b c"
  by (auto simp: targetsLive_def targetsValid_def intro: wired_user wired_channel dest!: map_of_SomeD)

lemmas offer_simps = offered_def permitted_def userOf_c

lemma information_offers:
  "ba_Client b = Some c \<Longrightarrow> targetsLive b c \<Longrightarrow> informationItems b = Some items \<Longrightarrow> offers (offered b c) items"
  by (auto simp: informationItems_def offer_simps targetsLive_def split: option.splits if_splits)

lemma user_offers:
  assumes "ba_Client b = Some c" and "targetsLive b c" and "adminUserItems b = Some items"
  shows "offers (offered b c) items"
proof (cases "ba_adminTargetUser b")
  case None
  then show ?thesis using assms(3) by (simp add: adminUserItems_def)
next
  case (Some u)
  obtain kick ban mute self move reg where g: "adminCanRoot PermissionKick b = Some kick" "adminCanRoot PermissionBan b = Some ban"
      "adminCanChannel (u_Channel (c_user c u)) PermissionMuteDeafen c = Some mute" "selfUser b = Some self"
      "adminCanChannel (u_Channel self) PermissionMove c = Some move" "adminCanRoot PermissionRegister b = Some reg"
    and i: "items = guarded kick [actionItem (''Kick '' @ u_Name (c_user c u)) (ActPrompt (''Kick reason for '' @ u_Name (c_user c u)) (PromptKick u))]
           @ guarded ban [actionItem (''Ban '' @ u_Name (c_user c u)) (ActPrompt (''Ban reason for '' @ u_Name (c_user c u)) (PromptBan u))]
           @ guarded mute
               [actionItem (''Server mute: '' @ onOff (u_Muted (c_user c u))) (ActToggle ''mute'' u),
                actionItem (''Server deafen: '' @ onOff (u_Deafened (c_user c u))) (ActToggle ''deafen'' u),
                actionItem (''Suppress in channel: '' @ onOff (u_Suppressed (c_user c u))) (ActToggle ''suppress'' u),
                actionItem (''Priority speaker: '' @ onOff (u_PrioritySpeaker (c_user c u))) (ActToggle ''priority'' u)]
           @ guarded move [actionItem ''Move user to current channel'' (ActMoveHere u)]
           @ guarded reg [actionItem ''Register user'' (ActRegister u)]"
    using assms(3) by (simp add: adminUserItems_def Some assms(1) userOf_c bind_eq_Some_conv) blast
  have self: "selfChannel b = u_Channel self" by (simp add: selfChannel_def g(4))
  have live: "u_client (c_user c u)" using assms(2) Some by (simp add: targetsLive_def)
  note can = can_cases(2) [OF assms(1) g(1)] can_cases(2) [OF assms(1) g(2)] can_cases(1) [OF g(3)]
    can_cases(1) [OF g(5)] can_cases(2) [OF assms(1) g(6)]
  show ?thesis unfolding i using can live by (simp add: offered_def permitted_def self)
qed

lemma channel_offers:
  assumes "ba_Client b = Some c" and "targetsLive b c" and "adminChannelItems b = Some items"
  shows "offers (offered b c) items"
proof (cases "ba_adminTargetChan b")
  case None
  then show ?thesis using assms(3) by (simp add: adminChannelItems_def)
next
  case (Some ch)
  have live: "ch_client (c_channel c ch)" using assms(2) Some by (simp add: targetsLive_def)
  show ?thesis
  proof (cases "ch_Links (c_channel c ch) = []")
    case True
    then show ?thesis
      using assms(3) live by (auto simp: adminChannelItems_def Some assms(1) userOf_c bind_eq_Some_conv offered_def permitted_def Let_def
          dest!: can_cases(1))
  next
    case False
    then show ?thesis
      using assms(3) live by (auto simp: adminChannelItems_def Some assms(1) userOf_c bind_eq_Some_conv offered_def permitted_def Let_def
          dest!: can_cases(1))
  qed
qed

lemma ban_offers:
  "ba_Client b = Some c \<Longrightarrow> adminBanItems b = Some items \<Longrightarrow> offers (offered b c) items"
  by (auto simp: adminBanItems_def bind_eq_Some_conv offered_def permitted_def banItem_def intro!: offers_map dest!: can_cases(2))

lemma registered_offers:
  "ba_Client b = Some c \<Longrightarrow> adminRegisteredUserItems b = Some items \<Longrightarrow> offers (offered b c) items"
  by (auto simp: adminRegisteredUserItems_def bind_eq_Some_conv offered_def permitted_def registeredItem_def Let_def
      intro!: offers_map dest!: can_cases(2))

lemma acl_offers:
  assumes "ba_Client b = Some c" and "targetsLive b c" and "adminACLItems b = Some items"
  shows "offers (offered b c) items"
proof (cases "ba_adminTargetChan b")
  case None
  then show ?thesis using assms(3) by (simp add: adminACLItems_def)
next
  case (Some ch)
  have live: "ch_client (c_channel c ch)" using assms(2) Some by (simp add: targetsLive_def)
  obtain may where w: "adminCanChannel (Some ch) PermissionWrite c = Some may"
    using assms(3) by (auto simp: adminACLItems_def Some assms(1) userOf_c bind_eq_Some_conv)
  have ok: "may \<longrightarrow> \<not> knownDenied c (Some ch, PermissionWrite)" by (rule can_cases(1) [OF w])
  have toggles: "offers (offered b c) ts" if "grantItems b = Some ts" "ba_adminACL b \<noteq> None" may for ts
    using that ok by (auto simp: grantItems_def offered_def permitted_def userOf_c [OF assms(1)] Some
        split: option.splits if_splits prod.splits intro!: offers_map)
  have rules: "offers (offered b c) (map ruleItem xs)" for xs
    by (rule offers_map) (simp add: ruleItem_def split: prod.splits)
  show ?thesis
    using assms(3) w ok live toggles rules
    by (auto simp: adminACLItems_def Some assms(1) userOf_c bind_eq_Some_conv Let_def offered_def permitted_def
        split: option.splits if_splits)
qed

lemma context_offers:
  assumes "ba_Client b = Some c" and "adminContextActionItems b = Some items"
  shows "offers (offered b c) items"
proof -
  have one: "offers (offered b c) [i]" if "contextItem b a = Some i" for a i
    using that by (auto simp: contextItem_def bind_eq_Some_conv offered_def permitted_def userOf_c [OF assms(1)] split: option.splits if_splits)
  have all: "traverse (contextItem b) xs = Some os \<Longrightarrow> offers (offered b c) os" for xs os
  proof (induction xs arbitrary: os)
    case (Cons x xs)
    then obtain i js where "contextItem b x = Some i" "traverse (contextItem b) xs = Some js" "os = i # js"
      by (auto split: option.splits)
    then show ?case using one Cons.IH by (simp add: offers_simps(2) [of _ i js])
  qed simp
  show ?thesis using assms all by (auto simp: adminContextActionItems_def split: if_splits)
qed

lemma menu_offers:
  assumes "ba_Client b = Some c" and "targetsLive b c" and "AdminItemBuild b = Some items"
  shows "offers (offered b c) items"
  using assms(3) information_offers [OF assms(1,2)] user_offers [OF assms(1,2)] channel_offers [OF assms(1,2)]
    ban_offers [OF assms(1)] registered_offers [OF assms(1)] acl_offers [OF assms(1,2)] context_offers [OF assms(1)]
  by (auto simp: AdminItemBuild_def bind_eq_Some_conv offered_def permitted_def)

section \<open>Choosing an item\<close>

lemma onUser_returns: "ba_Client b = Some c \<Longrightarrow> returns (onUser u act done b) = returns (act (c_user c u))"
  by (simp add: onUser_def userOf_c)

lemma onChan_returns: "ba_Client b = Some c \<Longrightarrow> returns (onChan ch act done b) = returns (act (c_channel c ch))"
  by (simp add: onChan_def userOf_c)

text \<open>We are a registered user and are in a channel.\<close>

definition selfPresent :: "client \<Rightarrow> bool" where
  "selfPresent c \<longleftrightarrow> (\<exists>s. c_Self c = Some s \<and> u_client (c_user c s) \<and> u_Channel (c_user c s) \<noteq> None)"

lemma selfPresent_self:
  assumes "ba_Client b = Some c" and "selfPresent c"
  obtains u ch where "selfUser b = Some u" "u_client u" "selfChannel b = Some ch" "connected b"
  using assms by (auto simp: selfPresent_def selfUser_def selfChannel_def connected_def)

lemma restoreStatus_returns: "ba_Client b = Some c \<Longrightarrow> selfPresent c \<Longrightarrow> returns (restoreStatus b)"
  by (rule selfPresent_self [of b c]) (simp_all add: restoreStatus_def userOf_c)

lemma escape_returns: "ba_Client b = Some c \<Longrightarrow> selfPresent c \<Longrightarrow> returns (OnAdminEscape b)"
  by (simp add: OnAdminEscape_def restoreStatus_returns)

lemma runAction_live:
  assumes "ba_Client b = Some c" and "selfPresent c" and "live b c a"
  shows "returns (runAction a b)"
proof -
  obtain u ch where self: "selfUser b = Some u" "u_client u" "selfChannel b = Some ch"
    using selfPresent_self [OF assms(1,2)] by metis
  show ?thesis
  proof (cases a)
    case (ActToggleGrant p)
    then obtain r where r: "ba_adminTargetUser b = Some r" "ba_adminACL b \<noteq> None" using assms(3) by auto
    obtain b' where "editACL (SubjectUser (u_UserID (c_user c r))) (grantRule p) b = Some b'"
      using editACL_ok [OF assms(1) r(2)] by (auto simp: returns_def)
    then show ?thesis by (simp add: ActToggleGrant toggleACLUserGrant_def r(1) userOf_c [OF assms(1)])
  next
    case ActToggleInherit
    then show ?thesis using assms(3) by (auto simp: userOf_c [OF assms(1)] sendACL_def assms(1))
  qed (use assms(3) self in \<open>auto simp: onUser_returns [OF assms(1)] onChan_returns [OF assms(1)] userOf_c [OF assms(1)]
      assms(1) escape_returns [OF assms(1,2)]\<close>)
qed



section \<open>Prompts outlive their objects\<close>

text \<open>A prompt to kick a user panics when the user has left and the menu has other targets
  by then: only those are checked.\<close>

theorem stale_prompt_panics:
  assumes "ba_Client b = Some c" and "ba_pendingAdminPrompt b = Some (PromptKick u)" and "\<not> u_client (c_user c u)"
    and "targetsValid c b"
  shows "handleAdminPrompt s b = None"
proof -
  let ?b = "b\<lparr>ba_pendingAdminPrompt := None\<rparr>"
  have "targetsValid c ?b" using assms(4) by (simp add: targetsValid_def)
  moreover have "runPrompt (PromptKick u) (TrimSpace s) ?b = None"
    using onUser_returns [of ?b c u "Kick (TrimSpace s)" "''Admin: kick sent for ''"] assms(1,3) by (simp add: returns_def)
  ultimately show ?thesis using assms(1,2) by (simp add: handleAdminPrompt_def withValidAdminTargets_def)
qed

text \<open>Bob is to be kicked; the menu is opened again on the channel, and Bob leaves.\<close>

definition twoUsers :: client where
  "twoUsers = demoClient\<lparr>c_Users := [(4, 0), (5, 1)],
     c_user := (\<lambda>r. (newUser (if r = 0 then 4 else 5))\<lparr>u_client := True, u_Name := ''bob'', u_Channel := Some 0\<rparr>)\<rparr>"

definition bobLeaves :: userRemoveMsg where
  "bobLeaves = \<lparr>m_ur_Session = Some 5, m_ur_Actor = None, m_ur_Reason = None, m_ur_Ban = None\<rparr>"

theorem stale_prompt_panics_witness:
  "\<exists>b c. OpenAdminMenu (promptAdmin ''Kick reason for bob'' (PromptKick 1) (demoBarnard\<lparr>ba_Client := Some twoUsers\<rparr>)) = Some b
    \<and> userRemove bobLeaves twoUsers = Ok c \<and> handleAdminPrompt ''bye'' (b\<lparr>ba_Client := Some c\<rparr>) = None"
proof -
  let ?b0 = "promptAdmin ''Kick reason for bob'' (PromptKick 1) (demoBarnard\<lparr>ba_Client := Some twoUsers\<rparr>)"
  have c0: "ba_Client ?b0 = Some twoUsers" by (simp add: promptAdmin_def SetActive_def UpdateInputStatus_def)
  have "\<exists>b. OpenAdminMenu ?b0 = Some b \<and> ba_pendingAdminPrompt b = Some (PromptKick 1) \<and> ba_adminTargetUser b = None
      \<and> ba_adminTargetChan b = Some 0"
    by (simp add: OpenAdminMenu_def connected_def selfUser_def menuTargets_def promptAdmin_def AddOutputLine_def SetActive_def UpdateInputStatus_def
        sendPermission_def RequestPermission_def channelRequest_def twoUsers_def demoClient_def demoBarnard_def newBarnard_def Let_def)
  then obtain b where b: "OpenAdminMenu ?b0 = Some b" "ba_pendingAdminPrompt b = Some (PromptKick 1)" "ba_adminTargetUser b = None"
      "ba_adminTargetChan b = Some 0" by blast
  have "\<exists>c. userRemove bobLeaves twoUsers = Ok c \<and> \<not> u_client (c_user c 1) \<and> c_Channels c = [(0, 0)] \<and> ch_ID (c_channel c 0) = 0"
    by (simp add: userRemove_def bobLeaves_def twoUsers_def demoClient_def findActor_def setUser_def delMember_def setChannel_def
        closeUserStreams_def itemsOf_def noListeners_def newClient_def noAudio_def newUser_def newChannel_def emitIfSynced_def Let_def)
  then obtain c where c: "userRemove bobLeaves twoUsers = Ok c" "\<not> u_client (c_user c 1)" "c_Channels c = [(0, 0)]"
      "ch_ID (c_channel c 0) = 0" by blast
  have "handleAdminPrompt ''bye'' (b\<lparr>ba_Client := Some c\<rparr>) = None"
    by (rule stale_prompt_panics [of _ c 1]) (use b c in \<open>simp_all add: targetsValid_def\<close>)
  then show ?thesis using b(1) c(1) by blast
qed

end
