(* ===== verification/RecordingControl.thy ===== *)
theory RecordingControl
  imports App
begin

text \<open>
  The control of the recorder (\<^verbatim>\<open>recording_control.go\<close>).  A recording is first asked of the server; the
  recorder is made when the server echoes our recording flag, and stopped when the flag is cleared.
  What \<^verbatim>\<open>recording.New\<close> and \<^verbatim>\<open>Recorder.Stop\<close> return are parameters.
\<close>

section \<open>State\<close>

definition isRecordingActive :: "barnard \<Rightarrow> bool" where
  "isRecordingActive b \<longleftrightarrow> ba_Recorder b \<noteq> None \<or> ba_recordingStarting b"

definition renderGeneralStatus :: "barnard \<Rightarrow> barnard" where
  "renderGeneralStatus b =
    (let w = TrimSpace (ba_statusText b) in
     b\<lparr>ba_statusLabel :=
       (if isRecordingActive b then
          (if w = ''Idle'' then '' Idle Rec '' else if w = ''Tx'' then '' Tx Rec ''
           else if w = ''File'' then '' File Rec '' else ba_statusText b)
        else ba_statusText b)\<rparr>)"

definition UpdateGeneralStatus :: "string \<Rightarrow> bool \<Rightarrow> barnard \<Rightarrow> barnard" where
  "UpdateGeneralStatus s notice b = renderGeneralStatus (b\<lparr>ba_statusText := s, ba_statusNotice := notice\<rparr>)"

text \<open>A line and a notification with the same text.\<close>

definition report :: "string \<Rightarrow> string \<Rightarrow> string \<Rightarrow> barnard \<Rightarrow> barnard" where
  "report ev line what b = Notify ev ''me'' what (AddOutputLine line b)"

text \<open>\<^verbatim>\<open>stream.SetRecorder\<close> when there is a stream.\<close>

definition setStreamRecorder :: "string option \<Rightarrow> barnard \<Rightarrow> barnard" where
  "setStreamRecorder r b = (if ba_Stream b then b\<lparr>ba_streamRecorder := r\<rparr> else b)"

definition detachRecorder :: "barnard \<Rightarrow> string option \<times> bool \<times> barnard" where
  "detachRecorder b =
    (ba_Recorder b, ba_recordingStarting b, setStreamRecorder None (b\<lparr>ba_Recorder := None, ba_recordingStarting := False\<rparr>))"

section \<open>Operations\<close>

definition tellServer :: "bool \<Rightarrow> barnard \<Rightarrow> barnard option" where
  "tellServer v b = do { u \<leftarrow> selfUser b; send (SetRecording v u) b }"

definition tellIfConnected :: "bool \<Rightarrow> barnard \<Rightarrow> barnard option" where
  "tellIfConnected notifyServer b = (if notifyServer \<and> selfUser b \<noteq> None then tellServer False b else Some b)"

definition StartRecording :: "barnard \<Rightarrow> barnard option" where
  "StartRecording b =
    (if selfUser b = None then
       Some (report ''recorderror'' ''Recording requires an active server connection'' ''Recording requires an active server connection'' b)
     else if ba_recordingAllowed b = Some False then
       Some (report ''recorderror'' ''Recording is not allowed by this server.'' ''Recording is not allowed by this server.'' b)
     else if isRecordingActive b then Some (AddOutputLine ''Recording is already active'' b)
     else do {
       b \<leftarrow> tellServer True (b\<lparr>ba_recordingStarting := True\<rparr>);
       Some (renderGeneralStatus (AddOutputLine ''Recording start requested'' b))
     })"

definition stopped :: "appEnv \<Rightarrow> string \<Rightarrow> barnard \<Rightarrow> barnard" where
  "stopped E path b =
    (case ae_recorderStop E of
       Some err \<Rightarrow> report ''recorderror'' (''Recording stopped with error: '' @ err) err b
     | None \<Rightarrow> report ''recordstop'' (''Recording saved: '' @ path) path b)"

definition StopRecording :: "appEnv \<Rightarrow> bool \<Rightarrow> barnard \<Rightarrow> barnard option" where
  "StopRecording E notifyServer b =
    (case detachRecorder b of
       (None, wasPending, b) \<Rightarrow> do {
         b \<leftarrow> tellIfConnected notifyServer b;
         Some (renderGeneralStatus
           (if wasPending then report ''recordstop'' ''Recording start cancelled'' ''Recording start cancelled'' b
            else AddOutputLine ''Recording is not active'' b))
       }
     | (Some path, _, b) \<Rightarrow> do {
         b \<leftarrow> tellIfConnected notifyServer (stopped E path b);
         Some (renderGeneralStatus b)
       })"

definition ToggleRecording :: "appEnv \<Rightarrow> barnard \<Rightarrow> barnard option" where
  "ToggleRecording E b = (if isRecordingActive b then StopRecording E True b else StartRecording b)"

definition StopRecordingIfActive :: "appEnv \<Rightarrow> bool \<Rightarrow> barnard \<Rightarrow> barnard option" where
  "StopRecordingIfActive E notifyServer b = (if isRecordingActive b then StopRecording E notifyServer b else Some b)"

definition CommandRecord :: "appEnv \<Rightarrow> string \<Rightarrow> barnard \<Rightarrow> barnard option" where
  "CommandRecord E cmd b =
    (let act = ToLower (TrimSpace cmd) in
     if act = [] \<or> act = ''toggle'' then ToggleRecording E b
     else if act = ''start'' \<or> act = ''on'' then StartRecording b
     else if act = ''stop'' \<or> act = ''off'' then StopRecording E True b
     else Some (AddOutputLine ''Usage: /record [start|stop|toggle]'' b))"

definition finishRecordingStart :: "appEnv \<Rightarrow> barnard \<Rightarrow> barnard option" where
  "finishRecordingStart E b =
    (if \<not> ba_recordingStarting b \<or> ba_Recorder b \<noteq> None then Some b
     else case ae_recordingNew E of
       Inl err \<Rightarrow> do {
         b \<leftarrow> tellServer False (report ''recorderror'' (''Could not start recording: '' @ err) err (b\<lparr>ba_recordingStarting := False\<rparr>));
         Some (renderGeneralStatus b)
       }
     | Inr path \<Rightarrow>
         Some (renderGeneralStatus (report ''recordstart'' (''Recording started: '' @ path) path
           (setStreamRecorder (Some path) (b\<lparr>ba_Recorder := Some path, ba_recordingStarting := False\<rparr>)))))"

definition HandleRecordingChange :: "appEnv \<Rightarrow> userChangeEvent \<Rightarrow> barnard \<Rightarrow> barnard option" where
  "HandleRecordingChange E e b =
    (case uc_User e of
       None \<Rightarrow> Some b
     | Some r \<Rightarrow> do {
         c \<leftarrow> ba_Client b;
         let u = c_user c r;
         if c_Self c = Some r then
           (if u_Recording u then finishRecordingStart E b
            else if ba_Recorder b \<noteq> None then StopRecording E False b
            else Some b)
         else if u_Recording u then
           Some (Notify ''userrecordstart'' (u_Name u) [] (AddOutputLine (u_Name u @ '' started recording'') b))
         else Some (Notify ''userrecordstop'' (u_Name u) [] (AddOutputLine (u_Name u @ '' stopped recording'') b))
       })"

definition HandleRecordingAllowed :: "appEnv \<Rightarrow> bool option \<Rightarrow> barnard \<Rightarrow> barnard option" where
  "HandleRecordingAllowed E allowed b =
    (case allowed of
       None \<Rightarrow> Some b
     | Some v \<Rightarrow>
         let b = b\<lparr>ba_recordingAllowed := Some v\<rparr> in
         if \<not> v \<and> isRecordingActive b then
           StopRecording E True (report ''recorderror'' ''Recording is not allowed by this server.'' ''Recording is not allowed by this server.'' b)
         else Some b)"

definition stopRecordingForDisconnect :: "appEnv \<Rightarrow> barnard \<Rightarrow> barnard" where
  "stopRecordingForDisconnect E b =
    (case detachRecorder b of
       (recorder, _, b) \<Rightarrow> renderGeneralStatus (case recorder of None \<Rightarrow> b | Some path \<Rightarrow> stopped E path b))"

end
