(* ===== verification/Voice.thy ===== *)
theory Voice
  imports RecordingControl AudioSend
begin

text \<open>
  Transmitting: the talk key and its commands, file playback, the audio of a connection and its release
  (\<^verbatim>\<open>barnard.go\<close>, \<^verbatim>\<open>ui.go\<close>, \<^verbatim>\<open>connect\<close> and \<^verbatim>\<open>startAutoTransmit\<close> of \<^verbatim>\<open>client.go\<close>, the player state of
  \<^verbatim>\<open>fileplayback/player.go\<close>).  The invariant says that sound is captured exactly while the program shows
  that it transmits.  The settings of a new stream (volume, noise suppression, AGC, error callbacks) are not
  part of the state.
\<close>

section \<open>The stream and its source\<close>

text \<open>\<^verbatim>\<open>stream.StartSource\<close> and \<^verbatim>\<open>StopSource\<close> on the connection's stream; an error comes with whether
  it is fatal (\<^verbatim>\<open>fatalAudioOpenError\<close>).\<close>

definition startSource :: "appEnv \<Rightarrow> barnard \<Rightarrow> (string \<times> bool) option \<times> barnard" where
  "startSource E b =
    (if ba_streamSource b then (Some (''gumbleopenal: invalid state'', False), b)
     else case ae_StartSource E of
       Some err \<Rightarrow> (Some err, b)
     | None \<Rightarrow> (None, b\<lparr>ba_streamSource := True\<rparr>))"

definition stopSource :: "barnard \<Rightarrow> barnard" where
  "stopSource b = (if ba_Stream b then b\<lparr>ba_streamSource := False\<rparr> else b)"

definition exitWithError :: "string \<Rightarrow> barnard \<Rightarrow> barnard" where
  "exitWithError err b = b\<lparr>ba_uiClosed := True, ba_exitMessage := Some err\<rparr>"

definition isChannelMuted :: "uint32 \<Rightarrow> barnard \<Rightarrow> bool" where
  "isChannelMuted k b = (map_of (ba_MutedChannels b) k = Some True)"

definition setChannelMuted :: "uint32 \<Rightarrow> bool \<Rightarrow> barnard \<Rightarrow> barnard" where
  "setChannelMuted k muted b = b\<lparr>ba_MutedChannels :=
    (if muted then AList.update k True (ba_MutedChannels b) else AList.delete k (ba_MutedChannels b))\<rparr>"

definition cleanupConnectionAudio :: "barnard \<Rightarrow> barnard" where
  "cleanupConnectionAudio b = b\<lparr>ba_FilePlaying := None, ba_Stream := False, ba_streamSource := False, ba_streamRecorder := None\<rparr>"

definition detachToneTestAudio :: "barnard \<Rightarrow> barnard" where
  "detachToneTestAudio b = b\<lparr>ba_toneSaverAttached := False\<rparr>"

definition cleanupToneTestAudio :: "barnard \<Rightarrow> barnard" where
  "cleanupToneTestAudio b = (detachToneTestAudio b)\<lparr>ba_toneSaver := False\<rparr>"

text \<open>Both places that end a transmission.\<close>

definition StopTransmission :: "barnard \<Rightarrow> barnard" where
  "StopTransmission b =
    (if ba_Tx b then
       let b = UpdateGeneralStatus '' Idle '' False ((Notify ''micdown'' ''me'' [] b)\<lparr>ba_Tx := False\<rparr>) in
       if ba_ToneTest b then b\<lparr>ba_toneRunning := False\<rparr> else stopSource b
     else b)"

section \<open>The talk key\<close>

definition startMic :: "appEnv \<Rightarrow> barnard \<Rightarrow> barnard" where
  "startMic E b =
    (if ba_ToneTest b then
       UpdateGeneralStatus '' Tx  '' True (Notify ''micup'' ''me'' [] (b\<lparr>ba_toneRunning := True\<rparr>))
     else if \<not> ba_Stream b then
       UpdateGeneralStatus ''audio unavailable while reconnecting'' True (b\<lparr>ba_Tx := False\<rparr>)
     else case startSource E b of
       (Some (err, fatal), b) \<Rightarrow>
         let b = b\<lparr>ba_Tx := False\<rparr> in
         if fatal then exitWithError (''audio device initialization failed: '' @ err) b
         else UpdateGeneralStatus err True (Notify ''error'' ''me'' err b)
     | (None, b) \<Rightarrow> UpdateGeneralStatus '' Tx  '' True (Notify ''micup'' ''me'' [] b))"

definition refuseTx :: "string \<Rightarrow> barnard \<Rightarrow> barnard" where
  "refuseTx why b = UpdateGeneralStatus why True ((Notify ''error'' ''me'' why b)\<lparr>ba_Tx := False\<rparr>)"

definition setTransmit :: "appEnv \<Rightarrow> int \<Rightarrow> barnard \<Rightarrow> barnard option" where
  "setTransmit E val b =
    (if ba_Tx b \<and> val = 1 then Some b
     else if \<not> ba_Tx b \<and> val = 0 then Some b
     else if ba_Tx b then Some (StopTransmission b)
     else if \<not> ba_Connected b then Some (refuseTx ''no tx while disconnected'' b)
     else do {
       ch \<leftarrow> selfChannel b;
       c \<leftarrow> channelOf b ch;
       Some (if isChannelMuted (ch_ID c) b then refuseTx ''cannot transmit in muted channel'' b
             else startMic E (b\<lparr>ba_Tx := True\<rparr>))
     })"

section \<open>File playback\<close>

definition isURL :: "string \<Rightarrow> bool" where
  "isURL f \<longleftrightarrow> hasPrefix ''http://'' f \<or> hasPrefix ''https://'' f \<or> hasPrefix ''ftp://'' f \<or> hasPrefix ''rtmp://'' f"

definition onClient :: "(client \<Rightarrow> client) \<Rightarrow> barnard \<Rightarrow> barnard option" where
  "onClient f b = map_option (\<lambda>c. b\<lparr>ba_Client := Some (f c)\<rparr>) (ba_Client b)"

definition playing :: "bool \<Rightarrow> string \<Rightarrow> string" where
  "playing url f = (if url then ''Streaming: '' else ''Playing: '') @ f @ '' (stereo)''"

text \<open>A file that plays starts the transmission; \<^verbatim>\<open>FileStream.PlayFile\<close> succeeds on a player that is not
  playing.\<close>

definition transmitFile :: "appEnv \<Rightarrow> string \<Rightarrow> bool \<Rightarrow> barnard \<Rightarrow> barnard option" where
  "transmitFile E f url b =
    (if ba_Tx b then Some (AddOutputLine (playing url f) b)
     else
       (case (if ba_Stream b then startSource E b else (Some (''audio unavailable while reconnecting'', False), b)) of
          (Some (err, _), b) \<Rightarrow>
            onClient DisableStereoEncoder ((AddOutputLine (''Error starting transmission: '' @ err) b)\<lparr>ba_FilePlaying := Some False\<rparr>)
        | (None, b) \<Rightarrow> Some (AddOutputLine (playing url f) (UpdateGeneralStatus '' File '' True (b\<lparr>ba_Tx := True\<rparr>)))))"

definition startFile :: "appEnv \<Rightarrow> string \<Rightarrow> bool \<Rightarrow> barnard \<Rightarrow> barnard option" where
  "startFile E f url b = do { b \<leftarrow> onClient EnableStereoEncoder (b\<lparr>ba_FilePlaying := Some True\<rparr>); transmitFile E f url b }"

definition CommandPlayFile :: "appEnv \<Rightarrow> string \<Rightarrow> barnard \<Rightarrow> barnard option" where
  "CommandPlayFile E cmd b =
    (let f = TrimSpace cmd in
     if f = [] then Some (AddOutputLine ''Usage: /file <filename or URL>'' b)
     else
       let url = isURL f;
           f = (if \<not> url \<and> hasPrefix ''~'' f then replaceFirst ''~'' (ae_HOME E) f else f)
       in if \<not> url \<and> \<not> ae_fileExists E f then Some (AddOutputLine (''File not found: '' @ f) b)
          else if \<not> ba_Connected b then Some (AddOutputLine ''Not connected to server'' b)
          else if ba_ToneTest b then Some (AddOutputLine ''File playback is unavailable in tone test mode'' b)
          else
            (case ba_FilePlaying b of
               None \<Rightarrow> Some (AddOutputLine ''File playback is unavailable while reconnecting'' b)
             | Some True \<Rightarrow> Some (AddOutputLine ''Already playing a file. Use /stop first.'' b)
             | Some False \<Rightarrow> startFile E f url b))"

definition CommandStopFile :: "barnard \<Rightarrow> barnard option" where
  "CommandStopFile b =
    (if ba_FilePlaying b \<noteq> Some True then Some (AddOutputLine ''No file playing'' b)
     else do {
       b \<leftarrow> onClient DisableStereoEncoder (b\<lparr>ba_FilePlaying := Some False\<rparr>);
       Some (UpdateGeneralStatus '' Idle '' False (AddOutputLine ''File playback stopped'' b))
     })"

text \<open>The player reports the end of a file, or that ffmpeg failed, to the callback that \<^verbatim>\<open>connect\<close> has
  installed.\<close>

definition fileEnded :: "string \<Rightarrow> barnard \<Rightarrow> barnard option" where
  "fileEnded err b =
    (if ba_FilePlaying b = Some True then
       map_option (AddOutputLine (''File playback: '' @ err)) (onClient DisableStereoEncoder (b\<lparr>ba_FilePlaying := Some False\<rparr>))
     else Some b)"

section \<open>Connecting\<close>

definition startAutoTransmit :: "appEnv \<Rightarrow> barnard \<Rightarrow> barnard" where
  "startAutoTransmit E b =
    (if \<not> ba_AutoTransmit b \<or> ba_Tx b \<or> \<not> ba_Stream b then b
     else case startSource E b of
       (Some (err, _), b) \<Rightarrow> AddOutputLine (''auto-transmit failed: '' @ err) b
     | (None, b) \<Rightarrow> AddOutputLine ''Auto-transmit started'' (UpdateGeneralStatus '' AutoTx '' True (b\<lparr>ba_Tx := True\<rparr>)))"

text \<open>\<^verbatim>\<open>connect\<close>, with whether it succeeded; \<open>dial\<close> is the dial and the events delivered in it.  The
  stereo encoder is the one of the environment, built here or for an earlier connection.\<close>

definition connectTone :: "appEnv \<Rightarrow> barnard \<Rightarrow> bool \<times> barnard" where
  "connectTone E b =
    (case (if ba_toneSaver b then None else ae_saverNew E) of
       Some err \<Rightarrow> (False, exitWithError err b)
     | None \<Rightarrow>
         let b = (detachToneTestAudio (b\<lparr>ba_toneSaver := True\<rparr>))\<lparr>ba_toneSaverAttached := True, ba_Connected := True\<rparr> in
         (True, if ba_AutoTransmit b then
            AddOutputLine ''Tone test transmission started'' (UpdateGeneralStatus '' Tx  '' True (b\<lparr>ba_toneRunning := True, ba_Tx := True\<rparr>))
          else b))"

definition connectStream :: "appEnv \<Rightarrow> barnard \<Rightarrow> (bool \<times> barnard) option" where
  "connectStream E b =
    (case ae_openalNew E of
       Some err \<Rightarrow> Some (False, exitWithError err b)
     | None \<Rightarrow> do {
         b \<leftarrow> onClient (SetStereoEncoder (Some (ae_stereoEncoder E))) b;
         Some (True, startAutoTransmit E (b\<lparr>ba_FilePlaying := Some False, ba_Stream := True, ba_streamSource := False,
           ba_streamRecorder := None, ba_Connected := True\<rparr>))
       })"

definition connect :: "appEnv \<Rightarrow> (barnard \<Rightarrow> string + barnard) \<Rightarrow> bool \<Rightarrow> barnard \<Rightarrow> (bool \<times> barnard) option" where
  "connect E dial reconnect b =
    (case dial b of
       Inl err \<Rightarrow> Some (False, if reconnect then AddOutputLine err b else exitWithError err b)
     | Inr b \<Rightarrow> if ba_ToneTest b then Some (connectTone E b) else connectStream E b)"

definition startReconnect :: "barnard \<Rightarrow> barnard" where
  "startReconnect b = b\<lparr>ba_reconnecting := True\<rparr>"

definition stopReconnects :: "barnard \<Rightarrow> barnard" where
  "stopReconnects b = b\<lparr>ba_reconnectStopped := True\<rparr>"

text \<open>The reconnect loop over what each dial does, as far as the dials go.\<close>

fun reconnectLoop :: "appEnv \<Rightarrow> (barnard \<Rightarrow> string + barnard) list \<Rightarrow> barnard \<Rightarrow> barnard option" where
  "reconnectLoop E [] b = Some b"
| "reconnectLoop E (dial # dials) b =
    (if ba_reconnectStopped b then Some (b\<lparr>ba_reconnecting := False\<rparr>)
     else do {
       (ok, b) \<leftarrow> connect E dial True b;
       if ok then Some (b\<lparr>ba_reconnecting := False\<rparr>) else reconnectLoop E dials b
     })"

section \<open>Reporting and switches\<close>

definition CommandStatus :: "barnard \<Rightarrow> barnard" where
  "CommandStatus b = Notify ''status'' ''me'' (if ba_Tx b then ''transmitting'' else ''not transmitting'') b"

definition saveReported :: "appEnv \<Rightarrow> string \<Rightarrow> barnard \<Rightarrow> barnard" where
  "saveReported E what b = (case ae_saveError E of None \<Rightarrow> b | Some err \<Rightarrow> AddOutputLine (what @ err) b)"

definition toggleNoise :: "appEnv \<Rightarrow> barnard \<Rightarrow> bool \<times> barnard" where
  "toggleNoise E b =
    (let enabled = \<not> GetNoiseSuppressionEnabled (ba_UserConfig b) in
     (enabled, (saveReported E ''Noise suppression: could not save setting: ''
        (b\<lparr>ba_UserConfig := (ba_UserConfig b)\<lparr>ec_NoiseSuppressionEnabled := Some enabled\<rparr>\<rparr>))\<lparr>ba_noiseEnabled := enabled\<rparr>))"

definition OnNoiseSuppressionToggle :: "appEnv \<Rightarrow> barnard \<Rightarrow> barnard" where
  "OnNoiseSuppressionToggle E b =
    (case toggleNoise E b of (enabled, b) \<Rightarrow>
       UpdateGeneralStatus (if enabled then ''Noise suppression: ON'' else ''Noise suppression: OFF'') False b)"

definition CommandNoiseSuppressionToggle :: "appEnv \<Rightarrow> barnard \<Rightarrow> barnard" where
  "CommandNoiseSuppressionToggle E b =
    (case toggleNoise E b of (enabled, b) \<Rightarrow>
       AddOutputLine (if enabled then ''Noise suppression enabled'' else ''Noise suppression disabled'') b)"

definition toggleAGC :: "appEnv \<Rightarrow> barnard \<Rightarrow> bool \<times> barnard" where
  "toggleAGC E b =
    (let enabled = \<not> GetAGCEnabled (ba_UserConfig b) in
     (enabled, (saveReported E ''AGC: could not save setting: ''
        (b\<lparr>ba_UserConfig := (ba_UserConfig b)\<lparr>ec_AGCEnabled := Some enabled\<rparr>\<rparr>))\<lparr>ba_agcEnabled := (if ba_Stream b then enabled else ba_agcEnabled b)\<rparr>))"

definition OnAGCToggle :: "appEnv \<Rightarrow> barnard \<Rightarrow> barnard" where
  "OnAGCToggle E b = (case toggleAGC E b of (enabled, b) \<Rightarrow> UpdateGeneralStatus (if enabled then ''AGC: ON'' else ''AGC: OFF'') False b)"

definition CommandAGCToggle :: "appEnv \<Rightarrow> barnard \<Rightarrow> barnard" where
  "CommandAGCToggle E b = (case toggleAGC E b of (enabled, b) \<Rightarrow> AddOutputLine (if enabled then ''AGC enabled'' else ''AGC disabled'') b)"

end
