(* ===== verification/Notices.thy ===== *)
theory Notices
  imports Voice AdminText
begin

text \<open>
  What the application does on the events of a client (\<^verbatim>\<open>client.go\<close>): connecting and disconnecting, text
  messages, changes of users and channels, and the answers of the server.  \<open>None\<close> is a panic, or a walk up
  the channel tree that does not end.
\<close>

section \<open>Text\<close>

text \<open>\<^verbatim>\<open>esc\<close> on characters below 256, where the bidirectional controls are not.\<close>

definition isControl :: "char \<Rightarrow> bool" where
  "isControl ch \<longleftrightarrow> of_char ch < (32 :: nat) \<or> (127 \<le> (of_char ch :: nat) \<and> of_char ch < (160 :: nat))"

definition esc :: "appEnv \<Rightarrow> string \<Rightarrow> string" where
  "esc E s = ae_sanitizeHTML E (filter (\<lambda>ch. \<not> isControl ch) s)"

definition AddOutputMessage :: "appEnv \<Rightarrow> user option \<Rightarrow> string \<Rightarrow> barnard \<Rightarrow> barnard" where
  "AddOutputMessage E sender message =
    (case sender of
       None \<Rightarrow> AddOutputLine message
     | Some u \<Rightarrow> AddOutputLine (u_Name u @ '': '' @ TrimSpace (esc E message)))"

definition AddOutputPrivateMessage :: "appEnv \<Rightarrow> user option \<Rightarrow> user \<Rightarrow> string \<Rightarrow> barnard \<Rightarrow> barnard" where
  "AddOutputPrivateMessage E source dest message =
    AddOutputLine (''pm/'' @ (case source of None \<Rightarrow> ''Server'' | Some u \<Rightarrow> u_Name u) @ ''/'' @ u_Name dest @ '': '' @ TrimSpace (esc E message))"

definition SetSelectedUser :: "user_ref option \<Rightarrow> barnard \<Rightarrow> barnard option" where
  "SetSelectedUser user b =
    (let b = b\<lparr>ba_selectedUser := user\<rparr> in
     case user of
       None \<Rightarrow> restoreStatus b
     | Some r \<Rightarrow> do { u \<leftarrow> userOf b r; Some (UpdateInputStatus (''[@'' @ u_Name u @ '']'') b) })"

definition rebuildTrees :: "barnard \<Rightarrow> barnard" where
  "rebuildTrees b = b\<lparr>ba_treeRebuilds := ba_treeRebuilds b + 1\<rparr>"

section \<open>Channels of users\<close>

definition sameChannel :: "client \<Rightarrow> chan_ref option \<Rightarrow> chan_ref option \<Rightarrow> bool" where
  "sameChannel c x y = (case (x, y) of (Some x, Some y) \<Rightarrow> ch_ID (c_channel c x) = ch_ID (c_channel c y) | _ \<Rightarrow> False)"

definition previousUserChannel :: "client \<Rightarrow> user_ref \<Rightarrow> barnard \<Rightarrow> chan_ref option" where
  "previousUserChannel c r b = map_of (ba_userChannels b) (u_Session (c_user c r))"

definition rememberUserChannel :: "user \<Rightarrow> barnard \<Rightarrow> barnard" where
  "rememberUserChannel u b =
    (case u_Channel u of
       None \<Rightarrow> b
     | Some ch \<Rightarrow> b\<lparr>ba_userChannels := AList.update (u_Session u) ch (ba_userChannels b)\<rparr>)"

definition updateUserChannel :: "client \<Rightarrow> userChangeEvent \<Rightarrow> barnard \<Rightarrow> barnard" where
  "updateUserChannel c e b =
    (case uc_User e of
       None \<Rightarrow> b
     | Some r \<Rightarrow>
         if Has (uc_Type e) UserChangeDisconnected
         then b\<lparr>ba_userChannels := AList.delete (u_Session (c_user c r)) (ba_userChannels b)\<rparr>
         else rememberUserChannel (c_user c r) b)"

record changeNotice =
  un_event :: string
  un_who :: string
  un_what :: string
  un_line :: string

definition buildUserChangeNotification ::
    "client \<Rightarrow> string \<Rightarrow> string \<Rightarrow> user \<Rightarrow> chan_ref option \<Rightarrow> chan_ref option \<Rightarrow> changeNotice option" where
  "buildUserChangeNotification c event verb u eventChannel currentChannel =
    (case eventChannel of
       Some ch \<Rightarrow>
         if sameChannel c eventChannel currentChannel then
           Some \<lparr>un_event = event, un_who = u_Name u, un_what = ch_Name (c_channel c ch),
             un_line = u_Name u @ '' '' @ verb @ '' '' @ ch_Name (c_channel c ch)\<rparr>
         else None
     | None \<Rightarrow> None)"

definition userChangeNotification :: "client \<Rightarrow> userChangeEvent \<Rightarrow> barnard \<Rightarrow> changeNotice option" where
  "userChangeNotification c e b =
    (case (uc_User e, selfChannel b) of
       (Some r, Some current) \<Rightarrow>
         let u = c_user c r; previous = previousUserChannel c r b; ch = u_Channel u in
         if Has (uc_Type e) UserChangeConnected then buildUserChangeNotification c ''join'' ''joined'' u ch (Some current)
         else if Has (uc_Type e) UserChangeDisconnected then
           buildUserChangeNotification c ''leave'' ''left'' u (if previous = None then ch else previous) (Some current)
         else if Has (uc_Type e) UserChangeChannel \<and> c_Self c \<noteq> Some r then
           (if sameChannel c ch (Some current) \<and> \<not> sameChannel c previous (Some current)
            then buildUserChangeNotification c ''join'' ''joined'' u ch (Some current)
            else if sameChannel c previous (Some current) \<and> \<not> sameChannel c ch (Some current)
            then buildUserChangeNotification c ''leave'' ''left'' u previous (Some current)
            else None)
         else None
     | _ \<Rightarrow> None)"

section \<open>Settings of users\<close>

definition updateUserSettings :: "user_ref \<Rightarrow> barnard \<Rightarrow> barnard option" where
  "updateUserSettings r b =
    do {
      c \<leftarrow> ba_Client b;
      let (cfg, c) = UpdateUser r (ba_UserConfig b, c);
      Some (b\<lparr>ba_UserConfig := cfg, ba_Client := Some c\<rparr>)
    }"

definition toggleMuteReported :: "appEnv \<Rightarrow> user_ref \<Rightarrow> barnard \<Rightarrow> barnard option" where
  "toggleMuteReported E r b =
    do {
      c \<leftarrow> ba_Client b;
      (cfg, c) \<leftarrow> ToggleMute r (ba_UserConfig b, c);
      Some (saveReported E ''Mute: could not save setting: '' (b\<lparr>ba_UserConfig := cfg, ba_Client := Some c\<rparr>))
    }"

definition updateUserGain :: "user_ref \<Rightarrow> barnard \<Rightarrow> barnard" where
  "updateUserGain r b = (if ba_Stream b then b\<lparr>ba_gainUpdates := ba_gainUpdates b @ [r]\<rparr> else b)"

text \<open>A user that arrives in a muted channel is muted.\<close>

definition muteOnArrival :: "appEnv \<Rightarrow> userChangeEvent \<Rightarrow> user_ref \<Rightarrow> barnard \<Rightarrow> barnard option" where
  "muteOnArrival E e r b =
    (if Has (uc_Type e) UserChangeConnected \<or> Has (uc_Type e) UserChangeChannel then
       do {
         u \<leftarrow> userOf b r;
         ch \<leftarrow> u_Channel u;
         c \<leftarrow> channelOf b ch;
         if isChannelMuted (ch_ID c) b then
           map_option (updateUserGain r) (if u_locallyMuted u then Some b else toggleMuteReported E r b)
         else Some b
       }
     else Some b)"

section \<open>Changes of users and channels\<close>

definition onlyIf :: "bool \<Rightarrow> ('s \<Rightarrow> 's option) \<Rightarrow> 's \<Rightarrow> 's option" where
  "onlyIf cond f s = (if cond then f s else Some s)"

text \<open>\<^verbatim>\<open>formatUserStats\<close>, \<^verbatim>\<open>formatUserVersion\<close>.\<close>

definition formatUserVersion :: "version \<Rightarrow> string" where
  "formatUserVersion v =
    (case SemanticVersion v of (major, minor, patch) \<Rightarrow>
       let semantic = digits (unat major) @ ''.'' @ digits (unat minor) @ ''.'' @ digits (unat patch);
           parts = filter (\<lambda>s. s \<noteq> []) [v_Release v, v_OS v, v_OSVersion v]
       in if parts = [] \<and> v_Version v = 0 then ''unknown''
          else if parts = [] then semantic
          else semantic @ '' '' @ Join '' '' parts)"

definition formatUserStats :: "appEnv \<Rightarrow> user \<Rightarrow> userStats \<Rightarrow> string" where
  "formatUserStats E u s =
    ''User stats for '' @ u_Name u @ '': version '' @ formatUserVersion (us_Version s)
    @ '', connected '' @ (if us_Connected s = 0 then ''unknown'' else ae_sinceSeconds E (us_Connected s))
    @ '', idle '' @ ae_seconds E (us_Idle s) @ '', bandwidth '' @ Itoa (us_Bandwidth s)
    @ '', UDP ping '' @ ae_fixed1 E (us_UDPPingAverage s) @ '' ms, TCP ping '' @ ae_fixed1 E (us_TCPPingAverage s)
    @ '' ms, IP '' @ (if us_IP s = [] then ''unknown'' else ae_IP E (us_IP s)) @ '', Opus '' @ onOff (us_Opus s)"

definition described :: "appEnv \<Rightarrow> string \<Rightarrow> string" where
  "described E s = (let d = TrimSpace (esc E s) in if d = [] then ''empty'' else d)"

definition OnUserChange :: "appEnv \<Rightarrow> userChangeEvent \<Rightarrow> barnard \<Rightarrow> barnard option" where
  "OnUserChange E e b =
    do {
      c \<leftarrow> ba_Client b;
      let note = userChangeNotification c e b;
      b \<leftarrow> (case uc_User e of None \<Rightarrow> Some b
           | Some r \<Rightarrow> do { b \<leftarrow> updateUserSettings r b; muteOnArrival E e r b });
      b \<leftarrow> onlyIf (Has (uc_Type e) UserChangeDisconnected \<and> uc_User e = ba_selectedUser b) (SetSelectedUser None) b;
      let b = (case note of None \<Rightarrow> b | Some n \<Rightarrow> AddOutputLine (un_line n) (Notify (un_event n) (un_who n) (un_what n) b));
      c \<leftarrow> ba_Client b;
      b \<leftarrow> onlyIf (Has (uc_Type e) UserChangeChannel \<and> uc_User e = c_Self c) restoreStatus b;
      b \<leftarrow> onlyIf (Has (uc_Type e) UserChangeRecording) (HandleRecordingChange E e) b;
      b \<leftarrow> onlyIf (Has (uc_Type e) UserChangeComment) (\<lambda>b. do {
             r \<leftarrow> uc_User e; u \<leftarrow> userOf b r;
             Some (AddOutputLine (''User comment for '' @ u_Name u @ '': '' @ described E (u_Comment u)) b) }) b;
      b \<leftarrow> onlyIf (Has (uc_Type e) UserChangeStats) (\<lambda>b. do {
             r \<leftarrow> uc_User e; u \<leftarrow> userOf b r;
             Some (case u_Stats u of None \<Rightarrow> b | Some s \<Rightarrow> AddOutputLine (formatUserStats E u s) b) }) b;
      c \<leftarrow> ba_Client b;
      Some (rebuildTrees (updateUserChannel c e b))
    }"

definition OnChannelChange :: "appEnv \<Rightarrow> channelChangeEvent \<Rightarrow> barnard \<Rightarrow> barnard option" where
  "OnChannelChange E e b =
    do {
      c \<leftarrow> ba_Client b;
      r \<leftarrow> cc_Channel e;
      let ch = c_channel c r;
      let b = UpdateInputStatus (bracketed (ch_Name ch)) b;
      let b = (if Has (cc_Type e) ChannelChangeDescription
        then AddOutputLine (''Channel description for '' @ ch_Name ch @ '': '' @ described E (ch_Description ch)) b else b);
      let b = (if Has (cc_Type e) ChannelChangePermission then
          (case map_of (c_permissions c) (ch_ID ch) of None \<Rightarrow> b
           | Some p \<Rightarrow> AddOutputLine (''Channel permissions for '' @ ch_Name ch @ '': '' @ permissionList p) b)
        else b);
      Some (rebuildTrees b)
    }"

section \<open>Text messages\<close>

text \<open>Whether the walk up from \<open>ch\<close> meets a channel that is \<open>root\<close>.\<close>

partial_function (option) inTree :: "client \<Rightarrow> chan_ref \<Rightarrow> chan_ref option \<Rightarrow> bool option" where
  "inTree c root ch =
    (case ch of
       None \<Rightarrow> Some False
     | Some r \<Rightarrow> if sameChannel c (Some r) (Some root) then Some True else inTree c root (ch_Parent (c_channel c r)))"

fun inTrees :: "client \<Rightarrow> chan_ref \<Rightarrow> chan_ref list \<Rightarrow> bool option" where
  "inTrees c current [] = Some False"
| "inTrees c current (root # roots) =
    do { found \<leftarrow> inTree c root (Some current); if found then Some True else inTrees c current roots }"

definition isPublicTextMessage :: "textMessage \<Rightarrow> barnard \<Rightarrow> bool option" where
  "isPublicTextMessage e b =
    (case (ba_Client b, selfChannel b) of
       (Some c, Some current) \<Rightarrow>
         if list_ex (\<lambda>ch. sameChannel c (Some ch) (Some current)) (tm_Channels e) then Some True
         else inTrees c current (tm_Trees e)
     | _ \<Rightarrow> Some False)"

definition OnTextMessage :: "appEnv \<Rightarrow> textMessage \<Rightarrow> barnard \<Rightarrow> barnard option" where
  "OnTextMessage E e b =
    do {
      c \<leftarrow> ba_Client b;
      let sender = map_option (c_user c) (tm_Sender e);
      let who = (case sender of None \<Rightarrow> ''Server'' | Some u \<Rightarrow> u_Name u);
      public \<leftarrow> isPublicTextMessage e b;
      if public then Some (AddOutputMessage E sender (tm_Message e) (Notify ''msg'' who (tm_Message e) b))
      else do {
        self \<leftarrow> selfUser b;
        Some (AddOutputPrivateMessage E sender self (tm_Message e) (Notify ''pm'' who (tm_Message e) b))
      }
    }"

section \<open>Connecting\<close>

fun eachUser :: "user_ref list \<Rightarrow> barnard \<Rightarrow> barnard option" where
  "eachUser [] b = Some b"
| "eachUser (r # rs) b = do { b \<leftarrow> updateUserSettings r b; u \<leftarrow> userOf b r; eachUser rs (rememberUserChannel u b) }"

definition OnConnect :: "appEnv \<Rightarrow> client \<Rightarrow> string option \<Rightarrow> barnard \<Rightarrow> barnard option" where
  "OnConnect E c welcome b =
    do {
      let b = b\<lparr>ba_Client := Some c, ba_MutedChannels := [], ba_userChannels := [], ba_recordingAllowed := None,
        ba_recordingStarting := False\<rparr>;
      let b = rebuildTrees (SetActive uiViewInput b);
      b \<leftarrow> eachUser (map snd (c_Users c)) b;
      b \<leftarrow> restoreStatus b;
      let b = AddOutputLine (''Connected to '' @ ae_RemoteAddr E) b;
      let wmsg = (case welcome of None \<Rightarrow> [] | Some w \<Rightarrow> esc E w);
      let b = Notify ''connect'' ''me'' wmsg b;
      let b = (if wmsg = [] then b else AddOutputLine (''Welcome message: '' @ wmsg) b);
      Some (startAutoTransmit E b)
    }"

definition disconnectReason :: "disconnectType \<Rightarrow> string \<Rightarrow> string" where
  "disconnectReason ty s =
    (if s \<noteq> [] then s
     else case ty of DisconnectError \<Rightarrow> ''connection error'' | DisconnectKicked \<Rightarrow> ''kicked''
        | DisconnectBanned \<Rightarrow> ''banned'' | DisconnectUser \<Rightarrow> [])"

definition OnDisconnect :: "appEnv \<Rightarrow> disconnectType \<Rightarrow> string \<Rightarrow> barnard \<Rightarrow> barnard" where
  "OnDisconnect E ty s b =
    (let reason = disconnectReason ty s;
         b = cleanupConnectionAudio (stopRecordingForDisconnect E b);
         b = (if ba_ToneTest b then detachToneTestAudio (b\<lparr>ba_toneRunning := False\<rparr>) else b);
         b = Notify ''disconnect'' ''me'' reason b;
         b = AddOutputLine (if reason = [] then ''Disconnected'' else ''Disconnected: '' @ reason) b;
         b = b\<lparr>ba_Tx := False, ba_Connected := False\<rparr>
     in startReconnect (rebuildTrees b))"

section \<open>Answers of the server\<close>

definition denialText :: "permissionDeniedEvent \<Rightarrow> string" where
  "denialText e =
    (if pd_Type e = 0 then pd_String e
     else if pd_Type e = 1 then ''insufficient permissions''
     else if pd_Type e = 2 then ''cannot modify SuperUser''
     else if pd_Type e = 3 then ''invalid channel name''
     else if pd_Type e = 4 then ''text too long''
     else if pd_Type e = 6 then ''temporary channel''
     else if pd_Type e = 7 then ''missing certificate''
     else if pd_Type e = 8 then ''invalid user name''
     else if pd_Type e = 9 then ''channel full''
     else if pd_Type e = 10 then ''nesting limit''
     else [])"

definition OnPermissionDenied :: "permissionDeniedEvent \<Rightarrow> barnard \<Rightarrow> barnard" where
  "OnPermissionDenied e = AddOutputLine (''Permission denied: '' @ denialText e)"

text \<open>The registered users of a new list are new objects.\<close>

definition OnUserList :: "registeredUser list \<Rightarrow> barnard \<Rightarrow> barnard" where
  "OnUserList us b =
    (let b = AddOutputLine (''Admin: received '' @ digits (length us) @ '' registered users'') b; n = ba_nextRegistered b in
     b\<lparr>ba_adminUserList := [n ..< n + length us], ba_nextRegistered := n + length us,
       ba_registered := (\<lambda>r. if n \<le> r \<and> r < n + length us then us ! (r - n) else ba_registered b r)\<rparr>)"

definition OnACL :: "acl \<Rightarrow> barnard \<Rightarrow> barnard option" where
  "OnACL a b =
    do {
      ch \<leftarrow> channelOf b (acl_Channel a);
      Some ((AddOutputLine (''Admin: received ACLs for '' @ ch_Name ch) b)\<lparr>ba_adminACL := Some a\<rparr>)
    }"

definition OnBanList :: "ban list \<Rightarrow> barnard \<Rightarrow> barnard" where
  "OnBanList bans b = (AddOutputLine (''Admin: received '' @ digits (length bans) @ '' bans'') b)\<lparr>ba_adminBanList := bans\<rparr>"

definition OnContextActionChange :: "contextAction \<Rightarrow> barnard \<Rightarrow> barnard" where
  "OnContextActionChange a = AddOutputLine (''Admin: context action updated: '' @ ca_Name a)"

definition OnServerConfig :: "appEnv \<Rightarrow> serverConfig \<Rightarrow> barnard \<Rightarrow> barnard option" where
  "OnServerConfig E s = HandleRecordingAllowed E (sc_RecordingAllowed s)"

text \<open>The listener of the application, on the events in the order of their delivery.\<close>

fun onEvent :: "appEnv \<Rightarrow> event \<Rightarrow> barnard \<Rightarrow> barnard option" where
  "onEvent E (ConnectEvent welcome _) b = do { c \<leftarrow> ba_Client b; OnConnect E c welcome b }"
| "onEvent E (DisconnectEvent ty s) b = Some (OnDisconnect E ty s b)"
| "onEvent E (TextMessageEvent m) b = OnTextMessage E m b"
| "onEvent E (UserChangeEvent e) b = OnUserChange E e b"
| "onEvent E (ChannelChangeEvent e) b = OnChannelChange E e b"
| "onEvent E (PermissionDeniedEvent e) b = Some (OnPermissionDenied e b)"
| "onEvent E (UserListEvent us) b = Some (OnUserList us b)"
| "onEvent E (ACLEvent a) b = OnACL a b"
| "onEvent E (BanListEvent bans) b = Some (OnBanList bans b)"
| "onEvent E (ContextActionAddEvent a) b = Some (OnContextActionChange a b)"
| "onEvent E (ContextActionRemoveEvent a) b = Some (OnContextActionChange a b)"
| "onEvent E (ServerConfigEvent s) b = OnServerConfig E s b"

end
