(* ===== verification/RecordingLoop.thy ===== *)
theory RecordingLoop
  imports Notices
begin

text \<open>
  Recording as a loop through the server: a command changes the state and sends a request, the server
  echoes the request, the message handler applies it to the client and delivers the change to
  \<^verbatim>\<open>OnUserChange\<close>.  The detailed steps refine a machine on a few flags and the queue of pending requests, on
  which the commands are shown to settle and one sequence of commands is shown not to.
\<close>

section \<open>Messages received\<close>

fun deliverEvents :: "appEnv \<Rightarrow> event list \<Rightarrow> barnard \<Rightarrow> barnard option" where
  "deliverEvents E [] b = Some b"
| "deliverEvents E (e # es) b = do { b \<leftarrow> onEvent E e b; deliverEvents E es b }"

text \<open>A message handler on the client, and then the listener on the events it has emitted.\<close>

definition receiveMessage :: "appEnv \<Rightarrow> (client \<Rightarrow> outcome) \<Rightarrow> barnard \<Rightarrow> barnard option" where
  "receiveMessage E handle b =
    do {
      c \<leftarrow> ba_Client b;
      let c' = (case handle c of Ok c' \<Rightarrow> c' | Err _ c' \<Rightarrow> c');
      deliverEvents E (drop (length (c_events c)) (c_events c')) (b\<lparr>ba_Client := Some c'\<rparr>)
    }"

datatype recAct = Command string | Echo

text \<open>\<open>n\<close> of the requests sent have been echoed.\<close>

definition recStep :: "appEnv \<Rightarrow> recAct \<Rightarrow> barnard \<times> nat \<Rightarrow> (barnard \<times> nat) option" where
  "recStep E a s =
    (case s of (b, n) \<Rightarrow>
     (case a of
        Command cmd \<Rightarrow> map_option (\<lambda>b. (b, n)) (CommandRecord E cmd b)
      | Echo \<Rightarrow>
          (if n < length (ba_sent b) then
             (case ba_sent b ! n of
                SendUserState m \<Rightarrow> map_option (\<lambda>b. (b, Suc n)) (receiveMessage E (userState m) b)
              | _ \<Rightarrow> Some (b, Suc n))
           else Some (b, n))))"

fun recRun :: "appEnv \<Rightarrow> recAct list \<Rightarrow> barnard \<times> nat \<Rightarrow> (barnard \<times> nat) option" where
  "recRun E [] s = Some s"
| "recRun E (a # as) s = do { s \<leftarrow> recStep E a s; recRun E as s }"

section \<open>The abstract machine\<close>

record recView =
  rv_recorder :: bool
  rv_starting :: bool
  rv_flag :: bool
  rv_allowed :: "bool option"
  rv_queue :: "bool list"

definition viewStart :: "recView \<Rightarrow> recView" where
  "viewStart v =
    (if rv_allowed v = Some False \<or> rv_recorder v \<or> rv_starting v then v
     else v\<lparr>rv_starting := True, rv_queue := rv_queue v @ [True]\<rparr>)"

definition viewStop :: "recView \<Rightarrow> recView" where
  "viewStop v = v\<lparr>rv_recorder := False, rv_starting := False, rv_queue := rv_queue v @ [False]\<rparr>"

definition viewCommand :: "string \<Rightarrow> recView \<Rightarrow> recView" where
  "viewCommand cmd v =
    (let act = ToLower (TrimSpace cmd) in
     if act = [] \<or> act = ''toggle'' then (if rv_recorder v \<or> rv_starting v then viewStop v else viewStart v)
     else if act = ''start'' \<or> act = ''on'' then viewStart v
     else if act = ''stop'' \<or> act = ''off'' then viewStop v
     else v)"

definition viewEcho :: "bool \<Rightarrow> recView \<Rightarrow> recView" where
  "viewEcho canRecord v =
    (case rv_queue v of
       [] \<Rightarrow> v
     | x # q \<Rightarrow>
         let v' = v\<lparr>rv_flag := x, rv_queue := q\<rparr> in
         if x = rv_flag v then v'
         else if x then
           (if \<not> rv_starting v \<or> rv_recorder v then v'
            else if canRecord then v'\<lparr>rv_recorder := True, rv_starting := False\<rparr>
            else v'\<lparr>rv_starting := False, rv_queue := q @ [False]\<rparr>)
         else if rv_recorder v then v'\<lparr>rv_recorder := False, rv_starting := False\<rparr>
         else v')"

definition viewStep :: "bool \<Rightarrow> recAct \<Rightarrow> recView \<Rightarrow> recView" where
  "viewStep canRecord a v = (case a of Command cmd \<Rightarrow> viewCommand cmd v | Echo \<Rightarrow> viewEcho canRecord v)"

section \<open>The refinement\<close>

definition recordingMsg :: "uint32 \<Rightarrow> bool \<Rightarrow> userStateMsg" where
  "recordingMsg session v = emptyUserState\<lparr>m_us_Session := Some session, m_us_Recording := Some v\<rparr>"

text \<open>The client is synchronised and knows itself.\<close>

definition selfKnown :: "client \<Rightarrow> user_ref \<Rightarrow> bool" where
  "selfKnown c r \<longleftrightarrow> c_Self c = Some r \<and> map_of (c_Users c) (u_Session (c_user c r)) = Some r
    \<and> u_client (c_user c r) \<and> c_state c = StateSynced"

definition recMatches :: "barnard \<times> nat \<Rightarrow> recView \<Rightarrow> bool" where
  "recMatches s v \<longleftrightarrow> (\<exists>b n c r. s = (b, n) \<and> ba_Client b = Some c \<and> selfKnown c r
    \<and> n \<le> length (ba_sent b)
    \<and> drop n (ba_sent b) = map (\<lambda>x. SendUserState (recordingMsg (u_Session (c_user c r)) x)) (rv_queue v)
    \<and> rv_flag v = u_Recording (c_user c r) \<and> rv_recorder v = (ba_Recorder b \<noteq> None)
    \<and> rv_starting v = ba_recordingStarting b \<and> rv_allowed v = ba_recordingAllowed b)"

lemma recMatchesI:
  assumes "ba_Client b = Some c" and "selfKnown c r" and "n \<le> length (ba_sent b)"
    and "drop n (ba_sent b) = map (\<lambda>x. SendUserState (recordingMsg (u_Session (c_user c r)) x)) (rv_queue v)"
    and "rv_flag v = u_Recording (c_user c r)" and "rv_recorder v = (ba_Recorder b \<noteq> None)"
    and "rv_starting v = ba_recordingStarting b" and "rv_allowed v = ba_recordingAllowed b"
  shows "recMatches (b, n) v"
  using assms unfolding recMatches_def by blast

text \<open>Writing lines, notifications and labels touches none of this.\<close>

lemma core_fields [simp]:
  "ba_Recorder (AddOutputLine s b) = ba_Recorder b" "ba_recordingStarting (AddOutputLine s b) = ba_recordingStarting b"
  "ba_recordingAllowed (AddOutputLine s b) = ba_recordingAllowed b"
  "ba_Client (Notify x y z b) = ba_Client b" "ba_sent (Notify x y z b) = ba_sent b" "ba_Recorder (Notify x y z b) = ba_Recorder b"
  "ba_recordingStarting (Notify x y z b) = ba_recordingStarting b" "ba_recordingAllowed (Notify x y z b) = ba_recordingAllowed b"
  "ba_Client (renderGeneralStatus b) = ba_Client b" "ba_sent (renderGeneralStatus b) = ba_sent b"
  "ba_Recorder (renderGeneralStatus b) = ba_Recorder b" "ba_recordingStarting (renderGeneralStatus b) = ba_recordingStarting b"
  "ba_recordingAllowed (renderGeneralStatus b) = ba_recordingAllowed b"
  "ba_Client (setStreamRecorder p b) = ba_Client b" "ba_sent (setStreamRecorder p b) = ba_sent b"
  "ba_Recorder (setStreamRecorder p b) = ba_Recorder b" "ba_recordingStarting (setStreamRecorder p b) = ba_recordingStarting b"
  "ba_recordingAllowed (setStreamRecorder p b) = ba_recordingAllowed b"
  by (simp_all add: AddOutputLine_def Notify_def renderGeneralStatus_def setStreamRecorder_def Let_def split: nat.split)

lemma report_core [simp]:
  "ba_Client (report x y z b) = ba_Client b" "ba_sent (report x y z b) = ba_sent b" "ba_Recorder (report x y z b) = ba_Recorder b"
  "ba_recordingStarting (report x y z b) = ba_recordingStarting b" "ba_recordingAllowed (report x y z b) = ba_recordingAllowed b"
  "ba_Client (stopped E p b) = ba_Client b" "ba_sent (stopped E p b) = ba_sent b" "ba_Recorder (stopped E p b) = ba_Recorder b"
  "ba_recordingStarting (stopped E p b) = ba_recordingStarting b" "ba_recordingAllowed (stopped E p b) = ba_recordingAllowed b"
  by (auto simp: report_def stopped_def split: option.splits)

lemma recMatchesE:
  assumes "recMatches s v"
  obtains b n c r where "s = (b, n)" "ba_Client b = Some c" "selfKnown c r" "n \<le> length (ba_sent b)"
    "drop n (ba_sent b) = map (\<lambda>x. SendUserState (recordingMsg (u_Session (c_user c r)) x)) (rv_queue v)"
    "rv_flag v = u_Recording (c_user c r)" "rv_recorder v = (ba_Recorder b \<noteq> None)"
    "rv_starting v = ba_recordingStarting b" "rv_allowed v = ba_recordingAllowed b"
  using assms unfolding recMatches_def by blast

lemma selfUser_known: "ba_Client b = Some c \<Longrightarrow> selfKnown c r \<Longrightarrow> selfUser b = Some (c_user c r)"
  by (simp add: selfUser_def selfKnown_def)

lemma tellServer_known:
  assumes "ba_Client b = Some c" and "selfKnown c r"
  shows "tellServer x b = Some (b\<lparr>ba_sent := ba_sent b @ [SendUserState (recordingMsg (u_Session (c_user c r)) x)]\<rparr>)"
proof -
  have "u_client (c_user c r)" using assms(2) by (simp add: selfKnown_def)
  then show ?thesis
    using selfUser_known [OF assms]
    by (simp add: tellServer_def SetRecording_def userStateFor_def userRequest_def recordingMsg_def)
qed

lemma start_matches:
  assumes "recMatches (b, n) v"
  shows "\<exists>b'. StartRecording b = Some b' \<and> recMatches (b', n) (viewStart v)"
  using assms
proof (cases rule: recMatchesE)
  case (1 b' n' c r)
  note self = selfUser_known [OF 1(2,3)]
  have fields: "rv_recorder v = (ba_Recorder b \<noteq> None)" "rv_starting v = ba_recordingStarting b"
    "rv_allowed v = ba_recordingAllowed b" "selfUser b = Some (c_user c r)" using 1 self by simp_all
  have same: "recMatches (AddOutputLine s b, n) v" "recMatches (report x y z b, n) v" for s x y z
    using assms unfolding recMatches_def by simp_all
  consider "ba_recordingAllowed b = Some False" | "ba_recordingAllowed b \<noteq> Some False" "isRecordingActive b"
    | "ba_recordingAllowed b \<noteq> Some False" "\<not> isRecordingActive b" by blast
  then show ?thesis
  proof cases
    case 1
    then show ?thesis using fields same by (simp add: StartRecording_def viewStart_def)
  next
    case 2
    then show ?thesis using fields same by (simp add: StartRecording_def viewStart_def isRecordingActive_def)
  next
    case 3
    let ?b = "renderGeneralStatus (AddOutputLine ''Recording start requested''
      ((b\<lparr>ba_recordingStarting := True\<rparr>)\<lparr>ba_sent := ba_sent b @ [SendUserState (recordingMsg (u_Session (c_user c r)) True)]\<rparr>))"
    have "StartRecording b = Some ?b"
      using 3 1 self tellServer_known [of "b\<lparr>ba_recordingStarting := True\<rparr>" c r True]
      by (simp add: StartRecording_def)
    moreover have "recMatches (?b, n) (viewStart v)"
      by (rule recMatchesI [of _ c r]) (use 1 3 in \<open>simp_all add: viewStart_def isRecordingActive_def\<close>)
    ultimately show ?thesis by blast
  qed
qed

lemma stop_matches:
  assumes "recMatches (b, n) v"
  shows "\<exists>b'. StopRecording E True b = Some b' \<and> recMatches (b', n) (viewStop v)"
  using assms
proof (cases rule: recMatchesE)
  case (1 b' n' c r)
  let ?d = "setStreamRecorder None (b\<lparr>ba_Recorder := None, ba_recordingStarting := False\<rparr>)"
  have tell: "tellIfConnected True x = Some (x\<lparr>ba_sent := ba_sent x @ [SendUserState (recordingMsg (u_Session (c_user c r)) False)]\<rparr>)"
    if "ba_Client x = Some c" for x
    using tellServer_known [OF that 1(3)] selfUser_known [OF that 1(3)] by (simp add: tellIfConnected_def)
  show ?thesis
  proof (cases "ba_Recorder b")
    case None
    define x where "x = ?d\<lparr>ba_sent := ba_sent ?d @ [SendUserState (recordingMsg (u_Session (c_user c r)) False)]\<rparr>"
    define y where "y = renderGeneralStatus (if ba_recordingStarting b then report ''recordstop'' ''Recording start cancelled'' ''Recording start cancelled'' x
            else AddOutputLine ''Recording is not active'' x)"
    have "StopRecording E True b = Some y"
      using None tell [of ?d] 1 by (simp add: StopRecording_def detachRecorder_def x_def y_def)
    moreover have "recMatches (y, n) (viewStop v)"
      by (rule recMatchesI [of _ c r]) (use 1 None in \<open>simp_all add: viewStop_def x_def y_def\<close>)
    ultimately show ?thesis by blast
  next
    case (Some path)
    define x where "x = stopped E path ?d"
    define y where "y = renderGeneralStatus (x\<lparr>ba_sent := ba_sent x @ [SendUserState (recordingMsg (u_Session (c_user c r)) False)]\<rparr>)"
    have "StopRecording E True b = Some y"
      using Some tell [of x] 1 by (simp add: StopRecording_def detachRecorder_def x_def y_def)
    moreover have "recMatches (y, n) (viewStop v)"
      by (rule recMatchesI [of _ c r]) (use 1 Some in \<open>simp_all add: viewStop_def x_def y_def\<close>)
    ultimately show ?thesis by blast
  qed
qed

lemma command_matches:
  assumes "recMatches (b, n) v"
  shows "\<exists>b'. CommandRecord E cmd b = Some b' \<and> recMatches (b', n) (viewCommand cmd v)"
proof -
  have active: "isRecordingActive b = (rv_recorder v \<or> rv_starting v)"
    using assms unfolding recMatches_def by (auto simp: isRecordingActive_def)
  have same: "recMatches (AddOutputLine s b, n) v" for s
    using assms unfolding recMatches_def by simp
  show ?thesis
    using start_matches [OF assms] stop_matches [OF assms, of E] same active
    by (simp add: CommandRecord_def viewCommand_def ToggleRecording_def Let_def)
qed

section \<open>The echo\<close>

lemma recording_message:
  assumes "selfKnown c r"
  shows "userState (recordingMsg (u_Session (c_user c r)) x) c = Ok (emit (UserChangeEvent
    \<lparr>uc_Type = (if x \<noteq> u_Recording (c_user c r) then UserChangeRecording else 0), uc_User = Some r, uc_Actor = None, uc_String = []\<rparr>)
    (setUser r (\<lambda>u. u\<lparr>u_Recording := x\<rparr>) c))"
  using assms
  by (simp add: selfKnown_def userState_def recordingMsg_def emptyUserState_def findOrCreateUser_def findActor_def
      updateUser_def setFlagged_def emitIfSynced_def Let_def setUser_def)

lemma settings_known:
  assumes "ba_Client b = Some c" and "selfKnown c r"
  shows "\<exists>cfg c1. updateUserSettings r b = Some (b\<lparr>ba_UserConfig := cfg, ba_Client := Some c1\<rparr>) \<and> selfKnown c1 r
    \<and> u_Session (c_user c1 r) = u_Session (c_user c r) \<and> u_Recording (c_user c1 r) = u_Recording (c_user c r)"
proof -
  obtain cfg c1 where u: "UpdateUser r (ba_UserConfig b, c) = (cfg, c1)" by fastforce
  have "selfKnown c1 r \<and> u_Session (c_user c1 r) = u_Session (c_user c r) \<and> u_Recording (c_user c1 r) = u_Recording (c_user c r)"
    using u assms(2) by (auto simp: UpdateUser_def selfKnown_def Let_def setUser_def split: prod.splits)
  moreover have "updateUserSettings r b = Some (b\<lparr>ba_UserConfig := cfg, ba_Client := Some c1\<rparr>)"
    using u assms(1) by (simp add: updateUserSettings_def)
  ultimately show ?thesis by blast
qed

lemma no_notice: "\<not> Has 0 UserChangeConnected" "\<not> Has 0 UserChangeDisconnected" "\<not> Has 0 UserChangeChannel"
  "\<not> Has 0 UserChangeRecording" "\<not> Has 0 UserChangeComment" "\<not> Has 0 UserChangeStats"
  "\<not> Has UserChangeRecording UserChangeConnected" "\<not> Has UserChangeRecording UserChangeDisconnected"
  "\<not> Has UserChangeRecording UserChangeChannel" "Has UserChangeRecording UserChangeRecording"
  "\<not> Has UserChangeRecording UserChangeComment" "\<not> Has UserChangeRecording UserChangeStats"
  by (simp_all add: Has_def)

text \<open>What \<^verbatim>\<open>OnUserChange\<close> comes to for the two events an echo gives.\<close>

lemma change_recording:
  assumes "ty = UserChangeRecording \<or> ty = 0" and "ba_Client b = Some c" and "updateUserSettings r b = Some b1"
  shows "OnUserChange E \<lparr>uc_Type = ty, uc_User = Some r, uc_Actor = None, uc_String = []\<rparr> b
    = do { b2 \<leftarrow> (if ty = 0 then Some b1 else HandleRecordingChange E \<lparr>uc_Type = ty, uc_User = Some r, uc_Actor = None, uc_String = []\<rparr> b1);
           c2 \<leftarrow> ba_Client b2;
           Some (rebuildTrees (rememberUserChannel (c_user c2 r) b2)) }"
proof -
  let ?e = "\<lparr>uc_Type = ty, uc_User = Some r, uc_Actor = None, uc_String = []\<rparr>"
  have has: "Has ty UserChangeRecording = (ty \<noteq> 0)" "\<not> Has ty UserChangeConnected" "\<not> Has ty UserChangeDisconnected"
    "\<not> Has ty UserChangeChannel" "\<not> Has ty UserChangeComment" "\<not> Has ty UserChangeStats"
    using assms(1) no_notice by auto
  have "userChangeNotification c ?e b = None"
    using has by (simp add: userChangeNotification_def Let_def split: option.split)
  moreover have "muteOnArrival E ?e r b1 = Some b1" using has by (simp add: muteOnArrival_def)
  moreover have "\<exists>c1. ba_Client b1 = Some c1"
    using assms(2,3) by (auto simp: updateUserSettings_def Let_def split: prod.splits)
  ultimately show ?thesis
    using assms has
    by (auto simp: OnUserChange_def onlyIf_def updateUserChannel_def Let_def)
qed

lemma tree_core [simp]:
  "ba_Client (rebuildTrees b) = ba_Client b" "ba_sent (rebuildTrees b) = ba_sent b" "ba_Recorder (rebuildTrees b) = ba_Recorder b"
  "ba_recordingStarting (rebuildTrees b) = ba_recordingStarting b" "ba_recordingAllowed (rebuildTrees b) = ba_recordingAllowed b"
  "ba_Client (rememberUserChannel u b) = ba_Client b" "ba_sent (rememberUserChannel u b) = ba_sent b"
  "ba_Recorder (rememberUserChannel u b) = ba_Recorder b" "ba_recordingStarting (rememberUserChannel u b) = ba_recordingStarting b"
  "ba_recordingAllowed (rememberUserChannel u b) = ba_recordingAllowed b"
  by (auto simp: rebuildTrees_def rememberUserChannel_def split: option.split)

text \<open>The recorder's part of it.\<close>

definition viewChange :: "bool \<Rightarrow> recView \<Rightarrow> recView" where
  "viewChange canRecord v =
    (if rv_flag v then
       (if \<not> rv_starting v \<or> rv_recorder v then v
        else if canRecord then v\<lparr>rv_recorder := True, rv_starting := False\<rparr>
        else v\<lparr>rv_starting := False, rv_queue := rv_queue v @ [False]\<rparr>)
     else if rv_recorder v then v\<lparr>rv_recorder := False, rv_starting := False\<rparr>
     else v)"

definition canRecord :: "appEnv \<Rightarrow> bool" where
  "canRecord E = (case ae_recordingNew E of Inl _ \<Rightarrow> False | Inr _ \<Rightarrow> True)"

lemma viewEcho_change:
  "rv_queue v = x # q \<Longrightarrow> viewEcho ok v =
    (if x = rv_flag v then v\<lparr>rv_flag := x, rv_queue := q\<rparr> else viewChange ok (v\<lparr>rv_flag := x, rv_queue := q\<rparr>))"
  by (cases v) (simp add: viewEcho_def viewChange_def Let_def)

lemma finish_matches:
  assumes "recMatches (b, n) v"
  shows "\<exists>b'. finishRecordingStart E b = Some b' \<and> recMatches (b', n)
    (if \<not> rv_starting v \<or> rv_recorder v then v
     else if canRecord E then v\<lparr>rv_recorder := True, rv_starting := False\<rparr>
     else v\<lparr>rv_starting := False, rv_queue := rv_queue v @ [False]\<rparr>)"
  using assms
proof (cases rule: recMatchesE)
  case (1 b' n' c r)
  show ?thesis
  proof (cases "\<not> rv_starting v \<or> rv_recorder v")
    case True
    then have "finishRecordingStart E b = Some b" using 1 by (auto simp: finishRecordingStart_def)
    then show ?thesis using True assms by simp
  next
    case False
    then have s: "ba_recordingStarting b" "ba_Recorder b = None" using 1 by simp_all
    show ?thesis
    proof (cases "ae_recordingNew E")
      case (Inl err)
      define x where "x = report ''recorderror'' (''Could not start recording: '' @ err) err (b\<lparr>ba_recordingStarting := False\<rparr>)"
      define y where "y = renderGeneralStatus (x\<lparr>ba_sent := ba_sent x @ [SendUserState (recordingMsg (u_Session (c_user c r)) False)]\<rparr>)"
      have "ba_Client x = Some c" using 1 by (simp add: x_def)
      then have "finishRecordingStart E b = Some y"
        using s Inl tellServer_known [of x c r False] 1 by (simp add: finishRecordingStart_def x_def y_def)
      moreover have "recMatches (y, n) (v\<lparr>rv_starting := False, rv_queue := rv_queue v @ [False]\<rparr>)"
        by (rule recMatchesI [of _ c r]) (use 1 s in \<open>simp_all add: x_def y_def\<close>)
      ultimately show ?thesis using False Inl by (simp add: canRecord_def)
    next
      case (Inr path)
      define y where "y = renderGeneralStatus (report ''recordstart'' (''Recording started: '' @ path) path
           (setStreamRecorder (Some path) (b\<lparr>ba_Recorder := Some path, ba_recordingStarting := False\<rparr>)))"
      have "finishRecordingStart E b = Some y" using s Inr by (simp add: finishRecordingStart_def y_def)
      moreover have "recMatches (y, n) (v\<lparr>rv_recorder := True, rv_starting := False\<rparr>)"
        by (rule recMatchesI [of _ c r]) (use 1 s in \<open>simp_all add: y_def\<close>)
      ultimately show ?thesis using False Inr by (simp add: canRecord_def)
    qed
  qed
qed

lemma change_matches:
  assumes "recMatches (b, n) v" and "ba_Client b = Some c" and "c_Self c = Some r"
  shows "\<exists>b'. HandleRecordingChange E \<lparr>uc_Type = ty, uc_User = Some r, uc_Actor = None, uc_String = []\<rparr> b = Some b'
    \<and> recMatches (b', n) (viewChange (canRecord E) v)"
  using assms(1)
proof (cases rule: recMatchesE)
  case (1 b' n' c' r')
  then have [simp]: "c' = c" "r' = r" "b' = b" "n' = n" using assms by (auto simp: selfKnown_def)
  show ?thesis
  proof (cases "rv_flag v")
    case True
    then show ?thesis
      using finish_matches [OF assms(1), of E] 1 assms(3)
      by (simp add: HandleRecordingChange_def viewChange_def assms(2))
  next
    case False
    show ?thesis
    proof (cases "ba_Recorder b")
      case None
      then show ?thesis
        using False 1 assms by (simp add: HandleRecordingChange_def viewChange_def)
    next
      case (Some path)
      define x where "x = renderGeneralStatus (stopped E path (setStreamRecorder None (b\<lparr>ba_Recorder := None, ba_recordingStarting := False\<rparr>)))"
      have "StopRecording E False b = Some x"
        using Some by (simp add: StopRecording_def detachRecorder_def tellIfConnected_def x_def)
      moreover have "recMatches (x, n) (v\<lparr>rv_recorder := False, rv_starting := False\<rparr>)"
        by (rule recMatchesI [of _ c r]) (use 1 Some in \<open>simp_all add: x_def\<close>)
      ultimately show ?thesis
        using False 1 assms Some by (simp add: HandleRecordingChange_def viewChange_def)
    qed
  qed
qed

lemma deliver_one: "deliverEvents E [e] b = onEvent E e b"
  by (cases "onEvent E e b") simp_all

lemma echo_matches:
  assumes "recMatches (b, n) v"
  shows "\<exists>s'. recStep E Echo (b, n) = Some s' \<and> recMatches s' (viewEcho (canRecord E) v)"
  using assms
proof (cases rule: recMatchesE)
  case (1 b' n' c r)
  then have [simp]: "b' = b" "n' = n" by simp_all
  show ?thesis
  proof (cases "rv_queue v")
    case Nil
    then show ?thesis using 1 assms by (simp add: recStep_def viewEcho_def)
  next
    case (Cons x q)
    define f where "f = (\<lambda>x. SendUserState (recordingMsg (u_Session (c_user c r)) x))"
    have d: "drop n (ba_sent b) = f x # map f q" using 1 Cons by (simp add: f_def)
    then have len: "n < length (ba_sent b)" by (metis drop_all linorder_not_le list.distinct(1))
    then have msg: "ba_sent b ! n = f x" and rest: "drop (Suc n) (ba_sent b) = map f q"
      using d Cons_nth_drop_Suc [OF len] by simp_all
    define e where "e = \<lparr>uc_Type = (if x \<noteq> u_Recording (c_user c r) then UserChangeRecording else 0),
      uc_User = Some r, uc_Actor = None, uc_String = []\<rparr>"
    define c0 where "c0 = emit (UserChangeEvent e) (setUser r (\<lambda>u. u\<lparr>u_Recording := x\<rparr>) c)"
    define w where "w = v\<lparr>rv_flag := x, rv_queue := q\<rparr>"
    have k0: "selfKnown c0 r" "u_Session (c_user c0 r) = u_Session (c_user c r)" "u_Recording (c_user c0 r) = x"
      using 1(3) by (simp_all add: c0_def selfKnown_def emit_def setUser_def)
    obtain cfg c1 where b1: "updateUserSettings r (b\<lparr>ba_Client := Some c0\<rparr>) = Some (b\<lparr>ba_Client := Some c0, ba_UserConfig := cfg, ba_Client := Some c1\<rparr>)"
      and k1: "selfKnown c1 r" "u_Session (c_user c1 r) = u_Session (c_user c r)" "u_Recording (c_user c1 r) = x"
      using settings_known [of "b\<lparr>ba_Client := Some c0\<rparr>" c0 r] k0 by auto
    define b1 where "b1 = b\<lparr>ba_Client := Some c0, ba_UserConfig := cfg, ba_Client := Some c1\<rparr>"
    have m1: "recMatches (b1, Suc n) w"
      by (rule recMatchesI [OF _ k1(1)]) (use 1 k1 len rest in \<open>simp_all add: b1_def w_def f_def\<close>)
    have recv: "receiveMessage E (userState (recordingMsg (u_Session (c_user c r)) x)) b = OnUserChange E e (b\<lparr>ba_Client := Some c0\<rparr>)"
      using 1(2) recording_message [OF 1(3), of x]
      by (simp add: receiveMessage_def e_def c0_def emit_def setUser_def deliver_one del: deliverEvents.simps not_None_eq)
    have ty: "uc_Type e = UserChangeRecording \<or> uc_Type e = 0" by (simp add: e_def)
    have on: "OnUserChange E e (b\<lparr>ba_Client := Some c0\<rparr>)
      = do { b2 \<leftarrow> (if uc_Type e = 0 then Some b1 else HandleRecordingChange E e b1);
           c2 \<leftarrow> ba_Client b2; Some (rebuildTrees (rememberUserChannel (c_user c2 r) b2)) }"
      using change_recording [OF ty _ b1 [folded b1_def], of c0 E] by (simp add: e_def)
    have "\<exists>b2. (if uc_Type e = 0 then Some b1 else HandleRecordingChange E e b1) = Some b2
      \<and> recMatches (b2, Suc n) (viewEcho (canRecord E) v)"
    proof (cases "x = u_Recording (c_user c r)")
      case True
      then show ?thesis using m1 1(6) by (simp add: e_def viewEcho_change [OF Cons] w_def)
    next
      case False
      have "\<exists>b2. HandleRecordingChange E e b1 = Some b2 \<and> recMatches (b2, Suc n) (viewChange (canRecord E) w)"
        using change_matches [OF m1, of c1 r E "uc_Type e"] k1(1) by (simp add: b1_def selfKnown_def e_def)
      then show ?thesis
        using False 1(6) by (simp add: e_def viewEcho_change [OF Cons] w_def)
    qed
    then obtain b2 where b2: "(if uc_Type e = 0 then Some b1 else HandleRecordingChange E e b1) = Some b2"
      and m2: "recMatches (b2, Suc n) (viewEcho (canRecord E) v)" by blast
    from m2 obtain c2 where c2: "ba_Client b2 = Some c2" unfolding recMatches_def by blast
    have "recMatches (rebuildTrees (rememberUserChannel (c_user c2 r) b2), Suc n) (viewEcho (canRecord E) v)"
      using m2 unfolding recMatches_def by simp
    then show ?thesis
      using len msg recv on b2 c2 by (simp add: recStep_def f_def)
  qed
qed

lemma step_matches:
  assumes "recMatches s v"
  shows "\<exists>s'. recStep E a s = Some s' \<and> recMatches s' (viewStep (canRecord E) a v)"
proof -
  obtain b n where s: "s = (b, n)" by fastforce
  show ?thesis
    using echo_matches [of b n v E] command_matches [of b n v E] assms
    by (cases a) (auto simp: s viewStep_def recStep_def)
qed

text \<open>C7. Recording refines the machine on flags: from corresponding states, every command and every echo of
  the server, through the message handler and all of \<^verbatim>\<open>OnUserChange\<close>, returns and ends in corresponding states.\<close>

theorem recording_refines:
  assumes "recMatches s v"
  shows "\<exists>s'. recStep E a s = Some s' \<and> recMatches s' (viewStep (canRecord E) a v)"
  using assms by (rule step_matches)

definition recClient :: client where
  "recClient = (newClient NewConfig)\<lparr>c_Self := Some 0, c_state := StateSynced, c_Users := [(4, 0)],
     c_user := (\<lambda>_. (newUser 4)\<lparr>u_client := True\<rparr>)\<rparr>"

definition idleView :: recView where
  "idleView = \<lparr>rv_recorder = False, rv_starting = False, rv_flag = False, rv_allowed = None, rv_queue = []\<rparr>"

lemma rec_idle: "recMatches (newBarnard\<lparr>ba_Client := Some recClient\<rparr>, 0) idleView"
  by (rule recMatchesI [of _ recClient 0]) (simp_all add: newBarnard_def recClient_def selfKnown_def idleView_def newUser_def)

theorem recording_refines_witness:
  "\<exists>s'. recStep recEnv (Command ''start'') (newBarnard\<lparr>ba_Client := Some recClient\<rparr>, 0) = Some s'
    \<and> recMatches s' (viewStep (canRecord recEnv) (Command ''start'') idleView)"
  by (rule recording_refines [OF rec_idle])

section \<open>What follows\<close>

lemma run_matches:
  assumes "recMatches s v"
  shows "\<exists>s'. recRun E as s = Some s' \<and> recMatches s' (fold (viewStep (canRecord E)) as v)"
  using assms
proof (induction as arbitrary: s v)
  case (Cons a as)
  then show ?case using step_matches [OF Cons.prems, of E a] by fastforce
qed simp

definition viewSettled :: "recView \<Rightarrow> bool" where
  "viewSettled v \<longleftrightarrow> rv_queue v = [] \<and> \<not> rv_starting v \<and> rv_flag v = rv_recorder v"

lemma view_round: "viewSettled v \<Longrightarrow> viewSettled (fold (viewStep ok) [Command cmd, Echo, Echo] v)"
  by (auto simp: viewSettled_def viewStep_def viewCommand_def viewStart_def viewStop_def viewEcho_def Let_def split: list.split)

lemma view_rounds: "viewSettled v \<Longrightarrow> viewSettled (fold (viewStep ok) (concat (map (\<lambda>cmd. [Command cmd, Echo, Echo]) cmds)) v)"
proof (induction cmds arbitrary: v)
  case (Cons cmd cmds)
  then show ?case using view_round [OF Cons.prems, of ok cmd] by simp
qed simp

text \<open>Commands that wait for the server settle: after any sequence of recording commands, each
  given after the echoes of the one before, nothing is pending and the server shows the user as recording exactly
  when a recorder runs, also when recorders cannot be made.\<close>

theorem recording_settles:
  assumes "recMatches s v" and "viewSettled v"
  shows "\<exists>b n c r. recRun E (concat (map (\<lambda>cmd. [Command cmd, Echo, Echo]) cmds)) s = Some (b, n)
    \<and> ba_Client b = Some c \<and> c_Self c = Some r \<and> drop n (ba_sent b) = [] \<and> \<not> ba_recordingStarting b
    \<and> u_Recording (c_user c r) = (ba_Recorder b \<noteq> None)"
proof -
  let ?as = "concat (map (\<lambda>cmd. [Command cmd, Echo, Echo]) cmds)"
  obtain s' where "recRun E ?as s = Some s'" "recMatches s' (fold (viewStep (canRecord E)) ?as v)"
    using run_matches [OF assms(1)] by blast
  then show ?thesis
    using view_rounds [OF assms(2), of "canRecord E" cmds] unfolding recMatches_def viewSettled_def selfKnown_def
    by fastforce
qed

theorem recording_settles_witness:
  "\<exists>b n. recRun recEnv (concat (map (\<lambda>cmd. [Command cmd, Echo, Echo]) [''start'', ''stop''])) (newBarnard\<lparr>ba_Client := Some recClient\<rparr>, 0)
    = Some (b, n) \<and> \<not> ba_recordingStarting b"
  using recording_settles [OF rec_idle, of recEnv "[''start'', ''stop'']"] by (auto simp: viewSettled_def idleView_def)

text \<open>C39. Commands that do not wait may not: start, stop and start again before the first echo, and
  when all is echoed the server shows the user as recording while nothing records; another start then stays pending
  for good.\<close>

theorem quick_restart_unrecorded:
  assumes "recMatches s v" and "viewSettled v" and "\<not> rv_recorder v" and "rv_allowed v \<noteq> Some False" and "canRecord E"
  shows "\<exists>b n c r b' n'. recRun E [Command ''start'', Command ''stop'', Command ''start'', Echo, Echo, Echo] s = Some (b, n)
    \<and> ba_Client b = Some c \<and> c_Self c = Some r \<and> drop n (ba_sent b) = []
    \<and> u_Recording (c_user c r) \<and> ba_Recorder b = None
    \<and> recRun E [Command ''start'', Echo] (b, n) = Some (b', n') \<and> drop n' (ba_sent b') = []
    \<and> ba_recordingStarting b' \<and> ba_Recorder b' = None"
proof -
  let ?as = "[Command ''start'', Command ''stop'', Command ''start'', Echo, Echo, Echo]"
  have words: "ToLower (TrimSpace ''start'') = ''start''" "ToLower (TrimSpace ''stop'') = ''stop''"
    by (simp_all add: ToLower_def TrimSpace_def lowerChar_def isSpace_def)
  have v: "fold (viewStep True) ?as v = v\<lparr>rv_flag := True\<rparr>"
    "fold (viewStep True) [Command ''start'', Echo] (v\<lparr>rv_flag := True\<rparr>) = v\<lparr>rv_flag := True, rv_starting := True\<rparr>"
    using assms(2-4) by (simp_all add: viewSettled_def viewStep_def viewCommand_def viewStart_def viewStop_def viewEcho_def words Let_def)
  obtain s1 where r1: "recRun E ?as s = Some s1" and m1: "recMatches s1 (v\<lparr>rv_flag := True\<rparr>)"
    using run_matches [OF assms(1), of E ?as] assms(5) v(1) by auto
  obtain s2 where r2: "recRun E [Command ''start'', Echo] s1 = Some s2" and m2: "recMatches s2 (v\<lparr>rv_flag := True, rv_starting := True\<rparr>)"
    using run_matches [OF m1, of E "[Command ''start'', Echo]"] assms(5) v(2) by auto
  obtain b n c r where 1: "s1 = (b, n)" "ba_Client b = Some c" "c_Self c = Some r" "drop n (ba_sent b) = []"
      "u_Recording (c_user c r)" "ba_Recorder b = None"
    using m1 assms(2,3) unfolding recMatches_def viewSettled_def selfKnown_def by auto
  obtain b' n' where 2: "s2 = (b', n')" "drop n' (ba_sent b') = []" "ba_recordingStarting b'" "ba_Recorder b' = None"
    using m2 assms(2,3) unfolding recMatches_def viewSettled_def by auto
  show ?thesis using r1 r2 1 2 by blast
qed

theorem quick_restart_unrecorded_witness:
  "\<exists>b n c r. recRun recEnv [Command ''start'', Command ''stop'', Command ''start'', Echo, Echo, Echo]
      (newBarnard\<lparr>ba_Client := Some recClient\<rparr>, 0) = Some (b, n)
    \<and> ba_Client b = Some c \<and> c_Self c = Some r \<and> u_Recording (c_user c r) \<and> ba_Recorder b = None"
proof -
  have "canRecord recEnv" by (simp add: canRecord_def recEnv_def)
  moreover have "viewSettled idleView" "\<not> rv_recorder idleView" "rv_allowed idleView \<noteq> Some False"
    by (simp_all add: viewSettled_def idleView_def)
  ultimately show ?thesis using quick_restart_unrecorded [OF rec_idle, of recEnv] by blast
qed

end
