(* ===== verification/Input.thy ===== *)
theory Input
  imports Notices AdminMenu Session "HOL-Library.List_Lexorder" "HOL-Library.Char_ord"
begin

text \<open>
  What the user does: keys in the tree, hotkeys, lines typed and commands from the FIFO (\<^verbatim>\<open>barnard.go\<close>,
  \<^verbatim>\<open>ui.go\<close>, the listeners of \<^verbatim>\<open>uiterm/ui.go\<close>), and the items the tree is built of (\<^verbatim>\<open>ui_tree.go\<close>).  Scrolling,
  layout and the microphone volume keys are not part of the state.
\<close>

section \<open>Focus and closing\<close>

definition OnFocusPress :: "barnard \<Rightarrow> barnard" where
  "OnFocusPress b = SetActive (if ba_active b = uiViewInput then uiViewTree else uiViewInput) b"

definition GotoChat :: "barnard \<Rightarrow> barnard" where
  "GotoChat = OnFocusPress"

definition shutdown :: "appEnv \<Rightarrow> barnard \<Rightarrow> barnard option" where
  "shutdown E b =
    do {
      b \<leftarrow> StopRecordingIfActive E True (stopReconnects b);
      b \<leftarrow> onClient (snd \<circ> Disconnect) (cleanupToneTestAudio b);
      Some (b\<lparr>ba_uiClosed := True\<rparr>)
    }"

section \<open>Volume\<close>

abbreviation "ten32 \<equiv> (0x41200000 :: float32)"
abbreviation "hundred32 \<equiv> (0x42C80000 :: float32)"
abbreviation "stepUp32 \<equiv> (0x3DCCCCCD :: float32)"
abbreviation "stepDown32 \<equiv> (0xBDCCCCCD :: float32)"

text \<open>The new boost and volume of one user.\<close>

definition changedVolume :: "floatOps \<Rightarrow> float32 \<Rightarrow> user \<Rightarrow> uint16 \<times> float32" where
  "changedVolume F change u =
    (let curboost = fo_div F (fo_ofUint16 F (u_boost u - 1)) ten32;
         ng = fo_add F (fo_add F (u_volume u) curboost) change;
         (boost, ng) = (if fo_less F one32 ng then (fo_toUint16 F (fo_mul F ng ten32) - 10 + 1, one32) else (1, ng))
     in (boost, if fo_less F ng 0 then 0 else ng))"

definition storeVolume :: "(user \<Rightarrow> uint16 \<times> float32) \<Rightarrow> user_ref \<Rightarrow> barnard \<Rightarrow> barnard option" where
  "storeVolume f r b =
    do {
      c \<leftarrow> ba_Client b;
      let (boost, volume) = f (c_user c r);
      let c = setUser r (\<lambda>u. u\<lparr>u_boost := boost, u_volume := volume\<rparr>) c;
      (cfg, c) \<leftarrow> UpdateConfig r (ba_UserConfig b, c);
      Some ((updateUserGain r b)\<lparr>ba_Client := Some c, ba_UserConfig := cfg\<rparr>)
    }"

fun storeVolumes :: "(user \<Rightarrow> uint16 \<times> float32) \<Rightarrow> user_ref list \<Rightarrow> barnard \<Rightarrow> barnard option" where
  "storeVolumes f [] b = Some b"
| "storeVolumes f (r # rs) b = do { b \<leftarrow> storeVolume f r b; storeVolumes f rs b }"

definition setVolumes :: "appEnv \<Rightarrow> (user \<Rightarrow> uint16 \<times> float32) \<Rightarrow> user_ref list \<Rightarrow> barnard \<Rightarrow> barnard option" where
  "setVolumes E f users b =
    (if ba_Stream b then
       map_option (\<lambda>b. rebuildTrees (saveReported E ''Volume: could not save setting: '' b)) (storeVolumes f users b)
     else Some b)"

definition changeVolume :: "appEnv \<Rightarrow> user_ref list \<Rightarrow> float32 \<Rightarrow> barnard \<Rightarrow> barnard option" where
  "changeVolume E users change = setVolumes E (changedVolume (ae_float E) change) users"

definition resetVolume :: "appEnv \<Rightarrow> user_ref list \<Rightarrow> barnard \<Rightarrow> barnard option" where
  "resetVolume E = setVolumes E (\<lambda>_. (1, one32))"

section \<open>Keys in the tree\<close>

definition makeUsersArray :: "channel \<Rightarrow> user_ref list" where
  "makeUsersArray ch = map snd (ch_Users ch)"

fun muteUsers :: "appEnv \<Rightarrow> bool \<Rightarrow> user_ref list \<Rightarrow> barnard \<Rightarrow> barnard option" where
  "muteUsers E muted [] b = Some b"
| "muteUsers E muted (r # rs) b =
    do {
      u \<leftarrow> userOf b r;
      b \<leftarrow> onlyIf (u_locallyMuted u \<noteq> muted) (toggleMuteReported E r) b;
      muteUsers E muted rs (updateUserGain r b)
    }"

definition toggleChannelMute :: "appEnv \<Rightarrow> chan_ref \<Rightarrow> barnard \<Rightarrow> barnard option" where
  "toggleChannelMute E ch b =
    do {
      c \<leftarrow> channelOf b ch;
      let muted = (\<not> isChannelMuted (ch_ID c) b);
      b \<leftarrow> muteUsers E muted (makeUsersArray c) b;
      let b = setChannelMuted (ch_ID c) muted b;
      b \<leftarrow> onlyIf muted (\<lambda>b. do {
             self \<leftarrow> selfChannel b;
             s \<leftarrow> channelOf b self;
             Some (if ch_ID s = ch_ID c \<and> ba_Tx b then StopTransmission b else b)
           }) b;
      Some (rebuildTrees b)
    }"

definition enterItem :: "treeItem \<Rightarrow> barnard \<Rightarrow> barnard option" where
  "enterItem item b =
    do {
      b \<leftarrow> (case ti_Channel item of
             None \<Rightarrow> Some b
           | Some ch \<Rightarrow> do {
               u \<leftarrow> selfUser b;
               c \<leftarrow> channelOf b ch;
               b \<leftarrow> send (Move c u) b;
               b \<leftarrow> SetSelectedUser None b;
               Some (GotoChat b)
             });
      (case ti_User item of
         None \<Rightarrow> Some b
       | Some r \<Rightarrow> map_option GotoChat (SetSelectedUser (if ba_selectedUser b = Some r then None else Some r) b))
    }"

definition volumeKeys :: "appEnv \<Rightarrow> hotkeys \<Rightarrow> keyCode \<Rightarrow> (barnard \<Rightarrow> user_ref list option) \<Rightarrow> barnard \<Rightarrow> barnard option" where
  "volumeKeys E h k users b =
    do {
      down \<leftarrow> hk_VolumeDown h; up \<leftarrow> hk_VolumeUp h; reset \<leftarrow> hk_VolumeReset h;
      b \<leftarrow> onlyIf (k = down) (\<lambda>b. do { us \<leftarrow> users b; changeVolume E us stepDown32 b }) b;
      b \<leftarrow> onlyIf (k = up) (\<lambda>b. do { us \<leftarrow> users b; changeVolume E us stepUp32 b }) b;
      onlyIf (k = reset) (\<lambda>b. do { us \<leftarrow> users b; resetVolume E us b }) b
    }"

definition TreeItemKeyPress :: "appEnv \<Rightarrow> hotkeys \<Rightarrow> treeItem \<Rightarrow> keyCode \<Rightarrow> barnard \<Rightarrow> barnard option" where
  "TreeItemKeyPress E h item k b =
    do {
      b \<leftarrow> onlyIf (k = KeyEnter) (enterItem item) b;
      b \<leftarrow> (case ti_Channel item of
             None \<Rightarrow> Some b
           | Some ch \<Rightarrow> do {
               m \<leftarrow> hk_MuteToggle h;
               b \<leftarrow> onlyIf (k = m) (toggleChannelMute E ch) b;
               volumeKeys E h k (\<lambda>b. map_option makeUsersArray (channelOf b ch)) b
             });
      (case ti_User item of
         None \<Rightarrow> Some b
       | Some r \<Rightarrow> do {
           m \<leftarrow> hk_MuteToggle h;
           b \<leftarrow> onlyIf (k = m) (\<lambda>b. map_option (\<lambda>b. rebuildTrees (updateUserGain r b)) (toggleMuteReported E r b)) b;
           volumeKeys E h k (\<lambda>_. Some [r]) b
         })
    }"

section \<open>Lines and commands\<close>

text \<open>\<^verbatim>\<open>strings.SplitN(s, " ", 2)\<close>, without a second part as the empty one.\<close>

definition splitCommand :: "string \<Rightarrow> string \<times> string" where
  "splitCommand s = (takeWhile (\<lambda>c. c \<noteq> CHR '' '') s, drop 1 (dropWhile (\<lambda>c. c \<noteq> CHR '' '') s))"

definition runCommand :: "appEnv \<Rightarrow> string \<Rightarrow> string \<Rightarrow> (barnard \<Rightarrow> barnard option) \<Rightarrow> barnard \<Rightarrow> barnard option" where
  "runCommand E name args unknown b =
    (if name = ''file'' then CommandPlayFile E args b
     else if name = ''stop'' then CommandStopFile b
     else if name = ''exit'' then shutdown E b
     else if name = ''status'' then Some (CommandStatus b)
     else if name = ''noise'' then Some (CommandNoiseSuppressionToggle E b)
     else if name = ''agc'' then Some (CommandAGCToggle E b)
     else if name = ''record'' then CommandRecord E args b
     else if name = ''admin'' then executeAdminCommand args b
     else if name = ''micup'' then setTransmit E 1 b
     else if name = ''micdown'' then setTransmit E 0 b
     else if name = ''toggle'' \<or> name = ''talk'' then setTransmit E 2 b
     else unknown b)"

definition sayText :: "appEnv \<Rightarrow> string \<Rightarrow> barnard \<Rightarrow> barnard option" where
  "sayText E s b =
    (case (ba_Client b, selfUser b) of
       (Some c, Some self) \<Rightarrow>
         (case ba_selectedUser b of
            Some r \<Rightarrow> map_option (AddOutputPrivateMessage E (Some self) (c_user c r) s) (send (UserSend s r c) b)
          | None \<Rightarrow> do {
              ch \<leftarrow> u_Channel self;
              map_option (AddOutputMessage E (Some self) s) (send (ChannelSend s False ch c) b)
            })
     | _ \<Rightarrow> Some b)"

definition OnTextInput :: "appEnv \<Rightarrow> string \<Rightarrow> barnard \<Rightarrow> barnard option" where
  "OnTextInput E s b =
    do {
      (b, handled) \<leftarrow> handleAdminPrompt s b;
      if handled \<or> s = [] then Some b
      else if hasPrefix ''/'' s then
        (case splitCommand (TrimPrefix ''/'' s) of (name, args) \<Rightarrow>
           runCommand E name args (\<lambda>b. Some (AddOutputLine (''Unknown command: /'' @ name) b)) b)
      else sayText E s b
    }"

text \<open>A line of the FIFO (\<^verbatim>\<open>onCommandEvent\<close>): the same commands, and nothing for another name.\<close>

definition onCommandEvent :: "appEnv \<Rightarrow> string \<Rightarrow> barnard \<Rightarrow> barnard option" where
  "onCommandEvent E cmd b = (case splitCommand cmd of (name, args) \<Rightarrow> runCommand E name args Some b)"

section \<open>Items of the tree\<close>

record treeLine =
  tl_item :: treeItem
  tl_display :: string
  tl_userSession :: uint32
  tl_channelID :: uint32
  tl_snapshot :: bool

definition userDisplay :: "appEnv \<Rightarrow> user \<Rightarrow> string" where
  "userDisplay E u =
    (let F = ae_float E;
         boostPercent = fo_mul F (fo_ofUint16 F (u_boost u - 1)) ten32;
         totalVolume = fo_add F (fo_mul F (u_volume u) hundred32) boostPercent;
         display = esc E (u_Name u) @ '' ['' @ ae_percent E totalVolume @ ''%]''
     in if u_locallyMuted u then ''[MUTED] '' @ display else display)"

definition channelLine :: "string \<Rightarrow> client \<Rightarrow> chan_ref \<Rightarrow> treeLine" where
  "channelLine display c ch = \<lparr>tl_item = \<lparr>ti_User = None, ti_Channel = Some ch\<rparr>, tl_display = display,
     tl_userSession = 0, tl_channelID = ch_ID (c_channel c ch), tl_snapshot = True\<rparr>"

text \<open>\<open>None\<close> stands for the parent of the root.  Entries of equal names come in the order of the map.\<close>

definition TreeItemBuild :: "appEnv \<Rightarrow> barnard \<Rightarrow> treeLine option \<Rightarrow> treeLine list" where
  "TreeItemBuild E b item =
    (case ba_Client b of
       None \<Rightarrow> []
     | Some c \<Rightarrow>
       (case item of
          None \<Rightarrow> (case map_of (c_Channels c) 0 of
              None \<Rightarrow> []
            | Some root \<Rightarrow> [channelLine (''#'' @ esc E (ch_Name (c_channel c root))) c root])
        | Some line \<Rightarrow>
            (case (ti_User (tl_item line), ti_Channel (tl_item line)) of
               (None, Some ch) \<Rightarrow>
                 let name = (\<lambda>r. ch_Name (c_channel c r));
                     display = (\<lambda>r. (if isChannelMuted (ch_ID (c_channel c r)) b then ''[MUTED] '' else []) @ ''#'' @ esc E (name r))
                 in map (\<lambda>r. \<lparr>tl_item = \<lparr>ti_User = Some r, ti_Channel = None\<rparr>, tl_display = userDisplay E (c_user c r),
                        tl_userSession = u_Session (c_user c r), tl_channelID = 0, tl_snapshot = True\<rparr>)
                      (sort_key (\<lambda>r. u_Name (c_user c r)) (makeUsersArray (c_channel c ch)))
                    @ map (\<lambda>r. channelLine (display r) c r) (sort_key name (map snd (ch_Children (c_channel c ch))))
             | _ \<Rightarrow> [])))"

text \<open>Whether two items show the same user or channel.\<close>

definition sameUserChannelTreeItem :: "client \<Rightarrow> treeLine \<Rightarrow> treeLine \<Rightarrow> bool" where
  "sameUserChannelTreeItem c x y =
    (case (ti_User (tl_item x), ti_User (tl_item y)) of
       (Some u, Some u') \<Rightarrow>
         if tl_snapshot x \<and> tl_snapshot y then tl_userSession x = tl_userSession y
         else u_Session (c_user c u) = u_Session (c_user c u')
     | _ \<Rightarrow>
       (case (ti_Channel (tl_item x), ti_Channel (tl_item y)) of
          (Some ch, Some ch') \<Rightarrow>
            if tl_snapshot x \<and> tl_snapshot y then tl_channelID x = tl_channelID y
            else ch_ID (c_channel c ch) = ch_ID (c_channel c ch')
        | _ \<Rightarrow> False))"

end
