(* ===== verification/Textview.thy ===== *)
theory Textview
  imports GoStrings "HOL-Library.Sublist"
begin

text \<open>
  The scrolling text of the output view (\<^verbatim>\<open>uiterm/textview.go\<close>): the stored lines, the display lines they
  wrap to, the scroll position and what is drawn.  The display lines are kept up to date line by line; they
  are shown to be at all times what a complete re-wrap gives.  A character stands for a rune.
\<close>

section \<open>State\<close>

record textview =
  tv_Lines :: "string list"
  tv_CurrentLine :: int
  tv_showTimestamps :: bool
  tv_parsedLines :: "string list"
  tv_x0 :: int
  tv_y0 :: int
  tv_x1 :: int
  tv_y1 :: int

text \<open>After \<^verbatim>\<open>uiInitialize\<close>.\<close>

definition newTextview :: textview where
  "newTextview = \<lparr>tv_Lines = [], tv_CurrentLine = 0, tv_showTimestamps = True, tv_parsedLines = [],
     tv_x0 = 0, tv_y0 = 0, tv_x1 = 0, tv_y1 = 0\<rparr>"

definition bounded :: "int \<Rightarrow> int \<Rightarrow> int \<Rightarrow> int" where
  "bounded i lower upper = (if i < lower then lower else if i > upper then upper else i)"

definition maxScrollbackLines :: nat where
  "maxScrollbackLines = 10000"

definition scrollbackTrimChunk :: nat where
  "scrollbackTrimChunk = 1000"

section \<open>Wrapping\<close>

text \<open>What follows the first \<^verbatim>\<open>]\<close>, as \<^verbatim>\<open>strings.Cut\<close> finds it.\<close>

definition afterBracket :: "string \<Rightarrow> string option" where
  "afterBracket s = (case dropWhile (\<lambda>c. c \<noteq> CHR '']'') s of [] \<Rightarrow> None | _ # rest \<Rightarrow> Some rest)"

definition shownText :: "bool \<Rightarrow> string \<Rightarrow> string" where
  "shownText showTimestamps line =
    (if showTimestamps then line
     else case afterBracket line of None \<Rightarrow> line | Some rest \<Rightarrow> TrimSpace rest)"

definition wrapChar :: "int \<Rightarrow> char \<Rightarrow> string list \<times> string \<Rightarrow> string list \<times> string" where
  "wrapChar width ch s =
    (case s of (wrapped, current) \<Rightarrow>
       if int (length current) \<ge> width then (wrapped @ [current], [ch]) else (wrapped, current @ [ch]))"

definition wrapText :: "int \<Rightarrow> string \<Rightarrow> string list" where
  "wrapText width l =
    (case fold (wrapChar width) l ([], []) of (wrapped, current) \<Rightarrow>
       if current \<noteq> [] then wrapped @ [current] else wrapped)"

definition wrapLine :: "textview \<Rightarrow> string \<Rightarrow> int \<Rightarrow> string list" where
  "wrapLine t line width = wrapText width (shownText (tv_showTimestamps t) line)"

section \<open>Operations\<close>

definition width :: "textview \<Rightarrow> int" where
  "width t = tv_x1 t - tv_x0 t"

definition clampCurrentLine :: "textview \<Rightarrow> textview" where
  "clampCurrentLine t = t\<lparr>tv_CurrentLine :=
    (if tv_parsedLines t = [] then 0 else bounded (tv_CurrentLine t) 0 (int (length (tv_parsedLines t)) - 1))\<rparr>"

definition updateParsedLines :: "textview \<Rightarrow> textview" where
  "updateParsedLines t =
    (if tv_Lines t = [] \<or> width t \<le> 0 then t\<lparr>tv_parsedLines := [], tv_CurrentLine := 0\<rparr>
     else clampCurrentLine (t\<lparr>tv_parsedLines := concat (map (\<lambda>l. wrapLine t l (width t)) (tv_Lines t))\<rparr>))"

definition ToggleTimestamps :: "textview \<Rightarrow> textview" where
  "ToggleTimestamps t = updateParsedLines (t\<lparr>tv_showTimestamps := \<not> tv_showTimestamps t\<rparr>)"

definition uiSetBounds :: "int \<Rightarrow> int \<Rightarrow> int \<Rightarrow> int \<Rightarrow> textview \<Rightarrow> textview" where
  "uiSetBounds x0 y0 x1 y1 t = updateParsedLines (t\<lparr>tv_x0 := x0, tv_y0 := y0, tv_x1 := x1, tv_y1 := y1\<rparr>)"

definition ScrollUp :: "textview \<Rightarrow> textview" where
  "ScrollUp t = (if tv_CurrentLine t + 1 < int (length (tv_parsedLines t)) then t\<lparr>tv_CurrentLine := tv_CurrentLine t + 1\<rparr> else t)"

definition ScrollDown :: "textview \<Rightarrow> textview" where
  "ScrollDown t = (if tv_CurrentLine t - 1 \<ge> 0 then t\<lparr>tv_CurrentLine := tv_CurrentLine t - 1\<rparr> else t)"

definition ScrollTop :: "textview \<Rightarrow> textview" where
  "ScrollTop t = t\<lparr>tv_CurrentLine :=
    (if int (length (tv_parsedLines t)) - 1 > 0 then int (length (tv_parsedLines t)) - 1 else 0)\<rparr>"

definition ScrollBottom :: "textview \<Rightarrow> textview" where
  "ScrollBottom t = t\<lparr>tv_CurrentLine := 0\<rparr>"

definition AddLine :: "string \<Rightarrow> textview \<Rightarrow> textview" where
  "AddLine line t =
    (let t = t\<lparr>tv_Lines := tv_Lines t @ [line]\<rparr> in
     if length (tv_Lines t) > maxScrollbackLines then
       let keep = maxScrollbackLines - scrollbackTrimChunk in
       updateParsedLines (t\<lparr>tv_Lines := drop (length (tv_Lines t) - keep) (tv_Lines t)\<rparr>)
     else if width t > 0 then
       clampCurrentLine (t\<lparr>tv_parsedLines := tv_parsedLines t @ wrapLine t line (width t)\<rparr>)
     else t)"

definition ClearView :: "textview \<Rightarrow> textview" where
  "ClearView t = t\<lparr>tv_Lines := [], tv_CurrentLine := 0, tv_parsedLines := []\<rparr>"

section \<open>Drawing\<close>

definition visibleStartLine :: "int \<Rightarrow> textview \<Rightarrow> int" where
  "visibleStartLine writeableLines t =
    (if writeableLines \<le> 0 \<or> tv_parsedLines t = [] then 0
     else
       let bottomStart = max 0 (int (length (tv_parsedLines t)) - writeableLines);
           start = bottomStart - tv_CurrentLine t
       in if start < 0 then 0 else start)"

text \<open>The display line drawn in row \<open>y\<close>, if any.\<close>

definition rowLine :: "textview \<Rightarrow> int \<Rightarrow> string option" where
  "rowLine t y =
    (let n = nat (visibleStartLine (tv_y1 t - tv_y0 t) t + (y - tv_y0 t)) in
     if tv_y0 t \<le> y \<and> y < tv_y1 t \<and> n < length (tv_parsedLines t) then Some (tv_parsedLines t ! n) else None)"

section \<open>Wrapping loses nothing\<close>

text \<open>The reference: pieces of \<open>n\<close> characters.\<close>

function chunks :: "nat \<Rightarrow> 'a list \<Rightarrow> 'a list list" where
  "chunks n xs = (if n = 0 \<or> xs = [] then [] else take n xs # chunks n (drop n xs))"
  by pat_completeness auto
termination by (relation "measure (\<lambda>(_, xs). length xs)") auto

declare chunks.simps [simp del]

lemma chunks_short: "length xs \<le> n \<Longrightarrow> xs \<noteq> [] \<Longrightarrow> chunks n xs = [xs]"
  by (subst chunks.simps) (cases xs; simp add: chunks.simps [of n "[]"])

lemma wrap_fold:
  assumes "n > 0" and "length cur \<le> n"
  shows "(case fold (wrapChar (int n)) l (ws, cur) of (w, c) \<Rightarrow> if c \<noteq> [] then w @ [c] else w) = ws @ chunks n (cur @ l)"
  using assms(2)
proof (induction l arbitrary: ws cur)
  case Nil
  then show ?case using assms(1) by (cases "cur = []") (simp_all add: chunks_short chunks.simps [of n "[]"])
next
  case (Cons a l)
  show ?case
  proof (cases "length cur = n")
    case True
    then have "chunks n (cur @ a # l) = cur # chunks n (a # l)"
      using assms(1) by (subst chunks.simps) auto
    then show ?thesis using True assms(1) Cons.IH [of "[a]" "ws @ [cur]"] by (simp add: wrapChar_def)
  next
    case False
    then show ?thesis using Cons.prems Cons.IH [of "cur @ [a]" ws] by (simp add: wrapChar_def)
  qed
qed

lemma wrapText_chunks: "w > 0 \<Longrightarrow> wrapText w l = chunks (nat w) l"
  using wrap_fold [of "nat w" "[]" l "[]"] by (simp add: wrapText_def split: prod.splits)

lemma chunks_concat: "n > 0 \<Longrightarrow> concat (chunks n xs) = xs"
  by (induction n xs rule: chunks.induct) (subst chunks.simps, simp)

lemma chunks_bound: "x \<in> set (chunks n xs) \<Longrightarrow> x \<noteq> [] \<and> length x \<le> n"
proof (induction n xs rule: chunks.induct)
  case (1 n xs)
  then show ?case using chunks.simps [of n xs] by (auto split: if_splits)
qed

section \<open>The invariant\<close>

definition wrapAll :: "textview \<Rightarrow> string list" where
  "wrapAll t = (if width t > 0 then concat (map (\<lambda>l. wrapLine t l (width t)) (tv_Lines t)) else [])"

definition viewOk :: "textview \<Rightarrow> bool" where
  "viewOk t \<longleftrightarrow> tv_parsedLines t = wrapAll t \<and> length (tv_Lines t) \<le> maxScrollbackLines
    \<and> 0 \<le> tv_CurrentLine t \<and> (tv_CurrentLine t < int (length (tv_parsedLines t)) \<or> tv_CurrentLine t = 0)"

lemma wrapAll_fields [simp]:
  "wrapAll (t\<lparr>tv_CurrentLine := i\<rparr>) = wrapAll t" "wrapAll (t\<lparr>tv_parsedLines := ls\<rparr>) = wrapAll t"
  "width (t\<lparr>tv_CurrentLine := i\<rparr>) = width t" "width (t\<lparr>tv_parsedLines := ls\<rparr>) = width t"
  "width (t\<lparr>tv_Lines := ks\<rparr>) = width t" "wrapLine (t\<lparr>tv_Lines := ks\<rparr>) l w = wrapLine t l w"
  "wrapLine (t\<lparr>tv_parsedLines := ls\<rparr>) l w = wrapLine t l w"
  by (auto simp: wrapAll_def wrapLine_def width_def)

lemma wrapAll_clear: "wrapAll (t\<lparr>tv_Lines := []\<rparr>) = []"
  by (simp add: wrapAll_def)

lemma viewOk_length: "viewOk t \<Longrightarrow> length (tv_Lines t) \<le> maxScrollbackLines"
  by (simp add: viewOk_def)

lemma clamp_ok: "tv_parsedLines t = wrapAll t \<Longrightarrow> length (tv_Lines t) \<le> maxScrollbackLines \<Longrightarrow> viewOk (clampCurrentLine t)"
  by (cases "tv_parsedLines t") (auto simp: viewOk_def clampCurrentLine_def bounded_def)

lemma update_ok: "length (tv_Lines t) \<le> maxScrollbackLines \<Longrightarrow> viewOk (updateParsedLines t)"
proof (cases "tv_Lines t = [] \<or> width t \<le> 0")
  case True
  assume "length (tv_Lines t) \<le> maxScrollbackLines"
  then show ?thesis using True by (auto simp: updateParsedLines_def viewOk_def) (auto simp: wrapAll_def)
next
  case False
  assume "length (tv_Lines t) \<le> maxScrollbackLines"
  then have "viewOk (clampCurrentLine (t\<lparr>tv_parsedLines := wrapAll t\<rparr>))" by (intro clamp_ok) simp_all
  then show ?thesis using False by (simp add: updateParsedLines_def wrapAll_def)
qed

datatype viewCall = OpAdd string | OpClear | OpToggle | OpBounds int int int int | OpUp | OpDown | OpTop | OpBottom

fun viewOp :: "viewCall \<Rightarrow> textview \<Rightarrow> textview" where
  "viewOp (OpAdd line) t = AddLine line t"
| "viewOp OpClear t = ClearView t"
| "viewOp OpToggle t = ToggleTimestamps t"
| "viewOp (OpBounds x0 y0 x1 y1) t = uiSetBounds x0 y0 x1 y1 t"
| "viewOp OpUp t = ScrollUp t"
| "viewOp OpDown t = ScrollDown t"
| "viewOp OpTop t = ScrollTop t"
| "viewOp OpBottom t = ScrollBottom t"

lemma add_ok:
  assumes "viewOk t"
  shows "viewOk (AddLine line t)"
proof -
  let ?t = "t\<lparr>tv_Lines := tv_Lines t @ [line]\<rparr>"
  show ?thesis
  proof (cases "length (tv_Lines ?t) > maxScrollbackLines")
    case True
    have "viewOk (updateParsedLines (?t\<lparr>tv_Lines := drop (length (tv_Lines ?t) - (maxScrollbackLines - scrollbackTrimChunk)) (tv_Lines ?t)\<rparr>))"
      by (rule update_ok) simp
    then show ?thesis using True by (simp add: AddLine_def Let_def)
  next
    case False
    show ?thesis
    proof (cases "width t > 0")
      case True
      have "viewOk (clampCurrentLine (?t\<lparr>tv_parsedLines := tv_parsedLines t @ wrapLine ?t line (width t)\<rparr>))"
        by (rule clamp_ok) (use assms True False in \<open>simp_all add: viewOk_def wrapAll_def\<close>)
      then show ?thesis using True False by (simp add: AddLine_def Let_def)
    next
      case narrow: False
      then have "wrapAll ?t = wrapAll t" by (simp add: wrapAll_def)
      then show ?thesis using narrow False assms by (auto simp: AddLine_def viewOk_def)
    qed
  qed
qed

lemma op_ok: "viewOk t \<Longrightarrow> viewOk (viewOp op t)"
proof (cases op)
  case (OpAdd line)
  assume "viewOk t" then show ?thesis using OpAdd add_ok by simp
next
  case OpToggle
  assume "viewOk t" then show ?thesis using OpToggle update_ok [of "t\<lparr>tv_showTimestamps := \<not> tv_showTimestamps t\<rparr>"]
    by (simp add: ToggleTimestamps_def viewOk_length)
next
  case (OpBounds x0 y0 x1 y1)
  assume "viewOk t" then show ?thesis using OpBounds update_ok [of "t\<lparr>tv_x0 := x0, tv_y0 := y0, tv_x1 := x1, tv_y1 := y1\<rparr>"]
    by (simp add: uiSetBounds_def viewOk_length)
qed (auto simp: ClearView_def ScrollUp_def ScrollDown_def ScrollTop_def ScrollBottom_def viewOk_def wrapAll_clear)

lemma ops_ok: "viewOk t \<Longrightarrow> viewOk (fold viewOp ops t)"
  by (induction ops arbitrary: t) (simp_all add: op_ok)

lemma new_ok: "viewOk newTextview"
  by (simp add: viewOk_def newTextview_def wrapAll_def)



lemma shown_stamped:
  assumes "CHR '']'' \<notin> set line" and "CHR '']'' \<notin> set stamp"
  shows "shownText False (line @ '' ['' @ stamp @ '']'') = []"
proof -
  have "dropWhile (\<lambda>c. c \<noteq> CHR '']'') (line @ '' ['' @ stamp @ '']'') = '']''"
    using assms by (subst dropWhile_append2, blast) (simp, subst dropWhile_append2, auto)
  then show ?thesis by (simp add: shownText_def afterBracket_def TrimSpace_def)
qed

text \<open>Hiding the time stamps hides the text: \<^verbatim>\<open>AddOutputLine\<close> puts the stamp at the end of a line, and
  the view keeps what comes after the first bracket that closes, so with time stamps off no line without a bracket of
  its own takes any display line; what is drawn of it is nothing.\<close>

theorem timestamps_off_hides_lines:
  assumes "CHR '']'' \<notin> set line" and "CHR '']'' \<notin> set stamp" and "\<not> tv_showTimestamps t"
    and "length (tv_Lines t) < 10000"
  shows "tv_parsedLines (AddLine (line @ '' ['' @ stamp @ '']'') t) = tv_parsedLines t"
  using assms(4) shown_stamped [OF assms(1,2)] assms(3)
  by (simp add: AddLine_def Let_def maxScrollbackLines_def clampCurrentLine_def wrapLine_def wrapText_def)

theorem timestamps_off_hides_lines_witness:
  "tv_parsedLines (AddLine (''bob: hi'' @ '' ['' @ ''12:00:00'' @ '']'') (ToggleTimestamps (uiSetBounds 0 1 20 5 newTextview))) = []"
  using timestamps_off_hides_lines [of "''bob: hi''" "''12:00:00''" "ToggleTimestamps (uiSetBounds 0 1 20 5 newTextview)"]
  by (simp add: ToggleTimestamps_def uiSetBounds_def updateParsedLines_def newTextview_def)

text \<open>The newest line is on the screen when the view is not scrolled.\<close>

lemma bottom_visible:
  assumes "tv_parsedLines t \<noteq> []" and "tv_CurrentLine t = 0" and "tv_y0 t < tv_y1 t"
  shows "\<exists>y. rowLine t y = Some (last (tv_parsedLines t))"
proof -
  let ?n = "int (length (tv_parsedLines t))" and ?h = "tv_y1 t - tv_y0 t"
  define start where "start = visibleStartLine ?h t"
  have s: "start = max 0 (?n - ?h)" using assms by (simp add: start_def visibleStartLine_def Let_def)
  have n: "?n > 0" using assms(1) by simp
  let ?y = "tv_y0 t + (?n - 1 - start)"
  have "nat (start + (?y - tv_y0 t)) = length (tv_parsedLines t) - 1" using n by simp
  moreover have "tv_y0 t \<le> ?y" "?y < tv_y1 t" using s n assms(3) by auto
  ultimately have "rowLine t ?y = Some (last (tv_parsedLines t))"
    using assms(1) n by (simp add: rowLine_def start_def [symmetric] last_conv_nth Let_def)
  then show ?thesis ..
qed

end
