(* ===== verification/Utf8.thy ===== *)
theory Utf8
  imports Prelude
begin

text \<open>
  UTF-8 as the Go library has it: the bytes of a rune (\<^verbatim>\<open>string(r)\<close>), \<^verbatim>\<open>utf8.DecodeRuneInString\<close> with its
  ranges of accepted bytes, and \<^verbatim>\<open>utf8.DecodeLastRuneInString\<close>; both decoders give a rune and its width.
\<close>

section \<open>Encoding\<close>

definition validRune :: "nat \<Rightarrow> bool" where
  "validRune r \<longleftrightarrow> r < 0xD800 \<or> (0xE000 \<le> r \<and> r \<le> 0x10FFFF)"

definition runeNats :: "nat \<Rightarrow> nat list" where
  "runeNats r =
    (if r < 0x80 then [r]
     else if r < 0x800 then [192 + r div 64, 128 + r mod 64]
     else if \<not> validRune r then [239, 191, 189]
     else if r < 0x10000 then [224 + r div 4096, 128 + r div 64 mod 64, 128 + r mod 64]
     else [240 + r div 262144, 128 + r div 4096 mod 64, 128 + r div 64 mod 64, 128 + r mod 64])"

definition runeBytes :: "nat \<Rightarrow> bytes" where
  "runeBytes r = map of_nat (runeNats r)"

definition enc :: "nat list \<Rightarrow> bytes" where
  "enc rs = concat (map runeBytes rs)"

section \<open>Decoding\<close>

definition RuneError :: nat where
  "RuneError = 0xFFFD"

definition tailByte :: "nat \<Rightarrow> bool" where
  "tailByte x \<longleftrightarrow> 128 \<le> x \<and> x \<le> 191"

definition decode2 :: "nat \<Rightarrow> nat list \<Rightarrow> nat \<times> nat" where
  "decode2 x s = (case s of y # _ \<Rightarrow> if tailByte y then ((x - 192) * 64 + (y - 128), 2) else (RuneError, 1) | [] \<Rightarrow> (RuneError, 1))"

definition decode3 :: "nat \<Rightarrow> nat list \<Rightarrow> nat \<times> nat" where
  "decode3 x s =
    (case s of
       y # z # _ \<Rightarrow>
         if (if x = 224 then 160 else 128) \<le> y \<and> y \<le> (if x = 237 then 159 else 191) \<and> tailByte z
         then ((x - 224) * 4096 + (y - 128) * 64 + (z - 128), 3) else (RuneError, 1)
     | _ \<Rightarrow> (RuneError, 1))"

definition decode4 :: "nat \<Rightarrow> nat list \<Rightarrow> nat \<times> nat" where
  "decode4 x s =
    (case s of
       y # z # w # _ \<Rightarrow>
         if (if x = 240 then 144 else 128) \<le> y \<and> y \<le> (if x = 244 then 143 else 191) \<and> tailByte z \<and> tailByte w
         then ((x - 240) * 262144 + (y - 128) * 4096 + (z - 128) * 64 + (w - 128), 4) else (RuneError, 1)
     | _ \<Rightarrow> (RuneError, 1))"

definition decodeNats :: "nat list \<Rightarrow> nat \<times> nat" where
  "decodeNats s =
    (case s of
       [] \<Rightarrow> (RuneError, 0)
     | x # s \<Rightarrow>
         if x < 128 then (x, 1)
         else if 194 \<le> x \<and> x \<le> 223 then decode2 x s
         else if 224 \<le> x \<and> x \<le> 239 then decode3 x s
         else if 240 \<le> x \<and> x \<le> 244 then decode4 x s
         else (RuneError, 1))"

definition DecodeRune :: "bytes \<Rightarrow> nat \<times> nat" where
  "DecodeRune s = decodeNats (map unat s)"

definition runeStart :: "nat \<Rightarrow> bool" where
  "runeStart x \<longleftrightarrow> \<not> tailByte x"

definition lastStart :: "nat list \<Rightarrow> nat" where
  "lastStart s =
    (let n = length s in
     case find (\<lambda>k. k \<le> n \<and> runeStart (s ! (n - k))) [2, 3, 4] of
       Some k \<Rightarrow> n - k
     | None \<Rightarrow> if n \<le> 4 then 0 else n - 5)"

definition decodeLastNats :: "nat list \<Rightarrow> nat \<times> nat" where
  "decodeLastNats s =
    (let n = length s in
     if n = 0 then (RuneError, 0)
     else if s ! (n - 1) < 128 then (s ! (n - 1), 1)
     else case decodeNats (drop (lastStart s) s) of (r, width) \<Rightarrow>
       if lastStart s + width \<noteq> n then (RuneError, 1) else (r, width))"

definition DecodeLastRune :: "bytes \<Rightarrow> nat \<times> nat" where
  "DecodeLastRune s = decodeLastNats (map unat s)"

text \<open>The runes of a string, as \<^verbatim>\<open>range\<close> gives them.\<close>

function runes :: "bytes \<Rightarrow> nat list" where
  "runes s = (if s = [] then [] else case DecodeRune s of (r, width) \<Rightarrow> r # runes (drop (max 1 width) s))"
  by pat_completeness auto
termination by (relation "measure length") auto

declare runes.simps [simp del]

section \<open>Round trips\<close>

lemma runeNats_ne [simp]: "runeNats r \<noteq> []" "0 < length (runeNats r)"
  by (simp_all add: runeNats_def)

lemma runeBytes_ne [simp]: "runeBytes r \<noteq> []" "length (runeBytes r) = length (runeNats r)"
  by (simp_all add: runeBytes_def)

lemma runeNats_byte: "x \<in> set (runeNats r) \<Longrightarrow> x < 256"
  by (auto simp: runeNats_def validRune_def split: if_splits)

lemma unat_runeBytes [simp]: "map unat (runeBytes r) = runeNats r"
proof -
  have "unat (of_nat x :: byte) = x" if "x \<in> set (runeNats r)" for x
    using runeNats_byte [OF that] by (simp add: unat_of_nat)
  then show ?thesis by (simp add: runeBytes_def map_idI)
qed

lemma decode_three:
  assumes "a \<le> 15" "b < 64" "c < 64" "a = 0 \<longrightarrow> 32 \<le> b" "a = 13 \<longrightarrow> b \<le> 31"
  shows "decodeNats ([224 + a, 128 + b, 128 + c] @ s) = (a * 4096 + b * 64 + c, 3)"
  using assms by (simp add: decodeNats_def decode3_def tailByte_def)

lemma decode_four:
  assumes "a \<le> 4" "b < 64" "c < 64" "d < 64" "a = 0 \<longrightarrow> 16 \<le> b" "a = 4 \<longrightarrow> b \<le> 15"
  shows "decodeNats ([240 + a, 128 + b, 128 + c, 128 + d] @ s) = (a * 262144 + b * 4096 + c * 64 + d, 4)"
  using assms by (simp add: decodeNats_def decode4_def tailByte_def)

lemma decode_nats:
  assumes "validRune r"
  shows "decodeNats (runeNats r @ s) = (r, length (runeNats r))"
proof -
  consider "r < 128" | "128 \<le> r" "r < 2048" | "2048 \<le> r" "r < 65536" | "65536 \<le> r" "r \<le> 0x10FFFF"
    using assms by (fastforce simp: validRune_def)
  then show ?thesis
  proof cases
    case 1
    then show ?thesis by (simp add: runeNats_def decodeNats_def)
  next
    case 2
    then have "2 \<le> r div 64" "r div 64 \<le> 31" by linarith+
    then show ?thesis using 2 by (simp add: runeNats_def decodeNats_def decode2_def tailByte_def)
  next
    case 3
    define a b c where "a = r div 4096" "b = r div 64 mod 64" "c = r mod 64"
    have "r div 64 div 64 = a" by (simp add: a_b_c_def div_mult2_eq [symmetric])
    then have r: "r = a * 4096 + b * 64 + c"
      using div_mult_mod_eq [of r 64] div_mult_mod_eq [of "r div 64" 64] by (simp add: a_b_c_def(2,3) [symmetric])
    have bc: "b < 64" "c < 64" by (simp_all add: a_b_c_def)
    have "a \<le> 15" using 3 by (simp add: a_b_c_def)
    moreover have "a = 0 \<longrightarrow> 32 \<le> b" using 3 r bc by auto
    moreover have "a = 13 \<longrightarrow> b \<le> 31" using assms 3 r bc by (auto simp: validRune_def)
    ultimately have "decodeNats ([224 + a, 128 + b, 128 + c] @ s) = (r, 3)"
      unfolding r using bc by (intro decode_three) auto
    moreover have "runeNats r = [224 + a, 128 + b, 128 + c]"
      using 3 assms by (simp add: runeNats_def a_b_c_def)
    ultimately show ?thesis by simp
  next
    case 4
    define a b c d where "a = r div 262144" "b = r div 4096 mod 64" "c = r div 64 mod 64" "d = r mod 64"
    have "r div 64 div 64 = r div 4096" "r div 4096 div 64 = a" by (simp_all add: a_b_c_d_def div_mult2_eq [symmetric])
    then have r: "r = a * 262144 + b * 4096 + c * 64 + d"
      using div_mult_mod_eq [of r 64] div_mult_mod_eq [of "r div 64" 64] div_mult_mod_eq [of "r div 4096" 64]
      by (simp add: a_b_c_d_def(2,3,4) [symmetric])
    have bcd: "b < 64" "c < 64" "d < 64" by (simp_all add: a_b_c_d_def)
    have "a \<le> 4" using 4 by (simp add: a_b_c_d_def)
    moreover have "a = 0 \<longrightarrow> 16 \<le> b" using 4 r bcd by auto
    moreover have "a = 4 \<longrightarrow> b \<le> 15" using 4 r bcd by auto
    ultimately have "decodeNats ([240 + a, 128 + b, 128 + c, 128 + d] @ s) = (r, 4)"
      unfolding r using bcd by (intro decode_four) auto
    moreover have "runeNats r = [240 + a, 128 + b, 128 + c, 128 + d]"
      using 4 assms by (simp add: runeNats_def a_b_c_d_def)
    ultimately show ?thesis by simp
  qed
qed

text \<open>A run of tail bytes behind a start byte.\<close>

lemma runeNats_shape: "\<exists>x ts. runeNats r = x # ts \<and> \<not> tailByte x \<and> (\<forall>t \<in> set ts. tailByte t) \<and> length ts \<le> 3
  \<and> (ts = [] \<longrightarrow> x < 128) \<and> (ts \<noteq> [] \<longrightarrow> 128 \<le> last ts)"
proof -
  consider "r < 128" | "128 \<le> r" "r < 2048" | "2048 \<le> r" "\<not> validRune r" | "2048 \<le> r" "validRune r" "r < 65536"
    | "65536 \<le> r" "validRune r" by linarith
  then show ?thesis
  proof cases
    case 1
    then show ?thesis by (simp add: runeNats_def tailByte_def)
  next
    case 2
    then show ?thesis by (auto simp: runeNats_def tailByte_def)
  next
    case 3
    then show ?thesis by (auto simp: runeNats_def tailByte_def)
  next
    case 4
    then show ?thesis by (auto simp: runeNats_def tailByte_def)
  next
    case 5
    then show ?thesis by (auto simp: runeNats_def tailByte_def)
  qed
qed

lemma lastStart_append:
  assumes "\<not> tailByte x" and "\<forall>t \<in> set ts. tailByte t" and "length ts \<le> 3" and "ts \<noteq> []"
  shows "lastStart (s @ x # ts) = length s"
proof -
  consider t where "ts = [t]" | t u where "ts = [t, u]" | t u v where "ts = [t, u, v]"
    using assms(3,4) by (cases ts; cases "tl ts"; cases "tl (tl ts)") auto
  then show ?thesis
    by cases (use assms(1,2) in \<open>simp_all add: lastStart_def runeStart_def nth_append\<close>)
qed

lemma decode_last_nats:
  assumes "validRune r"
  shows "decodeLastNats (s @ runeNats r) = (r, length (runeNats r))"
proof -
  obtain x ts where sh: "runeNats r = x # ts" "\<not> tailByte x" "\<forall>t \<in> set ts. tailByte t" "length ts \<le> 3"
      "ts = [] \<longrightarrow> x < 128" "ts \<noteq> [] \<longrightarrow> 128 \<le> last ts"
    using runeNats_shape [of r] by blast
  have d: "decodeNats (x # ts) = (r, Suc (length ts))" using decode_nats [OF assms, of "[]"] sh(1) by simp
  show ?thesis
  proof (cases "ts = []")
    case True
    then have "decodeNats [x] = (r, 1)" "x < 128" using d sh by simp_all
    then have "x = r" by (simp add: decodeNats_def)
    then show ?thesis using True sh by (simp add: decodeLastNats_def nth_append)
  next
    case False
    then have "(s @ x # ts) ! (length s + length ts) = last ts"
      by (metis last_ConsR last_appendR last_conv_nth length_Cons length_append diff_Suc_1 add_Suc_right append_is_Nil_conv list.distinct(1))
    then show ?thesis
      using False sh d lastStart_append [OF sh(2,3,4) False, of s] by (simp add: decodeLastNats_def Let_def)
  qed
qed

lemma DecodeRune_runeBytes: "validRune r \<Longrightarrow> DecodeRune (runeBytes r @ s) = (r, length (runeNats r))"
  by (simp add: DecodeRune_def decode_nats)

lemma DecodeLastRune_runeBytes: "validRune r \<Longrightarrow> DecodeLastRune (s @ runeBytes r) = (r, length (runeNats r))"
  by (simp add: DecodeLastRune_def decode_last_nats)

lemma enc_simps [simp]: "enc [] = []" "enc (r # rs) = runeBytes r @ enc rs" "enc (rs @ rs') = enc rs @ enc rs'"
  by (simp_all add: enc_def)

lemma enc_eq_Nil [simp]: "enc rs = [] \<longleftrightarrow> rs = []"
  by (cases rs) simp_all

lemma runes_enc: "\<forall>r \<in> set rs. validRune r \<Longrightarrow> runes (enc rs) = rs"
proof (induction rs)
  case Nil
  then show ?case by (simp add: runes.simps)
next
  case (Cons r rs)
  have "max 1 (length (runeNats r)) = length (runeBytes r)" by (simp add: Suc_le_eq)
  then have "drop (max 1 (length (runeNats r))) (runeBytes r @ enc rs) = enc rs" by simp
  then show ?case using Cons by (subst runes.simps) (simp add: DecodeRune_runeBytes)
qed

lemma enc_inj: "\<forall>r \<in> set rs. validRune r \<Longrightarrow> \<forall>r \<in> set rs'. validRune r \<Longrightarrow> enc rs = enc rs' \<longleftrightarrow> rs = rs'"
  using runes_enc by metis

lemma runeBytes_start: "runeStart (unat (hd (runeBytes r)))"
proof -
  have "unat (hd (runeBytes r)) = hd (map unat (runeBytes r))" by (simp only: hd_map [OF runeBytes_ne(1)])
  then show ?thesis using runeNats_shape [of r] by (auto simp: runeStart_def)
qed

lemma enc_start: "rs \<noteq> [] \<Longrightarrow> runeStart (unat (hd (enc rs)))"
  using runeBytes_start by (cases rs) simp_all

end
