(* ===== verification/Textbox.thy ===== *)
theory Textbox
  imports Utf8 UserConfig
begin

text \<open>
  The input line (\<^verbatim>\<open>uiterm/textbox.go\<close>) on the bytes of its text, with its history; and the proof that it
  refines an editor on runes.  An operation gives \<open>None\<close> when the code slices out of range.
\<close>

section \<open>State\<close>

record textbox =
  tb_Text :: bytes
  tb_pos :: nat
  tb_history :: "bytes list"
  tb_historyIndex :: nat
  tb_historyDraft :: bytes

definition newTextbox :: textbox where
  "newTextbox = \<lparr>tb_Text = [], tb_pos = 0, tb_history = [], tb_historyIndex = 0, tb_historyDraft = []\<rparr>"

abbreviation "KeyArrowLeft \<equiv> (0xFFEB :: keyCode)"
abbreviation "KeyArrowRight \<equiv> (0xFFEA :: keyCode)"
abbreviation "KeyCtrlC \<equiv> (0x03 :: keyCode)"
abbreviation "KeyBackspace \<equiv> (0x08 :: keyCode)"
abbreviation "KeyBackspace2 \<equiv> (0x7F :: keyCode)"
abbreviation "KeySpace \<equiv> (0x20 :: keyCode)"

text \<open>The slices \<^verbatim>\<open>s[:n]\<close> and \<^verbatim>\<open>s[n:]\<close>.\<close>

definition sliceTo :: "bytes \<Rightarrow> nat \<Rightarrow> bytes option" where
  "sliceTo s n = (if n \<le> length s then Some (take n s) else None)"

definition sliceFrom :: "bytes \<Rightarrow> nat \<Rightarrow> bytes option" where
  "sliceFrom s n = (if n \<le> length s then Some (drop n s) else None)"

section \<open>Drawing\<close>

text \<open>Drawing brings the cursor back into the text and to the start of a rune.\<close>

fun backUp :: "bytes \<Rightarrow> nat \<Rightarrow> nat" where
  "backUp s 0 = 0"
| "backUp s (Suc p) = (if Suc p < length s \<and> \<not> runeStart (unat (s ! Suc p)) then backUp s p else Suc p)"

definition uiDraw :: "textbox \<Rightarrow> textbox" where
  "uiDraw t = t\<lparr>tb_pos := backUp (tb_Text t) (min (tb_pos t) (length (tb_Text t)))\<rparr>"

text \<open>The number of the cell the cursor is put on, when it is within the box.\<close>

definition cursorCell :: "textbox \<Rightarrow> nat" where
  "cursorCell t = tb_pos (uiDraw t)"

section \<open>History\<close>

definition setText :: "bytes \<Rightarrow> textbox \<Rightarrow> textbox" where
  "setText s t = t\<lparr>tb_Text := s, tb_pos := length s\<rparr>"

text \<open>\<^verbatim>\<open>unicode.IsSpace\<close>, and that \<^verbatim>\<open>strings.TrimSpace\<close> leaves nothing.\<close>

definition spaceRune :: "nat \<Rightarrow> bool" where
  "spaceRune r \<longleftrightarrow> r \<in> {9, 10, 11, 12, 13, 32, 0x85, 0xA0, 0x1680, 0x2028, 0x2029, 0x202F, 0x205F, 0x3000}
    \<or> (0x2000 \<le> r \<and> r \<le> 0x200A)"

definition blank :: "bytes \<Rightarrow> bool" where
  "blank s = list_all spaceRune (runes s)"

definition addHistory :: "bytes \<Rightarrow> textbox \<Rightarrow> textbox" where
  "addHistory s t =
    (if blank s then t
     else if tb_history t \<noteq> [] \<and> last (tb_history t) = s then t\<lparr>tb_historyIndex := length (tb_history t)\<rparr>
     else t\<lparr>tb_history := tb_history t @ [s], tb_historyIndex := Suc (length (tb_history t))\<rparr>)"

definition resetHistoryNavigation :: "textbox \<Rightarrow> textbox" where
  "resetHistoryNavigation t = t\<lparr>tb_historyIndex := length (tb_history t), tb_historyDraft := []\<rparr>"

text \<open>Reading the history out of range is a panic.\<close>

definition historyAt :: "nat \<Rightarrow> textbox \<Rightarrow> bytes option" where
  "historyAt i t = (if i < length (tb_history t) then Some (tb_history t ! i) else None)"

definition previousHistory :: "textbox \<Rightarrow> textbox option" where
  "previousHistory t =
    (if tb_history t = [] then Some t
     else
       let t = (if tb_historyIndex t = length (tb_history t) then t\<lparr>tb_historyDraft := tb_Text t\<rparr> else t);
           t = t\<lparr>tb_historyIndex := tb_historyIndex t - 1\<rparr>
       in map_option (\<lambda>s. uiDraw (setText s t)) (historyAt (tb_historyIndex t) t))"

definition nextHistory :: "textbox \<Rightarrow> textbox option" where
  "nextHistory t =
    (if tb_history t = [] \<or> tb_historyIndex t = length (tb_history t) then Some t
     else if Suc (tb_historyIndex t) < length (tb_history t) then
       let t = t\<lparr>tb_historyIndex := Suc (tb_historyIndex t)\<rparr>
       in map_option (\<lambda>s. uiDraw (setText s t)) (historyAt (tb_historyIndex t) t)
     else Some (uiDraw ((setText (tb_historyDraft t) (t\<lparr>tb_historyIndex := length (tb_history t)\<rparr>))\<lparr>tb_historyDraft := []\<rparr>)))"

section \<open>Keys\<close>

definition uiCharacterEvent :: "nat \<Rightarrow> textbox \<Rightarrow> textbox option" where
  "uiCharacterEvent chr t =
    (case (sliceTo (tb_Text t) (tb_pos t), sliceFrom (tb_Text t) (tb_pos t)) of
       (Some s, Some s') \<Rightarrow> Some (uiDraw (t\<lparr>tb_Text := s @ runeBytes chr @ s', tb_pos := tb_pos t + length (runeBytes chr)\<rparr>))
     | _ \<Rightarrow> None)"

definition keyLeft :: "textbox \<Rightarrow> textbox option" where
  "keyLeft t =
    (if tb_pos t > 0 then
       map_option (\<lambda>s. uiDraw (t\<lparr>tb_pos := tb_pos t - snd (DecodeLastRune s)\<rparr>)) (sliceTo (tb_Text t) (tb_pos t))
     else Some (uiDraw t))"

definition keyRight :: "textbox \<Rightarrow> textbox option" where
  "keyRight t =
    (if tb_pos t < length (tb_Text t) then
       map_option (\<lambda>s. uiDraw (t\<lparr>tb_pos := tb_pos t + snd (DecodeRune s)\<rparr>)) (sliceFrom (tb_Text t) (tb_pos t))
     else Some (uiDraw t))"

definition keyBackspace :: "textbox \<Rightarrow> textbox option" where
  "keyBackspace t =
    (if tb_Text t \<noteq> [] \<and> tb_pos t > 0 then
       (case (sliceTo (tb_Text t) (tb_pos t), sliceFrom (tb_Text t) (tb_pos t)) of
          (Some s, Some s') \<Rightarrow>
            let p = tb_pos t - snd (DecodeLastRune s) in Some (uiDraw (t\<lparr>tb_Text := take p (tb_Text t) @ s', tb_pos := p\<rparr>))
        | _ \<Rightarrow> None)
     else Some (uiDraw t))"

text \<open>A key event; the second component is the text handed to \<^verbatim>\<open>Input\<close>.\<close>

definition uiKeyEvent :: "keyCode \<Rightarrow> textbox \<Rightarrow> (textbox \<times> bytes option) option" where
  "uiKeyEvent k t =
    (let plain = map_option (\<lambda>t. (t, None)) in
     if k = KeyHome then plain (Some (uiDraw (t\<lparr>tb_pos := 0\<rparr>)))
     else if k = KeyEnd then plain (Some (uiDraw (t\<lparr>tb_pos := length (tb_Text t)\<rparr>)))
     else if k = KeyArrowLeft then plain (keyLeft t)
     else if k = KeyArrowRight then plain (keyRight t)
     else if k = KeyCtrlC then plain (Some (uiDraw (resetHistoryNavigation (t\<lparr>tb_Text := [], tb_pos := 0\<rparr>))))
     else if k = KeyEnter then
       Some (uiDraw (resetHistoryNavigation ((addHistory (tb_Text t) t)\<lparr>tb_Text := [], tb_pos := 0\<rparr>)), Some (tb_Text t))
     else if k = KeyArrowUp \<or> k = KeyAltArrowUp then plain (previousHistory t)
     else if k = KeyArrowDown \<or> k = KeyAltArrowDown then plain (nextHistory t)
     else if k = KeySpace then plain (uiCharacterEvent 32 t)
     else if k = KeyBackspace \<or> k = KeyBackspace2 then plain (keyBackspace t)
     else plain (Some t))"

datatype boxEvent = BoxKey keyCode | BoxChar nat

fun boxStep :: "boxEvent \<Rightarrow> textbox \<Rightarrow> (textbox \<times> bytes option) option" where
  "boxStep (BoxKey k) t = uiKeyEvent k t"
| "boxStep (BoxChar c) t = map_option (\<lambda>t. (t, None)) (uiCharacterEvent c t)"

section \<open>The editor on runes\<close>

text \<open>The runes before and behind the cursor, the lines submitted and the place in them.\<close>

record editor =
  ed_before :: "nat list"
  ed_behind :: "nat list"
  ed_history :: "nat list list"
  ed_index :: nat
  ed_draft :: "nat list"

definition edText :: "editor \<Rightarrow> nat list" where
  "edText e = ed_before e @ ed_behind e"

definition edShow :: "nat list \<Rightarrow> editor \<Rightarrow> editor" where
  "edShow rs e = e\<lparr>ed_before := rs, ed_behind := []\<rparr>"

definition edRemember :: "nat list \<Rightarrow> editor \<Rightarrow> editor" where
  "edRemember rs e =
    (if list_all spaceRune rs \<or> (ed_history e \<noteq> [] \<and> last (ed_history e) = rs) then e else e\<lparr>ed_history := ed_history e @ [rs]\<rparr>)"

definition edEnd :: "editor \<Rightarrow> editor" where
  "edEnd e = e\<lparr>ed_before := [], ed_behind := [], ed_index := length (ed_history e), ed_draft := []\<rparr>"

definition edUp :: "editor \<Rightarrow> editor" where
  "edUp e =
    (if ed_history e = [] then e
     else
       let e = (if ed_index e = length (ed_history e) then e\<lparr>ed_draft := edText e\<rparr> else e);
           e = e\<lparr>ed_index := ed_index e - 1\<rparr>
       in edShow (ed_history e ! ed_index e) e)"

definition edDown :: "editor \<Rightarrow> editor" where
  "edDown e =
    (if ed_history e = [] \<or> ed_index e = length (ed_history e) then e
     else if Suc (ed_index e) < length (ed_history e) then
       edShow (ed_history e ! Suc (ed_index e)) (e\<lparr>ed_index := Suc (ed_index e)\<rparr>)
     else (edShow (ed_draft e) (e\<lparr>ed_index := length (ed_history e)\<rparr>))\<lparr>ed_draft := []\<rparr>)"

definition edInsert :: "nat \<Rightarrow> editor \<Rightarrow> editor" where
  "edInsert r e = e\<lparr>ed_before := ed_before e @ [r]\<rparr>"

definition edLeft :: "editor \<Rightarrow> editor" where
  "edLeft e = (if ed_before e = [] then e else e\<lparr>ed_before := butlast (ed_before e), ed_behind := last (ed_before e) # ed_behind e\<rparr>)"

definition edRight :: "editor \<Rightarrow> editor" where
  "edRight e = (case ed_behind e of [] \<Rightarrow> e | r # rs \<Rightarrow> e\<lparr>ed_before := ed_before e @ [r], ed_behind := rs\<rparr>)"

definition edBackspace :: "editor \<Rightarrow> editor" where
  "edBackspace e = e\<lparr>ed_before := butlast (ed_before e)\<rparr>"

definition edKey :: "keyCode \<Rightarrow> editor \<Rightarrow> editor \<times> nat list option" where
  "edKey k e =
    (if k = KeyHome then (e\<lparr>ed_before := [], ed_behind := edText e\<rparr>, None)
     else if k = KeyEnd then (edShow (edText e) e, None)
     else if k = KeyArrowLeft then (edLeft e, None)
     else if k = KeyArrowRight then (edRight e, None)
     else if k = KeyCtrlC then (edEnd e, None)
     else if k = KeyEnter then (edEnd (edRemember (edText e) e), Some (edText e))
     else if k = KeyArrowUp \<or> k = KeyAltArrowUp then (edUp e, None)
     else if k = KeyArrowDown \<or> k = KeyAltArrowDown then (edDown e, None)
     else if k = KeySpace then (edInsert 32 e, None)
     else if k = KeyBackspace \<or> k = KeyBackspace2 then (edBackspace e, None)
     else (e, None))"

fun edStep :: "boxEvent \<Rightarrow> editor \<Rightarrow> editor \<times> nat list option" where
  "edStep (BoxKey k) e = edKey k e"
| "edStep (BoxChar c) e = (edInsert c e, None)"

section \<open>The refinement\<close>

abbreviation allValid :: "nat list \<Rightarrow> bool" where
  "allValid rs \<equiv> \<forall>r \<in> set rs. validRune r"

definition boxMatches :: "textbox \<Rightarrow> editor \<Rightarrow> bool" where
  "boxMatches t e \<longleftrightarrow> allValid (ed_before e) \<and> allValid (ed_behind e) \<and> allValid (ed_draft e) \<and> (\<forall>h \<in> set (ed_history e). allValid h)
    \<and> tb_Text t = enc (edText e) \<and> tb_pos t = length (enc (ed_before e)) \<and> tb_history t = map enc (ed_history e)
    \<and> tb_historyIndex t = ed_index e \<and> ed_index e \<le> length (ed_history e) \<and> tb_historyDraft t = enc (ed_draft e)"

lemma backUp_id: "p = 0 \<or> p \<ge> length s \<or> runeStart (unat (s ! p)) \<Longrightarrow> backUp s p = p"
  by (cases p) auto

lemma draw_id:
  assumes "tb_Text t = enc xs @ enc ys" and "tb_pos t = length (enc xs)"
  shows "uiDraw t = t"
proof -
  have "backUp (enc xs @ enc ys) (length (enc xs)) = length (enc xs)"
  proof (rule backUp_id)
    show "length (enc xs) = 0 \<or> length (enc xs @ enc ys) \<le> length (enc xs) \<or> runeStart (unat ((enc xs @ enc ys) ! length (enc xs)))"
      using enc_start [of ys] by (cases "ys = []") (simp_all add: nth_append hd_conv_nth)
  qed
  then show ?thesis using assms by (simp add: uiDraw_def)
qed

lemma match_draw: "boxMatches t e \<Longrightarrow> boxMatches (uiDraw t) e"
  using draw_id [of t "ed_before e" "ed_behind e"] by (simp add: boxMatches_def edText_def)

lemma match_show:
  "boxMatches t e \<Longrightarrow> allValid rs \<Longrightarrow> boxMatches (uiDraw (setText (enc rs) t)) (edShow rs e)"
  by (rule match_draw) (simp add: boxMatches_def edShow_def setText_def edText_def)

lemma insert_match:
  assumes "boxMatches t e" and "validRune c"
  shows "\<exists>t'. uiCharacterEvent c t = Some t' \<and> boxMatches t' (edInsert c e)"
proof -
  let ?t = "t\<lparr>tb_Text := enc (ed_before e) @ runeBytes c @ enc (ed_behind e), tb_pos := tb_pos t + length (runeBytes c)\<rparr>"
  have "boxMatches ?t (edInsert c e)"
    using assms by (auto simp: boxMatches_def edInsert_def edText_def)
  moreover have "uiCharacterEvent c t = Some (uiDraw ?t)"
    using assms(1) by (simp add: boxMatches_def uiCharacterEvent_def sliceTo_def sliceFrom_def edText_def)
  ultimately show ?thesis using match_draw by blast
qed

lemma last_width:
  assumes "allValid rs" and "rs \<noteq> []"
  shows "length (enc rs) - snd (DecodeLastRune (enc rs)) = length (enc (butlast rs))"
    "take (length (enc (butlast rs))) (enc rs @ s) = enc (butlast rs)"
proof -
  obtain xs r where rs: "rs = xs @ [r]" using assms(2) by (meson rev_exhaust)
  then show "length (enc rs) - snd (DecodeLastRune (enc rs)) = length (enc (butlast rs))"
    "take (length (enc (butlast rs))) (enc rs @ s) = enc (butlast rs)"
    using assms(1) by (simp_all add: DecodeLastRune_runeBytes)
qed

lemma left_match:
  assumes "boxMatches t e"
  shows "\<exists>t'. keyLeft t = Some t' \<and> boxMatches t' (edLeft e)"
proof (cases "ed_before e = []")
  case True
  then have "keyLeft t = Some (uiDraw t)" "edLeft e = e" using assms by (simp_all add: keyLeft_def edLeft_def boxMatches_def)
  then show ?thesis using match_draw [OF assms] by simp
next
  case False
  have v: "allValid (ed_before e)" using assms by (simp add: boxMatches_def)
  have "boxMatches (t\<lparr>tb_pos := length (enc (butlast (ed_before e)))\<rparr>) (edLeft e)"
    using assms False append_butlast_last_id [OF False] enc_simps(3) [of "butlast (ed_before e)" "[last (ed_before e)]"]
    by (auto simp: boxMatches_def edLeft_def edText_def simp del: append_butlast_last_id dest: in_set_butlastD)
  moreover have "keyLeft t = Some (uiDraw (t\<lparr>tb_pos := length (enc (butlast (ed_before e)))\<rparr>))"
    using assms False last_width(1) [OF v False] by (simp add: keyLeft_def boxMatches_def sliceTo_def edText_def)
  ultimately show ?thesis using match_draw by blast
qed

lemma right_match:
  assumes "boxMatches t e"
  shows "\<exists>t'. keyRight t = Some t' \<and> boxMatches t' (edRight e)"
proof (cases "ed_behind e")
  case Nil
  then have "keyRight t = Some (uiDraw t)" "edRight e = e"
    using assms by (simp_all add: keyRight_def edRight_def boxMatches_def edText_def)
  then show ?thesis using match_draw [OF assms] by simp
next
  case (Cons r rs)
  have v: "validRune r" using assms Cons by (simp add: boxMatches_def)
  let ?t = "t\<lparr>tb_pos := tb_pos t + length (runeNats r)\<rparr>"
  have "boxMatches ?t (edRight e)"
    using assms Cons by (auto simp: boxMatches_def edRight_def edText_def)
  moreover have "keyRight t = Some (uiDraw ?t)"
    using assms Cons DecodeRune_runeBytes [OF v] by (simp add: keyRight_def boxMatches_def sliceFrom_def edText_def)
  ultimately show ?thesis using match_draw by blast
qed

lemma backspace_match:
  assumes "boxMatches t e"
  shows "\<exists>t'. keyBackspace t = Some t' \<and> boxMatches t' (edBackspace e)"
proof (cases "ed_before e = []")
  case True
  then have "keyBackspace t = Some (uiDraw t)" "edBackspace e = e"
    using assms by (simp_all add: keyBackspace_def edBackspace_def boxMatches_def)
  then show ?thesis using match_draw [OF assms] by simp
next
  case False
  have v: "allValid (ed_before e)" using assms by (simp add: boxMatches_def)
  let ?t = "t\<lparr>tb_Text := enc (butlast (ed_before e)) @ enc (ed_behind e), tb_pos := length (enc (butlast (ed_before e)))\<rparr>"
  have "boxMatches ?t (edBackspace e)"
    using assms by (auto simp: boxMatches_def edBackspace_def edText_def dest: in_set_butlastD)
  moreover have "keyBackspace t = Some (uiDraw ?t)"
    using assms False last_width [OF v False]
    by (simp add: keyBackspace_def boxMatches_def sliceTo_def sliceFrom_def edText_def Let_def)
  ultimately show ?thesis using match_draw by blast
qed

lemma up_match:
  assumes "boxMatches t e"
  shows "\<exists>t'. previousHistory t = Some t' \<and> boxMatches t' (edUp e)"
proof (cases "ed_history e = []")
  case True
  then show ?thesis using assms by (simp add: previousHistory_def edUp_def boxMatches_def)
next
  case False
  define t1 where "t1 = (if tb_historyIndex t = length (tb_history t) then t\<lparr>tb_historyDraft := tb_Text t\<rparr> else t)"
  define e1 where "e1 = (if ed_index e = length (ed_history e) then e\<lparr>ed_draft := edText e\<rparr> else e)"
  let ?t = "t1\<lparr>tb_historyIndex := tb_historyIndex t1 - 1\<rparr>" and ?e = "e1\<lparr>ed_index := ed_index e1 - 1\<rparr>"
  have m: "boxMatches ?t ?e"
    using assms by (auto simp: boxMatches_def t1_def e1_def edText_def)
  have eq: "ed_history e1 = ed_history e" "ed_index e1 = ed_index e" by (simp_all add: e1_def)
  have i: "ed_index e - 1 < length (ed_history e)"
    using assms False by (cases "ed_history e"; cases "ed_index e") (simp_all add: boxMatches_def)
  then have v: "allValid (ed_history e ! (ed_index e - 1))"
    using assms nth_mem [OF i] unfolding boxMatches_def by blast
  have at: "historyAt (tb_historyIndex ?t) ?t = Some (enc (ed_history e ! (ed_index e - 1)))"
    using m i by (simp add: boxMatches_def historyAt_def eq)
  have "previousHistory t = Some (uiDraw (setText (enc (ed_history e ! (ed_index e - 1))) ?t))"
  proof -
    have "tb_history t \<noteq> []" using False assms by (simp add: boxMatches_def)
    then have "previousHistory t = map_option (\<lambda>s. uiDraw (setText s ?t)) (historyAt (tb_historyIndex ?t) ?t)"
      unfolding previousHistory_def Let_def t1_def [symmetric] by (simp only: if_False)
    then show ?thesis using at by (simp only: option.map)
  qed
  moreover have "edUp e = edShow (ed_history e ! (ed_index e - 1)) ?e"
    using False by (simp add: edUp_def e1_def [symmetric] Let_def eq)
  ultimately show ?thesis using match_show [OF m v] by simp
qed

lemma down_match:
  assumes "boxMatches t e"
  shows "\<exists>t'. nextHistory t = Some t' \<and> boxMatches t' (edDown e)"
proof -
  consider "ed_history e = [] \<or> ed_index e = length (ed_history e)" | "Suc (ed_index e) < length (ed_history e)"
    | "ed_history e \<noteq> []" "ed_index e \<noteq> length (ed_history e)" "\<not> Suc (ed_index e) < length (ed_history e)" by blast
  then show ?thesis
  proof cases
    case 1
    then show ?thesis using assms by (auto simp: nextHistory_def edDown_def boxMatches_def)
  next
    case 2
    let ?t = "t\<lparr>tb_historyIndex := Suc (tb_historyIndex t)\<rparr>" and ?e = "e\<lparr>ed_index := Suc (ed_index e)\<rparr>"
    have m: "boxMatches ?t ?e" using assms 2 by (simp add: boxMatches_def edText_def)
    have v: "allValid (ed_history e ! Suc (ed_index e))" using assms nth_mem [OF 2] unfolding boxMatches_def by blast
    have "nextHistory t = Some (uiDraw (setText (enc (ed_history e ! Suc (ed_index e))) ?t))"
      using assms 2 by (auto simp: nextHistory_def boxMatches_def historyAt_def Let_def)
    moreover have "edDown e = edShow (ed_history e ! Suc (ed_index e)) ?e" using 2 by (auto simp: edDown_def)
    ultimately show ?thesis using match_show [OF m v] by simp
  next
    case 3
    let ?t = "(setText (tb_historyDraft t) (t\<lparr>tb_historyIndex := length (tb_history t)\<rparr>))\<lparr>tb_historyDraft := []\<rparr>"
    have "boxMatches ?t (edDown e)"
      using assms 3 by (auto simp: boxMatches_def edDown_def edShow_def setText_def edText_def)
    moreover have "nextHistory t = Some (uiDraw ?t)"
      using assms 3 by (simp add: nextHistory_def boxMatches_def)
    ultimately show ?thesis using match_draw by blast
  qed
qed

lemma enter_match:
  assumes "boxMatches t e"
  shows "boxMatches (uiDraw (resetHistoryNavigation ((addHistory (tb_Text t) t)\<lparr>tb_Text := [], tb_pos := 0\<rparr>))) (edEnd (edRemember (edText e) e))"
proof (rule match_draw)
  have v: "allValid (edText e)" using assms by (auto simp: boxMatches_def edText_def)
  have b: "blank (tb_Text t) = list_all spaceRune (edText e)"
    using assms runes_enc [OF v] by (simp add: blank_def boxMatches_def)
  have l: "(tb_history t \<noteq> [] \<and> last (tb_history t) = tb_Text t) = (ed_history e \<noteq> [] \<and> last (ed_history e) = edText e)"
  proof (cases "ed_history e = []")
    case False
    then have "allValid (last (ed_history e))" using assms unfolding boxMatches_def by (meson last_in_set)
    then show ?thesis using False assms enc_inj [OF _ v] by (simp add: boxMatches_def last_map)
  qed (use assms in \<open>simp add: boxMatches_def\<close>)
  show "boxMatches (resetHistoryNavigation ((addHistory (tb_Text t) t)\<lparr>tb_Text := [], tb_pos := 0\<rparr>)) (edEnd (edRemember (edText e) e))"
    using assms b l v
    by (auto simp: boxMatches_def resetHistoryNavigation_def addHistory_def edEnd_def edRemember_def edText_def)
qed

lemma key_match:
  assumes "boxMatches t e"
  shows "\<exists>t'. uiKeyEvent k t = Some (t', map_option enc (snd (edKey k e))) \<and> boxMatches t' (fst (edKey k e))"
proof -
  have home: "boxMatches (uiDraw (t\<lparr>tb_pos := 0\<rparr>)) (e\<lparr>ed_before := [], ed_behind := edText e\<rparr>)"
    by (rule match_draw) (use assms in \<open>auto simp: boxMatches_def edText_def\<close>)
  have end_: "boxMatches (uiDraw (t\<lparr>tb_pos := length (tb_Text t)\<rparr>)) (edShow (edText e) e)"
    by (rule match_draw) (use assms in \<open>auto simp: boxMatches_def edText_def edShow_def\<close>)
  have clear: "boxMatches (uiDraw (resetHistoryNavigation (t\<lparr>tb_Text := [], tb_pos := 0\<rparr>))) (edEnd e)"
    by (rule match_draw) (use assms in \<open>auto simp: boxMatches_def edText_def edEnd_def resetHistoryNavigation_def\<close>)
  have space: "validRune 32" by (simp add: validRune_def)
  have submitted: "tb_Text t = enc (edText e)" using assms by (simp add: boxMatches_def)
  show ?thesis
    using home end_ clear left_match [OF assms] right_match [OF assms] enter_match [OF assms] up_match [OF assms]
      down_match [OF assms] insert_match [OF assms space] backspace_match [OF assms] assms submitted
    unfolding uiKeyEvent_def edKey_def Let_def by (simp split del: if_split) (auto split: if_split)
qed

definition boxEventValid :: "boxEvent \<Rightarrow> bool" where
  "boxEventValid ev = (case ev of BoxKey _ \<Rightarrow> True | BoxChar c \<Rightarrow> validRune c)"

text \<open>C8. The input line refines the editor on runes: no key or character makes it slice out of range,
  the text stays valid UTF-8 with the cursor between runes, and the text, cursor, history, draft and what is submitted
  are those of the editor.\<close>

theorem textbox_refines:
  assumes "boxMatches t e" and "boxEventValid ev"
  shows "\<exists>t'. boxStep ev t = Some (t', map_option enc (snd (edStep ev e))) \<and> boxMatches t' (fst (edStep ev e))"
proof (cases ev)
  case (BoxKey k)
  then show ?thesis using key_match [OF assms(1)] by simp
next
  case (BoxChar c)
  then show ?thesis using insert_match [OF assms(1), of c] assms(2) by (auto simp: boxEventValid_def)
qed

definition emptyEditor :: editor where
  "emptyEditor = \<lparr>ed_before = [], ed_behind = [], ed_history = [], ed_index = 0, ed_draft = []\<rparr>"

lemma new_match: "boxMatches newTextbox emptyEditor"
  by (simp add: boxMatches_def newTextbox_def emptyEditor_def edText_def)

theorem textbox_refines_witness:
  "\<exists>t'. boxStep (BoxChar 0xDF) newTextbox = Some (t', None) \<and> boxMatches t' (fst (edStep (BoxChar 0xDF) emptyEditor))"
  using textbox_refines [OF new_match, of "BoxChar 0xDF"] by (simp add: boxEventValid_def validRune_def)

section \<open>Text cleared from outside\<close>

text \<open>\<^verbatim>\<open>OnAdminEscape\<close> empties the text and leaves the position; the redraw that would correct it is posted.\<close>

definition clearText :: "textbox \<Rightarrow> textbox" where
  "clearText t = t\<lparr>tb_Text := []\<rparr>"

text \<open>C40. Escaping from an administration prompt with text typed, and typing on before the posted redraw has
  run: the next character is a slice out of range, a panic; after a redraw it is not.\<close>

theorem escape_then_type_panics:
  assumes "boxMatches t e" and "ed_before e \<noteq> []" and "validRune c"
  shows "boxStep (BoxChar c) (clearText t) = None \<and> boxStep (BoxKey KeyArrowLeft) (clearText t) = None
    \<and> boxStep (BoxChar c) (uiDraw (clearText t)) \<noteq> None"
proof -
  have "tb_pos t > 0" using assms by (simp add: boxMatches_def)
  then show ?thesis
    by (simp add: clearText_def uiCharacterEvent_def sliceTo_def sliceFrom_def uiKeyEvent_def keyLeft_def uiDraw_def)
qed

theorem escape_then_type_panics_witness:
  "\<exists>t. boxStep (BoxChar 97) newTextbox = Some (t, None) \<and> boxStep (BoxChar 98) (clearText t) = None"
proof -
  obtain t where t: "boxStep (BoxChar 97) newTextbox = Some (t, None)" "boxMatches t (edInsert 97 emptyEditor)"
    using insert_match [OF new_match, of 97] by (auto simp: validRune_def)
  have "boxStep (BoxChar 98) (clearText t) = None"
    using escape_then_type_panics [OF t(2), of 98] by (simp add: edInsert_def validRune_def)
  then show ?thesis using t(1) by blast
qed

end
