(* ===== verification/TreeView.thy ===== *)
theory TreeView
  imports Textview UserConfig
begin

text \<open>
  The tree widget (\<^verbatim>\<open>uiterm/tree.go\<close>), over any type of items: building its lines from the generator within
  the limits of depth and lines, the active line, keys, and which lines are drawn.  The generator stands for
  the application's; it may describe an infinite tree.
\<close>

section \<open>State\<close>

record 'a treeView =
  tr_lines :: "(nat \<times> 'a) list"
  tr_activeLine :: int

definition newTree :: "'a treeView" where
  "newTree = \<lparr>tr_lines = [], tr_activeLine = 0\<rparr>"

definition maxTreeDepth :: nat where
  "maxTreeDepth = 64"

definition maxTreeLines :: nat where
  "maxTreeLines = 100000"

section \<open>Building\<close>

text \<open>\<^verbatim>\<open>rebuild_rec\<close>, and the loops over what the generator gives.\<close>

function rebuildRec :: "('a option \<Rightarrow> 'a list) \<Rightarrow> (nat \<times> 'a) list \<Rightarrow> 'a \<Rightarrow> nat \<Rightarrow> (nat \<times> 'a) list"
  and rebuildAll :: "('a option \<Rightarrow> 'a list) \<Rightarrow> (nat \<times> 'a) list \<Rightarrow> 'a list \<Rightarrow> nat \<Rightarrow> (nat \<times> 'a) list" where
  "rebuildRec gen ls item level =
    (if level \<ge> maxTreeDepth \<or> length ls \<ge> maxTreeLines then ls
     else rebuildAll gen (ls @ [(level, item)]) (gen (Some item)) (Suc level))"
| "rebuildAll gen ls [] level = ls"
| "rebuildAll gen ls (x # xs) level =
    (if length ls \<ge> maxTreeLines then ls else rebuildAll gen (rebuildRec gen ls x level) xs level)"
  by pat_completeness auto
termination
  by (relation "measures [\<lambda>c. case c of Inl (_, _, _, level) \<Rightarrow> maxTreeDepth - level | Inr (_, _, _, level) \<Rightarrow> maxTreeDepth - level,
      \<lambda>c. case c of Inl _ \<Rightarrow> 0 | Inr (_, _, xs, _) \<Rightarrow> length xs]") auto

declare rebuildRec.simps [simp del] rebuildAll.simps(2) [simp del]

definition SetActiveLine :: "int \<Rightarrow> bool \<Rightarrow> 'a treeView \<Rightarrow> 'a treeView" where
  "SetActiveLine num relative t =
    t\<lparr>tr_activeLine := bounded (if relative then tr_activeLine t + num else num) 0 (int (length (tr_lines t)) - 1)\<rparr>"

definition ActiveItem :: "'a treeView \<Rightarrow> 'a option" where
  "ActiveItem t =
    (if tr_lines t = [] then None
     else Some (snd (tr_lines t ! nat (bounded (tr_activeLine t) 0 (int (length (tr_lines t)) - 1)))))"

text \<open>The number of the first line whose item is the same.\<close>

fun findLine :: "('a \<Rightarrow> bool) \<Rightarrow> (nat \<times> 'a) list \<Rightarrow> nat option" where
  "findLine P [] = None"
| "findLine P (l # ls) = (if P (snd l) then Some 0 else map_option Suc (findLine P ls))"

definition SetActiveItem :: "'a option \<Rightarrow> ('a \<Rightarrow> 'a \<Rightarrow> bool) \<Rightarrow> 'a treeView \<Rightarrow> 'a treeView \<times> bool" where
  "SetActiveItem target same t =
    (case target of
       None \<Rightarrow> (t, False)
     | Some x \<Rightarrow> (case findLine (same x) (tr_lines t) of None \<Rightarrow> (t, False) | Some i \<Rightarrow> (SetActiveLine (int i) False t, True)))"

definition rebuild :: "('a option \<Rightarrow> 'a list) \<Rightarrow> ('a \<Rightarrow> 'a \<Rightarrow> bool) option \<Rightarrow> 'a treeView \<Rightarrow> 'a treeView" where
  "rebuild gen preserve t =
    (let t' = t\<lparr>tr_lines := rebuildAll gen [] (gen None) 0\<rparr> in
     case preserve of
       None \<Rightarrow> SetActiveLine 0 False t'
     | Some same \<Rightarrow>
         let t' = SetActiveLine (tr_activeLine t) False t' in
         (case ActiveItem t of
            None \<Rightarrow> t'
          | Some x \<Rightarrow> (case findLine (same x) (tr_lines t') of None \<Rightarrow> t' | Some i \<Rightarrow> SetActiveLine (int i) False t')))"

section \<open>Keys and drawing\<close>

text \<open>The second component is the item handed to the key listener.\<close>

definition treeKey :: "keyCode \<Rightarrow> 'a treeView \<Rightarrow> 'a treeView \<times> 'a option" where
  "treeKey k t =
    (if tr_lines t = [] then (t, None)
     else if k = KeyArrowUp then (SetActiveLine (-1) True t, None)
     else if k = KeyArrowDown then (SetActiveLine 1 True t, None)
     else (t, Some (snd (tr_lines t ! nat (tr_activeLine t)))))"

text \<open>\<^verbatim>\<open>for startline = 0; startline+height <= line; startline += height\<close>.\<close>

function startFrom :: "int \<Rightarrow> int \<Rightarrow> int \<Rightarrow> int" where
  "startFrom height line startline =
    (if height > 0 \<and> startline + height \<le> line then startFrom height line (startline + height) else startline)"
  by pat_completeness auto
termination by (relation "measure (\<lambda>(height, line, startline). nat (line - startline))") auto

declare startFrom.simps [simp del]

text \<open>The line drawn in row \<open>row\<close> of a tree \<open>height\<close> rows high, and whether it has the cursor.\<close>

definition drawnLine :: "int \<Rightarrow> int \<Rightarrow> 'a treeView \<Rightarrow> (nat \<times> 'a) option \<times> bool" where
  "drawnLine height row t =
    (let line = startFrom height (tr_activeLine t) 0 + row in
     (if 0 \<le> line \<and> line < int (length (tr_lines t)) then Some (tr_lines t ! nat line) else None, tr_activeLine t = line))"

section \<open>What is built\<close>

text \<open>The reference: the preorder of the tree down to a depth.\<close>

primrec preorder :: "('a option \<Rightarrow> 'a list) \<Rightarrow> nat \<Rightarrow> nat \<Rightarrow> 'a \<Rightarrow> (nat \<times> 'a) list" where
  "preorder gen 0 level x = []"
| "preorder gen (Suc d) level x = (level, x) # concat (map (preorder gen d (Suc level)) (gen (Some x)))"

lemma preorder_root: "d > 0 \<Longrightarrow> preorder gen d level x = (level, x) # concat (map (preorder gen (d - 1) (Suc level)) (gen (Some x)))"
  by (cases d) simp_all

lemma take_take_append: "take n (take n xs @ ys) = take n (xs @ ys)"
  by (cases "length xs \<le> n") simp_all

lemma rebuild_preorder:
  "length ls \<le> maxTreeLines \<Longrightarrow>
    rebuildRec gen ls x level = take maxTreeLines (ls @ preorder gen (maxTreeDepth - level) level x)"
  "length ls \<le> maxTreeLines \<Longrightarrow>
    rebuildAll gen ls xs level = take maxTreeLines (ls @ concat (map (preorder gen (maxTreeDepth - level) level) xs))"
proof (induction gen ls x level and gen ls xs level rule: rebuildRec_rebuildAll.induct)
  case (1 gen ls item level)
  show ?case
  proof (cases "level \<ge> maxTreeDepth \<or> length ls \<ge> maxTreeLines")
    case True
    then show ?thesis using 1(2) by (subst rebuildRec.simps) auto
  next
    case False
    then have "rebuildRec gen ls item level = take maxTreeLines ((ls @ [(level, item)])
        @ concat (map (preorder gen (maxTreeDepth - Suc level) (Suc level)) (gen (Some item))))"
      using 1(1) by (subst rebuildRec.simps) simp
    then show ?thesis using False by (simp add: preorder_root)
  qed
next
  case (3 gen ls x xs level)
  show ?case
  proof (cases "length ls \<ge> maxTreeLines")
    case True
    then show ?thesis using 3(3) by (simp add: rebuildAll.simps)
  next
    case False
    let ?p = "preorder gen (maxTreeDepth - level) level"
    have x: "rebuildRec gen ls x level = take maxTreeLines (ls @ ?p x)" using 3(1) False 3(3) by simp
    have "rebuildAll gen (take maxTreeLines (ls @ ?p x)) xs level = take maxTreeLines (take maxTreeLines (ls @ ?p x) @ concat (map ?p xs))"
      using 3(2) [OF False] unfolding x by simp
    also have "\<dots> = take maxTreeLines (ls @ ?p x @ concat (map ?p xs))"
      using take_take_append [of maxTreeLines "ls @ ?p x"] by simp
    finally show ?thesis using False x by (simp add: rebuildAll.simps)
  qed
qed (simp add: rebuildAll.simps)

section \<open>The active line\<close>

definition treeOk :: "'a treeView \<Rightarrow> bool" where
  "treeOk t \<longleftrightarrow> tr_lines t \<noteq> [] \<longrightarrow> 0 \<le> tr_activeLine t \<and> tr_activeLine t < int (length (tr_lines t))"

lemma setActive_ok: "treeOk (SetActiveLine num relative t)"
  by (cases "tr_lines t") (auto simp: treeOk_def SetActiveLine_def bounded_def)

lemma setActive_lines [simp]: "tr_lines (SetActiveLine num relative t) = tr_lines t"
  by (simp add: SetActiveLine_def)

lemma rebuild_ok: "treeOk (rebuild gen preserve t)"
  by (auto simp: rebuild_def Let_def setActive_ok split: option.split)

lemma rebuild_lines: "tr_lines (rebuild gen preserve t) = rebuildAll gen [] (gen None) 0"
  by (auto simp: rebuild_def Let_def split: option.split)

lemma findLine_Some: "findLine P ls = Some i \<Longrightarrow> i < length ls \<and> P (snd (ls ! i)) \<and> (\<forall>j < i. \<not> P (snd (ls ! j)))"
proof (induction ls arbitrary: i)
  case (Cons l ls)
  show ?case
  proof (cases "P (snd l)")
    case True
    then show ?thesis using Cons.prems by auto
  next
    case False
    then obtain k where "findLine P ls = Some k" "i = Suc k" using Cons.prems by auto
    then show ?thesis using Cons.IH [of k] False by (auto simp: less_Suc_eq_0_disj nth_Cons')
  qed
qed simp

lemma findLine_None: "findLine P ls = None \<longleftrightarrow> (\<forall>l \<in> set ls. \<not> P (snd l))"
  by (induction ls) auto

lemma startFrom_visible:
  "height > 0 \<Longrightarrow> 0 \<le> startline \<Longrightarrow> startline \<le> line \<Longrightarrow>
    startFrom height line startline \<le> line \<and> line < startFrom height line startline + height \<and> 0 \<le> startFrom height line startline"
proof (induction height line startline rule: startFrom.induct)
  case (1 height line startline)
  then show ?case by (subst (1 2 3) startFrom.simps) auto
qed

text \<open>C12. Whatever the generator describes, an infinite tree or a cyclic one included, a rebuild ends: its
  lines are the first 100000 of the tree in preorder, down to depth 64, so all of it when it is smaller, and the
  active line is one of them.\<close>

theorem tree_rebuild_bounded:
  "tr_lines (rebuild gen preserve t) = take 100000 (concat (map (preorder gen 64 0) (gen None)))
    \<and> (tr_lines (rebuild gen preserve t) \<noteq> [] \<longrightarrow> 0 \<le> tr_activeLine (rebuild gen preserve t)
        \<and> tr_activeLine (rebuild gen preserve t) < int (length (tr_lines (rebuild gen preserve t))))"
  using rebuild_preorder(2) [of "[]" gen "gen None" 0] rebuild_ok [of gen preserve t]
  by (simp add: rebuild_lines treeOk_def maxTreeDepth_def maxTreeLines_def)

theorem tree_rebuild_bounded_witness:
  "tr_lines (rebuild (\<lambda>_. [''loop'']) None newTree) \<noteq> [] \<and> 0 \<le> tr_activeLine (rebuild (\<lambda>_. [''loop'']) None newTree)"
proof -
  have "preorder (\<lambda>_. [''loop'']) 64 0 ''loop'' \<noteq> []" by (subst preorder_root) simp_all
  then show ?thesis using tree_rebuild_bounded [of "\<lambda>_. [''loop'']" None newTree] by auto
qed

text \<open>A rebuild that keeps the selection finds it again: when some line shows the same thing as the
  selected one, the first such line is active; and the active line is always drawn, in the row that has the cursor.\<close>

theorem tree_selection_kept:
  assumes "ActiveItem t = Some x" and "\<exists>l \<in> set (tr_lines (rebuild gen (Some same) t)). same x (snd l)" and "height > 0"
  shows "\<exists>i. tr_activeLine (rebuild gen (Some same) t) = int i \<and> i < length (tr_lines (rebuild gen (Some same) t))
    \<and> same x (snd (tr_lines (rebuild gen (Some same) t) ! i))
    \<and> (\<forall>j < i. \<not> same x (snd (tr_lines (rebuild gen (Some same) t) ! j)))
    \<and> (\<exists>row. 0 \<le> row \<and> row < height \<and> drawnLine height row (rebuild gen (Some same) t)
        = (Some (tr_lines (rebuild gen (Some same) t) ! i), True))"
proof -
  let ?r = "rebuild gen (Some same) t"
  define ls where "ls = rebuildAll gen [] (gen None) 0"
  have ls: "tr_lines ?r = ls" by (simp add: rebuild_lines ls_def)
  obtain i where i: "findLine (same x) ls = Some i"
    using assms(2) findLine_None [of "same x" ls] unfolding ls by (cases "findLine (same x) ls") auto
  note f = findLine_Some [OF i]
  have "tr_activeLine ?r = int i"
    using i f assms(1) by (simp add: rebuild_def Let_def ls_def [symmetric]) (simp add: SetActiveLine_def bounded_def)
  moreover have "\<exists>row. 0 \<le> row \<and> row < height \<and> drawnLine height row ?r = (Some (tr_lines ?r ! i), True)"
    using startFrom_visible [of height 0 "int i"] assms(3) f calculation
    by (intro exI [of _ "int i - startFrom height (int i) 0"]) (simp add: drawnLine_def ls Let_def)
  ultimately show ?thesis using f ls by auto
qed

theorem tree_selection_kept_witness:
  "\<exists>i. tr_activeLine (rebuild (\<lambda>x. if x = None then [''a'', ''b''] else []) (Some (=)) \<lparr>tr_lines = [(0, ''b'')], tr_activeLine = 0\<rparr>) = int i
    \<and> snd (tr_lines (rebuild (\<lambda>x. if x = None then [''a'', ''b''] else []) (Some (=)) \<lparr>tr_lines = [(0, ''b'')], tr_activeLine = 0\<rparr>) ! i) = ''b''"
proof -
  let ?gen = "\<lambda>x. if x = None then [''a'', ''b''] else []" and ?t = "\<lparr>tr_lines = [(0, ''b'')], tr_activeLine = 0\<rparr>"
  have "tr_lines (rebuild ?gen (Some (=)) ?t) = take 100000 (concat (map (preorder ?gen (Suc 63) 0) [''a'', ''b'']))"
    using rebuild_preorder(2) [of "[]" ?gen "?gen None" 0] by (simp add: rebuild_lines maxTreeDepth_def maxTreeLines_def)
  then have "(0, ''b'') \<in> set (tr_lines (rebuild ?gen (Some (=)) ?t))" by (simp add: preorder_root)
  moreover have "ActiveItem ?t = Some ''b''" by (simp add: ActiveItem_def bounded_def)
  ultimately show ?thesis
    using tree_selection_kept [of ?t "''b''" ?gen "(=)" 5] by fastforce
qed

end
