(* ===== verification/VoiceFacts.thy ===== *)
theory VoiceFacts
  imports Input
begin

text \<open>
  What transmitting guarantees: over every order of keys, commands, files that end, connections and
  disconnections, changes of users and channel mutes, sound is captured exactly while the program holds itself to
  be transmitting, and only with a connection.
\<close>

section \<open>Actions\<close>

datatype voiceAct =
    ActTalk int
  | ActPlay string
  | ActStopFile
  | ActFileEnded string
  | ActMute chan_ref
  | ActChange userChangeEvent
  | ActRecord string
  | ActDisconnect disconnectType string
  | ActDial client "string option"

text \<open>A dial while there is a connection does not happen: the loop that dials is started by a disconnect.\<close>

fun voiceStep :: "appEnv \<Rightarrow> voiceAct \<Rightarrow> barnard \<Rightarrow> barnard option" where
  "voiceStep E (ActTalk v) b = setTransmit E v b"
| "voiceStep E (ActPlay f) b = CommandPlayFile E f b"
| "voiceStep E ActStopFile b = CommandStopFile b"
| "voiceStep E (ActFileEnded err) b = fileEnded err b"
| "voiceStep E (ActMute ch) b = toggleChannelMute E ch b"
| "voiceStep E (ActChange e) b = OnUserChange E e b"
| "voiceStep E (ActRecord cmd) b = CommandRecord E cmd b"
| "voiceStep E (ActDisconnect ty s) b = Some (OnDisconnect E ty s b)"
| "voiceStep E (ActDial c welcome) b =
    (if ba_Connected b then Some b
     else do { b \<leftarrow> OnConnect E c welcome b; map_option snd (connect E Inr True b) })"

fun voiceRun :: "appEnv \<Rightarrow> voiceAct list \<Rightarrow> barnard \<Rightarrow> barnard option" where
  "voiceRun E [] b = Some b"
| "voiceRun E (a # as) b = do { b \<leftarrow> voiceStep E a b; voiceRun E as b }"

section \<open>The invariant\<close>

definition txOk :: "barnard \<Rightarrow> bool" where
  "txOk b \<longleftrightarrow> ba_Tx b = (ba_streamSource b \<or> ba_toneRunning b)
    \<and> (ba_streamSource b \<longrightarrow> ba_Stream b) \<and> (ba_toneRunning b \<longrightarrow> ba_ToneTest b) \<and> (ba_Stream b \<longrightarrow> \<not> ba_ToneTest b)
    \<and> (ba_Tx b \<or> ba_Stream b \<longrightarrow> ba_Connected b)"

text \<open>Steps that leave the voice alone.\<close>

definition sameVoice :: "barnard \<Rightarrow> barnard \<Rightarrow> bool" where
  "sameVoice b b' \<longleftrightarrow> ba_Tx b' = ba_Tx b \<and> ba_streamSource b' = ba_streamSource b \<and> ba_toneRunning b' = ba_toneRunning b
    \<and> ba_Stream b' = ba_Stream b \<and> ba_ToneTest b' = ba_ToneTest b \<and> ba_Connected b' = ba_Connected b"

lemma sameVoice_ok: "sameVoice b b' \<Longrightarrow> txOk b' = txOk b"
  by (simp add: sameVoice_def txOk_def)

lemma sameVoice_refl [simp]: "sameVoice b b"
  by (simp add: sameVoice_def)

lemma sameVoice_trans: "sameVoice b b' \<Longrightarrow> sameVoice b' b'' \<Longrightarrow> sameVoice b b''"
  by (simp add: sameVoice_def)

text \<open>On the left, a step that leaves the voice alone disappears.\<close>

lemma voice_steps [simp]:
  "sameVoice b (AddOutputLine s b') = sameVoice b b'" "sameVoice b (Notify x y z b') = sameVoice b b'"
  "sameVoice b (renderGeneralStatus b') = sameVoice b b'" "sameVoice b (UpdateGeneralStatus s v b') = sameVoice b b'"
  "sameVoice b (UpdateInputStatus s b') = sameVoice b b'" "sameVoice b (rebuildTrees b') = sameVoice b b'"
  "sameVoice b (SetActive w b') = sameVoice b b'" "sameVoice b (setStreamRecorder p b') = sameVoice b b'"
  "sameVoice b (report x y z b') = sameVoice b b'" "sameVoice b (updateUserGain r b') = sameVoice b b'"
  "sameVoice b (rememberUserChannel u b') = sameVoice b b'" "sameVoice b (updateUserChannel c e b') = sameVoice b b'"
  "sameVoice b (saveReported E s b') = sameVoice b b'" "sameVoice b (stopped E path b') = sameVoice b b'"
  "sameVoice b (setChannelMuted k m b') = sameVoice b b'"
  by (auto simp: sameVoice_def AddOutputLine_def Notify_def renderGeneralStatus_def UpdateGeneralStatus_def UpdateInputStatus_def
      rebuildTrees_def SetActive_def setStreamRecorder_def report_def updateUserGain_def rememberUserChannel_def
      updateUserChannel_def saveReported_def stopped_def setChannelMuted_def Let_def split: nat.split option.split)

lemma voice_updates [simp]:
  "sameVoice b (b'\<lparr>ba_Client := c\<rparr>) = sameVoice b b'" "sameVoice b (b'\<lparr>ba_sent := ms\<rparr>) = sameVoice b b'"
  "sameVoice b (b'\<lparr>ba_UserConfig := cfg\<rparr>) = sameVoice b b'" "sameVoice b (b'\<lparr>ba_Recorder := p\<rparr>) = sameVoice b b'"
  "sameVoice b (b'\<lparr>ba_recordingStarting := v\<rparr>) = sameVoice b b'" "sameVoice b (b'\<lparr>ba_selectedUser := u\<rparr>) = sameVoice b b'"
  "sameVoice b (b'\<lparr>ba_recordingAllowed := w\<rparr>) = sameVoice b b'" "sameVoice b (b'\<lparr>ba_FilePlaying := q\<rparr>) = sameVoice b b'"
  "sameVoice b (b'\<lparr>ba_MutedChannels := ks\<rparr>) = sameVoice b b'" "sameVoice b (b'\<lparr>ba_userChannels := us\<rparr>) = sameVoice b b'"
  by (simp_all add: sameVoice_def)

text \<open>A fallible step that leaves the voice alone when it returns, with rules for its parts.\<close>

definition keeps :: "barnard \<Rightarrow> barnard option \<Rightarrow> bool" where
  "keeps b m \<longleftrightarrow> (\<forall>b'. m = Some b' \<longrightarrow> sameVoice b b')"

lemma keeps_basic:
  "sameVoice b b' \<Longrightarrow> keeps b (Some b')"
  "keeps b None"
  "keeps b m \<Longrightarrow> (\<And>x. sameVoice b x \<Longrightarrow> keeps b (f x)) \<Longrightarrow> keeps b (m \<bind> f)"
  "(\<And>x. keeps b (g x)) \<Longrightarrow> keeps b (q \<bind> g)"
  "(v \<Longrightarrow> keeps b m) \<Longrightarrow> (\<not> v \<Longrightarrow> keeps b m') \<Longrightarrow> keeps b (if v then m else m')"
  "keeps b (n w) \<Longrightarrow> keeps b (Let w n)"
  by (auto simp: keeps_def bind_eq_Some_conv)

lemma keeps_case:
  "(q = None \<Longrightarrow> keeps b m) \<Longrightarrow> (\<And>x. q = Some x \<Longrightarrow> keeps b (f x)) \<Longrightarrow> keeps b (case q of None \<Rightarrow> m | Some x \<Rightarrow> f x)"
  "(\<And>x y. p = (x, y) \<Longrightarrow> keeps b (g x y)) \<Longrightarrow> keeps b (case p of (x, y) \<Rightarrow> g x y)"
  by (auto split: option.split prod.split)

lemma keeps_map: "(\<And>x. sameVoice y x \<Longrightarrow> sameVoice y (h x)) \<Longrightarrow> keeps y m \<Longrightarrow> keeps y (map_option h m)"
  by (auto simp: keeps_def)

lemma keeps_trans: "sameVoice b x \<Longrightarrow> keeps x m \<Longrightarrow> keeps b m"
  by (auto simp: keeps_def elim: sameVoice_trans)

lemma keeps_onlyIf: "(v \<Longrightarrow> keeps b (f x)) \<Longrightarrow> sameVoice b x \<Longrightarrow> keeps b (onlyIf v f x)"
  by (auto simp: onlyIf_def keeps_def)

lemma send_keeps: "keeps b (send req b)"
  by (cases req) (auto simp: keeps_def)

lemma tell_keeps: "keeps b (tellServer v b)"
  unfolding tellServer_def by (intro keeps_basic(4) send_keeps)

lemma tellIf_keeps: "keeps b (tellIfConnected v b)"
  unfolding tellIfConnected_def by (simp add: tell_keeps keeps_basic(1))

lemma restoreStatus_keeps: "keeps b (restoreStatus b)"
  unfolding restoreStatus_def by (intro keeps_basic(4) keeps_basic(1)) simp

lemma settings_keeps: "keeps b (updateUserSettings r b)" "keeps b (toggleMuteReported E r b)"
  unfolding updateUserSettings_def toggleMuteReported_def Let_def
  by (intro keeps_basic(4) keeps_case(2) keeps_basic(1); simp split: prod.split)+

lemma onClient_keeps: "keeps b (onClient f b)"
  by (auto simp: keeps_def onClient_def)

section \<open>Recording and changes\<close>

lemma stop_keeps: "keeps b (StopRecording E v b)"
proof -
  let ?d = "setStreamRecorder None (b\<lparr>ba_Recorder := None, ba_recordingStarting := False\<rparr>)"
  have d: "sameVoice b ?d" by simp
  have t: "keeps b (tellIfConnected v x)" if "sameVoice b x" for x by (rule keeps_trans [OF that tellIf_keeps])
  show ?thesis
  proof (cases "ba_Recorder b")
    case None
    then show ?thesis using t [OF d]
      by (simp add: StopRecording_def detachRecorder_def) (intro keeps_basic(3) keeps_basic(1); simp)
  next
    case (Some path)
    then show ?thesis using t [of "stopped E path ?d"]
      by (simp add: StopRecording_def detachRecorder_def) (intro keeps_basic(3) keeps_basic(1); simp)
  qed
qed

lemma start_keeps: "keeps b (StartRecording b)"
proof -
  have "keeps b (tellServer True (b\<lparr>ba_recordingStarting := True\<rparr>))"
    by (rule keeps_trans [OF _ tell_keeps]) simp
  then show ?thesis unfolding StartRecording_def
    by (intro keeps_basic(5) keeps_basic(3) keeps_basic(1)) simp_all
qed

lemma record_keeps: "keeps b (CommandRecord E cmd b)"
  unfolding CommandRecord_def ToggleRecording_def Let_def
  by (intro keeps_basic(5) start_keeps stop_keeps keeps_basic(1)) simp

lemma finish_keeps: "keeps b (finishRecordingStart E b)"
proof -
  have t: "keeps b (tellServer False x)" if "sameVoice b x" for x by (rule keeps_trans [OF that tell_keeps])
  show ?thesis unfolding finishRecordingStart_def
    by (cases "ae_recordingNew E") (auto intro!: keeps_basic(1) keeps_basic(3) t)
qed

lemma recordingChange_keeps: "keeps b (HandleRecordingChange E e b)"
  unfolding HandleRecordingChange_def Let_def
  by (intro keeps_case(1) keeps_basic(4) keeps_basic(5) finish_keeps stop_keeps keeps_basic(1)) simp_all

lemma mute_keeps: "keeps b (muteOnArrival E e r b)"
  unfolding muteOnArrival_def
  by (intro keeps_basic(5) keeps_basic(4) keeps_map settings_keeps keeps_basic(1)) simp_all

lemma deselect_keeps: "keeps b (SetSelectedUser u b)"
proof -
  have "keeps b (restoreStatus (b\<lparr>ba_selectedUser := None\<rparr>))" by (rule keeps_trans [OF _ restoreStatus_keeps]) simp
  then show ?thesis unfolding SetSelectedUser_def Let_def
    by (cases u) (auto intro!: keeps_basic(4) keeps_basic(1))
qed

lemma change_keeps: "keeps b (OnUserChange E e b)"
proof -
  have tr: "keeps b (f x)" if "sameVoice b x" and "\<And>y. keeps y (f y)" for x f using keeps_trans [OF that(1)] that(2) .
  have arrive: "keeps y (updateUserSettings r y \<bind> muteOnArrival E e r)" for y r
    by (rule keeps_basic(3) [OF settings_keeps(1)]) (rule keeps_trans [OF _ mute_keeps])
  show ?thesis
    unfolding OnUserChange_def Let_def
    by (intro keeps_basic(4) keeps_basic(3) keeps_onlyIf keeps_case(1) keeps_basic(1)
        tr [where f = "SetSelectedUser None"] tr [where f = restoreStatus] tr [where f = "HandleRecordingChange E e"]
        deselect_keeps restoreStatus_keeps recordingChange_keeps arrive)
      (auto split: option.split intro!: keeps_basic(4) keeps_basic(1))
qed

section \<open>Transmitting\<close>

lemma txOk_steps [simp]:
  "txOk (AddOutputLine s b) = txOk b" "txOk (Notify x y z b) = txOk b" "txOk (UpdateGeneralStatus s v b) = txOk b"
  "txOk (renderGeneralStatus b) = txOk b" "txOk (rebuildTrees b) = txOk b" "txOk (setChannelMuted k m b) = txOk b"
  "txOk (b\<lparr>ba_Client := c\<rparr>) = txOk b" "txOk (b\<lparr>ba_FilePlaying := q\<rparr>) = txOk b"
  by (rule sameVoice_ok, simp)+

lemma keeps_ok: "keeps b m \<Longrightarrow> m = Some b' \<Longrightarrow> txOk b \<Longrightarrow> txOk b'"
  using sameVoice_ok by (auto simp: keeps_def)

lemma tx_fields [simp]:
  "ba_Tx (Notify x y z b) = ba_Tx b" "ba_streamSource (Notify x y z b) = ba_streamSource b" "ba_toneRunning (Notify x y z b) = ba_toneRunning b"
  "ba_Stream (Notify x y z b) = ba_Stream b" "ba_ToneTest (Notify x y z b) = ba_ToneTest b" "ba_Connected (Notify x y z b) = ba_Connected b"
  "ba_Tx (UpdateGeneralStatus s v b) = ba_Tx b" "ba_streamSource (UpdateGeneralStatus s v b) = ba_streamSource b"
  "ba_toneRunning (UpdateGeneralStatus s v b) = ba_toneRunning b" "ba_Stream (UpdateGeneralStatus s v b) = ba_Stream b"
  "ba_ToneTest (UpdateGeneralStatus s v b) = ba_ToneTest b" "ba_Connected (UpdateGeneralStatus s v b) = ba_Connected b"
  by (simp_all add: Notify_def UpdateGeneralStatus_def renderGeneralStatus_def Let_def split: nat.split)

lemma stop_ok: "txOk b \<Longrightarrow> txOk (StopTransmission b)"
  by (auto simp: StopTransmission_def stopSource_def txOk_def Let_def)

lemma refuse_ok: "txOk b \<Longrightarrow> \<not> ba_Tx b \<Longrightarrow> txOk (refuseTx why b)"
  by (auto simp: refuseTx_def txOk_def)

lemma startMic_ok:
  assumes "txOk b" and "\<not> ba_Tx b" and "ba_Connected b"
  shows "txOk (startMic E (b\<lparr>ba_Tx := True\<rparr>))"
proof -
  have "\<not> ba_streamSource b" "\<not> ba_toneRunning b" using assms by (auto simp: txOk_def)
  then show ?thesis
    using assms by (auto simp: startMic_def startSource_def exitWithError_def txOk_def Let_def split: option.split)
qed

lemma talk_ok: "txOk b \<Longrightarrow> setTransmit E v b = Some b' \<Longrightarrow> txOk b'"
  unfolding setTransmit_def
  by (auto split: if_splits simp: bind_eq_Some_conv stop_ok refuse_ok startMic_ok)

lemma startFile_ok:
  assumes "txOk b" and "ba_Connected b" and "\<not> ba_ToneTest b" and "startFile E f url b = Some b'"
  shows "txOk b'"
proof -
  obtain b1 where 1: "onClient EnableStereoEncoder (b\<lparr>ba_FilePlaying := Some True\<rparr>) = Some b1"
    and 2: "transmitFile E f url b1 = Some b'"
    using assms(4) by (auto simp: startFile_def bind_eq_Some_conv)
  have s: "sameVoice b b1" using 1 onClient_keeps [of "b\<lparr>ba_FilePlaying := Some True\<rparr>" EnableStereoEncoder] unfolding keeps_def
    by (auto simp: sameVoice_def)
  then have ok: "txOk b1" "ba_Connected b1" "\<not> ba_ToneTest b1"
    using assms(1-3) sameVoice_ok [OF s] s by (simp_all add: sameVoice_def)
  show ?thesis
  proof (cases "ba_Tx b1")
    case True
    then show ?thesis using 2 ok by (auto simp: transmitFile_def)
  next
    case False
    then have f: "\<not> ba_streamSource b1" "\<not> ba_toneRunning b1" using ok by (auto simp: txOk_def)
    show ?thesis
    proof (cases "ba_Stream b1 \<and> ae_StartSource E = None")
      case True
      then have "b' = AddOutputLine (playing url f) (UpdateGeneralStatus '' File '' True (b1\<lparr>ba_streamSource := True, ba_Tx := True\<rparr>))"
        using 2 f False by (simp add: startSource_def transmitFile_def)
      then show ?thesis using True ok f by (simp add: txOk_def AddOutputLine_def)
    next
      case no: False
      then obtain err where "(if ba_Stream b1 then startSource E b1 else (Some (''audio unavailable while reconnecting'', False), b1)) = (Some err, b1)"
        using f that by (cases "ae_StartSource E"; cases "ba_Stream b1") (fastforce simp: startSource_def)+
      then have "onClient DisableStereoEncoder ((AddOutputLine (''Error starting transmission: '' @ fst err) b1)\<lparr>ba_FilePlaying := Some False\<rparr>) = Some b'"
        using 2 False by (simp add: transmitFile_def split: prod.splits)
      then show ?thesis using ok(1) by (auto simp: onClient_def)
    qed
  qed
qed

lemma play_ok: "txOk b \<Longrightarrow> CommandPlayFile E f b = Some b' \<Longrightarrow> txOk b'"
  unfolding CommandPlayFile_def Let_def by (auto split: if_splits option.splits bool.splits dest: startFile_ok)

lemma stopFile_ok: "txOk b \<Longrightarrow> CommandStopFile b = Some b' \<Longrightarrow> txOk b'"
  unfolding CommandStopFile_def by (auto split: if_splits simp: onClient_def bind_eq_Some_conv)

lemma fileEnded_ok: "txOk b \<Longrightarrow> fileEnded err b = Some b' \<Longrightarrow> txOk b'"
  unfolding fileEnded_def by (auto split: if_splits simp: onClient_def)

lemma muteUsers_keeps: "sameVoice b b' \<Longrightarrow> keeps b (muteUsers E m rs b')"
proof (induction rs arbitrary: b')
  case (Cons r rs)
  have "keeps b (onlyIf v (toggleMuteReported E r) b')" for v
    by (rule keeps_onlyIf) (rule keeps_trans [OF Cons.prems settings_keeps(2)], rule Cons.prems)
  then have "keeps b (onlyIf v (toggleMuteReported E r) b' \<bind> (\<lambda>x. muteUsers E m rs (updateUserGain r x)))" for v
    by (rule keeps_basic(3)) (rule Cons.IH, simp)
  then show ?case unfolding muteUsers.simps by (rule keeps_basic(4))
qed (simp add: keeps_basic(1))

lemma mute_ok:
  assumes "txOk b" and "toggleChannelMute E ch b = Some b'"
  shows "txOk b'"
proof -
  obtain c b1 where c: "channelOf b ch = Some c" and 1: "muteUsers E (\<not> isChannelMuted (ch_ID c) b) (makeUsersArray c) b = Some b1"
    and 2: "onlyIf (\<not> isChannelMuted (ch_ID c) b) (\<lambda>b. do { self \<leftarrow> selfChannel b; s \<leftarrow> channelOf b self;
       Some (if ch_ID s = ch_ID c \<and> ba_Tx b then StopTransmission b else b) }) (setChannelMuted (ch_ID c) (\<not> isChannelMuted (ch_ID c) b) b1)
      \<bind> (\<lambda>b. Some (rebuildTrees b)) = Some b'"
    using assms(2) by (auto simp: toggleChannelMute_def bind_eq_Some_conv Let_def)
  have "txOk b1" using muteUsers_keeps [OF sameVoice_refl] 1 assms(1) by (rule keeps_ok)
  then show ?thesis
    using 2 by (auto simp: onlyIf_def bind_eq_Some_conv stop_ok split: if_splits)
qed

lemma stopForDisconnect_same: "sameVoice b (stopRecordingForDisconnect E b)"
  by (auto simp: stopRecordingForDisconnect_def detachRecorder_def split: option.split)

lemma disconnect_ok:
  assumes "txOk b"
  shows "txOk (OnDisconnect E ty s b) \<and> \<not> ba_Tx (OnDisconnect E ty s b)"
proof -
  define x where "x = stopRecordingForDisconnect E b"
  have "ba_toneRunning x \<longrightarrow> ba_ToneTest x"
    using stopForDisconnect_same [of b E] assms by (auto simp: x_def sameVoice_def txOk_def)
  then show ?thesis
    by (auto simp: OnDisconnect_def x_def [symmetric] cleanupConnectionAudio_def detachToneTestAudio_def startReconnect_def
        rebuildTrees_def AddOutputLine_def txOk_def Let_def)
qed

lemma auto_ok:
  assumes "txOk b" and "ba_Stream b \<longrightarrow> ba_Connected b"
  shows "txOk (startAutoTransmit E b)"
proof (cases "\<not> ba_AutoTransmit b \<or> ba_Tx b \<or> \<not> ba_Stream b")
  case True
  then show ?thesis using assms(1) by (auto simp: startAutoTransmit_def)
next
  case False
  then have "\<not> ba_streamSource b" using assms(1) by (simp add: txOk_def)
  then show ?thesis
    using False assms by (auto simp: startAutoTransmit_def startSource_def txOk_def AddOutputLine_def split: option.split)
qed

lemma auto_none: "\<not> ba_Stream b \<Longrightarrow> startAutoTransmit E b = b"
  by (simp add: startAutoTransmit_def)

lemma eachUser_keeps: "sameVoice b b' \<Longrightarrow> keeps b (eachUser rs b')"
proof (induction rs arbitrary: b')
  case (Cons r rs)
  show ?case
    unfolding eachUser.simps
  proof (rule keeps_basic(3) [OF keeps_trans [OF Cons.prems settings_keeps(1)]])
    fix x assume "sameVoice b x"
    then have "keeps b (eachUser rs (rememberUserChannel u x))" for u by (intro Cons.IH) simp
    then show "keeps b (userOf x r \<bind> (\<lambda>u. eachUser rs (rememberUserChannel u x)))" by (rule keeps_basic(4))
  qed
qed (simp add: keeps_basic(1))

lemma auto_same: "\<not> ba_Stream b \<Longrightarrow> sameVoice b x \<Longrightarrow> sameVoice b (startAutoTransmit E x)"
  using auto_none [of x E] by (simp add: sameVoice_def)

lemma connect_keeps: "\<not> ba_Stream b \<Longrightarrow> keeps b (OnConnect E c welcome b)"
  unfolding OnConnect_def Let_def
  apply (rule keeps_basic(3))
   apply (rule eachUser_keeps, simp)
  apply (rule keeps_basic(3))
   apply (erule keeps_trans, rule restoreStatus_keeps)
  apply (rule keeps_basic(1), erule auto_same)
  apply (auto split: option.split)
  done

lemma dial_ok:
  assumes "txOk b" and "voiceStep E (ActDial c welcome) b = Some b'"
  shows "txOk b'"
proof (cases "ba_Connected b")
  case True
  then show ?thesis using assms by simp
next
  case False
  then obtain b1 ok where 1: "OnConnect E c welcome b = Some b1" and 2: "connect E Inr True b1 = Some (ok, b')"
    using assms(2) by (auto simp: bind_eq_Some_conv)
  have "\<not> ba_Stream b" using False assms(1) by (simp add: txOk_def)
  then have s: "sameVoice b b1" using 1 connect_keeps unfolding keeps_def by blast
  then have ok: "txOk b1" and off: "\<not> ba_Tx b1" "\<not> ba_Stream b1" "\<not> ba_streamSource b1" "\<not> ba_toneRunning b1"
    using sameVoice_ok [OF s] assms(1) False by (auto simp: sameVoice_def txOk_def)
  show ?thesis
  proof (cases "ba_ToneTest b1")
    case True
    then show ?thesis
      using 2 ok off
      by (auto simp: connect_def connectTone_def detachToneTestAudio_def exitWithError_def txOk_def AddOutputLine_def Let_def
          split: option.splits if_splits)
  next
    case False
    show ?thesis
    proof (cases "ae_openalNew E")
      case (Some err)
      then show ?thesis using 2 False ok by (auto simp: connect_def connectStream_def exitWithError_def txOk_def)
    next
      case None
      then obtain b2 where b2: "onClient (SetStereoEncoder (Some (ae_stereoEncoder E))) b1 = Some b2"
        and b': "b' = startAutoTransmit E (b2\<lparr>ba_FilePlaying := Some False, ba_Stream := True, ba_streamSource := False,
           ba_streamRecorder := None, ba_Connected := True\<rparr>)"
        using 2 False by (auto simp: connect_def connectStream_def bind_eq_Some_conv)
      have "sameVoice b1 b2" using onClient_keeps [of b1 "SetStereoEncoder (Some (ae_stereoEncoder E))"] b2 by (auto simp: keeps_def)
      then have "txOk (b2\<lparr>ba_FilePlaying := Some False, ba_Stream := True, ba_streamSource := False,
           ba_streamRecorder := None, ba_Connected := True\<rparr>)"
        using off False by (auto simp: sameVoice_def txOk_def)
      then show ?thesis unfolding b' by (rule auto_ok) simp
    qed
  qed
qed

lemma step_ok:
  assumes "txOk b" and "voiceStep E a b = Some b'"
  shows "txOk b'"
proof (cases a)
  case (ActChange e)
  then show ?thesis using keeps_ok [OF change_keeps] assms by simp
next
  case (ActRecord cmd)
  then show ?thesis using keeps_ok [OF record_keeps] assms by simp
next
  case (ActDial c w)
  then show ?thesis using dial_ok assms by blast
qed (use assms in \<open>auto intro: talk_ok play_ok stopFile_ok fileEnded_ok mute_ok simp: disconnect_ok\<close>)

lemma run_ok: "txOk b \<Longrightarrow> voiceRun E as b = Some b' \<Longrightarrow> txOk b'"
  by (induction as arbitrary: b) (auto simp: bind_eq_Some_conv dest: step_ok)



end
