(* ===== verification/NoticeFacts.thy ===== *)
theory NoticeFacts
  imports VoiceFacts RecordingLoop
begin

text \<open>
  What the notices guarantee, and where the state shown and the state acted on part: text messages are
  classified and shown; a file transmits where the talk key may not; the status says idle while sound is sent; and
  the prompt names another channel than the one text goes to.
\<close>

section \<open>Text messages\<close>

text \<open>The reference: \<open>root\<close> is a channel on the way up from \<open>ch\<close>.\<close>

fun ancestor :: "nat \<Rightarrow> parents \<Rightarrow> chan_ref option \<Rightarrow> chan_ref option" where
  "ancestor 0 P ch = ch"
| "ancestor (Suc n) P ch = ancestor n P (Option.bind ch P)"

definition inSubtree :: "client \<Rightarrow> chan_ref \<Rightarrow> chan_ref option \<Rightarrow> bool" where
  "inSubtree c root ch \<longleftrightarrow> (\<exists>n a. ancestor n (parents c) ch = Some a \<and> ch_ID (c_channel c a) = ch_ID (c_channel c root))"

lemma ancestor_None [simp]: "ancestor n P None = None"
  by (induction n) simp_all

lemma inSubtree_None: "\<not> inSubtree c root None"
  by (simp add: inSubtree_def)

lemma inSubtree_Some:
  "inSubtree c root (Some r) \<longleftrightarrow> ch_ID (c_channel c r) = ch_ID (c_channel c root) \<or> inSubtree c root (parents c r)"
proof
  assume "inSubtree c root (Some r)"
  then obtain n a where n: "ancestor n (parents c) (Some r) = Some a" "ch_ID (c_channel c a) = ch_ID (c_channel c root)"
    unfolding inSubtree_def by blast
  show "ch_ID (c_channel c r) = ch_ID (c_channel c root) \<or> inSubtree c root (parents c r)"
    using n by (cases n) (auto simp: inSubtree_def)
next
  assume r: "ch_ID (c_channel c r) = ch_ID (c_channel c root) \<or> inSubtree c root (parents c r)"
  show "inSubtree c root (Some r)"
  proof (cases "ch_ID (c_channel c r) = ch_ID (c_channel c root)")
    case True
    then show ?thesis unfolding inSubtree_def by (intro exI [of _ 0] exI [of _ r]) simp
  next
    case False
    then obtain n a where "ancestor n (parents c) (parents c r) = Some a" "ch_ID (c_channel c a) = ch_ID (c_channel c root)"
      using r unfolding inSubtree_def by blast
    then show ?thesis unfolding inSubtree_def by (intro exI [of _ "Suc n"] exI [of _ a]) simp
  qed
qed

lemma inTree_total: "rootedWithin n (parents c) ch \<Longrightarrow> inTree c root ch = Some (inSubtree c root ch)"
proof (induction n arbitrary: ch)
  case 0
  then show ?case by (cases ch) (simp_all add: inTree.simps inSubtree_None)
next
  case (Suc n)
  show ?case
  proof (cases ch)
    case None
    then show ?thesis by (simp add: inTree.simps inSubtree_None)
  next
    case (Some r)
    then have "inTree c root (ch_Parent (c_channel c r)) = Some (inSubtree c root (parents c r))"
      using Suc.IH [of "parents c r"] Suc.prems by (simp add: parents_def)
    then show ?thesis using Some by (simp add: inTree.simps [of c root "Some r"] sameChannel_def inSubtree_Some)
  qed
qed

lemma inTrees_total:
  assumes "acyclicTree (parents c)"
  shows "inTrees c current roots = Some (\<exists>root \<in> set roots. inSubtree c root (Some current))"
proof -
  obtain n where n: "rootedWithin n (parents c) (Some current)" using assms unfolding acyclicTree_def by blast
  show ?thesis by (induction roots) (simp_all add: inTree_total [OF n])
qed

lemma list_ex_ID: "list_ex (\<lambda>x. sameChannel c (Some x) (Some ch)) xs = (ch_ID (c_channel c ch) \<in> (\<lambda>x. ch_ID (c_channel c x)) ` set xs)"
  by (induction xs) (auto simp: sameChannel_def)


definition chatClient :: client where
  "chatClient = (newClient NewConfig)\<lparr>c_Self := Some 0, c_state := StateSynced, c_Users := [(4, 0)],
     c_user := (\<lambda>_. (newUser 4)\<lparr>u_client := True, u_Channel := Some 1\<rparr>), c_channel := (\<lambda>r. (newChannel (of_nat r))\<lparr>ch_client := True\<rparr>)\<rparr>"

definition chatApp :: barnard where
  "chatApp = newBarnard\<lparr>ba_Client := Some chatClient, ba_Connected := True\<rparr>"

lemma chat_acyclic: "acyclicTree (parents chatClient)"
proof -
  have "rootedWithin 1 (parents chatClient) (Some r)" for r by (simp add: parents_def chatClient_def newChannel_def)
  then show ?thesis unfolding acyclicTree_def by blast
qed

lemma chat_self: "ba_Client chatApp = Some chatClient" "selfUser chatApp = Some (c_user chatClient 0)" "u_Channel (c_user chatClient 0) = Some 1"
  by (simp_all add: chatApp_def selfUser_def chatClient_def)


section \<open>Where state and display part\<close>

text \<open>A file plays where the talk key is refused: in a muted channel the talk key starts nothing and
  says so, and playing a file starts the microphone source all the same.\<close>

theorem file_transmits_in_muted_channel:
  assumes "ba_Connected b" and "\<not> ba_ToneTest b" and "\<not> ba_Tx b" and "ba_Stream b" and "\<not> ba_streamSource b"
    and "ba_FilePlaying b = Some False" and "ae_StartSource E = None" and "ba_Client b = Some c"
    and "selfChannel b = Some ch" and "isChannelMuted (ch_ID (c_channel c ch)) b" and "isURL (TrimSpace f)"
  shows "\<exists>b1 b2. setTransmit E 2 b = Some b1 \<and> \<not> ba_Tx b1 \<and> \<not> ba_streamSource b1
    \<and> CommandPlayFile E f b = Some b2 \<and> ba_Tx b2 \<and> ba_streamSource b2"
proof -
  have "TrimSpace f \<noteq> []" using assms(11) by (auto simp: isURL_def hasPrefix_def)
  then have "CommandPlayFile E f b = startFile E (TrimSpace f) True b"
    using assms by (simp add: CommandPlayFile_def Let_def)
  then have "\<exists>b2. CommandPlayFile E f b = Some b2 \<and> ba_Tx b2 \<and> ba_streamSource b2"
    using assms by (simp add: startFile_def onClient_def transmitFile_def startSource_def AddOutputLine_def)
  moreover have "setTransmit E 2 b = Some (refuseTx ''cannot transmit in muted channel'' b)"
    using assms by (simp add: setTransmit_def channelOf_def)
  ultimately show ?thesis using assms(5) by (simp add: refuseTx_def)
qed

definition mutedApp :: barnard where
  "mutedApp = chatApp\<lparr>ba_Stream := True, ba_FilePlaying := Some False, ba_MutedChannels := [(1, True)]\<rparr>"

theorem file_transmits_in_muted_channel_witness:
  "\<exists>b1 b2. setTransmit recEnv 2 mutedApp = Some b1 \<and> \<not> ba_Tx b1 \<and> CommandPlayFile recEnv ''http://x/a'' mutedApp = Some b2 \<and> ba_Tx b2"
proof -
  have "TrimSpace ''http://x/a'' = ''http://x/a''" by (simp add: TrimSpace_def isSpace_def)
  then have "isURL (TrimSpace ''http://x/a'')" by (simp add: isURL_def hasPrefix_def)
  moreover have "selfChannel mutedApp = Some 1" "ba_Client mutedApp = Some chatClient"
    by (simp_all add: mutedApp_def chatApp_def selfChannel_def selfUser_def chatClient_def)
  moreover have "isChannelMuted (ch_ID (c_channel chatClient 1)) mutedApp"
    by (simp add: isChannelMuted_def mutedApp_def chatClient_def newChannel_def)
  ultimately show ?thesis
    using file_transmits_in_muted_channel [of mutedApp recEnv chatClient 1 "''http://x/a''"]
    by (auto simp: mutedApp_def chatApp_def newBarnard_def recEnv_def)
qed

text \<open>Stopping a file leaves the microphone on and shows the status of an idle program: sound is
  captured on, whatever the status says.\<close>

theorem stop_file_shows_idle:
  assumes "ba_Client b \<noteq> None" and "ba_FilePlaying b = Some True" and "ba_Tx b" and "ba_streamSource b"
  shows "\<exists>b'. CommandStopFile b = Some b' \<and> ba_Tx b' \<and> ba_streamSource b' \<and> ba_statusText b' = '' Idle '' \<and> \<not> ba_statusNotice b'"
  using assms
  by (auto simp: CommandStopFile_def onClient_def UpdateGeneralStatus_def renderGeneralStatus_def AddOutputLine_def Let_def)

theorem stop_file_shows_idle_witness:
  "\<exists>b'. CommandStopFile (mutedApp\<lparr>ba_FilePlaying := Some True, ba_Tx := True, ba_streamSource := True\<rparr>) = Some b' \<and> ba_streamSource b'"
  using stop_file_shows_idle [of "mutedApp\<lparr>ba_FilePlaying := Some True, ba_Tx := True, ba_streamSource := True\<rparr>"]
  by (auto simp: mutedApp_def chatApp_def)

text \<open>The prompt names a channel that text does not go to: after a change of any channel it shows that
  channel's name, and a line typed then is sent to our own channel.\<close>

theorem prompt_names_other_channel:
  assumes "ba_Client b = Some c" and "cc_Channel e = Some other" and "selfUser b = Some self" and "u_Channel self = Some ch"
    and "ch_client (c_channel c ch)" and "ba_selectedUser b = None"
  shows "\<exists>b1 b2 m. OnChannelChange E e b = Some b1 \<and> ba_inputStatus b1 = truncateInputStatus (bracketed (ch_Name (c_channel c other)))
    \<and> sayText E s b1 = Some b2 \<and> ChannelSend s False ch c = Some m \<and> ba_sent b2 = ba_sent b @ [m]"
proof -
  obtain b1 where b1: "OnChannelChange E e b = Some b1" "ba_inputStatus b1 = truncateInputStatus (bracketed (ch_Name (c_channel c other)))"
    "ba_Client b1 = ba_Client b" "ba_sent b1 = ba_sent b" "ba_selectedUser b1 = ba_selectedUser b"
    using assms(1,2)
    by (auto simp: OnChannelChange_def UpdateInputStatus_def rebuildTrees_def AddOutputLine_def Let_def split: option.splits)
  obtain m where m: "ChannelSend s False ch c = Some m" using assms(5) by (simp add: ChannelSend_def channelRequest_def)
  have self: "selfUser b1 = Some self" using assms(1,3) b1(3) by (simp add: selfUser_def)
  have "\<exists>b2. sayText E s b1 = Some b2 \<and> ba_sent b2 = ba_sent b @ [m]"
    using assms(1,4,6) b1 self m by (simp add: sayText_def AddOutputMessage_def)
  then show ?thesis using b1(1,2) m by blast
qed

theorem prompt_names_other_channel_witness:
  "\<exists>b1 b2. OnChannelChange recEnv \<lparr>cc_Type = ChannelChangeName, cc_Channel = Some 2\<rparr> chatApp = Some b1 \<and> sayText recEnv ''hi'' b1 = Some b2"
proof -
  have "ch_client (c_channel chatClient 1)" "ba_selectedUser chatApp = None"
    by (simp_all add: chatClient_def chatApp_def newBarnard_def)
  then show ?thesis
    using prompt_names_other_channel [OF chat_self(1) _ chat_self(2,3), of "\<lparr>cc_Type = ChannelChangeName, cc_Channel = Some 2\<rparr>" 2 recEnv "''hi''"]
    by auto
qed

lemma eachUser_selected: "eachUser rs b = Some b' \<Longrightarrow> ba_selectedUser b' = ba_selectedUser b"
proof (induction rs arbitrary: b)
  case (Cons r rs)
  obtain b1 u where 1: "updateUserSettings r b = Some b1" and 2: "eachUser rs (rememberUserChannel u b1) = Some b'"
    using Cons.prems by (auto simp: bind_eq_Some_conv)
  have "ba_selectedUser b1 = ba_selectedUser b"
    using 1 by (auto simp: updateUserSettings_def bind_eq_Some_conv case_prod_unfold Let_def)
  moreover have "ba_selectedUser (rememberUserChannel u b1) = ba_selectedUser b1"
    by (simp add: rememberUserChannel_def split: option.split)
  ultimately show ?case using Cons.IH [OF 2] by simp
qed simp

lemma disconnect_selected: "ba_selectedUser (OnDisconnect E ty s b) = ba_selectedUser b"
  by (simp add: OnDisconnect_def startReconnect_def rebuildTrees_def AddOutputLine_def Notify_def cleanupConnectionAudio_def
      detachToneTestAudio_def stopRecordingForDisconnect_def detachRecorder_def renderGeneralStatus_def stopped_def report_def
      setStreamRecorder_def Let_def split: nat.split option.split)

lemma connect_selected:
  assumes "OnConnect E c welcome b = Some b'"
  shows "ba_selectedUser b' = ba_selectedUser b"
    "\<exists>ch :: channel. ba_inputStatus b' = truncateInputStatus (bracketed (ch_Name ch))"
proof -
  let ?b = "rebuildTrees (SetActive uiViewInput (b\<lparr>ba_Client := Some c, ba_MutedChannels := [], ba_userChannels := [],
    ba_recordingAllowed := None, ba_recordingStarting := False\<rparr>))"
  define w where "w = (case welcome of None \<Rightarrow> [] | Some w \<Rightarrow> esc E w)"
  define say where "say = (\<lambda>x. startAutoTransmit E (if w = [] then Notify ''connect'' ''me'' w (AddOutputLine (''Connected to '' @ ae_RemoteAddr E) x)
      else AddOutputLine (''Welcome message: '' @ w) (Notify ''connect'' ''me'' w (AddOutputLine (''Connected to '' @ ae_RemoteAddr E) x))))"
  have "OnConnect E c welcome b = eachUser (map snd (c_Users c)) ?b \<bind> (\<lambda>x. restoreStatus x \<bind> (\<lambda>x. Some (say x)))"
    unfolding OnConnect_def Let_def say_def w_def by simp
  then have "eachUser (map snd (c_Users c)) ?b \<bind> (\<lambda>x. restoreStatus x \<bind> (\<lambda>x. Some (say x))) = Some b'"
    using assms by simp
  then obtain b1 b2 where 1: "eachUser (map snd (c_Users c)) ?b = Some b1" "restoreStatus b1 = Some b2" "b' = say b2"
    unfolding bind_eq_Some_conv by blast
  have keep: "ba_selectedUser (say x) = ba_selectedUser x" "ba_inputStatus (say x) = ba_inputStatus x" for x
    by (auto simp: say_def startAutoTransmit_def startSource_def UpdateGeneralStatus_def renderGeneralStatus_def
        Notify_def AddOutputLine_def Let_def split: nat.split option.split)
  have "ba_selectedUser b1 = ba_selectedUser b"
    using eachUser_selected [OF 1(1)] by (simp add: rebuildTrees_def SetActive_def)
  moreover obtain ch :: channel where "b2 = UpdateInputStatus (bracketed (ch_Name ch)) b1"
    using 1(2) by (auto simp: restoreStatus_def bind_eq_Some_conv)
  ultimately show "ba_selectedUser b' = ba_selectedUser b" "\<exists>ch :: channel. ba_inputStatus b' = truncateInputStatus (bracketed (ch_Name ch))"
    using 1(3) keep by (auto simp: UpdateInputStatus_def)
qed

text \<open>A selected user outlives the connection: after a disconnect and the next connect the prompt
  names a channel, and the user object of the old connection is still the one that typed text goes to.\<close>

theorem selection_survives_reconnect:
  assumes "ba_selectedUser b = Some r" and "OnConnect E c welcome (OnDisconnect E ty s b) = Some b'"
  shows "ba_selectedUser b' = Some r \<and> (\<exists>ch :: channel. ba_inputStatus b' = truncateInputStatus (bracketed (ch_Name ch)))"
  using connect_selected [OF assms(2)] assms(1) disconnect_selected by simp

definition aloneClient :: client where
  "aloneClient = chatClient\<lparr>c_Users := []\<rparr>"

theorem selection_survives_reconnect_witness:
  "\<exists>b'. OnConnect recEnv aloneClient None (OnDisconnect recEnv DisconnectError [] (chatApp\<lparr>ba_selectedUser := Some 7\<rparr>)) = Some b'
    \<and> ba_selectedUser b' = Some 7"
proof -
  have "\<exists>b'. OnConnect recEnv aloneClient None d = Some b'" for d
    by (simp add: OnConnect_def restoreStatus_def selfChannel_def selfUser_def channelOf_def aloneClient_def chatClient_def
        rebuildTrees_def SetActive_def)
  then show ?thesis
    using selection_survives_reconnect [of "chatApp\<lparr>ba_selectedUser := Some 7\<rparr>" 7 recEnv aloneClient None DisconnectError "[]"]
    by fastforce
qed

end
