(* ===== verification/FilePlayer.thy ===== *)
theory FilePlayer
  imports Playback GoStrings "HOL-Library.Sublist"
begin

text \<open>
  The file player (\<^verbatim>\<open>fileplayback/player.go\<close>) and its consumer in \<^verbatim>\<open>sourceRoutine\<close>: the worker cuts what
  ffmpeg delivers into frames, plays them locally and puts them into a bounded channel, from which the
  microphone routine takes one per tick while the player says that it is playing.  What ffmpeg answers is
  a parameter: an error when it is started, or the bytes it will deliver.
\<close>

section \<open>The player\<close>

datatype worker = Starting "string + bytes" | Reading bytes

text \<open>\<open>pl_local\<close> are the calls of the local playback, \<open>None\<close> for \<^verbatim>\<open>nil\<close>; \<open>pl_errors\<close> those of the error
  callback.\<close>

record player =
  pl_filename :: string
  pl_audioChan :: "int16 list list"
  pl_playing :: bool
  pl_worker :: "worker option"
  pl_local :: "bytes option list"
  pl_errors :: "string list"

definition newPlayer :: player where
  "newPlayer = \<lparr>pl_filename = [], pl_audioChan = [], pl_playing = False, pl_worker = None, pl_local = [], pl_errors = []\<rparr>"

definition audioChanSize :: nat where
  "audioChanSize = 100"

definition PlayFile :: "string \<Rightarrow> string + bytes \<Rightarrow> player \<Rightarrow> string + player" where
  "PlayFile filename ffmpeg p =
    (if pl_playing p then Inl ''file already playing''
     else Inr (p\<lparr>pl_filename := filename, pl_playing := True, pl_worker := Some (Starting ffmpeg)\<rparr>))"

text \<open>Stopping waits for the worker and empties the channel.\<close>

definition StopPlayer :: "player \<Rightarrow> string + player" where
  "StopPlayer p =
    (if \<not> pl_playing p then Inl ''no file playing''
     else Inr (p\<lparr>pl_playing := False, pl_worker := None, pl_local := pl_local p @ [None], pl_audioChan := []\<rparr>))"

definition GetAudioFrame :: "player \<Rightarrow> int16 list option \<times> player" where
  "GetAudioFrame p = (case pl_audioChan p of [] \<Rightarrow> (None, p) | f # fs \<Rightarrow> (Some f, p\<lparr>pl_audioChan := fs\<rparr>))"

section \<open>The worker\<close>

definition reportError :: "string \<Rightarrow> player \<Rightarrow> player" where
  "reportError err p = p\<lparr>pl_errors := pl_errors p @ [err]\<rparr>"

definition pushFrame :: "int16 list \<Rightarrow> player \<Rightarrow> player" where
  "pushFrame f p = (if length (pl_audioChan p) < audioChanSize then p\<lparr>pl_audioChan := pl_audioChan p @ [f]\<rparr> else p)"

text \<open>One tick of the read loop; a short read is the end of the file.\<close>

definition readTick :: "nat \<Rightarrow> bytes \<Rightarrow> player \<Rightarrow> player" where
  "readTick frameSize pipe p =
    (let n = frameSize * 2 * 2 in
     if length pipe < n then
       reportError ''file playback finished'' (p\<lparr>pl_playing := False, pl_local := pl_local p @ [None], pl_worker := None\<rparr>)
     else pushFrame (bytesToSamples (take n pipe))
       (p\<lparr>pl_local := pl_local p @ [Some (take n pipe)], pl_worker := Some (Reading (drop n pipe))\<rparr>))"

text \<open>\<^verbatim>\<open>readFileAudio\<close> as far as the next tick.\<close>

definition readFileAudio :: "nat \<Rightarrow> player \<Rightarrow> player" where
  "readFileAudio frameSize p =
    (case pl_worker p of
       None \<Rightarrow> p
     | Some (Starting (Inl err)) \<Rightarrow> reportError (''failed to start ffmpeg: '' @ err) (p\<lparr>pl_playing := False, pl_worker := None\<rparr>)
     | Some (Starting (Inr pipe)) \<Rightarrow> p\<lparr>pl_worker := Some (Reading pipe)\<rparr>
     | Some (Reading pipe) \<Rightarrow> readTick frameSize pipe p)"

text \<open>The frame that \<^verbatim>\<open>sourceRoutine\<close> takes in a tick.\<close>

definition pollFile :: "player \<Rightarrow> int16 list option \<times> player" where
  "pollFile p = (if pl_playing p then GetAudioFrame p else (None, p))"

section \<open>Histories\<close>

datatype playerAct = ActPlay string "string + bytes" | ActStop | ActWorker | ActPoll

text \<open>The player and the frames taken from it.\<close>

fun playerStep :: "nat \<Rightarrow> playerAct \<Rightarrow> player \<times> int16 list list \<Rightarrow> player \<times> int16 list list" where
  "playerStep frameSize (ActPlay f ffmpeg) (p, out) = (case PlayFile f ffmpeg p of Inl _ \<Rightarrow> (p, out) | Inr p \<Rightarrow> (p, out))"
| "playerStep frameSize ActStop (p, out) = (case StopPlayer p of Inl _ \<Rightarrow> (p, out) | Inr p \<Rightarrow> (p, out))"
| "playerStep frameSize ActWorker (p, out) = (readFileAudio frameSize p, out)"
| "playerStep frameSize ActPoll (p, out) = (case pollFile p of (None, p) \<Rightarrow> (p, out) | (Some f, p) \<Rightarrow> (p, out @ [f]))"

definition playerRun :: "nat \<Rightarrow> playerAct list \<Rightarrow> player \<times> int16 list list \<Rightarrow> player \<times> int16 list list" where
  "playerRun frameSize = fold (playerStep frameSize)"

text \<open>The whole frames of what ffmpeg delivers.\<close>

function fileFrames :: "nat \<Rightarrow> bytes \<Rightarrow> int16 list list" where
  "fileFrames frameSize pipe =
    (if frameSize = 0 \<or> length pipe < frameSize * 2 * 2 then []
     else bytesToSamples (take (frameSize * 2 * 2) pipe) # fileFrames frameSize (drop (frameSize * 2 * 2) pipe))"
  by pat_completeness auto
termination by (relation "measure (\<lambda>(_, pipe). length pipe)") auto

declare fileFrames.simps [simp del]

lemma fileFrames_short: "length pipe < frameSize * 2 * 2 \<Longrightarrow> fileFrames frameSize pipe = []"
  by (simp add: fileFrames.simps)

lemma fileFrames_next:
  "0 < frameSize \<Longrightarrow> \<not> length pipe < frameSize * 2 * 2 \<Longrightarrow>
    fileFrames frameSize pipe = bytesToSamples (take (frameSize * 2 * 2) pipe) # fileFrames frameSize (drop (frameSize * 2 * 2) pipe)"
  by (subst fileFrames.simps) simp

section \<open>The player never makes the microphone routine panic\<close>

definition playerOk :: "nat \<Rightarrow> player \<Rightarrow> bool" where
  "playerOk frameSize p \<longleftrightarrow> (\<forall>f \<in> set (pl_audioChan p). length f = frameSize * 2) \<and> length (pl_audioChan p) \<le> 100
    \<and> (pl_playing p \<longleftrightarrow> pl_worker p \<noteq> None)"

lemma player_step_ok: "playerOk frameSize (fst s) \<Longrightarrow> playerOk frameSize (fst (playerStep frameSize a s))"
proof (cases s)
  case (Pair p out)
  assume ok: "playerOk frameSize (fst s)"
  show ?thesis
  proof (cases a)
    case ActPoll
    then show ?thesis using ok
      by (auto simp: Pair pollFile_def GetAudioFrame_def playerOk_def split: list.splits)
  next
    case ActWorker
    have len: "length (bytesToSamples (take (frameSize * 2 * 2) pipe)) = frameSize * 2" if "\<not> length pipe < frameSize * 2 * 2" for pipe
      using that by (simp add: length_bytesToSamples)
    show ?thesis using ok ActWorker len
      by (auto simp: Pair readFileAudio_def readTick_def reportError_def pushFrame_def playerOk_def audioChanSize_def Let_def
          split: option.splits worker.splits sum.splits)
  qed (use ok in \<open>auto simp: Pair PlayFile_def StopPlayer_def playerOk_def split: if_splits\<close>)
qed

lemma playerRun_ok: "playerOk frameSize (fst s) \<Longrightarrow> playerOk frameSize (fst (playerRun frameSize as s))"
  unfolding playerRun_def by (induction as arbitrary: s) (simp_all add: player_step_ok)

text \<open>The interface \<^verbatim>\<open>FilePlayer\<close> of the microphone routine: anything may happen between two ticks; what is
  polled is nothing or a stereo frame.\<close>

locale frame_source =
  fixes step :: "'a \<Rightarrow> 's \<Rightarrow> 's"
    and poll :: "'s \<Rightarrow> int16 list option \<times> 's"
    and ok :: "'s \<Rightarrow> bool"
    and frameSize :: nat
  assumes step_keeps: "ok s \<Longrightarrow> ok (step a s)"
    and poll_frame: "ok s \<Longrightarrow> fst (poll s) = None \<or> map_option length (fst (poll s)) = Some (frameSize * 2)"
begin

lemma run_keeps: "ok s \<Longrightarrow> ok (fold step as s)"
  by (induction as arbitrary: s) (simp_all add: step_keeps)

lemma tick_after:
  assumes "ok s" and "channels = 1 \<or> channels = 2"
    and "\<And>xs. length (pr_left P xs) = length xs" and "\<And>xs. length (pr_right P xs) = length xs"
  shows "\<exists>failing reports sent. sourceTick F P channels frameSize vol available buff (fst (poll (fold step as s))) micFailed
      = Some (failing, reports, sent) \<and> sentSize frameSize sent"
  using tick_frame_size [OF assms(2-4) poll_frame [OF run_keeps [OF assms(1)]]] .

end

interpretation fp: frame_source "playerStep frameSize" "\<lambda>(p, out). (fst (pollFile p), snd (pollFile p), out)"
    "\<lambda>s. playerOk frameSize (fst s)" frameSize for frameSize
proof
  show "playerOk frameSize (fst s) \<Longrightarrow> playerOk frameSize (fst (playerStep frameSize a s))" for a s by (rule player_step_ok)
  show "playerOk frameSize (fst s) \<Longrightarrow>
      fst ((\<lambda>(p, out). (fst (pollFile p), snd (pollFile p), out)) s) = None \<or>
      map_option length (fst ((\<lambda>(p, out). (fst (pollFile p), snd (pollFile p), out)) s)) = Some (frameSize * 2)" for s
    by (cases s) (auto simp: pollFile_def GetAudioFrame_def playerOk_def split: list.splits)
qed

text \<open>C19. Whatever is played, stopped and polled before, the next tick of the microphone routine, fed by the
  player, does not panic and sends one frame of the configured size: every frame in the channel has that size.\<close>

theorem player_feeds_source:
  assumes "channels = 1 \<or> channels = 2" and "\<And>xs. length (pr_left P xs) = length xs" and "\<And>xs. length (pr_right P xs) = length xs"
  shows "\<exists>failing reports sent. sourceTick F P channels frameSize vol available buff
      (fst (pollFile (fst (playerRun frameSize as (newPlayer, []))))) micFailed = Some (failing, reports, sent)
    \<and> sentSize frameSize sent"
proof -
  have "playerOk frameSize (fst (newPlayer, []))" by (simp add: playerOk_def newPlayer_def)
  from fp.tick_after [OF this assms] show ?thesis
    unfolding playerRun_def case_prod_beta fst_conv by blast
qed

theorem player_feeds_source_witness:
  "\<exists>failing reports sent. sourceTick nullFloats \<lparr>pr_left = rev, pr_right = id\<rparr> 2 1 1 1 [1, 0, 2, 0]
      (fst (pollFile (fst (playerRun 1 [ActPlay ''a'' (Inr [5, 0, 6, 0]), ActWorker, ActWorker] (newPlayer, []))))) False
      = Some (failing, reports, sent) \<and> sentSize 1 sent"
  using player_feeds_source [of 2 "\<lparr>pr_left = rev, pr_right = id\<rparr>"] by simp

section \<open>What is heard of a file\<close>

text \<open>While a worker reads: what was taken and what is in the channel, and the frames still to come.\<close>

definition toCome :: "nat \<Rightarrow> player \<Rightarrow> int16 list list" where
  "toCome frameSize p =
    (case pl_worker p of Some (Reading pipe) \<Rightarrow> fileFrames frameSize pipe | Some (Starting (Inr pipe)) \<Rightarrow> fileFrames frameSize pipe | _ \<Rightarrow> [])"

lemma poll_taken: "playerStep frameSize ActPoll (p, out) = (p', out') \<Longrightarrow>
    out' @ pl_audioChan p' = out @ pl_audioChan p \<and> toCome frameSize p' = toCome frameSize p
    \<and> length (pl_audioChan p') \<le> length (pl_audioChan p)"
  by (auto simp: pollFile_def GetAudioFrame_def toCome_def split: if_splits list.splits prod.splits option.splits)

lemma worker_taken:
  assumes "0 < frameSize" and "readFileAudio frameSize p = p'"
  shows "\<exists>new. subseq new (take 1 (toCome frameSize p)) \<and> pl_audioChan p' = pl_audioChan p @ new
    \<and> (toCome frameSize p' = toCome frameSize p \<and> new = [] \<or> toCome frameSize p' = drop 1 (toCome frameSize p))
    \<and> (length (pl_audioChan p) < 100 \<and> toCome frameSize p' \<noteq> toCome frameSize p \<longrightarrow> new = take 1 (toCome frameSize p))"
proof (cases "\<exists>pipe. pl_worker p = Some (Reading pipe)")
  case True
  then obtain pipe where w: "pl_worker p = Some (Reading pipe)" by blast
  show ?thesis
  proof (cases "length pipe < frameSize * 2 * 2")
    case True
    then show ?thesis using assms w
      by (auto simp: readFileAudio_def readTick_def toCome_def reportError_def Let_def fileFrames_short)
  next
    case False
    then show ?thesis using assms w fileFrames_next [OF assms(1) False]
      by (auto simp: readFileAudio_def readTick_def toCome_def pushFrame_def audioChanSize_def Let_def)
  qed
next
  case False
  then show ?thesis using assms
    by (auto simp: readFileAudio_def toCome_def reportError_def split: option.splits worker.splits sum.splits)
qed

lemma subseq_take_drop: "subseq a (take 1 xs) \<Longrightarrow> subseq b (drop 1 xs) \<Longrightarrow> subseq (a @ b) xs"
  using list_emb_append_mono [of "(=)" a "take 1 xs" b "drop 1 xs"] by (simp only: append_take_drop_id)

lemma run_taken:
  assumes "0 < frameSize" and "set as \<subseteq> {ActWorker, ActPoll}" and "playerRun frameSize as (p, out) = (p', out')"
  shows "\<exists>kept. out' @ pl_audioChan p' = out @ pl_audioChan p @ kept \<and> subseq kept (toCome frameSize p)
    \<and> (length (pl_audioChan p) + length (toCome frameSize p) \<le> 100 \<longrightarrow> kept @ toCome frameSize p' = toCome frameSize p)"
  using assms(2,3)
proof (induction as arbitrary: p out)
  case Nil
  then show ?case by (auto simp: playerRun_def)
next
  case (Cons a as)
  obtain p1 out1 where s: "playerStep frameSize a (p, out) = (p1, out1)" by fastforce
  then obtain kept where k: "out' @ pl_audioChan p' = out1 @ pl_audioChan p1 @ kept" "subseq kept (toCome frameSize p1)"
      "length (pl_audioChan p1) + length (toCome frameSize p1) \<le> 100 \<longrightarrow> kept @ toCome frameSize p' = toCome frameSize p1"
    using Cons.IH [of p1 out1] Cons.prems by (auto simp: playerRun_def)
  show ?case
  proof (cases "a = ActPoll")
    case True
    then show ?thesis using poll_taken [of frameSize p out p1 out1] s k by (intro exI [of _ kept]) auto
  next
    case False
    then have w: "readFileAudio frameSize p = p1" "out1 = out" using s Cons.prems(1) by auto
    from worker_taken [OF assms(1) w(1)] obtain new where
      n: "subseq new (take 1 (toCome frameSize p))" "pl_audioChan p1 = pl_audioChan p @ new"
        "toCome frameSize p1 = toCome frameSize p \<and> new = [] \<or> toCome frameSize p1 = drop 1 (toCome frameSize p)"
        "length (pl_audioChan p) < 100 \<and> toCome frameSize p1 \<noteq> toCome frameSize p \<longrightarrow> new = take 1 (toCome frameSize p)"
      by blast
    have sub: "subseq (new @ kept) (toCome frameSize p)"
      using n(1,3) k(2) subseq_take_drop [of new "toCome frameSize p" kept] by auto
    have "(new @ kept) @ toCome frameSize p' = toCome frameSize p" if "length (pl_audioChan p) + length (toCome frameSize p) \<le> 100"
    proof (cases "toCome frameSize p1 = toCome frameSize p")
      case True
      then have "new = []" using n(3) n(1) by (cases "toCome frameSize p") auto
      then show ?thesis using True k(3) n(2) that by simp
    next
      case other: False
      then have d: "toCome frameSize p1 = drop 1 (toCome frameSize p)" "toCome frameSize p \<noteq> []" using n(3) by auto
      then have len: "length (pl_audioChan p) < 100" using that by (cases "toCome frameSize p") auto
      then have new: "new = take 1 (toCome frameSize p)" using n(4) other by blast
      then have "kept @ toCome frameSize p' = drop 1 (toCome frameSize p)" using k(3) d n(2) that by simp
      then show ?thesis using new by simp
    qed
    then show ?thesis using k(1) n(2) sub w(2) by (intro exI [of _ "new @ kept"]) simp
  qed
qed

text \<open>C30. A file is heard in order: while it plays, however reading and taking are interleaved, the frames
  taken and those still in the channel are what the channel held before, followed by frames of the file in order;
  frames are only left out when a hundred are waiting, so a file for which there is room is heard whole.\<close>

theorem file_heard_in_order:
  assumes "0 < frameSize" and "PlayFile f (Inr pcm) p = Inr p0" and "set as \<subseteq> {ActWorker, ActPoll}"
    and "playerRun frameSize as (p0, []) = (p', out)"
  shows "\<exists>kept. out @ pl_audioChan p' = pl_audioChan p @ kept \<and> subseq kept (fileFrames frameSize pcm)
    \<and> (length (pl_audioChan p) + length (fileFrames frameSize pcm) \<le> 100 \<and> \<not> pl_playing p' \<and> playerOk frameSize p
        \<longrightarrow> kept = fileFrames frameSize pcm)"
proof -
  have p0: "toCome frameSize p0 = fileFrames frameSize pcm" "pl_audioChan p0 = pl_audioChan p"
    using assms(2) by (auto simp: PlayFile_def toCome_def split: if_splits)
  have "toCome frameSize p' = []" if "\<not> pl_playing p'" "playerOk frameSize p"
  proof -
    have "playerOk frameSize p0" using assms(2) that(2) by (auto simp: PlayFile_def playerOk_def split: if_splits)
    then have "playerOk frameSize p'" using playerRun_ok [of frameSize "(p0, [])" as] assms(4) by simp
    then show ?thesis using that(1) by (simp add: playerOk_def toCome_def)
  qed
  then show ?thesis using run_taken [OF assms(1,3,4)] p0 by fastforce
qed

theorem file_heard_in_order_witness:
  "\<exists>p0 p' out kept. PlayFile ''a'' (Inr [1, 0, 2, 0, 9]) newPlayer = Inr p0
    \<and> playerRun 1 [ActWorker, ActWorker, ActPoll] (p0, []) = (p', out) \<and> out @ pl_audioChan p' = kept \<and> subseq kept (fileFrames 1 [1, 0, 2, 0, 9])"
proof -
  obtain p0 where p0: "PlayFile ''a'' (Inr [1, 0, 2, 0, 9]) newPlayer = Inr p0" by (simp add: PlayFile_def newPlayer_def)
  obtain p' out where r: "playerRun 1 [ActWorker, ActWorker, ActPoll] (p0, []) = (p', out)" by fastforce
  show ?thesis
    using file_heard_in_order [OF _ p0 _ r] p0 r by (auto simp: newPlayer_def)
qed

section \<open>A file that ends while nothing is sent\<close>

lemma workers_finish:
  assumes "0 < frameSize" and "pl_worker p = Some (Reading pipe)" and "length (pl_audioChan p) + length (fileFrames frameSize pipe) \<le> 100"
  shows "\<exists>p'. playerRun frameSize (replicate (Suc (length (fileFrames frameSize pipe))) ActWorker) (p, out) = (p', out)
    \<and> \<not> pl_playing p' \<and> pl_worker p' = None \<and> pl_audioChan p' = pl_audioChan p @ fileFrames frameSize pipe"
  using assms(2,3)
proof (induction "length pipe" arbitrary: p pipe rule: less_induct)
  case less
  show ?case
  proof (cases "length pipe < frameSize * 2 * 2")
    case True
    then show ?thesis using less.prems
      by (simp add: playerRun_def readFileAudio_def readTick_def reportError_def fileFrames_short)
  next
    case False
    let ?rest = "drop (frameSize * 2 * 2) pipe"
    note next_ = fileFrames_next [OF assms(1) False]
    let ?p = "readFileAudio frameSize p"
    have p: "pl_worker ?p = Some (Reading ?rest)"
        "pl_audioChan ?p = pl_audioChan p @ [bytesToSamples (take (frameSize * 2 * 2) pipe)]"
      using less.prems False next_ by (simp_all add: readFileAudio_def readTick_def pushFrame_def audioChanSize_def Let_def)
    have short: "length ?rest < length pipe" using False assms(1) by (cases pipe) auto
    have "length (pl_audioChan ?p) + length (fileFrames frameSize ?rest) \<le> 100" using less.prems(2) p(2) next_ by simp
    from less.hyps [OF short p(1) this] show ?thesis using p(2) next_ by (simp add: playerRun_def)
  qed
qed

lemma polls_take:
  "pl_playing p \<Longrightarrow> pl_audioChan p = fs @ rest \<Longrightarrow>
    playerRun frameSize (replicate (length fs) ActPoll) (p, out) = (p\<lparr>pl_audioChan := rest\<rparr>, out @ fs)"
proof (induction fs arbitrary: p out)
  case (Cons f fs)
  then show ?case using Cons.IH [of "p\<lparr>pl_audioChan := fs @ rest\<rparr>" "out @ [f]"]
    by (simp add: playerRun_def pollFile_def GetAudioFrame_def)
qed (simp add: playerRun_def)

text \<open>A file that ends while transmission is stopped stays in the channel, which only \<^verbatim>\<open>Stop\<close> empties:
  the file played next begins with the frames of the one before.\<close>

theorem finished_file_replayed:
  assumes "0 < frameSize" and "\<not> pl_playing p" and "pl_audioChan p = []" and "length (fileFrames frameSize pcm1) \<le> 100"
  shows "\<exists>p'. playerRun frameSize
      (ActPlay f (Inr pcm1) # replicate (length (fileFrames frameSize pcm1) + 2) ActWorker
        @ ActPlay g (Inr pcm2) # replicate (length (fileFrames frameSize pcm1)) ActPoll) (p, []) = (p', fileFrames frameSize pcm1)
    \<and> pl_filename p' = g"
proof -
  let ?n = "length (fileFrames frameSize pcm1)"
  let ?p1 = "p\<lparr>pl_filename := f, pl_playing := True, pl_worker := Some (Reading pcm1)\<rparr>"
  obtain p2 where p2: "playerRun frameSize (replicate (Suc ?n) ActWorker) (?p1, []) = (p2, [])"
      "\<not> pl_playing p2" "pl_audioChan p2 = fileFrames frameSize pcm1"
    using workers_finish [of frameSize ?p1 pcm1 "[]"] assms by auto
  have start: "playerRun frameSize (ActPlay f (Inr pcm1) # replicate (?n + 2) ActWorker) (p, []) = (p2, [])"
    using p2(1) assms(2) by (simp add: playerRun_def PlayFile_def readFileAudio_def)
  let ?p3 = "p2\<lparr>pl_filename := g, pl_playing := True, pl_worker := Some (Starting (Inr pcm2))\<rparr>"
  have polls: "playerRun frameSize (replicate ?n ActPoll) (?p3, []) = (?p3\<lparr>pl_audioChan := []\<rparr>, fileFrames frameSize pcm1)"
    using polls_take [of ?p3 "fileFrames frameSize pcm1" "[]" frameSize "[]"] p2(3) by simp
  have play: "playerStep frameSize (ActPlay g (Inr pcm2)) (p2, []) = (?p3, [])"
    using p2(2) by (simp add: PlayFile_def)
  have "playerRun frameSize
      (ActPlay f (Inr pcm1) # replicate (?n + 2) ActWorker @ ActPlay g (Inr pcm2) # replicate ?n ActPoll) (p, [])
      = (?p3\<lparr>pl_audioChan := []\<rparr>, fileFrames frameSize pcm1)"
    using start play polls unfolding playerRun_def by (simp only: fold_append append_Cons [symmetric] comp_apply fold_Cons)
  then show ?thesis by simp
qed

theorem finished_file_replayed_witness:
  "\<exists>p'. playerRun 1 (ActPlay ''a'' (Inr [5, 0, 6, 0]) # replicate (length (fileFrames 1 [5, 0, 6, 0]) + 2) ActWorker
      @ ActPlay ''b'' (Inr [7, 0, 8, 0]) # replicate (length (fileFrames 1 [5, 0, 6, 0])) ActPoll) (newPlayer, []) = (p', fileFrames 1 [5, 0, 6, 0])
    \<and> fileFrames 1 [5, 0, 6, 0] \<noteq> []"
proof -
  have "fileFrames 1 [5, 0, 6, 0] = [bytesToSamples [5, 0, 6, 0]]"
    by (subst fileFrames_next) (simp_all add: fileFrames_short)
  then show ?thesis
    using finished_file_replayed [of 1 newPlayer "[5, 0, 6, 0]" "''a''" "''b''" "[7, 0, 8, 0]"] by (auto simp: newPlayer_def)
qed

end
