(* ===== verification/RecorderFile.thy ===== *)
theory RecorderFile
  imports Recorder NetIP
begin

text \<open>
  The output and the encoder process of the recorder (\<^verbatim>\<open>recording/recorder.go\<close>): how \<^verbatim>\<open>New\<close> reserves a
  file and starts ffmpeg, and how \<^verbatim>\<open>Stop\<close> ends it.  What the operating system answers is a parameter; what
  other programs do to the directory between two calls is a list of the files that appear.
\<close>

section \<open>Reserving the file\<close>

text \<open>\<open>races\<close> are the files created by others between a look for a free name and the exclusive
  creation, one entry for each attempt.\<close>

fun reserveOutput :: "string list list \<Rightarrow> string option \<Rightarrow> string \<Rightarrow> string \<Rightarrow> string list \<Rightarrow> (string + string) \<times> string list" where
  "reserveOutput [] openError base format files =
    (case openError of Some err \<Rightarrow> (Inl err, files)
     | None \<Rightarrow> (Inr (UniquePath files base format), UniquePath files base format # files))"
| "reserveOutput (new # races) openError base format files =
    (let path = UniquePath files base format; files = new @ files in
     if path \<in> set files then reserveOutput races openError base format files
     else case openError of Some err \<Rightarrow> (Inl err, files) | None \<Rightarrow> (Inr path, path # files))"

section \<open>Starting\<close>

definition ffmpegArgs :: "string \<Rightarrow> string list" where
  "ffmpegArgs format =
    [''-loglevel'', ''error'', ''-f'', ''s16le'', ''-ar'', Itoa AudioSampleRate, ''-ac'', Itoa AudioChannels, ''-i'', ''pipe:0'']
    @ (if format = ''opus'' then [''-c:a'', ''libopus''] else []) @ [''-f'', format, ''pipe:3'']"

datatype recordError = UnsupportedFormat string | InvalidFrameSize | SystemError string

text \<open>The errors of the calls of \<^verbatim>\<open>New\<close>, if they fail.\<close>

record recordHost =
  rh_mkdir :: "string option"
  rh_races :: "string list list"
  rh_open :: "string option"
  rh_pipe :: "string option"
  rh_start :: "string option"
  rh_close :: "string option"

text \<open>What a recording holds: the files of the directory, whether the output is still open here and
  whether ffmpeg runs.\<close>

record recordState =
  rs_files :: "string list"
  rs_outputOpen :: bool
  rs_running :: bool

record recording =
  rg_path :: string
  rg_format :: string
  rg_frameSize :: int
  rg_interval :: int
  rg_args :: "string list"

definition removeFile :: "string \<Rightarrow> recordState \<Rightarrow> recordState" where
  "removeFile path s = s\<lparr>rs_files := removeAll path (rs_files s)\<rparr>"

definition startEncoder :: "recordHost \<Rightarrow> string \<Rightarrow> string \<Rightarrow> int \<Rightarrow> int \<Rightarrow> recordState \<Rightarrow> (recordError + recording) \<times> recordState" where
  "startEncoder H path format frameSize interval s =
    (case rh_pipe H of
       Some err \<Rightarrow> (Inl (SystemError err), removeFile path (s\<lparr>rs_outputOpen := False\<rparr>))
     | None \<Rightarrow>
         (case rh_start H of
            Some err \<Rightarrow> (Inl (SystemError err), removeFile path (s\<lparr>rs_outputOpen := False\<rparr>))
          | None \<Rightarrow>
              let s = s\<lparr>rs_running := True, rs_outputOpen := False\<rparr> in
              (case rh_close H of
                 Some err \<Rightarrow> (Inl (SystemError err), removeFile path (s\<lparr>rs_running := False\<rparr>))
               | None \<Rightarrow> (Inr \<lparr>rg_path = path, rg_format = format, rg_frameSize = frameSize, rg_interval = interval,
                   rg_args = ffmpegArgs format\<rparr>, s))))"

definition NewRecording ::
    "recordHost \<Rightarrow> string \<Rightarrow> string \<Rightarrow> int \<Rightarrow> int \<Rightarrow> recordState \<Rightarrow> (recordError + recording) \<times> recordState" where
  "NewRecording H base format frameSize interval s =
    (let format = NormalizeFormat format in
     if format \<noteq> ''flac'' \<and> format \<noteq> ''opus'' then (Inl (UnsupportedFormat format), s)
     else if frameSize \<le> 0 then (Inl InvalidFrameSize, s)
     else
       let interval = (if interval \<le> 0 then AudioDefaultInterval else interval) in
       (case rh_mkdir H of
          Some err \<Rightarrow> (Inl (SystemError err), s)
        | None \<Rightarrow>
            (case reserveOutput (rh_races H) (rh_open H) base format (rs_files s) of
               (Inl err, files) \<Rightarrow> (Inl (SystemError err), s\<lparr>rs_files := files\<rparr>)
             | (Inr path, files) \<Rightarrow>
                 startEncoder H path format frameSize interval (s\<lparr>rs_files := files, rs_outputOpen := True\<rparr>))))"

section \<open>Stopping\<close>

text \<open>The first error is kept.\<close>

definition setError :: "string \<Rightarrow> string option \<Rightarrow> string option" where
  "setError err e = (case e of None \<Rightarrow> Some err | Some _ \<Rightarrow> e)"

text \<open>An error of closing the pipe comes with whether it is \<^verbatim>\<open>os.ErrClosed\<close>.\<close>

definition closeEncoder :: "(string \<times> bool) option \<Rightarrow> string option \<Rightarrow> string option \<Rightarrow> string option" where
  "closeEncoder closed waited e =
    (let e = (case closed of Some (err, False) \<Rightarrow> setError err e | _ \<Rightarrow> e) in
     case waited of Some err \<Rightarrow> setError err e | None \<Rightarrow> e)"

text \<open>\<open>Inl e\<close> while the loop runs, \<open>Inr e\<close> when it is done; \<^verbatim>\<open>Stop\<close> waits for the latter.\<close>

definition StopRecorder :: "(string \<times> bool) option \<Rightarrow> string option \<Rightarrow> string option + string option \<Rightarrow> string option + string option" where
  "StopRecorder closed waited r = (case r of Inl e \<Rightarrow> Inr (closeEncoder closed waited e) | Inr e \<Rightarrow> Inr e)"

section \<open>Nothing is left behind\<close>

lemma reserve_fresh:
  "reserveOutput races openError base format files = (r, files') \<Longrightarrow>
   \<exists>others \<subseteq> set (concat races). (case r of Inl _ \<Rightarrow> set files' = set files \<union> others
     | Inr path \<Rightarrow> path \<notin> set files \<union> others \<and> set files' = insert path (set files \<union> others))"
proof (induction races openError base format files rule: reserveOutput.induct)
  case (1 openError base format files)
  then show ?case using unique_path_free [of files base format]
    by (auto split: option.splits)
next
  case (2 new races openError base format files)
  let ?path = "UniquePath files base format"
  show ?case
  proof (cases "?path \<in> set (new @ files)")
    case True
    then have "reserveOutput races openError base format (new @ files) = (r, files')" using 2(2) by (simp add: Let_def)
    from "2.IH" [OF refl refl True this] obtain others where o: "others \<subseteq> set (concat races)"
      "case r of Inl _ \<Rightarrow> set files' = set (new @ files) \<union> others
       | Inr path \<Rightarrow> path \<notin> set (new @ files) \<union> others \<and> set files' = insert path (set (new @ files) \<union> others)
          " by blast
    show ?thesis
      by (rule exI [of _ "set new \<union> others"]) (use o in \<open>auto split: sum.splits\<close>)
  next
    case False
    then show ?thesis using 2(2)
      by (intro exI [of _ "set new"]) (auto simp: Let_def split: option.splits)
  qed
qed

text \<open>C20. A recording starts completely or leaves nothing behind: if \<^verbatim>\<open>New\<close> fails, whichever call it was, no
  encoder runs, no output is open and every file in the directory is an old one or someone else's; if it succeeds,
  there is exactly one new file, reserved under a name that was free when it was created, and its encoder
  runs in a known format with a frame and an interval that are positive.\<close>

theorem recording_starts_whole:
  assumes "NewRecording H base format frameSize interval s = (r, s')" and "\<not> rs_outputOpen s" and "\<not> rs_running s"
  shows "\<not> rs_outputOpen s' \<and> (\<exists>others \<subseteq> set (concat (rh_races H)).
    case r of
      Inl _ \<Rightarrow> set (rs_files s') = set (rs_files s) \<union> others \<and> \<not> rs_running s'
    | Inr g \<Rightarrow> rg_path g \<notin> set (rs_files s) \<union> others \<and> set (rs_files s') = insert (rg_path g) (set (rs_files s) \<union> others)
        \<and> rs_running s' \<and> rg_format g \<in> {''flac'', ''opus''} \<and> 0 < rg_frameSize g \<and> 0 < rg_interval g)"
proof -
  define fmt where "fmt = NormalizeFormat format"
  consider "r = Inl (UnsupportedFormat fmt)" "s' = s" | "r = Inl InvalidFrameSize" "s' = s" | err where "r = Inl (SystemError err)" "s' = s"
    | "fmt \<in> {''flac'', ''opus''}" "0 < frameSize" "rh_mkdir H = None"
    using assms(1) by (auto simp: NewRecording_def Let_def fmt_def split: if_splits option.splits)
  then show ?thesis
  proof cases
    case 4
    obtain res files' where res: "reserveOutput (rh_races H) (rh_open H) base fmt (rs_files s) = (res, files')" by fastforce
    from reserve_fresh [OF this] obtain others where o: "others \<subseteq> set (concat (rh_races H))"
      "case res of Inl _ \<Rightarrow> set files' = set (rs_files s) \<union> others
       | Inr path \<Rightarrow> path \<notin> set (rs_files s) \<union> others \<and> set files' = insert path (set (rs_files s) \<union> others)"
      by blast
    have i: "0 < (if interval \<le> 0 then AudioDefaultInterval else interval)" by (simp add: audio_constants)
    show ?thesis
    proof (cases res)
      case (Inl err)
      then show ?thesis using assms 4 res o by (auto simp: NewRecording_def Let_def fmt_def intro!: exI [of _ others])
    next
      case (Inr path)
      then have "set (removeAll path files') = set (rs_files s) \<union> others" using o(2) by auto
      then show ?thesis using Inr assms 4 res o i
        by (auto simp: NewRecording_def startEncoder_def removeFile_def Let_def fmt_def intro!: exI [of _ others] split: option.splits)
    qed
  qed (use assms in \<open>auto intro!: exI [of _ "{}"]\<close>)
qed

theorem recording_starts_whole_witness:
  "let H = \<lparr>rh_mkdir = None, rh_races = [[''r.flac'']], rh_open = None, rh_pipe = None, rh_start = None, rh_close = None\<rparr>;
       (r, s) = NewRecording H ''r'' ''flac'' 480 0 \<lparr>rs_files = [], rs_outputOpen = False, rs_running = False\<rparr>
   in rs_running s \<and> \<not> rs_outputOpen s \<and> (\<exists>g. r = Inr g \<and> set (rs_files s) = {''r.flac'', ''r-2.flac''} \<and> 0 < rg_interval g)"
proof -
  let ?H = "\<lparr>rh_mkdir = None, rh_races = [[''r.flac'']], rh_open = None, rh_pipe = None, rh_start = None, rh_close = None\<rparr>"
  let ?s = "\<lparr>rs_files = [], rs_outputOpen = False, rs_running = False\<rparr>"
  have f: "NormalizeFormat ''flac'' = ''flac''"
    by (simp add: NormalizeFormat_def ToLower_def TrimSpace_def lowerChar_def isSpace_def TrimPrefix_def hasPrefix_def)
  have u: "UniquePath [''r.flac''] ''r'' ''flac'' = ''r-2.flac''"
    by (simp add: UniquePath_def searchPath.simps numberedPath_def digits.simps digit_chars)
  obtain g s' where n: "NewRecording ?H ''r'' ''flac'' 480 0 ?s = (Inr g, s')" "set (rs_files s') = {''r.flac'', ''r-2.flac''}"
    by (simp add: NewRecording_def f UniquePath_def [of "[]"] u startEncoder_def Let_def insert_commute)
  from recording_starts_whole [OF n(1)] n show ?thesis by (auto simp: Let_def)
qed

text \<open>Stopping again gives the same answer.\<close>

lemma stop_twice: "StopRecorder c w (StopRecorder c' w' r) = StopRecorder c' w' r"
  by (simp add: StopRecorder_def split: sum.split)

end
