(* ===== verification/Startup.thy ===== *)
theory Startup
  imports Voice "HOL-Library.Sublist"
begin

text \<open>
  Starting the program (\<^verbatim>\<open>main.go\<close>, \<^verbatim>\<open>start\<close> of \<^verbatim>\<open>client.go\<close>): from the command line, the environment and
  the configuration file to the settings of the connection; opening the connection (\<^verbatim>\<open>DialWithDialer\<close> of
  \<^verbatim>\<open>gumble/gumble/client.go\<close>); the notification command and the lines of the FIFO.
\<close>

section \<open>The command line\<close>

text \<open>An option is \<open>None\<close> for a flag that was not given, where the program asks for that.\<close>

record commandLine =
  cl_server :: "string option"
  cl_username :: "string option"
  cl_password :: string
  cl_insecure :: bool
  cl_certificate :: "string option"
  cl_config :: "string option"
  cl_audioDriver :: string
  cl_buffers :: int64
  cl_audioInterval :: int64
  cl_jitterBuffer :: int64
  cl_noiseSuppression :: bool
  cl_autoTransmit :: bool
  cl_toneTest :: bool
  cl_tcpOnly :: bool

text \<open>What is outside: whether a configuration file that was named can be used, what it contains, the
  TOML library, the environment, and whether a save and the loading of a certificate succeed.\<close>

record startHost =
  sh_requireConfig :: "string \<Rightarrow> string option"
  sh_file :: "bytes option"
  sh_unmarshal :: "bytes \<Rightarrow> exportableConfig \<Rightarrow> exportableConfig option"
  sh_notifyCommand :: string
  sh_ALSOFT_DRIVERS :: string
  sh_save :: "exportableConfig \<Rightarrow> string option"
  sh_certificate :: "string \<Rightarrow> string option"

record started =
  st_Config :: config
  st_UserConfig :: exportableConfig
  st_Hotkeys :: "hotkeys option"
  st_driver :: string
  st_insecure :: bool
  st_hasCertificate :: bool
  st_noiseEnabled :: bool
  st_AutoTransmit :: bool
  st_ToneTest :: bool

text \<open>The OpenAL driver: the flag, the environment, the configuration.\<close>

definition chooseDriver :: "string \<Rightarrow> string \<Rightarrow> exportableConfig \<Rightarrow> string" where
  "chooseDriver flag environment cfg =
    (let d = TrimSpace flag in
     if d \<noteq> [] then d else if environment \<noteq> [] then environment else TrimSpace (GetAudioDriver cfg))"

text \<open>A setting of the command line, or the one of the configuration, which is dereferenced.\<close>

definition setting :: "string option \<Rightarrow> string option \<Rightarrow> string option" where
  "setting given stored = (case given of Some s \<Rightarrow> Some s | None \<Rightarrow> stored)"

text \<open>\<open>Inl\<close> is the exit of the process with a message; a nil pointer of the configuration that is
  dereferenced is \<open>None\<close>.\<close>

definition connectionSettings :: "commandLine \<Rightarrow> startHost \<Rightarrow> int64 \<Rightarrow> int64 \<Rightarrow> exportableConfig \<Rightarrow> (string + started) option" where
  "connectionSettings F H interval jitter cfg = do {
     server \<leftarrow> setting (cl_server F) (ec_DefaultServer cfg);
     username \<leftarrow> setting (cl_username F) (ec_Username cfg);
     certificate \<leftarrow> setting (cl_certificate F) (ec_Certificate cfg);
     _ \<leftarrow> ec_NotifyCommand cfg;
     let cfg' = (if cl_noiseSuppression F then cfg\<lparr>ec_NoiseSuppressionEnabled := Some True\<rparr> else cfg);
     Some
       (if sh_save H cfg \<noteq> None \<or> cl_noiseSuppression F \<and> sh_save H cfg' \<noteq> None then Inl ''could not save configuration''
        else if certificate \<noteq> [] \<and> sh_certificate H certificate \<noteq> None then Inl (the (sh_certificate H certificate))
        else Inr \<lparr>st_Config = NewConfig\<lparr>cfg_Username := username, cfg_Password := cl_password F, cfg_Address := serverAddress server,
               cfg_AudioInterval := sint interval, cfg_IncomingAudioBuffer := sint jitter, cfg_DisableUDP := cl_tcpOnly F,
               cfg_Buffers := sint (cl_buffers F)\<rparr>,
             st_UserConfig = cfg', st_Hotkeys = ec_Hotkeys cfg,
             st_driver = chooseDriver (cl_audioDriver F) (sh_ALSOFT_DRIVERS H) cfg, st_insecure = cl_insecure F,
             st_hasCertificate = (certificate \<noteq> []),
             st_noiseEnabled = (cl_noiseSuppression F \<or> GetNoiseSuppressionEnabled cfg),
             st_AutoTransmit = cl_autoTransmit F, st_ToneTest = cl_toneTest F\<rparr>)
   }"

definition startup :: "commandLine \<Rightarrow> startHost \<Rightarrow> (string + started) option" where
  "startup F H =
    (case (audioIntervalDuration (cl_audioInterval F), jitterBufferDuration (cl_jitterBuffer F)) of
       (Some interval, Some jitter) \<Rightarrow>
         if sint (cl_buffers F) \<le> 0 \<or> sint (cl_buffers F) > MaximumBuffers then Some (Inl ''buffers out of range'')
         else
           (case Option.bind (cl_config F) (sh_requireConfig H) of
              Some err \<Rightarrow> Some (Inl err)
            | None \<Rightarrow>
                (case LoadConfig (sh_unmarshal H) (sh_notifyCommand H) (sh_file H) of
                   None \<Rightarrow> Some (Inl ''error parsing'')
                 | Some cfg \<Rightarrow> connectionSettings F H interval jitter cfg))
     | _ \<Rightarrow> Some (Inl ''bad duration''))"

text \<open>\<^verbatim>\<open>start\<close>: the devices are tried once, then the first connection is made.\<close>

definition start :: "appEnv \<Rightarrow> string option \<Rightarrow> (barnard \<Rightarrow> string + barnard) \<Rightarrow> barnard \<Rightarrow> barnard option" where
  "start E devices dial b =
    (case (if ba_ToneTest b then None else devices) of
       Some err \<Rightarrow> Some (exitWithError err b)
     | None \<Rightarrow> map_option snd (connect E dial False b))"

text \<open>Whatever the command line and the configuration file say, the program does not crash before it
  connects, and the configuration it connects with is one that \<^verbatim>\<open>Dial\<close> accepts: with a supported packet
  duration and the default frame size, and every hotkey set.\<close>

lemma load_full:
  assumes "LoadConfig unmarshal notifyCommand file = Some cfg"
  shows "\<exists>h. ec_Hotkeys cfg = Some h \<and> None \<notin> set (hotkeyList h)"
    and "ec_DefaultServer cfg \<noteq> None" "ec_Username cfg \<noteq> None" "ec_Certificate cfg \<noteq> None" "ec_NotifyCommand cfg \<noteq> None"
proof -
  obtain c where c: "cfg = fillDefaults notifyCommand (ensureHotkeys c)"
    using assms by (auto simp: LoadConfig_def)
  show "\<exists>h. ec_Hotkeys cfg = Some h \<and> None \<notin> set (hotkeyList h)"
    using fillHotkeys_full by (simp add: c fillDefaults_def ensureHotkeys_def)
  show "ec_DefaultServer cfg \<noteq> None" "ec_Username cfg \<noteq> None" "ec_Certificate cfg \<noteq> None" "ec_NotifyCommand cfg \<noteq> None"
    by (simp_all add: c fillDefaults_def ensureHotkeys_def)
qed

lemma interval_milliseconds:
  "audioIntervalDuration n = Some d \<Longrightarrow> sint d \<in> {10000000, 20000000, 40000000, 60000000}"
  "jitterBufferDuration n = Some d \<Longrightarrow> sint d \<in> {0, 20000000, 40000000, 60000000}"
  by (auto simp: audioIntervalDuration_def jitterBufferDuration_def milliseconds_def Let_def split: if_splits)

lemma settings_total:
  assumes "LoadConfig unmarshal notifyCommand file = Some cfg"
  shows "connectionSettings F H interval jitter cfg \<noteq> None"
proof -
  obtain a b c d where "ec_DefaultServer cfg = Some a" "ec_Username cfg = Some b" "ec_Certificate cfg = Some c" "ec_NotifyCommand cfg = Some d"
    using load_full(2-5) [OF assms] by blast
  then show ?thesis by (simp add: connectionSettings_def setting_def Let_def split: option.split)
qed

lemma startup_total: "startup F H \<noteq> None"
  using settings_total [of "sh_unmarshal H" "sh_notifyCommand H" "sh_file H"]
  by (simp add: startup_def split: option.split)

lemma startup_ok:
  assumes "startup F H = Some (Inr s)"
  shows "Validate (st_Config s) = None" "\<exists>h. st_Hotkeys s = Some h \<and> None \<notin> set (hotkeyList h)"
    "GetNoiseSuppressionEnabled (st_UserConfig s) = st_noiseEnabled s"
proof -
  obtain interval jitter cfg where
    d: "audioIntervalDuration (cl_audioInterval F) = Some interval" "jitterBufferDuration (cl_jitterBuffer F) = Some jitter"
    and b: "0 < sint (cl_buffers F)" "sint (cl_buffers F) \<le> MaximumBuffers"
    and l: "LoadConfig (sh_unmarshal H) (sh_notifyCommand H) (sh_file H) = Some cfg"
    and c: "connectionSettings F H interval jitter cfg = Some (Inr s)"
    using assms by (auto simp: startup_def not_le split: option.splits if_splits)
  then obtain username server where
    s: "st_Config s = NewConfig\<lparr>cfg_Username := username, cfg_Password := cl_password F, cfg_Address := serverAddress server,
        cfg_AudioInterval := sint interval, cfg_IncomingAudioBuffer := sint jitter, cfg_DisableUDP := cl_tcpOnly F, cfg_Buffers := sint (cl_buffers F)\<rparr>"
      "st_Hotkeys s = ec_Hotkeys cfg" "st_noiseEnabled s = (cl_noiseSuppression F \<or> GetNoiseSuppressionEnabled cfg)"
      "st_UserConfig s = (if cl_noiseSuppression F then cfg\<lparr>ec_NoiseSuppressionEnabled := Some True\<rparr> else cfg)"
    by (auto simp: connectionSettings_def bind_eq_Some_conv Let_def split: if_splits)
  show "Validate (st_Config s) = None"
    using interval_milliseconds(1) [OF d(1)] interval_milliseconds(2) [OF d(2)] b
    by (auto simp: s(1) Validate_def NewConfig_def audio_constants)
  show "\<exists>h. st_Hotkeys s = Some h \<and> None \<notin> set (hotkeyList h)"
    using load_full(1) [OF l] by (simp add: s(2))
  show "GetNoiseSuppressionEnabled (st_UserConfig s) = st_noiseEnabled s"
    by (simp add: s(3,4) GetNoiseSuppressionEnabled_def)
qed

section \<open>Opening the connection\<close>

definition tlsServerName :: "string \<Rightarrow> string option" where
  "tlsServerName address =
    (case SplitHostPort address of Some (host, _) \<Rightarrow> if host = [] then None else Some host | None \<Rightarrow> None)"

text \<open>When the synchronisation times out, in nanoseconds; \<open>None\<close> is never.\<close>

definition syncDeadline :: "int \<Rightarrow> int \<Rightarrow> int option \<Rightarrow> int option" where
  "syncDeadline begin timeout deadline =
    (if timeout > 0 then
       (case deadline of
          Some d \<Rightarrow> Some (if begin + timeout < d then begin + timeout else d)
        | None \<Rightarrow> Some (begin + timeout))
     else deadline)"

datatype initialMessage = VersionMessage uint32 string | AuthenticateMessage string string bool "string list"

datatype dialError = BadConfig config_error | NetworkError string | SyncTimeout | RejectedBy string

text \<open>The errors of the calls, the server name of the TLS configuration that is given, whether the dialer
  has a timeout, and what comes first of the timeout (\<open>None\<close>) and an answer on the channel \<^verbatim>\<open>connect\<close>.\<close>

record dialHost =
  dh_dial :: "string option"
  dh_serverName :: string
  dh_timeout :: bool
  dh_setDeadline :: "string option"
  dh_handshake :: "string option"
  dh_clearDeadline :: "string option"
  dh_opus :: bool
  dh_answer :: "string option option"

record dialed =
  di_client :: client
  di_serverName :: string
  di_sent :: "initialMessage list"

text \<open>The result, and whether the TCP connection is still open.\<close>

definition DialWithDialer :: "dialHost \<Rightarrow> config \<Rightarrow> (dialError + dialed) \<times> bool" where
  "DialWithDialer D cfg =
    (case Validate cfg of
       Some e \<Rightarrow> (Inl (BadConfig e), False)
     | None \<Rightarrow>
         (case dh_dial D of
            Some err \<Rightarrow> (Inl (NetworkError err), False)
          | None \<Rightarrow>
              (case (if dh_serverName D = [] then tlsServerName (cfg_Address cfg) else Some (dh_serverName D)) of
                 None \<Rightarrow> (Inl (NetworkError ''derive TLS server name''), False)
               | Some serverName \<Rightarrow>
                   if dh_timeout D \<and> dh_setDeadline D \<noteq> None then (Inl (NetworkError (the (dh_setDeadline D))), False)
                   else if dh_handshake D \<noteq> None then (Inl (NetworkError (the (dh_handshake D))), False)
                   else if dh_clearDeadline D \<noteq> None then (Inl (NetworkError (the (dh_clearDeadline D))), False)
                   else
                     (case dh_answer D of
                        None \<Rightarrow> (Inl SyncTimeout, False)
                      | Some (Some err) \<Rightarrow> (Inl (RejectedBy err), False)
                      | Some None \<Rightarrow>
                          (Inr \<lparr>di_client = newClient cfg, di_serverName = serverName,
                             di_sent = [VersionMessage ClientVersion ''gumble'',
                               AuthenticateMessage (cfg_Username cfg) (cfg_Password cfg) (dh_opus D) (cfg_Tokens cfg)]\<rparr>, True)))))"

lemma startup_tls:
  assumes "startup F H = Some (Inr s)" and "cl_server F = Some (JoinHostPort host (digits n))" and "bracketFree host" and "host \<noteq> []"
  shows "tlsServerName (cfg_Address (st_Config s)) = Some host"
proof -
  have split: "SplitHostPort (JoinHostPort host (digits n)) = Some (host, digits n)"
    by (rule Split_Join [OF assms(3) digits_bracketFree])
  then have "cfg_Address (st_Config s) = JoinHostPort host (digits n)"
    using assms(1,2)
    by (auto simp: startup_def connectionSettings_def setting_def serverAddress_def bind_eq_Some_conv Let_def split: option.splits if_splits)
  then show ?thesis using split assms(4) by (simp add: tlsServerName_def)
qed


definition demoLine :: commandLine where
  "demoLine = \<lparr>cl_server = Some (JoinHostPort ''::1'' (digits 64738)), cl_username = Some ''me'', cl_password = [], cl_insecure = False,
     cl_certificate = None, cl_config = None, cl_audioDriver = [], cl_buffers = 16, cl_audioInterval = 10, cl_jitterBuffer = 40,
     cl_noiseSuppression = True, cl_autoTransmit = False, cl_toneTest = False, cl_tcpOnly = False\<rparr>"

definition demoHost :: startHost where
  "demoHost = \<lparr>sh_requireConfig = (\<lambda>_. None), sh_file = None, sh_unmarshal = (\<lambda>_ _. None), sh_notifyCommand = [],
     sh_ALSOFT_DRIVERS = [], sh_save = (\<lambda>_. None), sh_certificate = (\<lambda>_. None)\<rparr>"


section \<open>Notifications and the FIFO\<close>

text \<open>\<^verbatim>\<open>strings.NewReplacer(...).Replace\<close> for keys that are not empty: at each place the first key that
  matches is replaced, and what it is replaced by is not looked at again.\<close>

function replaceAll :: "(string \<times> string) list \<Rightarrow> string \<Rightarrow> string" where
  "replaceAll tbl [] = []"
| "replaceAll tbl (c # cs) =
    (case find (\<lambda>(old, new). hasPrefix old (c # cs)) tbl of
       Some (old, new) \<Rightarrow> new @ replaceAll tbl (drop (length old - 1) cs)
     | None \<Rightarrow> c # replaceAll tbl cs)"
  by pat_completeness auto
termination by (relation "measure (\<lambda>(_, s). length s)") auto

text \<open>\<open>quote\<close> is the quoting of the shell library.\<close>

definition expandNotification :: "(string \<Rightarrow> string) \<Rightarrow> string \<Rightarrow> string \<times> string \<times> string \<Rightarrow> string" where
  "expandNotification quote template event = (case event of (ev, who, what) \<Rightarrow>
    replaceAll [(''%event'', quote ev), (''%who'', quote who), (''%what'', quote what)] template)"

definition notificationQueueSize :: nat where
  "notificationQueueSize = 32"

text \<open>What is at the path of the FIFO, and the errors of removing it, of making the new one and of opening
  that.  The result is the error, what is at the path then, and whether commands are read.\<close>

datatype fifoPath = NothingThere | FifoThere | OtherFile | CannotLook string

definition makeFifo :: "string option \<Rightarrow> string option \<Rightarrow> string option \<times> fifoPath \<times> bool" where
  "makeFifo mkfifo openError =
    (case mkfifo of
       Some err \<Rightarrow> (Some err, NothingThere, False)
     | None \<Rightarrow> (case openError of Some err \<Rightarrow> (Some err, FifoThere, False) | None \<Rightarrow> (None, FifoThere, True)))"

definition setup_fifo :: "string \<Rightarrow> fifoPath \<Rightarrow> string option \<Rightarrow> string option \<Rightarrow> string option \<Rightarrow> string option \<times> fifoPath \<times> bool" where
  "setup_fifo fn there remove mkfifo openError =
    (if fn = [] then (None, there, False)
     else case there of
       OtherFile \<Rightarrow> (Some (''FIFO path '' @ fn @ '' already exists and is not a FIFO''), there, False)
     | CannotLook err \<Rightarrow> (Some err, there, False)
     | NothingThere \<Rightarrow> makeFifo mkfifo openError
     | FifoThere \<Rightarrow> (case remove of Some err \<Rightarrow> (Some err, there, False) | None \<Rightarrow> makeFifo mkfifo openError))"

text \<open>Only a FIFO is ever replaced, and commands are read exactly when one is open and none of the steps failed.\<close>

lemma setup_fifo_safe:
  "setup_fifo fn OtherFile remove mkfifo openError = (err, there, reads) \<Longrightarrow> there = OtherFile \<and> \<not> reads"
  "setup_fifo fn t remove mkfifo openError = (err, there, reads) \<Longrightarrow> reads = (err = None \<and> fn \<noteq> [])"
  by (auto simp: setup_fifo_def makeFifo_def split: if_splits fifoPath.splits option.splits)

text \<open>The lines of a FIFO: each with its newline, the last one as far as it goes.\<close>

function fifoLines :: "string \<Rightarrow> string list" where
  "fifoLines s =
    (if s = [] then []
     else TrimSpace (takeWhile (\<lambda>c. c \<noteq> CHR 0x0A) s) # fifoLines (drop 1 (dropWhile (\<lambda>c. c \<noteq> CHR 0x0A) s)))"
  by pat_completeness auto
termination
proof (relation "measure length", goal_cases)
  case (2 s)
  have "length (dropWhile (\<lambda>c. c \<noteq> CHR 0x0A) s) \<le> length s" by (rule length_dropWhile_le)
  then show ?case using 2 by (cases s) auto
qed simp

declare fifoLines.simps [simp del]

text \<open>The reference: a template is parsed once into characters and fields.\<close>

datatype piece = Plain char | FieldEvent | FieldWho | FieldWhat

fun pieceText :: "piece \<Rightarrow> string" where
  "pieceText (Plain c) = [c]"
| "pieceText FieldEvent = ''%event''"
| "pieceText FieldWho = ''%who''"
| "pieceText FieldWhat = ''%what''"

fun pieceValue :: "(string \<Rightarrow> string) \<Rightarrow> string \<times> string \<times> string \<Rightarrow> piece \<Rightarrow> string" where
  "pieceValue quote e (Plain c) = [c]"
| "pieceValue quote (ev, who, what) FieldEvent = quote ev"
| "pieceValue quote (ev, who, what) FieldWho = quote who"
| "pieceValue quote (ev, who, what) FieldWhat = quote what"

function pieces :: "string \<Rightarrow> piece list" where
  "pieces [] = []"
| "pieces (c # cs) =
    (if hasPrefix ''%event'' (c # cs) then FieldEvent # pieces (drop 5 cs)
     else if hasPrefix ''%who'' (c # cs) then FieldWho # pieces (drop 3 cs)
     else if hasPrefix ''%what'' (c # cs) then FieldWhat # pieces (drop 4 cs)
     else Plain c # pieces cs)"
  by pat_completeness auto
termination by (relation "measure length") auto

lemma pieces_text: "concat (map pieceText (pieces s)) = s"
proof (induction s rule: pieces.induct)
  case (2 c cs)
  have e: "hasPrefix p (c # cs) \<Longrightarrow> p @ drop (length p) (c # cs) = c # cs" for p
    unfolding hasPrefix_def by (metis append_take_drop_id)
  show ?case using 2 e [of "''%event''"] e [of "''%who''"] e [of "''%what''"] by (auto simp: eval_nat_numeral)
qed simp

lemma expand_pieces: "expandNotification quote template e = concat (map (pieceValue quote e) (pieces template))"
proof (cases e)
  case (fields ev who what)
  show ?thesis
    by (induction template rule: pieces.induct) (auto simp: expandNotification_def fields eval_nat_numeral)
qed

lemma pieces_plain: "prefix (map Plain k) (pieces s) \<Longrightarrow> hasPrefix k s"
proof (induction k arbitrary: s)
  case (Cons a k)
  then show ?case by (cases s) (auto simp: hasPrefix_def split: if_splits)
qed (simp add: hasPrefix_def)

lemma pieces_no_field:
  assumes "k \<in> {''%event'', ''%who'', ''%what''}"
  shows "\<not> sublist (map Plain k) (pieces s)"
proof (induction s rule: pieces.induct)
  case 1
  then show ?case using assms by auto
next
  case (2 c cs)
  have "\<not> prefix (map Plain k) (pieces (c # cs))"
  proof
    assume p: "prefix (map Plain k) (pieces (c # cs))"
    then have "hasPrefix k (c # cs)" by (rule pieces_plain)
    then have "\<exists>x ps. pieces (c # cs) = x # ps \<and> (\<forall>a. x \<noteq> Plain a)" using assms by auto
    then show False using p assms by auto
  qed
  then show ?case using 2 by (auto simp: sublist_Cons_right)
qed

text \<open>A notification command is expanded as its template says and nothing else: the template is a
  sequence of characters and fields, and whatever an event contains, even a placeholder, each field is
  replaced by its value quoted for the shell, once, and nothing in a value is expanded.\<close>

theorem notification_expanded_once:
  "\<exists>ps. concat (map pieceText ps) = template \<and> (\<forall>k \<in> {''%event'', ''%who'', ''%what''}. \<not> sublist (map Plain k) ps)
    \<and> (\<forall>quote event. expandNotification quote template event = concat (map (pieceValue quote event) ps))"
  using pieces_text [of template] pieces_no_field [of _ template] expand_pieces [of _ template] by blast

theorem notification_expanded_once_witness:
  "\<exists>ps. concat (map pieceText ps) = ''say %who %what'' \<and> \<not> sublist (map Plain ''%who'') ps
    \<and> expandNotification (\<lambda>s. s) ''say %who %what'' (''msg'', ''%what'', ''hi'') = concat (map (pieceValue (\<lambda>s. s) (''msg'', ''%what'', ''hi'')) ps)"
  using notification_expanded_once [of "''say %who %what''"] by auto

text \<open>Commands written to the FIFO as lines arrive trimmed, in their order.\<close>

lemma fifo_commands:
  "\<forall>l \<in> set ls. CHR 0x0A \<notin> set l \<Longrightarrow> fifoLines (concat (map (\<lambda>l. l @ [CHR 0x0A]) ls)) = map TrimSpace ls"
proof (induction ls)
  case (Cons l ls)
  have "takeWhile (\<lambda>c. c \<noteq> CHR 0x0A) (l @ CHR 0x0A # xs) = l" "dropWhile (\<lambda>c. c \<noteq> CHR 0x0A) (l @ CHR 0x0A # xs) = CHR 0x0A # xs" for xs
    using Cons.prems takeWhile_sep [of "CHR 0x0A" l xs] by simp_all
  then show ?case using Cons by (subst fifoLines.simps) simp
qed (simp add: fifoLines.simps)

end
