(* ===== verification/StreamLife.thy ===== *)
theory StreamLife
  imports Playback GoStrings "HOL-Library.Multiset"
begin

text \<open>
  The devices and buffers of an audio stream (\<^verbatim>\<open>gumble/gumbleopenal/stream.go\<close>): what \<^verbatim>\<open>New\<close> opens,
  \<^verbatim>\<open>StartSource\<close>, \<^verbatim>\<open>StopSource\<close> and the first part of \<^verbatim>\<open>sourceRoutine\<close>, what \<^verbatim>\<open>Destroy\<close> closes, and the
  OpenAL buffers of a user's stream and of a file that is played locally.  What OpenAL answers is a parameter;
  the devices, contexts and buffers that are open in the process are counted.
\<close>

section \<open>Devices\<close>

datatype oalError = ErrState | ErrMic | ErrInputDevice | ErrOutputDevice

definition fatalAudioOpenError :: "oalError \<Rightarrow> bool" where
  "fatalAudioOpenError e \<longleftrightarrow> e = ErrMic \<or> e = ErrInputDevice \<or> e = ErrOutputDevice"

text \<open>Whether a call succeeds.\<close>

record oalHost =
  oh_captureStereo :: bool
  oh_captureMono :: bool
  oh_captureOk :: bool
  oh_playback :: bool
  oh_playbackOk :: bool
  oh_context :: bool
  oh_captureStart :: bool
  oh_captureStop :: bool
  oh_captureClose :: bool
  oh_closeDevice :: bool

record oalHeld =
  hd_captures :: nat
  hd_playbacks :: nat
  hd_contexts :: nat
  hd_renderers :: nat

record oalStream =
  os_capture :: bool
  os_stereo :: bool
  os_frameSize :: int
  os_sink :: bool
  os_context :: bool
  os_rendering :: bool
  os_agcRight :: bool
  os_source :: bool
  os_linked :: bool

definition openCapture :: "oalHost \<Rightarrow> bool \<Rightarrow> oalHeld \<Rightarrow> bool option \<times> oalHeld" where
  "openCapture H stereo h =
    (if stereo \<and> oh_captureStereo H then (Some True, h\<lparr>hd_captures := hd_captures h + 1\<rparr>)
     else if oh_captureMono H then (Some False, h\<lparr>hd_captures := hd_captures h + 1\<rparr>)
     else (None, h))"

definition closeCapture :: "oalHost \<Rightarrow> oalHeld \<Rightarrow> oalHeld" where
  "closeCapture H h = (if oh_captureClose H then h\<lparr>hd_captures := hd_captures h - 1\<rparr> else h)"

definition closePlayback :: "oalHost \<Rightarrow> oalHeld \<Rightarrow> oalHeld" where
  "closePlayback H h = (if oh_closeDevice H then h\<lparr>hd_playbacks := hd_playbacks h - 1\<rparr> else h)"

section \<open>Capturing\<close>

definition StartSource :: "oalHost \<Rightarrow> oalStream \<Rightarrow> oalError option \<times> oalStream" where
  "StartSource H s =
    (if os_source s then (Some ErrState, s)
     else if \<not> os_capture s then (Some ErrMic, s)
     else if \<not> oh_captureStart H then (Some ErrMic, s)
     else (None, s\<lparr>os_source := True\<rparr>))"

definition StopSource :: "oalHost \<Rightarrow> oalStream \<Rightarrow> oalError option \<times> oalStream" where
  "StopSource H s =
    (if \<not> os_source s then (Some ErrState, s)
     else
       let s = s\<lparr>os_source := False\<rparr> in
       if \<not> os_capture s then (Some ErrMic, s)
       else if \<not> oh_captureStop H then (Some ErrMic, s)
       else (None, s))"

text \<open>The beginning of \<^verbatim>\<open>sourceRoutine\<close>: another frame size makes it open the device again.\<close>

definition reopenSource :: "oalHost \<Rightarrow> int \<Rightarrow> oalStream \<times> oalHeld \<Rightarrow> oalStream \<times> oalHeld" where
  "reopenSource H frameSize = (\<lambda>(s, h).
    if \<not> os_source s \<or> \<not> os_capture s \<or> frameSize = os_frameSize s then (s, h)
    else
      let s = s\<lparr>os_frameSize := frameSize\<rparr>; h = closeCapture H h in
      if (if os_stereo s then oh_captureStereo H else oh_captureMono H) then (s, h\<lparr>hd_captures := hd_captures h + 1\<rparr>)
      else if os_stereo s then
        let s = s\<lparr>os_stereo := False\<rparr> in
        if oh_captureMono H then (s, h\<lparr>hd_captures := hd_captures h + 1\<rparr>) else (s\<lparr>os_capture := False\<rparr>, h)
      else (s\<lparr>os_capture := False\<rparr>, h))"

section \<open>Opening and closing\<close>

definition DestroyStream :: "oalHost \<Rightarrow> oalStream \<times> oalHeld \<Rightarrow> oalStream \<times> oalHeld" where
  "DestroyStream H = (\<lambda>(s, h).
    let s = s\<lparr>os_linked := False\<rparr>;
        (s, h) = (if os_capture s then ((snd (StopSource H s))\<lparr>os_capture := False\<rparr>, closeCapture H h) else (s, h))
    in if os_sink s then
         let (s, h) = (if os_context s then
               (s\<lparr>os_context := False, os_rendering := False\<rparr>, h\<lparr>hd_contexts := hd_contexts h - 1, hd_renderers := hd_renderers h - 1\<rparr>)
               else (s, h))
         in (s\<lparr>os_sink := False\<rparr>, closePlayback H h)
       else (s, h))"

text \<open>\<^verbatim>\<open>New\<close>: a test closes what it has opened and gives no stream.\<close>

definition NewStream :: "oalHost \<Rightarrow> bool \<Rightarrow> int \<Rightarrow> oalHeld \<Rightarrow> (oalError + oalStream option) \<times> oalHeld" where
  "NewStream H test configured h =
    (case openCapture H True h of
       (None, h) \<Rightarrow> (Inl ErrInputDevice, h)
     | (Some stereo, h) \<Rightarrow>
         if \<not> oh_captureOk H then (Inl ErrInputDevice, closeCapture H h)
         else if \<not> oh_playback H then (Inl ErrOutputDevice, closeCapture H h)
         else
           let h = h\<lparr>hd_playbacks := hd_playbacks h + 1\<rparr> in
           if \<not> oh_playbackOk H then (Inl ErrOutputDevice, closePlayback H (closeCapture H h))
           else if test then (Inr None, closePlayback H (closeCapture H h))
           else
             let s = \<lparr>os_capture = True, os_stereo = stereo, os_frameSize = configured, os_sink = True, os_context = False,
                   os_rendering = False, os_agcRight = stereo, os_source = False, os_linked = False\<rparr> in
             if \<not> oh_context H then (Inl ErrOutputDevice, snd (DestroyStream H (s, h)))
             else (Inr (Some (s\<lparr>os_context := True, os_rendering := True\<rparr>)),
               h\<lparr>hd_contexts := hd_contexts h + 1, hd_renderers := hd_renderers h + 1\<rparr>))"

section \<open>Nothing is left open\<close>

definition nothingHeld :: oalHeld where
  "nothingHeld = \<lparr>hd_captures = 0, hd_playbacks = 0, hd_contexts = 0, hd_renderers = 0\<rparr>"

definition holds :: "oalStream \<Rightarrow> oalHeld \<Rightarrow> bool" where
  "holds s h \<longleftrightarrow> hd_captures h = of_bool (os_capture s) \<and> hd_playbacks h = of_bool (os_sink s)
    \<and> hd_contexts h = of_bool (os_context s) \<and> hd_renderers h = of_bool (os_rendering s)
    \<and> os_rendering s = os_context s \<and> (os_context s \<longrightarrow> os_sink s)"

datatype streamAct = SaStart | SaStop | SaRoutine int | SaDestroy

fun streamStep :: "oalHost \<times> streamAct \<Rightarrow> oalStream \<times> oalHeld \<Rightarrow> oalStream \<times> oalHeld" where
  "streamStep (H, SaStart) (s, h) = (snd (StartSource H s), h)"
| "streamStep (H, SaStop) (s, h) = (snd (StopSource H s), h)"
| "streamStep (H, SaRoutine frameSize) (s, h) = reopenSource H frameSize (s, h)"
| "streamStep (H, SaDestroy) (s, h) = DestroyStream H (s, h)"

definition closes :: "oalHost \<Rightarrow> bool" where
  "closes H \<longleftrightarrow> oh_captureClose H \<and> oh_closeDevice H"

lemma destroy_holds:
  assumes "holds s h" and "closes H"
  shows "holds (fst (DestroyStream H (s, h))) (snd (DestroyStream H (s, h)))" and "snd (DestroyStream H (s, h)) = nothingHeld"
  using assms
  by (auto simp: holds_def closes_def DestroyStream_def StopSource_def closeCapture_def closePlayback_def nothingHeld_def Let_def)

lemma step_holds:
  assumes "holds s h" and "closes H" and "streamStep (H, a) (s, h) = (s', h')"
  shows "holds s' h'"
proof (cases a)
  case SaDestroy
  then show ?thesis using destroy_holds(1) [OF assms(1,2)] assms(3) by simp
next
  case (SaRoutine n)
  then show ?thesis using assms
    by (auto simp: reopenSource_def holds_def closes_def closeCapture_def Let_def split: if_splits)
qed (use assms in \<open>auto simp: StartSource_def StopSource_def holds_def Let_def split: if_splits\<close>)

lemma new_holds:
  assumes "closes H" and "NewStream H test configured nothingHeld = (r, h)"
  shows "case r of Inr (Some s) \<Rightarrow> holds s h \<and> os_capture s \<and> os_rendering s | _ \<Rightarrow> h = nothingHeld"
  using assms
  by (auto simp: NewStream_def openCapture_def closeCapture_def closePlayback_def closes_def DestroyStream_def StopSource_def
      nothingHeld_def holds_def Let_def split: option.splits if_splits)

lemma steps_hold: "holds s h \<Longrightarrow> \<forall>(H, a) \<in> set as. closes H \<Longrightarrow> fold streamStep as (s, h) = (s', h') \<Longrightarrow> holds s' h'"
proof (induction as arbitrary: s h)
  case (Cons x as)
  obtain H a where x: "x = (H, a)" by fastforce
  obtain s1 h1 where "streamStep (H, a) (s, h) = (s1, h1)" by fastforce
  then show ?case using Cons x step_holds [of s h H a s1 h1] by auto
qed simp



section \<open>Buffers\<close>

text \<open>The buffers of a source: those that are empty and those that are queued, in their order.\<close>

record bufferPool =
  bp_empty :: "nat list"
  bp_queued :: "nat list"

text \<open>\<^verbatim>\<open>reclaim\<close>: \<open>n\<close> buffers have been played.\<close>

definition reclaimBuffers :: "nat \<Rightarrow> bufferPool \<Rightarrow> bufferPool" where
  "reclaimBuffers n p = p\<lparr>bp_empty := bp_empty p @ take n (bp_queued p), bp_queued := drop n (bp_queued p)\<rparr>"

text \<open>The last empty buffer is queued, if there is one.\<close>

definition queueBuffer :: "bufferPool \<Rightarrow> bufferPool" where
  "queueBuffer p =
    (if bp_empty p = [] then p else p\<lparr>bp_empty := butlast (bp_empty p), bp_queued := bp_queued p @ [last (bp_empty p)]\<rparr>)"

text \<open>The buffers of a user's stream, when it begins, for each packet and when it ends: the latter gives
  the buffers deleted.\<close>

definition openUserSource :: "int \<Rightarrow> (nat \<Rightarrow> nat list) \<Rightarrow> bufferPool" where
  "openUserSource configured newBuffers =
    \<lparr>bp_empty = newBuffers (nat (if configured < 64 then 64 else configured)), bp_queued = []\<rparr>"

definition playUserPacket :: "nat \<Rightarrow> bool \<Rightarrow> bufferPool \<Rightarrow> bufferPool" where
  "playUserPacket processed fits p =
    (let p = reclaimBuffers processed p in if fits then queueBuffer p else p)"

definition closeUserSource :: "nat \<Rightarrow> bufferPool \<Rightarrow> nat list" where
  "closeUserSource processed p =
    (let p = reclaimBuffers processed p in bp_empty (reclaimBuffers (length (bp_queued p)) p))"

text \<open>The local playback of a file, on its own source; \<open>None\<close> is \<^verbatim>\<open>nil\<close> data.  The second component are the
  buffers deleted.\<close>

definition playLocalAudio :: "bytes option \<Rightarrow> (nat \<Rightarrow> nat list) \<Rightarrow> nat \<Rightarrow> bufferPool option \<Rightarrow> bufferPool option \<times> nat list" where
  "playLocalAudio data newBuffers processed p =
    (case data of
       None \<Rightarrow> (None, case p of None \<Rightarrow> [] | Some p \<Rightarrow> bp_empty (reclaimBuffers (length (bp_queued p)) p))
     | Some _ \<Rightarrow>
         let p = (case p of None \<Rightarrow> \<lparr>bp_empty = newBuffers 64, bp_queued = []\<rparr> | Some p \<Rightarrow> p)
         in (Some (queueBuffer (reclaimBuffers processed p)), []))"

definition poolOf :: "bufferPool \<Rightarrow> nat list" where
  "poolOf p = bp_empty p @ bp_queued p"

lemma pool_reclaim [simp]: "mset (poolOf (reclaimBuffers n p)) = mset (poolOf p)"
proof -
  have "mset (bp_queued p) = mset (take n (bp_queued p)) + mset (drop n (bp_queued p))"
    using mset_append [of "take n (bp_queued p)" "drop n (bp_queued p)"] by (simp only: append_take_drop_id)
  then show ?thesis by (simp add: poolOf_def reclaimBuffers_def)
qed

lemma pool_queue [simp]: "mset (poolOf (queueBuffer p)) = mset (poolOf p)"
proof (cases "bp_empty p" rule: rev_cases)
  case (snoc xs x)
  then show ?thesis by (simp add: poolOf_def queueBuffer_def)
qed (simp add: poolOf_def queueBuffer_def)

lemma reclaim_all: "bp_empty (reclaimBuffers (length (bp_queued p)) p) = poolOf p"
  by (simp add: reclaimBuffers_def poolOf_def)

text \<open>Every buffer is freed once: whatever OpenAL says has been played, and whichever packets fit, the
  buffers deleted at the end of a user's stream are those created at its beginning, and the same holds for a file
  played locally.\<close>

theorem buffers_freed_once:
  "mset (closeUserSource n (fold (\<lambda>(processed, fits). playUserPacket processed fits) packets (openUserSource configured newBuffers)))
     = mset (newBuffers (nat (max 64 configured)))
   \<and> (datas \<noteq> [] \<longrightarrow> mset (snd (playLocalAudio None newBuffers n
         (fold (\<lambda>(data, processed) p. fst (playLocalAudio (Some data) newBuffers processed p)) datas None))) = mset (newBuffers 64))"
proof -
  have "mset (poolOf (fold (\<lambda>(processed, fits). playUserPacket processed fits) packets p)) = mset (poolOf p)" for p
    by (induction packets arbitrary: p) (auto simp: playUserPacket_def Let_def)
  then have user: "mset (closeUserSource n (fold (\<lambda>(processed, fits). playUserPacket processed fits) packets (openUserSource configured newBuffers)))
      = mset (newBuffers (nat (max 64 configured)))"
    by (simp add: closeUserSource_def Let_def reclaim_all) (simp add: openUserSource_def poolOf_def max_def)
  have local: "\<exists>q. fold (\<lambda>(data, processed) p. fst (playLocalAudio (Some data) newBuffers processed p)) cs (Some p) = Some q
      \<and> mset (poolOf q) = mset (poolOf p)" for cs p
  proof (induction cs arbitrary: p)
    case (Cons c cs)
    obtain data processed where c: "c = (data, processed)" by fastforce
    show ?case
      using Cons [of "queueBuffer (reclaimBuffers processed p)"]
      by (simp add: c playLocalAudio_def)
  qed simp
  have "mset (snd (playLocalAudio None newBuffers n
         (fold (\<lambda>(data, processed) p. fst (playLocalAudio (Some data) newBuffers processed p)) datas None))) = mset (newBuffers 64)"
    if "datas \<noteq> []"
  proof -
    obtain data processed cs where c: "datas = (data, processed) # cs" using \<open>datas \<noteq> []\<close> by (cases datas) auto
    let ?p = "queueBuffer (reclaimBuffers processed \<lparr>bp_empty = newBuffers 64, bp_queued = []\<rparr>)"
    obtain q where "fold (\<lambda>(data, processed) p. fst (playLocalAudio (Some data) newBuffers processed p)) cs (Some ?p) = Some q"
      "mset (poolOf q) = mset (poolOf ?p)" using local by blast
    then show ?thesis by (simp add: c playLocalAudio_def reclaim_all Let_def) (simp add: poolOf_def)
  qed
  then show ?thesis using user by blast
qed

theorem buffers_freed_once_witness:
  "mset (closeUserSource 0 (fold (\<lambda>(processed, fits). playUserPacket processed fits) [(0, True), (1, False), (5, True)]
      (openUserSource 8 (\<lambda>n. [0 ..< n])))) = mset [0 ..< 64]"
  using buffers_freed_once [of 0 "[(0, True), (1, False), (5, True)]" 8 "\<lambda>n. [0 ..< n]" "[([], 0)]"] by simp

end
