(* ===== verification/Bitrate.thy ===== *)
theory Bitrate
  imports Config
begin

text \<open>
  The size of the outgoing frames that follows from the bandwidth a server allows
  (\<^verbatim>\<open>gumble/gumbleutil/bitrate.go\<close>, which \<^verbatim>\<open>client.go\<close> attaches to every connection).
\<close>

abbreviation "Second \<equiv> (1000000000 :: int)"

text \<open>\<open>None\<close> stands for a division by zero; \<^verbatim>\<open>MaximumBitrate\<close> comes from 32 bits, so nothing wraps.\<close>

definition framesPerSecond :: "config \<Rightarrow> int option" where
  "framesPerSecond c = (if cfg_AudioInterval c = 0 then None else Some (goQuot Second (cfg_AudioInterval c)))"

definition autoBitrate :: "int option \<Rightarrow> config \<Rightarrow> config option" where
  "autoBitrate maximum c =
    (case maximum of
       None \<Rightarrow> Some c
     | Some m \<Rightarrow>
         (case framesPerSecond c of
            None \<Rightarrow> None
          | Some fps \<Rightarrow>
              if 8 * (fps + 5) = 0 then None
              else
                let dataBytes = goQuot m (8 * (fps + 5)) - 32 - 10
                in Some (c\<lparr>cfg_AudioDataBytes := if dataBytes < 10 then 10 else dataBytes\<rparr>)))"

lemma valid_fps:
  assumes "Validate c = None"
  shows "\<exists>fps \<in> {100, 50, 25, 16}. framesPerSecond c = Some fps"
  using assms by (auto simp: Validate_def framesPerSecond_def audio_constants goQuot_def split: if_splits)

lemma quotient_fits:
  assumes "0 < k" and "0 \<le> (m :: int)"
  shows "goQuot m k = m div k" "k * (m div k) \<le> m" "m < k * (m div k + 1)"
proof -
  show "goQuot m k = m div k" using assms by (cases "m = 0") (simp_all add: goQuot_def signed_divide_int_def)
  have "m = k * (m div k) + m mod k" by (rule mult_div_mod_eq [symmetric])
  moreover have "0 \<le> m mod k" "m mod k < k" using assms by simp_all
  ultimately show "k * (m div k) \<le> m" "m < k * (m div k + 1)" unfolding distrib_left by linarith+
qed

text \<open>C31. The automatic bitrate keeps a valid configuration valid and its frames within what the server allows:
  with 42 bytes of headers, five frames a second to spare, and eight bits a byte, a second of frames is at most
  the maximum, and the largest such size is taken, unless the maximum is below the least usable size, which is ten bytes.\<close>

theorem bitrate_within_maximum:
  assumes "Validate c = None" and "0 \<le> m"
  shows "\<exists>fps c'. framesPerSecond c = Some fps \<and> 0 < fps \<and> autoBitrate (Some m) c = Some c' \<and> Validate c' = None
    \<and> (if 8 * (fps + 5) * 52 \<le> m
        then 8 * (fps + 5) * (cfg_AudioDataBytes c' + 42) \<le> m \<and> m < 8 * (fps + 5) * (cfg_AudioDataBytes c' + 43)
        else cfg_AudioDataBytes c' = 10)"
proof -
  obtain fps where f: "fps \<in> {100, 50, 25, 16}" "framesPerSecond c = Some fps" using valid_fps [OF assms(1)] by blast
  define k where "k = 8 * (fps + 5)"
  have k: "0 < k" "k \<noteq> 0" "0 < fps" using f(1) by (auto simp: k_def)
  note q = quotient_fits [OF k(1) assms(2)]
  define d where "d = m div k - 42"
  let ?c = "c\<lparr>cfg_AudioDataBytes := if d < 10 then 10 else d\<rparr>"
  have "autoBitrate (Some m) c = Some ?c"
    using k(2) q(1) by (simp add: autoBitrate_def f(2) Let_def k_def d_def)
  moreover have "Validate ?c = None" using assms(1) by (auto simp: Validate_def split: if_splits)
  moreover have "k * 52 \<le> m \<longleftrightarrow> \<not> d < 10"
  proof -
    have "k * 52 \<le> m" if "52 \<le> m div k"
      using k(1) mult_left_mono [OF that, of k] q(2) by linarith
    then have "52 \<le> m div k \<longleftrightarrow> k * 52 \<le> m" using k(1) zdiv_mono1 [of "k * 52" m k] by auto
    then show ?thesis by (simp add: d_def) linarith
  qed
  moreover have "k * (d + 42) \<le> m" "m < k * (d + 43)" using q(2,3) by (simp_all add: d_def algebra_simps)
  ultimately have "autoBitrate (Some m) c = Some ?c" "Validate ?c = None"
    "if k * 52 \<le> m then k * (cfg_AudioDataBytes ?c + 42) \<le> m \<and> m < k * (cfg_AudioDataBytes ?c + 43) else cfg_AudioDataBytes ?c = 10"
    by auto
  then show ?thesis using f(2) k(3) unfolding k_def by blast
qed

theorem bitrate_within_maximum_witness:
  "\<exists>c'. autoBitrate (Some 72000) NewConfig = Some c' \<and> Validate c' = None \<and> cfg_AudioDataBytes c' = 43"
proof -
  have "Validate NewConfig = None" by (simp add: Validate_def NewConfig_def audio_constants MaximumBuffers_def)
  moreover have "framesPerSecond NewConfig = Some 100"
    by (simp add: framesPerSecond_def NewConfig_def audio_constants goQuot_def)
  ultimately show ?thesis using bitrate_within_maximum [of NewConfig 72000] by auto
qed

end
