(* ===== verification/UiLoop.thy ===== *)
theory UiLoop
  imports Input Textview Textbox NoticeFacts
begin

text \<open>
  The terminal (\<^verbatim>\<open>uiterm/ui.go\<close>, the set-up and the layout in \<^verbatim>\<open>ui.go\<close>): how an event of the terminal
  becomes a character or a key, which listeners and which view receive it, and which cells each view has.
  A view is an interface in the code and a pair of functions here; the input line is the one of \<^verbatim>\<open>Textbox\<close>
  with \<^verbatim>\<open>OnTextInput\<close> behind it, the other views are those of any program.
\<close>

section \<open>Events\<close>

record termEvent =
  ev_Key :: uint16
  ev_Ch :: uint32
  ev_Mod :: byte

text \<open>Characters with a modifier are keys, of the code of the character.\<close>

definition decodeEvent :: "termEvent \<Rightarrow> boxEvent" where
  "decodeEvent e =
    (let k = (if ev_Ch e \<noteq> 0 \<and> ev_Mod e \<noteq> 0 then ev_Ch e else ucast (ev_Key e)) in
     if ev_Ch e \<noteq> 0 \<and> ev_Mod e = 0 then BoxChar (unat (ev_Ch e))
     else BoxKey (if ev_Mod e > 0 then k + push_bit 16 (ucast (ev_Mod e)) else k))"

section \<open>Listeners and views\<close>

record 's view =
  vw_uiKeyEvent :: "keyCode \<Rightarrow> 's \<Rightarrow> 's option"
  vw_uiCharacterEvent :: "nat \<Rightarrow> 's \<Rightarrow> 's option"

type_synonym 's keyListeners = "(keyCode \<times> ('s \<Rightarrow> 's option)) list"

text \<open>A hotkey that is not set gets no listener.\<close>

definition AddKeyListener :: "('s \<Rightarrow> 's option) \<Rightarrow> keyCode option \<Rightarrow> 's keyListeners \<Rightarrow> 's keyListeners" where
  "AddKeyListener listener k ls = (case k of None \<Rightarrow> ls | Some k \<Rightarrow> ls @ [(k, listener)])"

fun runListeners :: "keyCode \<Rightarrow> 's keyListeners \<Rightarrow> 's \<Rightarrow> 's option" where
  "runListeners k [] s = Some s"
| "runListeners k ((k', listener) # ls) s = (if k' = k then Option.bind (listener s) (runListeners k ls) else runListeners k ls s)"

text \<open>The view that is active when the listeners are done receives the key too.\<close>

definition onKeyEvent :: "'s keyListeners \<Rightarrow> ('s \<Rightarrow> 's view option) \<Rightarrow> keyCode \<Rightarrow> 's \<Rightarrow> 's option" where
  "onKeyEvent ls active k s =
    do { s \<leftarrow> runListeners k ls s; (case active s of None \<Rightarrow> Some s | Some v \<Rightarrow> vw_uiKeyEvent v k s) }"

definition onCharacterEvent :: "('s \<Rightarrow> 's view option) \<Rightarrow> nat \<Rightarrow> 's \<Rightarrow> 's option" where
  "onCharacterEvent active ch s = (case active s of None \<Rightarrow> Some s | Some v \<Rightarrow> vw_uiCharacterEvent v ch s)"

definition onTermEvent :: "'s keyListeners \<Rightarrow> ('s \<Rightarrow> 's view option) \<Rightarrow> termEvent \<Rightarrow> 's \<Rightarrow> 's option" where
  "onTermEvent ls active e s =
    (case decodeEvent e of BoxChar ch \<Rightarrow> onCharacterEvent active ch s | BoxKey k \<Rightarrow> onKeyEvent ls active k s)"

fun uiRun :: "'s keyListeners \<Rightarrow> ('s \<Rightarrow> 's view option) \<Rightarrow> termEvent list \<Rightarrow> 's \<Rightarrow> 's option" where
  "uiRun ls active [] s = Some s"
| "uiRun ls active (e # es) s = Option.bind (onTermEvent ls active e s) (uiRun ls active es)"

section \<open>The program's terminal\<close>

record terminal =
  te_app :: barnard
  te_box :: textbox
  te_out :: textview

definition onApp :: "(barnard \<Rightarrow> barnard option) \<Rightarrow> terminal \<Rightarrow> terminal option" where
  "onApp f t = map_option (\<lambda>b. t\<lparr>te_app := b\<rparr>) (f (te_app t))"

definition onOut :: "(textview \<Rightarrow> textview) \<Rightarrow> terminal \<Rightarrow> terminal option" where
  "onOut f t = Some (t\<lparr>te_out := f (te_out t)\<rparr>)"

text \<open>\<^verbatim>\<open>OnAdminEscape\<close> also empties the input line when it cancels a prompt.\<close>

definition escapeListener :: "terminal \<Rightarrow> terminal option" where
  "escapeListener t =
    onApp OnAdminEscape (if ba_pendingAdminPrompt (te_app t) \<noteq> None then t\<lparr>te_box := clearText (te_box t)\<rparr> else t)"

definition OnUiInitialize :: "appEnv \<Rightarrow> hotkeys \<Rightarrow> terminal keyListeners" where
  "OnUiInitialize E h =
    foldl (\<lambda>ls (k, listener). AddKeyListener listener k ls) []
      [(hk_SwitchViews h, onApp (Some \<circ> OnFocusPress)), (hk_AdminMenu h, onApp OpenAdminMenu), (hk_Talk h, onApp (setTransmit E 2)),
       (hk_ToggleTimestamps h, onOut ToggleTimestamps), (hk_NoiseSuppressionToggle h, onApp (Some \<circ> OnNoiseSuppressionToggle E)),
       (hk_AGCToggle h, onApp (Some \<circ> OnAGCToggle E)), (hk_RecordToggle h, onApp (ToggleRecording E)),
       (hk_ClearOutput h, onOut ClearView), (hk_Exit h, onApp (shutdown E)), (hk_ScrollUp h, onOut ScrollUp),
       (hk_ScrollDown h, onOut ScrollDown), (hk_ScrollToTop h, onOut ScrollTop), (hk_ScrollToBottom h, onOut ScrollBottom),
       (Some KeyEsc, escapeListener)]"

text \<open>The input line.  Its text is handed to \<^verbatim>\<open>OnTextInput\<close> byte by byte.\<close>

definition bytesText :: "bytes \<Rightarrow> string" where
  "bytesText s = map (\<lambda>x. char_of (unat x)) s"

definition inputView :: "appEnv \<Rightarrow> terminal view" where
  "inputView E = \<lparr>
     vw_uiKeyEvent = \<lambda>k t. do {
       (box, submitted) \<leftarrow> uiKeyEvent k (te_box t);
       t \<leftarrow> (case submitted of None \<Rightarrow> Some t | Some s \<Rightarrow> onApp (OnTextInput E (bytesText s)) t);
       Some (t\<lparr>te_box := box\<rparr>) },
     vw_uiCharacterEvent = \<lambda>ch t. map_option (\<lambda>box. t\<lparr>te_box := box\<rparr>) (uiCharacterEvent ch (te_box t))\<rparr>"

definition activeView :: "appEnv \<Rightarrow> (uiView \<Rightarrow> terminal view) \<Rightarrow> terminal \<Rightarrow> terminal view option" where
  "activeView E others t =
    Some (if ba_active (te_app t) = uiViewInput then inputView E else others (ba_active (te_app t)))"

section \<open>A line that is typed is the line that is sent\<close>

text \<open>What a terminal reports for a rune that is typed: the space bar is a key.\<close>

definition typedRune :: "nat \<Rightarrow> termEvent" where
  "typedRune r = (if r = 32 then \<lparr>ev_Key = 0x20, ev_Ch = 0, ev_Mod = 0\<rparr> else \<lparr>ev_Key = 0, ev_Ch = of_nat r, ev_Mod = 0\<rparr>)"

definition typedEnter :: termEvent where
  "typedEnter = \<lparr>ev_Key = 0x0D, ev_Ch = 0, ev_Mod = 0\<rparr>"

lemma decode_typed:
  assumes "validRune r" and "r \<noteq> 0"
  shows "decodeEvent (typedRune r) = (if r = 32 then BoxKey KeySpace else BoxChar r)"
proof -
  have "unat (of_nat r :: uint32) = r" using assms(1) by (auto simp: validRune_def unat_of_nat)
  moreover from this have "(of_nat r :: uint32) \<noteq> 0" using assms(2) by (metis unat_0)
  ultimately show ?thesis by (simp add: decodeEvent_def typedRune_def Let_def)
qed

lemma no_listener: "k \<notin> fst ` set ls \<Longrightarrow> runListeners k ls s = Some s"
  by (induction ls) auto

lemma onKeyEvent_input:
  assumes "k \<notin> fst ` set ls" and "ba_active (te_app t) = uiViewInput"
  shows "onKeyEvent ls (activeView E others) k t = vw_uiKeyEvent (inputView E) k t"
  using assms by (simp add: onKeyEvent_def no_listener activeView_def)

lemma typed_step:
  assumes "KeySpace \<notin> fst ` set ls" and "ba_active (te_app t) = uiViewInput" and "boxMatches (te_box t) e"
    and "validRune r" and "r \<noteq> 0"
  shows "\<exists>box. onTermEvent ls (activeView E others) (typedRune r) t = Some (t\<lparr>te_box := box\<rparr>) \<and> boxMatches box (edInsert r e)"
proof -
  obtain box where box: "uiCharacterEvent r (te_box t) = Some box" "boxMatches box (edInsert r e)"
    using insert_match [OF assms(3,4)] by blast
  have "onTermEvent ls (activeView E others) (typedRune r) t = Some (t\<lparr>te_box := box\<rparr>)"
  proof (cases "r = 32")
    case True
    then show ?thesis
      using box(1) onKeyEvent_input [OF assms(1,2), of E others] decode_typed [OF assms(4,5)]
      by (simp add: onTermEvent_def inputView_def uiKeyEvent_def)
  next
    case False
    then show ?thesis
      using box(1) assms(2) decode_typed [OF assms(4,5)]
      by (simp add: onTermEvent_def onCharacterEvent_def activeView_def inputView_def)
  qed
  then show ?thesis using box(2) by blast
qed

lemma typed_run:
  assumes "KeySpace \<notin> fst ` set ls"
  shows "ba_active (te_app t) = uiViewInput \<Longrightarrow> boxMatches (te_box t) e \<Longrightarrow> \<forall>r \<in> set rs. validRune r \<and> r \<noteq> 0 \<Longrightarrow>
    \<exists>box. uiRun ls (activeView E others) (map typedRune rs @ es) t = uiRun ls (activeView E others) es (t\<lparr>te_box := box\<rparr>)
      \<and> boxMatches box (e\<lparr>ed_before := ed_before e @ rs\<rparr>)"
proof (induction rs arbitrary: t e)
  case Nil
  then show ?case by (intro exI [of _ "te_box t"]) simp
next
  case (Cons r rs)
  obtain box where 1: "onTermEvent ls (activeView E others) (typedRune r) t = Some (t\<lparr>te_box := box\<rparr>)" "boxMatches box (edInsert r e)"
    using typed_step [OF assms Cons.prems(1,2), of r E others] Cons.prems(3) by auto
  obtain box' where "uiRun ls (activeView E others) (map typedRune rs @ es) (t\<lparr>te_box := box\<rparr>)
      = uiRun ls (activeView E others) es (t\<lparr>te_box := box'\<rparr>)" "boxMatches box' (edInsert r e\<lparr>ed_before := ed_before (edInsert r e) @ rs\<rparr>)"
    using Cons.IH [of "t\<lparr>te_box := box\<rparr>" "edInsert r e"] 1(2) Cons.prems by auto
  then show ?case using 1(1) by (intro exI [of _ box']) (simp add: edInsert_def)
qed

lemma text_not_command:
  assumes "hd rs \<noteq> 47" and "rs \<noteq> []" and "\<forall>r \<in> set rs. validRune r"
  shows "bytesText (enc rs) \<noteq> []" "\<not> hasPrefix ''/'' (bytesText (enc rs))"
proof -
  obtain r rs' where rs: "rs = r # rs'" using assms(2) by (cases rs) auto
  obtain x xs where x: "runeNats r = x # xs" using runeNats_ne(1) [of r] by (meson neq_Nil_conv)
  have "x \<noteq> 47" using x assms(1) rs by (auto simp: runeNats_def split: if_splits)
  have byte: "x < 256" using x runeNats_byte [of x r] by simp
  have "char_of x \<noteq> CHR ''/''"
  proof
    assume "char_of x = CHR ''/''"
    moreover have "of_char (char_of x :: char) = x" using byte by simp
    ultimately have "x = of_char (CHR ''/'')" by simp
    then show False using \<open>x \<noteq> 47\<close> by simp
  qed
  moreover have "bytesText (enc rs) = char_of x # bytesText (map of_nat xs @ enc rs')"
    using byte by (simp add: bytesText_def rs runeBytes_def x unat_of_nat)
  ultimately show "bytesText (enc rs) \<noteq> []" "\<not> hasPrefix ''/'' (bytesText (enc rs))" by (simp_all add: hasPrefix_def)
qed

lemma say_to_channel:
  assumes "ba_pendingAdminPrompt b = None" and "ba_selectedUser b = None" and "ba_Client b = Some c"
    and "selfUser b = Some self" and "u_Channel self = Some ch" and "ch_client (c_channel c ch)"
    and "s \<noteq> []" and "\<not> hasPrefix ''/'' s"
  shows "\<exists>b'. OnTextInput E s b = Some b' \<and> ba_sent b' = ba_sent b @ [SendTextMessage
    \<lparr>m_tm_Actor = None, m_tm_Session = [], m_tm_ChannelId = [ch_ID (c_channel c ch)], m_tm_TreeId = [], m_tm_Message = Some s\<rparr>]"
  using assms
  by (simp add: OnTextInput_def handleAdminPrompt_def sayText_def ChannelSend_def channelRequest_def writeTextMessage_def
      AddOutputMessage_def)

lemma enter_step:
  assumes "KeyEnter \<notin> fst ` set ls" and "ba_active (te_app t) = uiViewInput" and "boxMatches (te_box t) e"
    and "OnTextInput E (bytesText (enc (edText e))) (te_app t) = Some b'"
  shows "\<exists>box. onTermEvent ls (activeView E others) typedEnter t = Some (t\<lparr>te_app := b', te_box := box\<rparr>)
    \<and> boxMatches box (edEnd (edRemember (edText e) e))"
proof -
  have d: "decodeEvent typedEnter = BoxKey KeyEnter" by (simp add: decodeEvent_def typedEnter_def)
  have s: "tb_Text (te_box t) = enc (edText e)" using assms(3) by (simp add: boxMatches_def)
  let ?box = "uiDraw (resetHistoryNavigation ((addHistory (tb_Text (te_box t)) (te_box t))\<lparr>tb_Text := [], tb_pos := 0\<rparr>))"
  have "onTermEvent ls (activeView E others) typedEnter t = Some (t\<lparr>te_app := b', te_box := ?box\<rparr>)"
    using assms(4) onKeyEvent_input [OF assms(1,2), of E others] d
    by (simp add: onTermEvent_def inputView_def uiKeyEvent_def s onApp_def)
  then show ?thesis using enter_match [OF assms(3)] by blast
qed

text \<open>C9. Typing in the input line, whatever the runes, and pressing Enter sends one message to the channel of
  the user, whose text is what was typed, empties the line, and remembers it unless it is blank; it goes through the
  decoding of terminal events, the listeners, the editing of UTF-8 and the message of the protocol.  No hotkey may be on the
  space bar or Enter, the line is no command, no prompt is open and no user selected.\<close>

theorem typed_line_sent:
  assumes "KeySpace \<notin> fst ` set (OnUiInitialize E h)" and "KeyEnter \<notin> fst ` set (OnUiInitialize E h)"
    and "ba_active (te_app t) = uiViewInput" and "boxMatches (te_box t) e" and "edText e = []"
    and "ba_pendingAdminPrompt (te_app t) = None" and "ba_selectedUser (te_app t) = None" and "ba_Client (te_app t) = Some c"
    and "selfUser (te_app t) = Some self" and "u_Channel self = Some ch" and "ch_client (c_channel c ch)"
    and "rs \<noteq> []" and "hd rs \<noteq> 47" and "\<forall>r \<in> set rs. validRune r \<and> r \<noteq> 0"
  shows "\<exists>t'. uiRun (OnUiInitialize E h) (activeView E others) (map typedRune rs @ [typedEnter]) t = Some t'
    \<and> ba_sent (te_app t') = ba_sent (te_app t) @ [SendTextMessage \<lparr>m_tm_Actor = None, m_tm_Session = [],
        m_tm_ChannelId = [ch_ID (c_channel c ch)], m_tm_TreeId = [], m_tm_Message = Some (bytesText (enc rs))\<rparr>]
    \<and> boxMatches (te_box t') (edEnd (edRemember rs e))"
proof -
  let ?ls = "OnUiInitialize E h" and ?e = "e\<lparr>ed_before := ed_before e @ rs\<rparr>"
  have e: "ed_before e = []" "ed_behind e = []" "edText ?e = rs" using assms(5) by (simp_all add: edText_def)
  obtain box where 1: "uiRun ?ls (activeView E others) (map typedRune rs @ [typedEnter]) t
      = uiRun ?ls (activeView E others) [typedEnter] (t\<lparr>te_box := box\<rparr>)" "boxMatches box ?e"
    using typed_run [OF assms(1,3,4,14)] by blast
  have valid: "\<forall>r \<in> set rs. validRune r" using assms(14) by blast
  obtain b' where 2: "OnTextInput E (bytesText (enc rs)) (te_app t) = Some b'" "ba_sent b' = ba_sent (te_app t) @ [SendTextMessage
      \<lparr>m_tm_Actor = None, m_tm_Session = [], m_tm_ChannelId = [ch_ID (c_channel c ch)], m_tm_TreeId = [], m_tm_Message = Some (bytesText (enc rs))\<rparr>]"
    using say_to_channel [OF assms(6-11) text_not_command [OF assms(13,12) valid]] by blast
  obtain box' where 3: "onTermEvent ?ls (activeView E others) typedEnter (t\<lparr>te_box := box\<rparr>) = Some (t\<lparr>te_app := b', te_box := box'\<rparr>)"
      "boxMatches box' (edEnd (edRemember (edText ?e) ?e))"
    using enter_step [OF assms(2), of "t\<lparr>te_box := box\<rparr>" ?e E b'] assms(3) 1(2) 2(1) e(3) by auto
  have "edEnd (edRemember (edText ?e) ?e) = edEnd (edRemember rs e)"
    unfolding e(3) by (simp add: edRemember_def edEnd_def)
  then show ?thesis using 1(1) 2(2) 3 by (intro exI [of _ "t\<lparr>te_app := b', te_box := box'\<rparr>"]) simp
qed

theorem typed_line_sent_witness:
  "\<exists>t'. uiRun (OnUiInitialize recEnv defaultHotkeys) (activeView recEnv (\<lambda>_. inputView recEnv)) [typedRune 0xFC, typedRune 32, typedRune 47, typedEnter]
      \<lparr>te_app = chatApp, te_box = newTextbox, te_out = newTextview\<rparr> = Some t'
    \<and> ba_sent (te_app t') = [SendTextMessage \<lparr>m_tm_Actor = None, m_tm_Session = [], m_tm_ChannelId = [1], m_tm_TreeId = [],
        m_tm_Message = Some (bytesText [0xC3, 0xBC, 0x20, 0x2F])\<rparr>]"
proof -
  have k: "KeySpace \<notin> fst ` set (OnUiInitialize recEnv defaultHotkeys)" "KeyEnter \<notin> fst ` set (OnUiInitialize recEnv defaultHotkeys)"
    by (simp_all add: OnUiInitialize_def AddKeyListener_def defaultHotkeys_def)
  have a: "ba_active chatApp = uiViewInput" "ba_pendingAdminPrompt chatApp = None" "ba_selectedUser chatApp = None" "ba_sent chatApp = []"
    "ch_client (c_channel chatClient 1)" "ch_ID (c_channel chatClient 1) = 1"
    by (simp_all add: chatApp_def newBarnard_def chatClient_def newChannel_def)
  let ?t = "\<lparr>te_app = chatApp, te_box = newTextbox, te_out = newTextview\<rparr>" and ?rs = "[0xFC, 32, 47] :: nat list"
  have r: "enc ?rs = [0xC3, 0xBC, 0x20, 0x2F]" by (simp add: runeBytes_def runeNats_def)
  have m: "boxMatches (te_box ?t) emptyEditor" using new_match by simp
  have e: "edText emptyEditor = []" by (simp add: edText_def emptyEditor_def)
  have v: "?rs \<noteq> []" "hd ?rs \<noteq> 47" "\<forall>r \<in> set ?rs. validRune r \<and> r \<noteq> 0" by (simp_all add: validRune_def)
  have t: "ba_active (te_app ?t) = uiViewInput" "ba_pendingAdminPrompt (te_app ?t) = None" "ba_selectedUser (te_app ?t) = None"
    "ba_Client (te_app ?t) = Some chatClient" "selfUser (te_app ?t) = Some (c_user chatClient 0)"
    using a(1-3) chat_self(1,2) by simp_all
  obtain t' where "uiRun (OnUiInitialize recEnv defaultHotkeys) (activeView recEnv (\<lambda>_. inputView recEnv)) (map typedRune ?rs @ [typedEnter]) ?t = Some t'"
    "ba_sent (te_app t') = ba_sent (te_app ?t) @ [SendTextMessage \<lparr>m_tm_Actor = None, m_tm_Session = [],
        m_tm_ChannelId = [ch_ID (c_channel chatClient 1)], m_tm_TreeId = [], m_tm_Message = Some (bytesText (enc ?rs))\<rparr>]"
    using typed_line_sent [OF k t(1) m e t(2-5) chat_self(3) a(5) v, of "\<lambda>_. inputView recEnv"] by blast
  then show ?thesis unfolding r a(6) by (intro exI [of _ t']) (simp add: a(4) del: uiRun.simps)
qed

section \<open>The layout\<close>

datatype screenView = VOutput | VTree | VAdmin | VStatus | VInputStatus | VInput

text \<open>The corners \<^verbatim>\<open>x0, y0, x1, y1\<close> each view is given, by the active view, the width and the height of
  the screen and the length of the input status.\<close>

fun OnUiResize :: "uiView \<Rightarrow> int \<Rightarrow> int \<Rightarrow> int \<Rightarrow> screenView \<Rightarrow> int \<times> int \<times> int \<times> int" where
  "OnUiResize act w h status VOutput = (0, 1, w, (if act = uiViewInput then h - 4 else 0) + 1)"
| "OnUiResize act w h status VTree = (0, 1, w, (if act = uiViewTree then h - 4 else 0) + 1)"
| "OnUiResize act w h status VAdmin = (0, 1, w, if act = uiViewAdmin then h - 3 else 1)"
| "OnUiResize act w h status VStatus = (0, h - 2, w, h - 1)"
| "OnUiResize act w h status VInputStatus = (0, h - 1, status, h)"
| "OnUiResize act w h status VInput = (status + 1, h - 1, w, h)"

definition inArea :: "int \<times> int \<Rightarrow> int \<times> int \<times> int \<times> int \<Rightarrow> bool" where
  "inArea p r = (case (p, r) of ((x, y), x0, y0, x1, y1) \<Rightarrow> x0 \<le> x \<and> x < x1 \<and> y0 \<le> y \<and> y < y1)"

definition mainView :: "uiView \<Rightarrow> screenView" where
  "mainView act = (case act of uiViewInput \<Rightarrow> VOutput | uiViewTree \<Rightarrow> VTree | uiViewAdmin \<Rightarrow> VAdmin)"

text \<open>No cell is drawn by two views, whatever the size of the terminal; and in one of four rows or more,
  every cell from the second row to the fourth last belongs to the main view of what is active, while no view draws the
  first row and the third last, the former of which the logo has no bounds for.\<close>

theorem layout_partitions:
  "(inArea p (OnUiResize act w h status v) \<and> inArea p (OnUiResize act w h status v') \<longrightarrow> v = v')
    \<and> (0 \<le> fst p \<and> fst p < w \<and> 4 \<le> h \<longrightarrow>
        (1 \<le> snd p \<and> snd p < h - 3 \<longrightarrow> inArea p (OnUiResize act w h status (mainView act)))
      \<and> (snd p = 0 \<or> snd p = h - 3 \<longrightarrow> \<not> inArea p (OnUiResize act w h status v)))"
proof (intro conjI impI)
  assume "inArea p (OnUiResize act w h status v) \<and> inArea p (OnUiResize act w h status v')"
  then show "v = v'" by (cases v; cases v'; cases act; cases p) (auto simp: inArea_def)
next
  assume "0 \<le> fst p \<and> fst p < w \<and> 4 \<le> h" and "1 \<le> snd p \<and> snd p < h - 3"
  then show "inArea p (OnUiResize act w h status (mainView act))"
    by (cases act; cases p) (auto simp: inArea_def mainView_def)
next
  assume "0 \<le> fst p \<and> fst p < w \<and> 4 \<le> h" and "snd p = 0 \<or> snd p = h - 3"
  then show "\<not> inArea p (OnUiResize act w h status v)" by (cases v; cases act; cases p) (auto simp: inArea_def)
qed

theorem layout_partitions_witness:
  "inArea (3, 20) (OnUiResize uiViewTree 80 24 6 VTree) \<and> \<not> inArea (3, 21) (OnUiResize uiViewTree 80 24 6 VOutput)"
  using layout_partitions [of "(3, 20)" uiViewTree 80 24 6 VTree VTree] layout_partitions [of "(3, 21)" uiViewTree 80 24 6 VOutput VOutput]
  by (simp add: mainView_def)

end
