(* ===== verification/Spec2Isabelle.thy ===== *)
theory Spec2Isabelle
  imports Prelude Codec Varint UdpAudio Aes Gf128 Ocb15 CryptState15 Ocb Listeners AudioStreams
    ClientState Messages ChannelHandlers ChannelTree UserHandlers UserRoster Config InfoHandlers
    AudioDispatch Conn AudioSend ClientInv Session InfoFacts AudioFacts RpwMutex GoStrings Pcm Jitter
    Playback Recorder Requests NetIP App AdminText Admin AdminMenu AdminFacts AdminEdits AdminTargets
    HostPort UserConfig RecordingControl Voice Notices RecordingLoop Input Textview Utf8 Textbox TreeView
    VoiceFacts NoticeFacts FilePlayer RecorderFile Startup StreamLife Bitrate UiLoop
begin

text \<open>
  A verification development for Barnard, a terminal client for Mumble voice servers, and for its protocol
  library \<^verbatim>\<open>gumble\<close>.

  \<^bold>\<open>The program.\<close>  \<^verbatim>\<open>gumble/gumble\<close> speaks the protocol: \<^verbatim>\<open>conn.go\<close> frames messages on a TLS connection,
  \<^verbatim>\<open>handlers.go\<close> applies each of them to a \<^verbatim>\<open>Client\<close> (users, channels, permissions, ciphers) and tells the listeners
  of \<^verbatim>\<open>listeners.go\<close>; sound travels in UDP datagrams (\<^verbatim>\<open>udp.go\<close>, \<^verbatim>\<open>udp15.go\<close>, \<^verbatim>\<open>crypt.go\<close>) or tunnelled in
  the control connection, is decoded in \<^verbatim>\<open>audio.go\<close> and goes to one listener per user.  \<^verbatim>\<open>gumble/gumbleopenal/stream.go\<close>
  is that listener: a jitter buffer per user, volumes, the loudspeaker, and the microphone loop in the other direction,
  with the file player \<^verbatim>\<open>fileplayback/player.go\<close> and the recorder \<^verbatim>\<open>recording/recorder.go\<close> attached to it.  The
  application (\<^verbatim>\<open>main.go\<close>, \<^verbatim>\<open>client.go\<close>, \<^verbatim>\<open>ui.go\<close>, \<^verbatim>\<open>admin.go\<close>, \<^verbatim>\<open>barnard.go\<close>, \<^verbatim>\<open>ui_tree.go\<close>,
  \<^verbatim>\<open>recording_control.go\<close>) listens to the client, keeps the settings of \<^verbatim>\<open>config/user_config.go\<close> and draws with the
  widgets of \<^verbatim>\<open>uiterm\<close>.

  \<^bold>\<open>How code becomes definitions.\<close>  A definition has the name of its function.  Structs are records, pointers to
  users and channels are references into a map from references to records (\<open>user_ref\<close>, \<open>chan_ref\<close>), so that aliasing
  and objects that outlive their registration are visible.  A Go map is an association list, in the order in which
  iterating it is modelled; where the order matters to a result the theorem says so.  Fixed width integers are words, \<^verbatim>\<open>int\<close> is
  \<open>int\<close> where nothing can wrap and a 64 bit word otherwise, and floats are bit patterns whose arithmetic is a
  parameter.  A panic or an endless loop is \<open>None\<close>, an error that is returned a value of a sum.  Concurrent code
  (locks, the recorder, the file player, audio delivery) is a step function or relation over every interleaving.

  \<^bold>\<open>Protocol.\<close>  \<open>Prelude\<close>: shared lemmas and collections.  \<open>Codec\<close>: the interface of a self-delimiting integer
  code, interpreted in \<open>Varint\<close> (\<^verbatim>\<open>gumble/varint\<close>: round trip, bounds) and \<open>UdpAudio\<close> (the protobuf of UDP audio:
  round trip of a packet, no panic on any bytes).
  \<open>Aes\<close> (the block cipher interface with AES executable), \<open>Gf128\<close>, \<open>Ocb15\<close>, \<open>Ocb\<close>, \<open>CryptState15\<close>: both OCB modes with
  their packet states; decrypting gives back what was encrypted, late and replayed packets, errors leave the state.
  \<open>Listeners\<close> (intrusive list refined to a list of listeners through the interface \<open>listener_list\<close>), \<open>AudioStreams\<close>
  (channels of audio listeners: order, loss, closing).
  \<open>ClientState\<close>, \<open>Messages\<close>, \<open>ChannelHandlers\<close>, \<open>UserHandlers\<close>, \<open>InfoHandlers\<close>, \<open>AudioDispatch\<close>: the state of a client and every
  message handler; \<open>ChannelTree\<close>, \<open>UserRoster\<close>, \<open>ClientInv\<close>, \<open>InfoFacts\<close>, \<open>AudioFacts\<close>: their invariants and results.
  \<open>Conn\<close> (framing), \<open>Session\<close> (the read loop over all handlers: when a session ends and why, and that the framed stream
  refines the sequence of messages), \<open>AudioSend\<close> (each frame sent exactly once), \<open>Config\<close>, \<open>Requests\<close> (what the client asks of the
  server, against its own handlers), \<open>RpwMutex\<close> (mutual exclusion and absence of deadlock over all schedules).

  \<^bold>\<open>Sound.\<close>  \<open>Pcm\<close>, \<open>Jitter\<close> (insertion, release, concealment and resynchronisation, with its invariant), \<open>Playback\<close> (samples in
  both directions), \<open>StreamLife\<close> (devices and buffers), \<open>FilePlayer\<close> (with \<open>frame_source\<close>, the interface the
  microphone loop relies on, interpreted on the player), \<open>Recorder\<close> and \<open>RecorderFile\<close> (mixing, and the file and its encoder),
  \<open>Bitrate\<close>.

  \<^bold>\<open>Application.\<close>  \<open>GoStrings\<close>, \<open>NetIP\<close>, \<open>HostPort\<close>, \<open>Utf8\<close>: what is used of the standard library.  \<open>UserConfig\<close>: settings and their file.
  \<open>Startup\<close>: command line, connection, notifications, FIFO.
  \<open>App\<close> (the record \<open>barnard\<close> and the environment \<open>appEnv\<close>), \<open>AdminText\<close>, \<open>Admin\<close>, \<open>AdminMenu\<close> with \<open>AdminFacts\<close>, \<open>AdminEdits\<close>, \<open>AdminTargets\<close>:
  commands, menu and prompts of an administrator.
  \<open>RecordingControl\<close> and \<open>RecordingLoop\<close> (recording as a loop through the server, refined to a small machine), \<open>Voice\<close> and
  \<open>VoiceFacts\<close> (who captures sound and when), \<open>Notices\<close> and \<open>NoticeFacts\<close> (every event of the client), \<open>Input\<close> (keys and commands).
  \<open>Textview\<close>, \<open>Textbox\<close>, \<open>TreeView\<close> (the widgets against references), \<open>UiLoop\<close> (from a key event to the message that is sent, layout).

  \<^bold>\<open>What the properties show.\<close>  Invariants: the channel graph and the roster are consistent after every message, the tree
  stays acyclic up to the 1025 ancestors that the code's own check walks, sound is captured exactly while the program shows that it
  transmits, devices are given back.  Refinements: packets of a session, recording, the line editor on runes, the
  listener lists.  Equivalence: incremental wrapping against wrapping everything.  Round trips: varints, packets, frames,
  ciphers, settings.  Termination and progress: sessions, the lock, text messages, the tree.  Errors: where the code loses
  sound, shows what is not so or panics, a theorem of the component runs into it.

  \<^bold>\<open>Bounds.\<close>  They are those of the code: 64 levels and 100000 lines of a tree, 10000 lines of scrollback,
  100 frames of a file, 512 frames and five seconds of a recording, 32 notifications, 10 MB messages, 1024 buffers.
  No definition is cut off by fuel: loops that need not end are partial functions in the option type
  (\<open>inTree\<close>, which ends in an acyclic tree), and loops that retry until the environment lets them pass take the list
  of its answers (\<open>reserveOutput\<close>, \<open>reconnectLoop\<close>).

  \<^bold>\<open>Parameters.\<close>  Code outside the repository is an argument: protobuf and TOML marshalling, Opus, float
  arithmetic and printing, the HTML sanitiser, shell quoting, what OpenAL, ffmpeg, the sockets, TLS and the
  file system answer.  Noise suppression and gain control are float arithmetic and arguments of the microphone loop.

  \<^bold>\<open>Not modelled.\<close>  The OpenAL and Opus bindings (one foreign call each), generated code, drawing of cells,
  the queue of work posted to the terminal thread (posted work is done at once; theory \<open>Textbox\<close>
  has the case of a redraw that comes too late), timers and scheduling as time, logging, the tone generator's samples, the
  sockets under \<^verbatim>\<open>udp.go\<close> and \<^verbatim>\<open>ping.go\<close>, and the parts of \<^verbatim>\<open>gumbleutil\<close> and \<^verbatim>\<open>gumbleffmpeg\<close> the program does not use.
  Strings are sequences of bytes in the widgets and of characters that stand for them elsewhere; case folding,
  trimming and the width of the input status are those of ASCII.
\<close>

end
